(* ===== verification/Prelude.thy ===== *)
theory Prelude
  imports Main "HOL-Library.Word"
begin

unbundle bit_operations_syntax

text \<open>
  Shared vocabulary of the development: the machine types of the sources, the result type
  that carries every way a function of the sources can leave early (a thrown exception, a
  failed assertion, undefined behaviour), the little-endian byte view of words, and the list
  lemmas several components use.

  \<open>viu::_assert\<close> (src/assert_impl.cpp) prints the location and, when the build defines
  \<open>VIU_ASSERT_ABORT\<close> (the Debug configuration of src/CMakeLists.txt), aborts. The model is
  that build: a failed assertion is the value \<open>Inl Assertion_Failed\<close> and nothing runs after
  it. A theorem that a function returns \<open>Inr\<close> therefore also says that no assertion on its
  path fails, and on such runs the two configurations behave alike.
\<close>

section \<open>Machine types\<close>

type_synonym u8 = "8 word"
type_synonym u16 = "16 word"
type_synonym u32 = "32 word"
type_synonym u64 = "64 word"
type_synonym bytes = "u8 list"

text \<open>The two collections the component theories extend.\<close>

named_theorems res_simps "evaluation of results that did not fail"
named_theorems wire_simps "byte counts and byte views of wire structures"

section \<open>Results\<close>

datatype exn =
    Assertion_Failed
  | Undefined_Behaviour
  | Runtime_Error string
  | Bad_Lexical_Cast
  | Invalid_Argument
  | Out_Of_Range
  | Length_Error
  | Queue_Closed

type_synonym 'a res = "exn + 'a"

primrec bindR :: "'a res \<Rightarrow> ('a \<Rightarrow> 'b res) \<Rightarrow> 'b res" where
  "bindR (Inl e) f = Inl e"
| "bindR (Inr x) f = f x"

definition viu_assert :: "bool \<Rightarrow> unit res" where
  "viu_assert b = (if b then Inr () else Inl Assertion_Failed)"

primrec mapR :: "('a \<Rightarrow> 'b res) \<Rightarrow> 'a list \<Rightarrow> 'b list res" where
  "mapR f [] = Inr []"
| "mapR f (x # xs) = bindR (f x) (\<lambda>y. bindR (mapR f xs) (\<lambda>ys. Inr (y # ys)))"

fun foldR :: "('a \<Rightarrow> 's \<Rightarrow> 's res) \<Rightarrow> 'a list \<Rightarrow> 's \<Rightarrow> 's res" where
  "foldR f [] s = Inr s"
| "foldR f (x # xs) s = bindR (f x s) (foldR f xs)"

lemma viu_assert_True [simp, res_simps]: "viu_assert True = Inr ()"
  by (simp add: viu_assert_def)

lemma viu_assert_False [simp, res_simps]: "viu_assert False = Inl Assertion_Failed"
  by (simp add: viu_assert_def)

lemma viu_assert_Inr [simp]: "viu_assert b = Inr u \<longleftrightarrow> b"
  by (simp add: viu_assert_def)

lemma bindR_Inr_iff: "bindR m f = Inr y \<longleftrightarrow> (\<exists>x. m = Inr x \<and> f x = Inr y)"
  by (cases m) auto

lemma bindR_Inl_iff: "bindR m f = Inl e \<longleftrightarrow> m = Inl e \<or> (\<exists>x. m = Inr x \<and> f x = Inl e)"
  by (cases m) auto

lemma bindR_assoc: "bindR (bindR m f) g = bindR m (\<lambda>x. bindR (f x) g)"
  by (cases m) simp_all

lemma bindR_assert_Inr [simp]: "bindR (viu_assert b) f = Inr y \<longleftrightarrow> b \<and> f () = Inr y"
  by (cases b) simp_all

lemma bindR_assert_True [res_simps]: "b \<Longrightarrow> bindR (viu_assert b) f = f ()"
  by simp

lemma mapR_Inr: "(\<And>x. x \<in> set xs \<Longrightarrow> f x = Inr (g x)) \<Longrightarrow> mapR f xs = Inr (map g xs)"
  by (induction xs) simp_all

lemma mapR_length: "mapR f xs = Inr ys \<Longrightarrow> length ys = length xs"
  by (induction xs arbitrary: ys) (auto simp: bindR_Inr_iff)

text \<open>A loop that appends the encoding of each element, against the map over the elements.\<close>

lemma foldR_append:
  "mapR f xs = Inr ys \<Longrightarrow>
   (\<And>x y out. x \<in> set xs \<Longrightarrow> f x = Inr y \<Longrightarrow> g x out = Inr (out @ h y)) \<Longrightarrow>
   foldR g xs out = Inr (out @ concat (map h ys))"
  by (induction xs arbitrary: ys out) (auto simp: bindR_Inr_iff)

lemma mapR_in_range: "mapR f xs = Inr ys \<Longrightarrow> y \<in> set ys \<Longrightarrow> \<exists>x\<in>set xs. f x = Inr y"
  by (induction xs arbitrary: ys) (auto simp: bindR_Inr_iff)

lemma mapR_all:
  assumes "mapR f xs = Inr ys" and "\<And>x y. x \<in> set xs \<Longrightarrow> f x = Inr y \<Longrightarrow> P y"
  shows "list_all P ys"
  unfolding list_all_iff using mapR_in_range [OF assms(1)] assms(2) by blast

section \<open>Little-endian bytes\<close>

text \<open>
  \<open>le_bytes n w\<close> are the \<open>n\<close> least significant bytes of \<open>w\<close>, least significant first, and
  \<open>from_le\<close> reads such a list back as a number.
\<close>

primrec le_bytes :: "nat \<Rightarrow> 'a::len word \<Rightarrow> bytes" where
  "le_bytes 0 w = []"
| "le_bytes (Suc n) w = ucast w # le_bytes n (drop_bit 8 w)"

primrec from_le :: "bytes \<Rightarrow> nat" where
  "from_le [] = 0"
| "from_le (b # bs) = unat b + 256 * from_le bs"

lemma length_le_bytes [simp, wire_simps]: "length (le_bytes n w) = n"
  by (induction n arbitrary: w) simp_all

lemma from_le_less: "from_le bs < 256 ^ length bs"
proof (induction bs)
  case Nil
  then show ?case by simp
next
  case (Cons b bs)
  have "unat b < 256" using unsigned_less [of b, where 'a=nat] by simp
  with Cons show ?case by simp
qed

lemma unat_ucast_byte: "8 \<le> LENGTH('a) \<Longrightarrow> unat (ucast (w :: 'a::len word) :: u8) = unat w mod 256"
  by (simp add: unsigned_ucast_eq take_bit_eq_mod)

lemma unat_ucast_byte_mod: "unat (ucast (w :: 'a::len word) :: u8) = unat w mod 256"
  by (simp add: unsigned_ucast_eq take_bit_eq_mod)

lemma unat_drop_bit: "unat (drop_bit n (w :: 'a::len word)) = unat w div 2 ^ n"
proof -
  have "unat (drop_bit n w) = drop_bit n (take_bit LENGTH('a) (unat w))"
    by (simp add: unsigned_drop_bit_eq)
  also have "take_bit LENGTH('a) (unat w) = unat w" by (simp add: take_bit_nat_eq_self)
  finally show ?thesis by (simp add: drop_bit_eq_div)
qed

lemma from_le_le_bytes: "from_le (le_bytes n w) = unat w mod 256 ^ n"
proof (induction n arbitrary: w)
  case 0
  then show ?case by simp
next
  case (Suc n)
  have "from_le (le_bytes (Suc n) w) = unat w mod 256 + 256 * (unat w div 256 mod 256 ^ n)"
    by (simp only: le_bytes.simps from_le.simps Suc unat_ucast_byte_mod unat_drop_bit) simp
  also have "\<dots> = unat w mod 256 ^ Suc n"
    using mod_mult2_eq [of "unat w" 256 "256 ^ n"] by simp
  finally show ?case .
qed

lemma from_le_of_nat: "(of_nat (from_le (le_bytes 4 (v :: u32))) :: u32) = v"
proof -
  have "unat v < 256 ^ 4" using unsigned_less [of v, where 'a=nat] by simp
  then have "from_le (le_bytes 4 v) = unat v" by (simp add: from_le_le_bytes)
  then show ?thesis by simp
qed

lemma le_bytes_nth: "i < n \<Longrightarrow> le_bytes n w ! i = ucast (drop_bit (8 * i) w)"
proof (induction n arbitrary: w i)
  case 0
  then show ?case by simp
next
  case (Suc n)
  then show ?case by (cases i) (simp_all add: add.commute)
qed

lemma from_le_inject: "length as = length bs \<Longrightarrow> from_le as = from_le bs \<Longrightarrow> as = bs"
proof (induction as arbitrary: bs)
  case Nil
  then show ?case by simp
next
  case (Cons a as)
  then obtain b bs' where bs: "bs = b # bs'" and len: "length as = length bs'"
    by (cases bs) auto
  have ab: "unat a < 256" "unat b < 256" using unsigned_less [of a, where 'a=nat] unsigned_less [of b, where 'a=nat] by simp_all
  from Cons.prems(2) bs have eq: "unat a + 256 * from_le as = unat b + 256 * from_le bs'" by simp
  then have "(unat a + 256 * from_le as) mod 256 = (unat b + 256 * from_le bs') mod 256" by simp
  then have "unat a = unat b" using ab by simp
  then have "a = b" by (rule word_unat_eq_iff [THEN iffD2])
  with eq have "from_le as = from_le bs'" by simp
  with \<open>a = b\<close> Cons.IH len bs show ?case by simp
qed

lemma le_bytes_zero [simp]: "le_bytes n 0 = replicate n 0"
  by (induction n) simp_all

lemma from_le_zeros [simp]: "from_le (replicate n 0) = 0"
  by (induction n) simp_all

text \<open>A 32-bit word below \<open>2 ^ 31\<close> reads the same signed and unsigned.\<close>

lemma sint_small:
  assumes "unat (w :: u32) < 2 ^ 31"
  shows "sint w = int (unat w)"
proof -
  have "int (unat w) < int (2 ^ 31)" using assms by (simp only: of_nat_less_iff)
  moreover have "- (2 ^ 31) \<le> int (unat w)" by (rule order_trans [of _ 0]) simp_all
  ultimately have "signed_take_bit 31 (int (unat w)) = int (unat w)"
    by (intro signed_take_bit_int_eq_self) simp_all
  then show ?thesis by (simp add: sint_uint)
qed

lemma unat_u32_of_nat: "n < 2 ^ 32 \<Longrightarrow> unat (of_nat n :: u32) = n"
  by (simp add: unsigned_of_nat take_bit_nat_eq_self)

section \<open>Lists\<close>

lemma take_append_exact [simp]: "length xs = n \<Longrightarrow> take n (xs @ ys) = xs"
  by simp

lemma drop_append_exact [simp]: "length xs = n \<Longrightarrow> drop n (xs @ ys) = ys"
  by simp

lemma sum_list_map_const: "(\<And>x. x \<in> set xs \<Longrightarrow> f x = c) \<Longrightarrow> sum_list (map f xs) = length xs * (c::nat)"
  by (induction xs) auto

end
