(* ===== verification/Format_Model.thy ===== *)
theory Format_Model
  imports Prelude
begin

text \<open>
  \<open>viu::format\<close> (src/format.cppm): decimal printing and \<open>make_string\<close>, \<open>is_hex\<close>, reading
  a C array into a vector (\<open>vectorize\<close>), big- and little-endian conversion, and
  \<open>integral<T>::at<position>\<close>, which cuts bytes out of an integer. The target is a
  little-endian machine, where \<open>to_big\<close> is \<open>std::byteswap\<close> (as src/format_test.cpp checks)
  and \<open>to_little\<close> the identity.
\<close>

section \<open>Decimal text\<close>

definition digit_char :: "nat \<Rightarrow> char" where
  "digit_char d = char_of (48 + d)"

text \<open>\<open>std::to_string\<close> and \<open>operator<<\<close> on an unsigned integer.\<close>

fun show_nat :: "nat \<Rightarrow> string" where
  "show_nat n = (if n < 10 then [digit_char n] else show_nat (n div 10) @ [digit_char (n mod 10)])"

declare show_nat.simps [simp del]

definition show_int :: "int \<Rightarrow> string" where
  "show_int i = (if i < 0 then CHR ''-'' # show_nat (nat (- i)) else show_nat (nat i))"

definition is_digit :: "char \<Rightarrow> bool" where
  "is_digit c \<longleftrightarrow> 48 \<le> (of_char c :: nat) \<and> (of_char c :: nat) \<le> 57"

definition is_space :: "char \<Rightarrow> bool" where
  "is_space c \<longleftrightarrow> (of_char c :: nat) = 32 \<or> (9 \<le> (of_char c :: nat) \<and> (of_char c :: nat) \<le> 13)"

fun read_nat :: "nat \<Rightarrow> string \<Rightarrow> nat \<times> string" where
  "read_nat acc [] = (acc, [])"
| "read_nat acc (c # cs) =
     (if is_digit c then read_nat (10 * acc + (of_char c - 48)) cs else (acc, c # cs))"

lemma of_char_digit: "d < 10 \<Longrightarrow> (of_char (digit_char d) :: nat) = 48 + d"
  by (simp add: digit_char_def)

lemma is_digit_digit [simp]: "d < 10 \<Longrightarrow> is_digit (digit_char d)"
  by (simp add: is_digit_def of_char_digit)

lemma digit_not_space: "is_digit c \<Longrightarrow> \<not> is_space c"
  by (auto simp: is_digit_def is_space_def)

lemma show_nat_digits: "\<forall>c\<in>set (show_nat n). is_digit c"
proof (induction n rule: show_nat.induct)
  case (1 n)
  then show ?case by (cases "n < 10") (simp_all add: show_nat.simps [of n])
qed

lemma show_nat_nonempty [simp]: "show_nat n \<noteq> []"
  by (subst show_nat.simps) simp

lemma show_nat_no_space: "\<forall>c\<in>set (show_nat n). \<not> is_space c"
  using show_nat_digits digit_not_space by blast

lemma read_nat_append:
  "\<forall>c\<in>set ds. is_digit c \<Longrightarrow> read_nat acc (ds @ cs) = read_nat (fst (read_nat acc ds)) cs"
  by (induction ds arbitrary: acc) auto

lemma read_nat_digits_rest: "\<forall>c\<in>set ds. is_digit c \<Longrightarrow> snd (read_nat acc ds) = []"
  by (induction ds arbitrary: acc) auto

lemma read_show_nat_acc: "\<exists>k. 10 ^ k > n \<and> fst (read_nat acc (show_nat n)) = acc * 10 ^ k + n"
proof (induction n arbitrary: acc rule: show_nat.induct)
  case (1 n)
  show ?case
  proof (cases "n < 10")
    case True
    then show ?thesis
      by (intro exI [of _ 1]) (simp add: show_nat.simps [of n] of_char_digit)
  next
    case False
    with 1 obtain k where k: "10 ^ k > n div 10"
      and r: "fst (read_nat acc (show_nat (n div 10))) = acc * 10 ^ k + n div 10" by blast
    have "fst (read_nat acc (show_nat n)) = 10 * (acc * 10 ^ k + n div 10) + n mod 10"
      using False r
      by (simp add: show_nat.simps [of n] read_nat_append [OF show_nat_digits] of_char_digit)
    also have "\<dots> = acc * 10 ^ Suc k + n"
      using div_mult_mod_eq [of n 10] by (simp add: algebra_simps)
    moreover have "10 ^ Suc k > n" using k by (simp add: div_less_iff_less_mult mult.commute)
    ultimately show ?thesis by metis
  qed
qed

lemma read_show_nat: "read_nat 0 (show_nat n) = (n, [])"
  using read_show_nat_acc [of n 0] read_nat_digits_rest [OF show_nat_digits, of 0 n]
  by (simp add: prod_eq_iff)

lemma read_show_nat_rest:
  "cs = [] \<or> \<not> is_digit (hd cs) \<Longrightarrow> read_nat 0 (show_nat n @ cs) = (n, cs)"
  by (cases cs) (simp_all add: read_nat_append [OF show_nat_digits] read_show_nat)

section \<open>Strings from arguments\<close>

text \<open>An argument of \<open>make_string\<close> is arithmetic (printed by \<open>std::to_string\<close>) or a string.\<close>

datatype fmt_arg = Arith int | Text string

primrec to_string :: "fmt_arg \<Rightarrow> string" where
  "to_string (Arith i) = show_int i"
| "to_string (Text s) = s"

definition is_trimmed :: "char \<Rightarrow> bool" where
  "is_trimmed c \<longleftrightarrow> c \<in> set [CHR '' '', CHR 0x09, CHR 0x0A, CHR 0x0D, CHR 0x0C, CHR 0x0B]"

text \<open>
  \<open>trim_right\<close> leaves a string that is blank throughout as it is: \<open>find_last_not_of\<close> returns
  \<open>npos\<close> and nothing is erased.
\<close>

definition trim_right :: "string \<Rightarrow> string" where
  "trim_right s = (if \<forall>c\<in>set s. is_trimmed c then s else rev (dropWhile is_trimmed (rev s)))"

definition make_string :: "fmt_arg list \<Rightarrow> string" where
  "make_string args = trim_right (concat (map (\<lambda>a. to_string a @ '' '') args))"

definition starts_with :: "string \<Rightarrow> string \<Rightarrow> bool" where
  "starts_with s p \<longleftrightarrow> take (length p) s = p"

definition hex_digit :: "char \<Rightarrow> nat option" where
  "hex_digit c = (let n = of_char c :: nat in
     if 48 \<le> n \<and> n \<le> 57 then Some (n - 48)
     else if 97 \<le> n \<and> n \<le> 102 then Some (n - 87)
     else if 65 \<le> n \<and> n \<le> 70 then Some (n - 55)
     else None)"

fun read_hex :: "nat \<Rightarrow> string \<Rightarrow> nat \<times> string" where
  "read_hex acc [] = (acc, [])"
| "read_hex acc (c # cs) =
     (case hex_digit c of None \<Rightarrow> (acc, c # cs) | Some d \<Rightarrow> read_hex (16 * acc + d) cs)"

text \<open>\<open>std::format\<close> with \<open>{:x}\<close>.\<close>

fun show_hex :: "nat \<Rightarrow> string" where
  "show_hex n =
     (let c = char_of (if n mod 16 < 10 then 48 + n mod 16 else 87 + n mod 16)
      in if n < 16 then [c] else show_hex (n div 16) @ [c])"

declare show_hex.simps [simp del]

lemma hex_digit_char: "d < 16 \<Longrightarrow> hex_digit (char_of (if d < 10 then 48 + d else 87 + d)) = Some d"
  by (auto simp: hex_digit_def Let_def of_char_of)

lemma hex_digit_show: "\<forall>c\<in>set (show_hex n). hex_digit c \<noteq> None"
proof (induction n rule: show_hex.induct)
  case (1 n)
  then show ?case using hex_digit_char [of "n mod 16"]
    by (subst show_hex.simps) (auto simp: Let_def)
qed

lemma read_hex_append:
  "\<forall>c\<in>set ds. hex_digit c \<noteq> None \<Longrightarrow> fst (read_hex acc (ds @ cs)) = fst (read_hex (fst (read_hex acc ds)) cs)"
  by (induction ds arbitrary: acc) (auto split: option.splits)

lemma read_show_hex: "fst (read_hex 0 (show_hex n)) = n"
proof (induction n rule: show_hex.induct)
  case (1 n)
  show ?case
  proof (cases "n < 16")
    case True
    then show ?thesis using hex_digit_char [of n]
      by (subst show_hex.simps) (simp add: Let_def split: if_splits)
  next
    case False
    then have "fst (read_hex 0 (show_hex (n div 16))) = n div 16" by (intro 1) simp_all
    then show ?thesis using False hex_digit_char [of "n mod 16"] hex_digit_show
      by (subst show_hex.simps) (simp add: Let_def read_hex_append split: if_splits)
  qed
qed

lemma show_hex_nonempty [simp]: "show_hex n \<noteq> []"
  by (subst show_hex.simps) (simp add: Let_def)

text \<open>
  \<open>std::stoull(s, nullptr, 16)\<close> on a string that starts with \<open>0x\<close>: the prefix is skipped when
  a hexadecimal digit follows, otherwise the subject sequence is the \<open>0\<close> alone; characters
  after it are ignored; a value that does not fit 64 bits throws \<open>std::out_of_range\<close>.
\<close>

definition stoull16_0x :: "string \<Rightarrow> nat res" where
  "stoull16_0x s =
     (let rest = drop 2 s; v = (case rest of [] \<Rightarrow> 0 | c # cs \<Rightarrow>
          (if hex_digit c = None then 0 else fst (read_hex 0 rest)))
      in if v < 2 ^ 64 then Inr v else Inl Out_Of_Range)"

definition is_hex :: "string \<Rightarrow> bool" where
  "is_hex s =
     (if starts_with s ''0x'' \<and> length s \<noteq> 2
      then (case stoull16_0x s of Inr _ \<Rightarrow> True | Inl _ \<Rightarrow> False)
      else False)"

section \<open>Scanning\<close>

text \<open>The pieces of the grammars: fixed text, and the longest non-empty run of a class of characters.\<close>

definition m_literal :: "string \<Rightarrow> string \<Rightarrow> string option" where
  "m_literal lit s = (if take (length lit) s = lit then Some (drop (length lit) s) else None)"

type_synonym group = "string \<Rightarrow> (string \<times> string) option"

definition m_some :: "(char \<Rightarrow> bool) \<Rightarrow> group" where
  "m_some P s = (let a = takeWhile P s in if a = [] then None else Some (a, drop (length a) s))"

lemma m_literal_append [simp]: "m_literal lit (lit @ s) = Some s"
  by (simp add: m_literal_def)

lemma m_literal_one [simp]: "m_literal [c] (c # s) = Some s"
  by (simp add: m_literal_def)

lemma m_some_append:
  assumes "a \<noteq> []" "\<forall>c\<in>set a. P c" "s \<noteq> []" "\<not> P (hd s)"
  shows "m_some P (a @ s) = Some (a, s)"
proof -
  have "takeWhile P (a @ s) = a" using assms(2-4) by (cases s) (simp_all add: takeWhile_append2)
  then show ?thesis using assms(1) by (simp add: m_some_def)
qed

section \<open>Arrays behind pointers\<close>

text \<open>
  A pointer to an array is \<open>None\<close> for \<open>nullptr\<close> and otherwise the elements that may be read
  through it. Reading past them is undefined behaviour, a value of its own here. The count
  is a \<open>std::size_t\<close>; a negative \<open>int\<close> passed for it becomes a huge count (\<open>size_of_int\<close>).
\<close>

type_synonym 'a ptr = "'a list option"

definition size_of_int :: "int \<Rightarrow> nat" where
  "size_of_int i = nat (i mod 2 ^ 64)"

definition vectorize :: "'a ptr \<Rightarrow> nat \<Rightarrow> 'a list res" where
  "vectorize p count =
     (case p of None \<Rightarrow> Inr []
      | Some xs \<Rightarrow> if count = 0 then Inr []
                   else if count \<le> length xs then Inr (take count xs)
                   else Inl Undefined_Behaviour)"

lemma vectorize_null [simp]: "vectorize None n = Inr []"
  by (simp add: vectorize_def)

lemma vectorize_zero [simp]: "vectorize p 0 = Inr []"
  by (simp add: vectorize_def split: option.splits)

lemma vectorize_within [res_simps]: "n \<le> length xs \<Longrightarrow> vectorize (Some xs) n = Inr (take n xs)"
  by (auto simp: vectorize_def)

lemma vectorize_all [simp]: "vectorize (Some xs) (length xs) = Inr xs"
  by (simp add: vectorize_def)

lemma vectorize_Inr_length: "vectorize p n = Inr xs \<Longrightarrow> length xs \<le> n"
  by (auto simp: vectorize_def split: option.splits if_splits)

lemma size_of_int_nonneg: "0 \<le> i \<Longrightarrow> i < 2 ^ 64 \<Longrightarrow> size_of_int i = nat i"
  by (simp add: size_of_int_def)

lemma size_of_int_neg: "- (2 ^ 31) \<le> i \<Longrightarrow> i < 0 \<Longrightarrow> 2 ^ 63 \<le> size_of_int i"
proof -
  assume i: "- (2 ^ 31) \<le> i" "i < 0"
  then have "(i + 2 ^ 64) mod 2 ^ 64 = i + 2 ^ 64"
    by (intro mod_pos_pos_trivial) simp_all
  then have "i mod 2 ^ 64 = i + 2 ^ 64" by simp
  with i show ?thesis by (simp add: size_of_int_def)
qed

section \<open>Byte order\<close>

definition to_little :: "'a::len word \<Rightarrow> 'a word" where
  "to_little w = w"

definition from_little :: "'a::len word \<Rightarrow> 'a word" where
  "from_little w = w"

definition byteswap :: "'a::len word \<Rightarrow> 'a word" where
  "byteswap w = word_of_nat (from_le (rev (le_bytes (LENGTH('a) div 8) w)))"

definition to_big :: "'a::len word \<Rightarrow> 'a word" where
  "to_big w = byteswap w"

definition from_big :: "'a::len word \<Rightarrow> 'a word" where
  "from_big w = byteswap w"

text \<open>The bytes of a word in memory order, most significant first on the wire after \<open>to_big\<close>.\<close>

lemma le_bytes_of_from_le:
  assumes "length bs = n" and "8 * n \<le> LENGTH('a)"
  shows "le_bytes n (word_of_nat (from_le bs) :: 'a::len word) = bs"
proof (rule from_le_inject)
  have "from_le bs < 256 ^ n" using from_le_less [of bs] assms(1) by simp
  moreover have "(256::nat) ^ n = 2 ^ (8 * n)" by (simp add: power_mult)
  ultimately have lt: "from_le bs < 2 ^ (8 * n)" by simp
  also have "(2::nat) ^ (8 * n) \<le> 2 ^ LENGTH('a)" using assms(2) by simp
  finally have "unat (word_of_nat (from_le bs) :: 'a word) = from_le bs"
    by (simp add: unsigned_of_nat take_bit_nat_eq_self)
  with lt show "from_le (le_bytes n (word_of_nat (from_le bs) :: 'a word)) = from_le bs"
    by (simp add: from_le_le_bytes power_mult)
qed (simp add: assms(1))

lemma word_of_le_bytes:
  assumes "LENGTH('a) = 8 * n"
  shows "word_of_nat (from_le (le_bytes n w)) = (w :: 'a::len word)"
proof -
  have "unat w < 256 ^ n" using unsigned_less [of w, where 'a=nat] assms by (simp add: power_mult)
  then show ?thesis by (simp add: from_le_le_bytes)
qed

lemma le_bytes_byteswap:
  assumes "LENGTH('a) = 8 * n"
  shows "le_bytes n (byteswap (w :: 'a::len word)) = rev (le_bytes n w)"
  using assms by (simp add: byteswap_def le_bytes_of_from_le)

lemma byteswap_byteswap:
  assumes "LENGTH('a) = 8 * n"
  shows "byteswap (byteswap (w :: 'a::len word)) = w"
proof -
  have "byteswap (byteswap w) = word_of_nat (from_le (rev (le_bytes n (byteswap w))))"
    using assms by (simp add: byteswap_def [of "byteswap w"])
  then show ?thesis using assms by (simp add: le_bytes_byteswap word_of_le_bytes)
qed

lemma from_big_to_big_u32 [simp]: "from_big (to_big (w :: u32)) = w"
  unfolding from_big_def to_big_def by (rule byteswap_byteswap [where n = 4]) simp

lemma from_big_to_big_u16 [simp]: "from_big (to_big (w :: u16)) = w"
  unfolding from_big_def to_big_def by (rule byteswap_byteswap [where n = 2]) simp

lemma to_big_from_big_u32 [simp]: "to_big (from_big (w :: u32)) = w"
  unfolding from_big_def to_big_def by (rule byteswap_byteswap [where n = 4]) simp

lemma to_big_0 [simp]: "to_big (0 :: u32) = 0"
  by (simp add: to_big_def byteswap_def)

lemma to_big_inject: "to_big (a :: u32) = to_big b \<longleftrightarrow> a = b"
  using from_big_to_big_u32 by metis

section \<open>Cutting bytes out of an integer\<close>

text \<open>
  \<open>integral<T>::at<position>(from)\<close> for an unsigned \<open>from\<close> of type \<open>'f\<close>: shift left until byte
  \<open>position\<close> is on top, then right until \<open>min (sizeof T) (position + 1)\<close> bytes are left.
\<close>

definition integral_at :: "nat \<Rightarrow> 'f::len word \<Rightarrow> 't::len word" where
  "integral_at position from =
     (let sizeof_F = LENGTH('f) div 8;
          sizeof_T = LENGTH('t) div 8;
          byte_left_shift_count = sizeof_F - (position + 1);
          byte_right_shift_count = sizeof_F - min sizeof_T (position + 1);
          shifted = push_bit (byte_left_shift_count * 8) from
      in ucast (drop_bit (byte_right_shift_count * 8) shifted))"

lemma at_u8_u16_low: "(integral_at 0 (v :: u16) :: u8) = ucast v"
  by (simp add: integral_at_def) (rule bit_word_eqI, auto simp: bit_simps)

lemma at_u8_u16_high: "(integral_at 1 (v :: u16) :: u8) = ucast (drop_bit 8 v)"
  by (simp add: integral_at_def)

end
