(* ===== verification/Text_Stream.thy ===== *)
theory Text_Stream
  imports Format_Model
begin

text \<open>
  \<open>viu::io::text::stream\<close> (src/io.cppm): integers are written in decimal followed by one
  blank, and read back as the next whitespace-separated word. The word is converted by
  \<open>boost::lexical_cast\<close>, which is not part of the sources: it is the parameter \<open>cast\<close> of every
  reader, and \<open>lexical_cast_ok\<close> states what the code relies on, that the decimal text of a
  value in range is converted back to it. An end of input leaves an empty word, which a real
  \<open>lexical_cast\<close> refuses (\<open>lexical_cast_strict\<close>).

  A reader takes the unread text and returns the value with the rest, or the exception. The
  law \<open>reads p w x\<close> says that the reader \<open>p\<close>, in front of the text \<open>w\<close> (blanks before it do
  not matter), returns \<open>x\<close> and stops right behind \<open>w\<close>.
\<close>

section \<open>Words of the stream\<close>

type_synonym 'a reader = "string \<Rightarrow> ('a \<times> string) res"

definition skip_ws :: "string \<Rightarrow> string" where
  "skip_ws s = dropWhile is_space s"

definition read_token :: "string \<Rightarrow> string \<times> string" where
  "read_token s = (let t = skip_ws s in
     (takeWhile (\<lambda>c. \<not> is_space c) t, dropWhile (\<lambda>c. \<not> is_space c) t))"

datatype int_type = I32 | U16 | U64

primrec in_range :: "int_type \<Rightarrow> int \<Rightarrow> bool" where
  "in_range I32 i = (- (2 ^ 31) \<le> i \<and> i < 2 ^ 31)"
| "in_range U16 i = (0 \<le> i \<and> i < 2 ^ 16)"
| "in_range U64 i = (0 \<le> i \<and> i < 2 ^ 64)"

type_synonym lexer = "int_type \<Rightarrow> string \<Rightarrow> int option"

definition lexical_cast_ok :: "lexer \<Rightarrow> bool" where
  "lexical_cast_ok cast \<longleftrightarrow> (\<forall>t n. in_range t (int n) \<longrightarrow> cast t (show_nat n) = Some (int n))"

definition lexical_cast_strict :: "lexer \<Rightarrow> bool" where
  "lexical_cast_strict cast \<longleftrightarrow> (\<forall>t. cast t '''' = None)"

text \<open>
  \<open>out\<close>: a \<open>char\<close> or \<open>unsigned char\<close> goes out as a number, not as a character. The three
  integral types of the descriptors.
\<close>

definition out_u8 :: "u8 \<Rightarrow> string" where
  "out_u8 v = show_nat (unat v) @ '' ''"

definition out_u16 :: "u16 \<Rightarrow> string" where
  "out_u16 v = show_nat (unat v) @ '' ''"

definition out_size :: "nat \<Rightarrow> string" where
  "out_size n = show_nat n @ '' ''"

definition in_number :: "int_type \<Rightarrow> lexer \<Rightarrow> int reader" where
  "in_number t cast s =
     (let (number, s') = read_token s in
      case cast t number of None \<Rightarrow> Inl Bad_Lexical_Cast | Some i \<Rightarrow> Inr (i, s'))"

definition in_u8 :: "lexer \<Rightarrow> u8 reader" where
  "in_u8 cast s = bindR (in_number I32 cast s) (\<lambda>(i, s'). Inr (word_of_int i, s'))"

definition in_u16 :: "lexer \<Rightarrow> u16 reader" where
  "in_u16 cast s = bindR (in_number U16 cast s) (\<lambda>(i, s'). Inr (word_of_int i, s'))"

definition in_size :: "lexer \<Rightarrow> nat reader" where
  "in_size cast s = bindR (in_number U64 cast s) (\<lambda>(i, s'). Inr (nat i, s'))"

section \<open>Sequencing and loops\<close>

definition bindS :: "'a reader \<Rightarrow> ('a \<Rightarrow> 'b reader) \<Rightarrow> 'b reader" where
  "bindS p f s = bindR (p s) (\<lambda>(x, s'). f x s')"

definition returnS :: "'a \<Rightarrow> 'a reader" where
  "returnS x s = Inr (x, s)"

text \<open>The loop that reads \<open>n\<close> elements and pushes each to the back of \<open>acc\<close>.\<close>

fun read_n :: "nat \<Rightarrow> 'a reader \<Rightarrow> 'a list \<Rightarrow> 'a list reader" where
  "read_n 0 p acc = returnS acc"
| "read_n (Suc n) p acc = bindS p (\<lambda>e. read_n n p (acc @ [e]))"

definition in_vector :: "lexer \<Rightarrow> 'a reader \<Rightarrow> 'a list \<Rightarrow> 'a list reader" where
  "in_vector cast p acc = bindS (in_size cast) (\<lambda>n. read_n n p acc)"

definition out_vector :: "('a \<Rightarrow> string) \<Rightarrow> 'a list \<Rightarrow> string" where
  "out_vector w xs = out_size (length xs) @ concat (map w xs)"

definition reads :: "'a reader \<Rightarrow> string \<Rightarrow> 'a \<Rightarrow> bool" where
  "reads p w x \<longleftrightarrow> (\<forall>s rest. skip_ws s = skip_ws (w @ rest) \<longrightarrow>
     (\<exists>s'. p s = Inr (x, s') \<and> skip_ws s' = skip_ws rest))"

lemma skip_ws_idem [simp]: "skip_ws (skip_ws s) = skip_ws s"
  by (simp add: skip_ws_def)

lemma skip_ws_Nil [simp]: "skip_ws [] = []"
  by (simp add: skip_ws_def)

lemma skip_ws_blank [simp]: "skip_ws (CHR '' '' # s) = skip_ws s"
  by (simp add: skip_ws_def is_space_def)

lemma skip_ws_word: "w \<noteq> [] \<Longrightarrow> \<forall>c\<in>set w. \<not> is_space c \<Longrightarrow> skip_ws (w @ s) = w @ s"
  by (cases w) (simp_all add: skip_ws_def)

lemma read_token_word:
  assumes "w \<noteq> []" "\<forall>c\<in>set w. \<not> is_space c" "skip_ws s = skip_ws (w @ CHR '' '' # rest)"
  shows "read_token s = (w, CHR '' '' # rest)"
proof -
  have "skip_ws s = w @ CHR '' '' # rest" using assms by (simp add: skip_ws_word)
  with assms(2) show ?thesis
    by (simp add: read_token_def Let_def is_space_def takeWhile_append2 dropWhile_append2)
qed

lemma read_token_blank: "skip_ws s = [] \<Longrightarrow> read_token s = ([], [])"
  by (simp add: read_token_def)

lemma in_number_show:
  assumes "lexical_cast_ok cast" "in_range t (int n)"
    "skip_ws s = skip_ws (show_nat n @ CHR '' '' # rest)"
  shows "in_number t cast s = Inr (int n, CHR '' '' # rest)"
  using assms read_token_word [OF show_nat_nonempty show_nat_no_space assms(3)]
  by (simp add: in_number_def lexical_cast_ok_def)

lemma in_number_end:
  assumes "lexical_cast_strict cast" "skip_ws s = []"
  shows "in_number t cast s = Inl Bad_Lexical_Cast"
  using assms by (simp add: in_number_def read_token_blank lexical_cast_strict_def)

lemma readsI: "(\<And>s rest. skip_ws s = skip_ws (w @ rest) \<Longrightarrow>
    \<exists>s'. p s = Inr (x, s') \<and> skip_ws s' = skip_ws rest) \<Longrightarrow> reads p w x"
  by (simp add: reads_def)

lemma readsE:
  assumes "reads p w x" "skip_ws s = skip_ws (w @ rest)"
  obtains s' where "p s = Inr (x, s')" "skip_ws s' = skip_ws rest"
  using assms unfolding reads_def by blast

lemma reads_returnS [intro]: "reads (returnS x) [] x"
  by (auto simp: reads_def returnS_def)

lemma reads_bindS:
  assumes p: "reads p w x" and q: "reads (f x) v y"
  shows "reads (bindS p f) (w @ v) y"
proof (rule readsI)
  fix s rest
  assume "skip_ws s = skip_ws ((w @ v) @ rest)"
  then have "skip_ws s = skip_ws (w @ (v @ rest))" by simp
  with p obtain s1 where s1: "p s = Inr (x, s1)" "skip_ws s1 = skip_ws (v @ rest)"
    by (rule readsE)
  from q s1(2) obtain s2 where "f x s1 = Inr (y, s2)" "skip_ws s2 = skip_ws rest"
    by (rule readsE)
  with s1(1) show "\<exists>s'. bindS p f s = Inr (y, s') \<and> skip_ws s' = skip_ws rest"
    by (simp add: bindS_def)
qed

lemma reads_in_number:
  assumes "lexical_cast_ok cast" "in_range t (int n)"
  shows "reads (in_number t cast) (show_nat n @ '' '') (int n)"
  by (rule readsI) (use in_number_show [OF assms] in auto)

lemma u8_in_range: "in_range I32 (int (unat (v :: u8)))"
proof -
  have "unat v < 256" using unsigned_less [of v, where 'a=nat] by simp
  moreover have "(256::int) \<le> 2 ^ 31" "- (2 ^ 31) \<le> (0::int)" by simp_all
  ultimately have "- (2 ^ 31) \<le> int (unat v) \<and> int (unat v) < 2 ^ 31" by linarith
  then show ?thesis by (simp only: in_range.simps)
qed

lemma u16_in_range: "in_range U16 (int (unat (v :: u16)))"
  using unsigned_less [of v, where 'a=int] unsigned_greater_eq [of v, where 'a=int]
  by (simp del: unsigned_less unsigned_greater_eq)

lemma reads_map_number:
  assumes "lexical_cast_ok cast" "in_range t (int n)"
    and "p = (\<lambda>s. bindR (in_number t cast s) (\<lambda>(i, s'). Inr (g i, s')))"
  shows "reads p (show_nat n @ '' '') (g (int n))"
  by (rule readsI) (use in_number_show [OF assms(1,2)] assms(3) in auto)

lemma reads_u8: "lexical_cast_ok cast \<Longrightarrow> reads (in_u8 cast) (out_u8 v) v"
  unfolding out_u8_def
  using reads_map_number [OF _ u8_in_range, of cast "in_u8 cast" word_of_int v]
  by (simp add: in_u8_def fun_eq_iff)

lemma reads_u16: "lexical_cast_ok cast \<Longrightarrow> reads (in_u16 cast) (out_u16 v) v"
  unfolding out_u16_def
  using reads_map_number [OF _ u16_in_range, of cast "in_u16 cast" word_of_int v]
  by (simp add: in_u16_def fun_eq_iff)

lemma reads_size: "lexical_cast_ok cast \<Longrightarrow> n < 2 ^ 64 \<Longrightarrow> reads (in_size cast) (out_size n) n"
  unfolding out_size_def
  using reads_map_number [of cast U64 n "in_size cast" nat]
  by (simp add: in_size_def fun_eq_iff)

lemma reads_n:
  assumes "\<And>x. x \<in> set xs \<Longrightarrow> reads p (w x) x"
  shows "reads (read_n (length xs) p acc) (concat (map w xs)) (acc @ xs)"
  using assms
proof (induction xs arbitrary: acc)
  case Nil
  show ?case by (simp add: reads_returnS)
next
  case (Cons x xs)
  have "reads (read_n (length xs) p (acc @ [x])) (concat (map w xs)) ((acc @ [x]) @ xs)"
    by (rule Cons.IH) (use Cons.prems in simp)
  moreover have "reads p (w x) x" using Cons.prems by simp
  ultimately show ?case by (simp add: reads_bindS)
qed

lemma reads_vector:
  assumes "lexical_cast_ok cast" "length xs < 2 ^ 64" "\<And>x. x \<in> set xs \<Longrightarrow> reads p (w x) x"
  shows "reads (in_vector cast p acc) (out_vector w xs) (acc @ xs)"
  unfolding in_vector_def out_vector_def
proof (rule reads_bindS)
  show "reads (in_size cast) (out_size (length xs)) (length xs)"
    using assms(1,2) by (rule reads_size)
  show "reads (read_n (length xs) p acc) (concat (map w xs)) (acc @ xs)"
    using assms(3) by (rule reads_n)
qed

lemma reads_whole:
  assumes "reads p w x"
  obtains s' where "p w = Inr (x, s')" "skip_ws s' = []"
proof -
  have "skip_ws w = skip_ws (w @ [])" by simp
  with assms obtain s' where "p w = Inr (x, s')" "skip_ws s' = skip_ws []" by (rule readsE)
  with that show thesis by simp
qed

section \<open>Types that stream out and in\<close>

text \<open>
  The contract between a descriptor type and the code that streams vectors of it: what
  \<open>stream_out\<close> writes, \<open>stream_in\<close> into a value-initialised object reads back.
\<close>

locale streamable =
  fixes wf :: "'a \<Rightarrow> bool"
    and out :: "'a \<Rightarrow> string"
    and inn :: "lexer \<Rightarrow> 'a reader"
  assumes reads_out: "lexical_cast_ok cast \<Longrightarrow> wf x \<Longrightarrow> reads (inn cast) (out x) x"
begin

lemma reads_vector_out:
  assumes "lexical_cast_ok cast" "length xs < 2 ^ 64" "\<forall>x\<in>set xs. wf x"
  shows "reads (in_vector cast (inn cast) acc) (out_vector out xs) (acc @ xs)"
  by (rule reads_vector) (use assms reads_out in auto)

lemma out_determines: "lexical_cast_ok cast \<Longrightarrow> wf x \<Longrightarrow> wf y \<Longrightarrow> out x = out y \<Longrightarrow> x = y"
  using reads_out [of cast x] reads_out [of cast y]
  by (metis (no_types, opaque_lifting) reads_whole Inr_inject prod.inject)

end

interpretation byte_stream: streamable "\<lambda>_. True" out_u8 in_u8
  by unfold_locales (rule reads_u8)

interpretation half_stream: streamable "\<lambda>_. True" out_u16 in_u16
  by unfold_locales (rule reads_u16)

section \<open>A concrete conversion\<close>

text \<open>
  A decimal reader that satisfies both laws, for the witnesses of the theorems that have
  them as hypotheses.
\<close>

definition decimal_lex :: lexer where
  "decimal_lex t s = (if s = '''' then None else
     (case read_nat 0 s of (n, rest) \<Rightarrow>
        if rest = '''' \<and> in_range t (int n) then Some (int n) else None))"

lemma decimal_lex_ok: "lexical_cast_ok decimal_lex"
  by (simp add: lexical_cast_ok_def decimal_lex_def read_show_nat)

lemma decimal_lex_strict: "lexical_cast_strict decimal_lex"
  by (simp add: lexical_cast_strict_def decimal_lex_def)

end
