(* ===== verification/Vector_Plugin.thy ===== *)
theory Vector_Plugin
  imports Prelude
begin

text \<open>
  \<open>viu::vector::plugin\<close> (src/vector.cppm): a fixed sequence of vectors, each under a key
  and with an element type. The element type is a tag \<open>'t\<close> of the entry: the visitor's
  \<open>if constexpr (is_same_v<U, value_type>)\<close> is a comparison of tags. A plugin whose entries all
  have one element type (as every descriptor's has) takes \<open>'t\<close> to be \<open>unit\<close>.
\<close>

section \<open>The entries\<close>

datatype flow_control = Break | Continue | Loop

record ('t, 'v) member_entry =
  me_type :: 't
  me_key :: string
  me_vec :: "'v list"

type_synonym ('t, 'v) plugin = "('t, 'v) member_entry list"

text \<open>\<open>type vector_{member_entry<V>{K}...}\<close>: one empty entry per key and type.\<close>

definition plugin_init :: "('t \<times> string) list \<Rightarrow> ('t, 'v) plugin" where
  "plugin_init ks = map (\<lambda>(t, k). \<lparr>me_type = t, me_key = k, me_vec = []\<rparr>) ks"

fun not_equal_all :: "string \<Rightarrow> string list \<Rightarrow> bool" where
  "not_equal_all x [] = True"
| "not_equal_all x (y # ys) = (x \<noteq> y \<and> not_equal_all x ys)"

fun keys_are_unique :: "string list \<Rightarrow> bool" where
  "keys_are_unique [] = True"
| "keys_are_unique [x] = True"
| "keys_are_unique (x # ys) = (not_equal_all x ys \<and> keys_are_unique ys)"

text \<open>
  \<open>filter_types::unique\<close>: the variant's alternatives are the entry types with repetitions
  dropped; the accumulator is the variant built so far.
\<close>

fun unique_acc :: "'t list \<Rightarrow> 't list \<Rightarrow> 't list" where
  "unique_acc ts [] = ts"
| "unique_acc ts (h # l) = (if h \<in> set ts then unique_acc ts l else unique_acc (ts @ [h]) l)"

definition unique_types :: "'t list \<Rightarrow> 't list" where
  "unique_types ts = unique_acc [] ts"

section \<open>Operations\<close>

definition fill_visitor ::
  "'t \<Rightarrow> string \<Rightarrow> 'v list \<Rightarrow> ('t, 'v) member_entry \<Rightarrow> ('t, 'v) member_entry \<times> flow_control" where
  "fill_visitor u key vs entry =
     (if u = me_type entry
      then (if me_key entry = key then (entry\<lparr>me_vec := vs\<rparr>, Break) else (entry, Loop))
      else (entry, Loop))"

fun fill :: "'t \<Rightarrow> string \<Rightarrow> 'v list \<Rightarrow> ('t, 'v) plugin \<Rightarrow> ('t, 'v) plugin" where
  "fill u key vs [] = []"
| "fill u key vs (elem # elems) =
     (case fill_visitor u key vs elem of
        (elem', flow_ctrl) \<Rightarrow> if flow_ctrl = Break then elem' # elems
                             else elem' # fill u key vs elems)"

definition read_visitor ::
  "'t \<Rightarrow> string \<Rightarrow> 'v list \<Rightarrow> ('t, 'v) member_entry \<Rightarrow> 'v list \<times> flow_control" where
  "read_visitor u key vs entry =
     (if u = me_type entry
      then (if me_key entry = key then (me_vec entry, Break) else (vs, Loop))
      else (vs, Loop))"

text \<open>\<open>read\<close> leaves the caller's vector \<open>vs\<close> as it was when no entry matches.\<close>

fun read_vec :: "'t \<Rightarrow> string \<Rightarrow> ('t, 'v) plugin \<Rightarrow> 'v list \<Rightarrow> 'v list" where
  "read_vec u key [] vs = vs"
| "read_vec u key (elem # elems) vs =
     (case read_visitor u key vs elem of
        (vs', flow_ctrl) \<Rightarrow> if flow_ctrl = Break then vs' else read_vec u key elems vs')"

definition for_each :: "(('t, 'v) member_entry \<Rightarrow> ('t, 'v) member_entry) \<Rightarrow> ('t, 'v) plugin \<Rightarrow> ('t, 'v) plugin" where
  "for_each visitor p = map visitor p"

text \<open>The \<open>const\<close> overload, for a visitor that appends to an output.\<close>

definition for_each_out :: "(('t, 'v) member_entry \<Rightarrow> 'o list) \<Rightarrow> ('t, 'v) plugin \<Rightarrow> 'o list" where
  "for_each_out visitor p = concat (map visitor p)"

text \<open>The explicit constructor: a fold of \<open>fill\<close> over keys and vectors.\<close>

fun plugin_of :: "('t \<times> string \<times> 'v list) list \<Rightarrow> ('t, 'v) plugin \<Rightarrow> ('t, 'v) plugin" where
  "plugin_of [] p = p"
| "plugin_of ((t, k, vs) # rest) p = plugin_of rest (fill t k vs p)"

definition plugin_construct :: "('t \<times> string \<times> 'v list) list \<Rightarrow> ('t, 'v) plugin" where
  "plugin_construct ks = plugin_of ks (plugin_init (map (\<lambda>(t, k, _). (t, k)) ks))"

section \<open>What the operations do\<close>

definition has_entry :: "'t \<Rightarrow> string \<Rightarrow> ('t, 'v) plugin \<Rightarrow> bool" where
  "has_entry u key p \<longleftrightarrow> (\<exists>e\<in>set p. me_type e = u \<and> me_key e = key)"

lemma has_entry_Nil [simp]: "\<not> has_entry u key []"
  by (simp add: has_entry_def)

lemma has_entry_Cons [simp]:
  "has_entry u key (e # p) \<longleftrightarrow> me_type e = u \<and> me_key e = key \<or> has_entry u key p"
  by (simp add: has_entry_def)

definition plugin_shape :: "('t, 'v) plugin \<Rightarrow> ('t \<times> string) list" where
  "plugin_shape p = map (\<lambda>e. (me_type e, me_key e)) p"

lemma has_entry_shape: "has_entry u key p \<longleftrightarrow> (u, key) \<in> set (plugin_shape p)"
  by (force simp: has_entry_def plugin_shape_def)

lemma fill_Cons [simp]:
  "fill u key vs (e # p) =
     (if u = me_type e \<and> me_key e = key then e\<lparr>me_vec := vs\<rparr> # p else e # fill u key vs p)"
  by (simp add: fill_visitor_def)

lemma read_vec_Cons [simp]:
  "read_vec u key (e # p) vs =
     (if u = me_type e \<and> me_key e = key then me_vec e else read_vec u key p vs)"
  by (simp add: read_visitor_def)

declare fill.simps(2) [simp del] read_vec.simps(2) [simp del]

lemma plugin_shape_fill [simp]: "plugin_shape (fill u key vs p) = plugin_shape p"
  by (induction p) (simp_all add: plugin_shape_def)

lemma read_fill_same: "has_entry u key p \<Longrightarrow> read_vec u key (fill u key vs p) old = vs"
  by (induction p) auto

lemma read_fill_other:
  "(u', key') \<noteq> (u, key) \<Longrightarrow> read_vec u' key' (fill u key vs p) old = read_vec u' key' p old"
  by (induction p) auto

lemma fill_absent: "\<not> has_entry u key p \<Longrightarrow> fill u key vs p = p"
  by (induction p) auto

lemma read_absent: "\<not> has_entry u key p \<Longrightarrow> read_vec u key p old = old"
  by (induction p) auto

lemma fill_fill: "fill u key vs (fill u key ws p) = fill u key vs p"
  by (induction p) auto

lemma not_equal_all_iff: "not_equal_all x ys \<longleftrightarrow> x \<notin> set ys"
  by (induction ys) auto

lemma keys_are_unique_distinct: "keys_are_unique ks \<longleftrightarrow> distinct ks"
  by (induction ks rule: keys_are_unique.induct) (auto simp: not_equal_all_iff)

lemma unique_acc_spec:
  "distinct ts \<Longrightarrow> distinct (unique_acc ts us) \<and> set (unique_acc ts us) = set ts \<union> set us"
  by (induction ts us rule: unique_acc.induct) auto

lemma plugin_shape_of [simp]: "plugin_shape (plugin_of ks p) = plugin_shape p"
  by (induction ks p rule: plugin_of.induct) simp_all

lemma plugin_shape_init [simp]: "plugin_shape (plugin_init ks) = ks"
  by (induction ks) (auto simp: plugin_shape_def plugin_init_def)

lemma plugin_of_frame:
  "key \<notin> set (map (\<lambda>(_, k, _). k) ks) \<Longrightarrow> read_vec u key (plugin_of ks p) old = read_vec u key p old"
proof (induction ks p rule: plugin_of.induct)
  case (2 t k vs rest p)
  then show ?case by (simp add: read_fill_other)
qed simp

lemma read_plugin_of:
  assumes "keys_are_unique (map (\<lambda>(_, k, _). k) ks)" "(t, key, vs) \<in> set ks"
    "has_entry t key p"
  shows "read_vec t key (plugin_of ks p) old = vs"
  using assms
proof (induction ks p rule: plugin_of.induct)
  case (1 p)
  then show ?case by simp
next
  case (2 t' k' vs' rest p)
  show ?case
  proof (cases "(t, key, vs) = (t', k', vs')")
    case True
    with 2 have "key \<notin> set (map (\<lambda>(_, k, _). k) rest)"
      by (simp add: keys_are_unique_distinct)
    with True 2 show ?thesis by (simp add: plugin_of_frame read_fill_same)
  next
    case False
    with 2 have "(t, key, vs) \<in> set rest" by auto
    with 2 show ?thesis
      by (simp add: keys_are_unique_distinct has_entry_shape)
  qed
qed

text \<open>A vector plugin as one instance: one entry, one key, the element type fixed.\<close>

abbreviation one_entry :: "string \<Rightarrow> 'v list \<Rightarrow> (unit, 'v) plugin" where
  "one_entry key vs \<equiv> [\<lparr>me_type = (), me_key = key, me_vec = vs\<rparr>]"

lemma plugin_init_one: "plugin_init [((), key)] = one_entry key []"
  by (simp add: plugin_init_def)

end
