(* ===== verification/Descriptors.thy ===== *)
theory Descriptors
  imports Text_Stream Vector_Plugin
begin

text \<open>
  The descriptor types (src/descriptors/types.cppm, descriptor_classes.cppm) and the generic
  code that packs, writes and reads them (usb_descriptors_impl.cpp, lines 13-326).

  A described member of a libusb structure is a pointer to member: a getter and a setter of
  the member's width. The locale \<open>described_struct\<close> states what the generic code needs of a
  structure's member list; it is interpreted for every structure that is packed or streamed.
\<close>

section \<open>Described structures\<close>

datatype 's member =
    Mem8 "'s \<Rightarrow> u8" "u8 \<Rightarrow> 's \<Rightarrow> 's"
  | Mem16 "'s \<Rightarrow> u16" "u16 \<Rightarrow> 's \<Rightarrow> 's"

primrec sizeof_member :: "'s member \<Rightarrow> nat" where
  "sizeof_member (Mem8 g p) = 1"
| "sizeof_member (Mem16 g p) = 2"

text \<open>The byte loop of \<open>pack\<close>: byte \<open>i\<close> is \<open>(number >> 8 * i) & 0xff\<close>.\<close>

definition pack_number :: "nat \<Rightarrow> 'a::len word \<Rightarrow> bytes" where
  "pack_number n number = map (\<lambda>i. ucast (drop_bit (8 * i) number AND 0xff)) [0..<n]"

primrec pack_member :: "'s member \<Rightarrow> 's \<Rightarrow> bytes" where
  "pack_member (Mem8 g p) s = pack_number 1 (g s)"
| "pack_member (Mem16 g p) s = pack_number 2 (g s)"

definition pack_described :: "'s member list \<Rightarrow> 's \<Rightarrow> bytes" where
  "pack_described ms s = concat (map (\<lambda>m. pack_member m s) ms)"

text \<open>\<open>packed_size\<close> sums into a \<open>std::uint8_t\<close>.\<close>

definition packed_size :: "'s member list \<Rightarrow> u8" where
  "packed_size ms = foldl (\<lambda>len m. len + of_nat (sizeof_member m)) 0 ms"

primrec member_out :: "'s member \<Rightarrow> 's \<Rightarrow> string" where
  "member_out (Mem8 g p) s = out_u8 (g s)"
| "member_out (Mem16 g p) s = out_u16 (g s)"

definition stream_out_described :: "'s member list \<Rightarrow> 's \<Rightarrow> string" where
  "stream_out_described ms s = concat (map (\<lambda>m. member_out m s) ms)"

primrec member_in :: "lexer \<Rightarrow> 's member \<Rightarrow> 's \<Rightarrow> 's reader" where
  "member_in cast (Mem8 g p) s = bindS (in_u8 cast) (\<lambda>v. returnS (p v s))"
| "member_in cast (Mem16 g p) s = bindS (in_u16 cast) (\<lambda>v. returnS (p v s))"

fun stream_in_described :: "lexer \<Rightarrow> 's member list \<Rightarrow> 's \<Rightarrow> 's reader" where
  "stream_in_described cast [] s = returnS s"
| "stream_in_described cast (m # ms) s =
     bindS (member_in cast m s) (\<lambda>s'. stream_in_described cast ms s')"

primrec copy_member :: "'s member \<Rightarrow> 's \<Rightarrow> 's \<Rightarrow> 's" where
  "copy_member (Mem8 g p) src dst = p (g src) dst"
| "copy_member (Mem16 g p) src dst = p (g src) dst"

definition copy_members :: "'s member list \<Rightarrow> 's \<Rightarrow> 's \<Rightarrow> 's" where
  "copy_members ms src dst = fold (\<lambda>m d. copy_member m src d) ms dst"

lemma pack_number_le: "pack_number n w = le_bytes n w"
proof -
  have "ucast (drop_bit (8 * i) w AND 0xff) = (ucast (drop_bit (8 * i) w) :: u8)" for i
  proof -
    have m: "(0xff :: 'a word) = mask 8" by (simp add: mask_eq_exp_minus_1)
    show ?thesis unfolding m
      by (rule bit_word_eqI) (auto simp: bit_simps dest: bit_imp_le_length)
  qed
  then show ?thesis by (intro nth_equalityI) (simp_all add: pack_number_def le_bytes_nth)
qed

lemma length_pack_member [simp, wire_simps]: "length (pack_member m s) = sizeof_member m"
  by (cases m) (simp_all add: pack_number_le)

lemma length_pack_described [wire_simps]:
  "length (pack_described ms s) = sum_list (map sizeof_member ms)"
  by (induction ms) (simp_all add: pack_described_def)

lemma reads_member:
  assumes "lexical_cast_ok cast"
  shows "reads (member_in cast m dst) (member_out m src) (copy_member m src dst)"
proof (cases m)
  case (Mem8 g p)
  then show ?thesis
    using reads_bindS [OF reads_u8 [OF assms] reads_returnS, of "\<lambda>v. p v dst" "g src"] by simp
next
  case (Mem16 g p)
  then show ?thesis
    using reads_bindS [OF reads_u16 [OF assms] reads_returnS, of "\<lambda>v. p v dst" "g src"] by simp
qed

lemma reads_described:
  assumes "lexical_cast_ok cast"
  shows "reads (stream_in_described cast ms dst) (stream_out_described ms src) (copy_members ms src dst)"
proof (induction ms arbitrary: dst)
  case Nil
  show ?case by (simp add: stream_out_described_def copy_members_def reads_returnS)
next
  case (Cons m ms)
  have "reads (bindS (member_in cast m dst) (\<lambda>s'. stream_in_described cast ms s'))
      (member_out m src @ stream_out_described ms src) (copy_members ms src (copy_member m src dst))"
    by (rule reads_bindS [OF reads_member [OF assms]]) (rule Cons)
  then show ?case by (simp add: stream_out_described_def copy_members_def)
qed

lemma pack_member_copy: "pack_member m s = pack_member m t \<Longrightarrow> copy_member m s d = copy_member m t d"
proof -
  have inj: "le_bytes n v = le_bytes n w \<Longrightarrow> LENGTH('b) = 8 * n \<Longrightarrow> v = w"
    for n and v w :: "'b::len word"
    by (metis word_of_le_bytes)
  assume "pack_member m s = pack_member m t"
  then show ?thesis by (cases m) (auto simp: pack_number_le dest: inj)
qed

lemma pack_described_copy:
  "pack_described ms s = pack_described ms t \<Longrightarrow> copy_members ms s d = copy_members ms t d"
proof (induction ms arbitrary: d)
  case Nil
  then show ?case by (simp add: copy_members_def)
next
  case (Cons m ms)
  then have "pack_member m s = pack_member m t" "pack_described ms s = pack_described ms t"
    by (simp_all add: pack_described_def)
  with Cons.IH [of "copy_member m t d"] pack_member_copy [of m s t d] show ?case
    by (simp add: copy_members_def)
qed

locale described_struct =
  fixes members :: "'s member list"
  assumes covers: "copy_members members src dst = src"
begin

lemma reads_struct:
  "lexical_cast_ok cast \<Longrightarrow> reads (stream_in_described cast members dst) (stream_out_described members s) s"
  using reads_described [of cast members dst s] by (simp add: covers)

lemma pack_inject: "pack_described members s = pack_described members t \<longleftrightarrow> s = t"
  using pack_described_copy [of members s t] covers by metis

end

section \<open>The structures of libusb\<close>

text \<open>
  The described (integral) members of the libusb structures, in the order types.cppm lists
  them, with the widths of \<open>libusb.h\<close>.
\<close>

record device_descriptor =
  dd_bLength :: u8
  dd_bDescriptorType :: u8
  dd_bcdUSB :: u16
  dd_bDeviceClass :: u8
  dd_bDeviceSubClass :: u8
  dd_bDeviceProtocol :: u8
  dd_bMaxPacketSize0 :: u8
  dd_idVendor :: u16
  dd_idProduct :: u16
  dd_bcdDevice :: u16
  dd_iManufacturer :: u8
  dd_iProduct :: u8
  dd_iSerialNumber :: u8
  dd_bNumConfigurations :: u8

record config_descriptor =
  cd_bLength :: u8
  cd_bDescriptorType :: u8
  cd_wTotalLength :: u16
  cd_bNumInterfaces :: u8
  cd_bConfigurationValue :: u8
  cd_iConfiguration :: u8
  cd_bmAttributes :: u8
  cd_MaxPower :: u8

record interface_descriptor =
  id_bLength :: u8
  id_bDescriptorType :: u8
  id_bInterfaceNumber :: u8
  id_bAlternateSetting :: u8
  id_bNumEndpoints :: u8
  id_bInterfaceClass :: u8
  id_bInterfaceSubClass :: u8
  id_bInterfaceProtocol :: u8
  id_iInterface :: u8

record endpoint_descriptor =
  ed_bLength :: u8
  ed_bDescriptorType :: u8
  ed_bEndpointAddress :: u8
  ed_bmAttributes :: u8
  ed_wMaxPacketSize :: u16
  ed_bInterval :: u8
  ed_bRefresh :: u8
  ed_bSynchAddress :: u8

record bos_descriptor =
  bd_bLength :: u8
  bd_bDescriptorType :: u8
  bd_wTotalLength :: u16
  bd_bNumDeviceCaps :: u8

record dev_capability_descriptor =
  dc_bLength :: u8
  dc_bDescriptorType :: u8
  dc_bDevCapabilityType :: u8

definition device_members :: "device_descriptor member list" where
  "device_members =
    [Mem8 dd_bLength (\<lambda>v. dd_bLength_update (\<lambda>_. v)),
     Mem8 dd_bDescriptorType (\<lambda>v. dd_bDescriptorType_update (\<lambda>_. v)),
     Mem16 dd_bcdUSB (\<lambda>v. dd_bcdUSB_update (\<lambda>_. v)),
     Mem8 dd_bDeviceClass (\<lambda>v. dd_bDeviceClass_update (\<lambda>_. v)),
     Mem8 dd_bDeviceSubClass (\<lambda>v. dd_bDeviceSubClass_update (\<lambda>_. v)),
     Mem8 dd_bDeviceProtocol (\<lambda>v. dd_bDeviceProtocol_update (\<lambda>_. v)),
     Mem8 dd_bMaxPacketSize0 (\<lambda>v. dd_bMaxPacketSize0_update (\<lambda>_. v)),
     Mem16 dd_idVendor (\<lambda>v. dd_idVendor_update (\<lambda>_. v)),
     Mem16 dd_idProduct (\<lambda>v. dd_idProduct_update (\<lambda>_. v)),
     Mem16 dd_bcdDevice (\<lambda>v. dd_bcdDevice_update (\<lambda>_. v)),
     Mem8 dd_iManufacturer (\<lambda>v. dd_iManufacturer_update (\<lambda>_. v)),
     Mem8 dd_iProduct (\<lambda>v. dd_iProduct_update (\<lambda>_. v)),
     Mem8 dd_iSerialNumber (\<lambda>v. dd_iSerialNumber_update (\<lambda>_. v)),
     Mem8 dd_bNumConfigurations (\<lambda>v. dd_bNumConfigurations_update (\<lambda>_. v))]"

definition config_members :: "config_descriptor member list" where
  "config_members =
    [Mem8 cd_bLength (\<lambda>v. cd_bLength_update (\<lambda>_. v)),
     Mem8 cd_bDescriptorType (\<lambda>v. cd_bDescriptorType_update (\<lambda>_. v)),
     Mem16 cd_wTotalLength (\<lambda>v. cd_wTotalLength_update (\<lambda>_. v)),
     Mem8 cd_bNumInterfaces (\<lambda>v. cd_bNumInterfaces_update (\<lambda>_. v)),
     Mem8 cd_bConfigurationValue (\<lambda>v. cd_bConfigurationValue_update (\<lambda>_. v)),
     Mem8 cd_iConfiguration (\<lambda>v. cd_iConfiguration_update (\<lambda>_. v)),
     Mem8 cd_bmAttributes (\<lambda>v. cd_bmAttributes_update (\<lambda>_. v)),
     Mem8 cd_MaxPower (\<lambda>v. cd_MaxPower_update (\<lambda>_. v))]"

definition interface_members :: "interface_descriptor member list" where
  "interface_members =
    [Mem8 id_bLength (\<lambda>v. id_bLength_update (\<lambda>_. v)),
     Mem8 id_bDescriptorType (\<lambda>v. id_bDescriptorType_update (\<lambda>_. v)),
     Mem8 id_bInterfaceNumber (\<lambda>v. id_bInterfaceNumber_update (\<lambda>_. v)),
     Mem8 id_bAlternateSetting (\<lambda>v. id_bAlternateSetting_update (\<lambda>_. v)),
     Mem8 id_bNumEndpoints (\<lambda>v. id_bNumEndpoints_update (\<lambda>_. v)),
     Mem8 id_bInterfaceClass (\<lambda>v. id_bInterfaceClass_update (\<lambda>_. v)),
     Mem8 id_bInterfaceSubClass (\<lambda>v. id_bInterfaceSubClass_update (\<lambda>_. v)),
     Mem8 id_bInterfaceProtocol (\<lambda>v. id_bInterfaceProtocol_update (\<lambda>_. v)),
     Mem8 id_iInterface (\<lambda>v. id_iInterface_update (\<lambda>_. v))]"

text \<open>
  An endpoint is described three times: the libusb structure with all eight members (which is
  what is streamed and what an audio endpoint packs) and the plain endpoint without the last
  two.
\<close>

definition plain_endpoint_members :: "endpoint_descriptor member list" where
  "plain_endpoint_members =
    [Mem8 ed_bLength (\<lambda>v. ed_bLength_update (\<lambda>_. v)),
     Mem8 ed_bDescriptorType (\<lambda>v. ed_bDescriptorType_update (\<lambda>_. v)),
     Mem8 ed_bEndpointAddress (\<lambda>v. ed_bEndpointAddress_update (\<lambda>_. v)),
     Mem8 ed_bmAttributes (\<lambda>v. ed_bmAttributes_update (\<lambda>_. v)),
     Mem16 ed_wMaxPacketSize (\<lambda>v. ed_wMaxPacketSize_update (\<lambda>_. v)),
     Mem8 ed_bInterval (\<lambda>v. ed_bInterval_update (\<lambda>_. v))]"

definition endpoint_members :: "endpoint_descriptor member list" where
  "endpoint_members = plain_endpoint_members @
    [Mem8 ed_bRefresh (\<lambda>v. ed_bRefresh_update (\<lambda>_. v)),
     Mem8 ed_bSynchAddress (\<lambda>v. ed_bSynchAddress_update (\<lambda>_. v))]"

definition bos_members :: "bos_descriptor member list" where
  "bos_members =
    [Mem8 bd_bLength (\<lambda>v. bd_bLength_update (\<lambda>_. v)),
     Mem8 bd_bDescriptorType (\<lambda>v. bd_bDescriptorType_update (\<lambda>_. v)),
     Mem16 bd_wTotalLength (\<lambda>v. bd_wTotalLength_update (\<lambda>_. v)),
     Mem8 bd_bNumDeviceCaps (\<lambda>v. bd_bNumDeviceCaps_update (\<lambda>_. v))]"

definition dev_capability_members :: "dev_capability_descriptor member list" where
  "dev_capability_members =
    [Mem8 dc_bLength (\<lambda>v. dc_bLength_update (\<lambda>_. v)),
     Mem8 dc_bDescriptorType (\<lambda>v. dc_bDescriptorType_update (\<lambda>_. v)),
     Mem8 dc_bDevCapabilityType (\<lambda>v. dc_bDevCapabilityType_update (\<lambda>_. v))]"

interpretation device_struct: described_struct device_members
  by unfold_locales (simp add: copy_members_def device_members_def)

interpretation config_struct: described_struct config_members
  by unfold_locales (simp add: copy_members_def config_members_def)

interpretation interface_struct: described_struct interface_members
  by unfold_locales (simp add: copy_members_def interface_members_def)

interpretation endpoint_struct: described_struct endpoint_members
  by unfold_locales (simp add: copy_members_def endpoint_members_def plain_endpoint_members_def)

interpretation bos_struct: described_struct bos_members
  by unfold_locales (simp add: copy_members_def bos_members_def)

interpretation dev_capability_struct: described_struct dev_capability_members
  by unfold_locales (simp add: copy_members_def dev_capability_members_def)

lemmas member_list_defs = device_members_def config_members_def interface_members_def
  endpoint_members_def plain_endpoint_members_def bos_members_def dev_capability_members_def

definition is_audio :: "endpoint_descriptor \<Rightarrow> bool" where
  "is_audio ep_descriptor \<longleftrightarrow> ed_bLength ep_descriptor = 0x09"

definition pack_endpoint :: "endpoint_descriptor \<Rightarrow> bytes" where
  "pack_endpoint ep_descriptor =
     (if is_audio ep_descriptor then pack_described endpoint_members ep_descriptor
      else pack_described plain_endpoint_members ep_descriptor)"

definition packed_size_endpoint :: "endpoint_descriptor \<Rightarrow> u8" where
  "packed_size_endpoint ep_descriptor =
     (if is_audio ep_descriptor then packed_size endpoint_members
      else packed_size plain_endpoint_members)"

text \<open>The descriptor type and index in the halves of a request's \<open>wValue\<close>.\<close>

definition type_from_value :: "u16 \<Rightarrow> u8" where
  "type_from_value v = integral_at 1 v"

definition index_from_value :: "u16 \<Rightarrow> u8" where
  "index_from_value v = integral_at 0 v"

end
