(* ===== verification/Basic_Descriptor.thy ===== *)
theory Basic_Descriptor
  imports Descriptors
begin

text \<open>
  \<open>libusb_wrap\<close> and \<open>basic_descriptor\<close> (descriptor_classes.cppm, usb_descriptors_impl.cpp lines
  131-326) and the six descriptor classes made from them.

  The wrapped libusb structure also holds pointers (\<open>extra\<close>, \<open>endpoint\<close>, ...). \<open>wrap\<close> copies
  them, but nothing reads them from the copy: \<open>pack\<close> and \<open>stream_out\<close> visit the described
  members only. The model keeps the described members.
\<close>

section \<open>The generic class\<close>

datatype attribute = With_Wrapped | Without_Wrapped | With_Extra | Without_Extra

record ('w, 'v) basic_descriptor =
  wrapped_value :: 'w
  extra_vector :: bytes
  vectors :: "(unit, 'v) plugin"

definition wrap :: "'w \<Rightarrow> ('w, 'v) basic_descriptor \<Rightarrow> ('w, 'v) basic_descriptor" where
  "wrap w d = d\<lparr>wrapped_value := w\<rparr>"

definition extra_of :: "('w, 'v) basic_descriptor \<Rightarrow> bytes" where
  "extra_of d = extra_vector d"

definition extra_length :: "('w, 'v) basic_descriptor \<Rightarrow> nat" where
  "extra_length d = length (extra_vector d)"

definition fill_extra :: "bytes \<Rightarrow> ('w, 'v) basic_descriptor \<Rightarrow> ('w, 'v) basic_descriptor" where
  "fill_extra e d = d\<lparr>extra_vector := e\<rparr>"

definition fill_vector :: "string \<Rightarrow> 'v list \<Rightarrow> ('w, 'v) basic_descriptor \<Rightarrow> ('w, 'v) basic_descriptor" where
  "fill_vector key vs d = d\<lparr>vectors := fill () key vs (vectors d)\<rparr>"

definition read_vector :: "string \<Rightarrow> ('w, 'v) basic_descriptor \<Rightarrow> 'v list" where
  "read_vector key d = read_vec () key (vectors d) []"

definition stream_out_extra :: "('w, 'v) basic_descriptor \<Rightarrow> string" where
  "stream_out_extra d = out_size (length (extra_vector d)) @ concat (map out_u8 (extra_vector d))"

definition stream_in_extra :: "lexer \<Rightarrow> ('w, 'v) basic_descriptor \<Rightarrow> ('w, 'v) basic_descriptor reader" where
  "stream_in_extra cast d = bindS (in_size cast) (\<lambda>size.
     bindS (read_n size (in_u8 cast) (extra_vector d)) (\<lambda>e.
     returnS (d\<lparr>extra_vector := e\<rparr>)))"

definition pack_extra :: "('w, 'v) basic_descriptor \<Rightarrow> bytes" where
  "pack_extra d = extra_vector d"

definition descriptor_stream_out ::
  "attribute \<Rightarrow> attribute \<Rightarrow> 'w member list \<Rightarrow> ('v \<Rightarrow> string) \<Rightarrow> ('w, 'v) basic_descriptor \<Rightarrow> string" where
  "descriptor_stream_out wrapped extra ms e_out d =
     (if wrapped = With_Wrapped then stream_out_described ms (wrapped_value d) else '''') @
     for_each_out (\<lambda>p. out_size (length (me_vec p)) @ concat (map e_out (me_vec p))) (vectors d) @
     (if extra = With_Extra then stream_out_extra d else '''')"

text \<open>
  Reading pushes to the back of the vectors the object already has; \<open>e_in\<close> reads an element
  into a fresh \<open>T{}\<close>.
\<close>

fun entries_in :: "lexer \<Rightarrow> 'v reader \<Rightarrow> (unit, 'v) plugin \<Rightarrow> (unit, 'v) plugin reader" where
  "entries_in cast e_in [] = returnS []"
| "entries_in cast e_in (p # ps) =
     bindS (in_size cast) (\<lambda>size.
     bindS (read_n size e_in (me_vec p)) (\<lambda>vs.
     bindS (entries_in cast e_in ps) (\<lambda>ps'.
     returnS (p\<lparr>me_vec := vs\<rparr> # ps'))))"

definition descriptor_stream_in ::
  "attribute \<Rightarrow> attribute \<Rightarrow> 'w member list \<Rightarrow> (lexer \<Rightarrow> 'v reader) \<Rightarrow> lexer \<Rightarrow>
   ('w, 'v) basic_descriptor \<Rightarrow> ('w, 'v) basic_descriptor reader" where
  "descriptor_stream_in wrapped extra ms e_in cast d =
     bindS (if wrapped = With_Wrapped then stream_in_described cast ms (wrapped_value d)
            else returnS (wrapped_value d)) (\<lambda>w.
     bindS (entries_in cast (e_in cast) (vectors d)) (\<lambda>v.
     (if extra = With_Extra then stream_in_extra cast else returnS)
       (d\<lparr>wrapped_value := w, vectors := v\<rparr>)))"

definition descriptor_pack ::
  "attribute \<Rightarrow> attribute \<Rightarrow> ('w \<Rightarrow> bytes) \<Rightarrow> ('v \<Rightarrow> bytes) \<Rightarrow> ('w, 'v) basic_descriptor \<Rightarrow> bytes" where
  "descriptor_pack wrapped extra w_pack e_pack d =
     (if wrapped = With_Wrapped then w_pack (wrapped_value d) else []) @
     (if extra = With_Extra then pack_extra d else []) @
     for_each_out (\<lambda>p. concat (map e_pack (me_vec p))) (vectors d)"

section \<open>Reading back what was written\<close>

text \<open>
  A descriptor object as the program builds it: its vectors stand under the class's keys, every
  vector is shorter than \<open>2 ^ 64\<close> (a \<open>std::size_t\<close> counts it), a part the class does not have
  is untouched.
\<close>

definition wf_descriptor ::
  "attribute \<Rightarrow> attribute \<Rightarrow> 'w \<Rightarrow> string list \<Rightarrow> ('v \<Rightarrow> bool) \<Rightarrow> ('w, 'v) basic_descriptor \<Rightarrow> bool" where
  "wf_descriptor wrapped extra w0 keys wf_e d \<longleftrightarrow>
     plugin_shape (vectors d) = map (Pair ()) keys \<and>
     list_all (\<lambda>p. length (me_vec p) < 2 ^ 64 \<and> list_all wf_e (me_vec p)) (vectors d) \<and>
     (if extra = With_Extra then length (extra_vector d) < 2 ^ 64 else extra_vector d = []) \<and>
     (wrapped \<noteq> With_Wrapped \<longrightarrow> wrapped_value d = w0)"

definition descriptor_init :: "'w \<Rightarrow> string list \<Rightarrow> ('w, 'v) basic_descriptor" where
  "descriptor_init w0 keys =
     \<lparr>wrapped_value = w0, extra_vector = [], vectors = plugin_init (map (Pair ()) keys)\<rparr>"

lemma reads_entries:
  assumes cast: "lexical_cast_ok cast"
    and e: "\<And>x. wf_e x \<Longrightarrow> reads e_in (e_out x) x"
    and wf: "list_all (\<lambda>p. length (me_vec p) < 2 ^ 64 \<and> list_all wf_e (me_vec p)) ps"
  shows "reads (entries_in cast e_in (plugin_init (plugin_shape ps)))
    (for_each_out (\<lambda>p. out_size (length (me_vec p)) @ concat (map e_out (me_vec p))) ps) ps"
  using wf
proof (induction ps)
  case Nil
  show ?case by (simp add: plugin_shape_def plugin_init_def for_each_out_def reads_returnS)
next
  case (Cons p ps)
  let ?q = "\<lparr>me_type = me_type p, me_key = me_key p, me_vec = []\<rparr> :: (unit, 'a) member_entry"
  have init: "plugin_init (plugin_shape (p # ps)) = ?q # plugin_init (plugin_shape ps)"
    by (simp add: plugin_shape_def plugin_init_def)
  have vec: "reads (read_n (length (me_vec p)) e_in []) (concat (map e_out (me_vec p))) ([] @ me_vec p)"
    by (rule reads_n) (use Cons.prems e in \<open>auto simp: list_all_iff\<close>)
  have rest: "reads (bindS (entries_in cast e_in (plugin_init (plugin_shape ps)))
        (\<lambda>ps'. returnS (?q\<lparr>me_vec := me_vec p\<rparr> # ps')))
      (for_each_out (\<lambda>p. out_size (length (me_vec p)) @ concat (map e_out (me_vec p))) ps @ [])
      (?q\<lparr>me_vec := me_vec p\<rparr> # ps)"
    by (rule reads_bindS [OF _ reads_returnS]) (rule Cons.IH, use Cons.prems in simp)
  have size: "reads (in_size cast) (out_size (length (me_vec p))) (length (me_vec p))"
    using cast Cons.prems by (intro reads_size) simp_all
  have "reads (entries_in cast e_in (?q # plugin_init (plugin_shape ps)))
      (out_size (length (me_vec p)) @ concat (map e_out (me_vec p)) @
       for_each_out (\<lambda>p. out_size (length (me_vec p)) @ concat (map e_out (me_vec p))) ps @ [])
      (?q\<lparr>me_vec := me_vec p\<rparr> # ps)"
    unfolding entries_in.simps member_entry.select_convs
    by (intro reads_bindS [OF size] reads_bindS [OF vec [simplified]]) (use rest in simp)
  moreover have "?q\<lparr>me_vec := me_vec p\<rparr> = p" by (cases p) simp
  ultimately show ?case unfolding init by (simp only: for_each_out_def) simp
qed

lemma reads_extra:
  assumes "lexical_cast_ok cast" "length (extra_vector d) < 2 ^ 64" "extra_vector d0 = []"
  shows "reads (stream_in_extra cast d0) (stream_out_extra d) (d0\<lparr>extra_vector := extra_vector d\<rparr>)"
proof -
  have "reads (read_n (length (extra_vector d)) (in_u8 cast) []) (concat (map out_u8 (extra_vector d)))
      ([] @ extra_vector d)"
    using reads_u8 [OF assms(1)] by (intro reads_n)
  then have "reads (stream_in_extra cast d0)
      (out_size (length (extra_vector d)) @ concat (map out_u8 (extra_vector d)) @ [])
      (d0\<lparr>extra_vector := extra_vector d\<rparr>)"
    unfolding stream_in_extra_def assms(3)
    by (intro reads_bindS [OF reads_size [OF assms(1,2)]] reads_bindS [OF _ reads_returnS]) simp
  then show ?thesis by (simp add: stream_out_extra_def)
qed

locale descriptor_layer = element: streamable wf_e e_out e_in
  for wf_e :: "'v \<Rightarrow> bool" and e_out and e_in +
  fixes wrapped extra :: attribute and ms :: "'w member list" and w0 :: 'w and keys :: "string list"
  assumes covers: "wrapped = With_Wrapped \<Longrightarrow> copy_members ms src dst = src"
begin

lemma layer_reads:
  assumes cast: "lexical_cast_ok cast" and wf: "wf_descriptor wrapped extra w0 keys wf_e d"
  shows "reads (descriptor_stream_in wrapped extra ms e_in cast (descriptor_init w0 keys))
    (descriptor_stream_out wrapped extra ms e_out d) d"
proof -
  let ?w = "if wrapped = With_Wrapped then stream_out_described ms (wrapped_value d) else ''''"
  let ?x = "if extra = With_Extra then stream_out_extra d else ''''"
  let ?d1 = "(descriptor_init w0 keys)\<lparr>wrapped_value := wrapped_value d, vectors := vectors d\<rparr>"
  have w: "reads (if wrapped = With_Wrapped then stream_in_described cast ms w0 else returnS w0)
      ?w (wrapped_value d)"
    using reads_described [OF cast, of ms w0 "wrapped_value d"] covers wf
    by (auto simp: wf_descriptor_def reads_returnS)
  have v: "reads (entries_in cast (e_in cast) (plugin_init (map (Pair ()) keys)))
      (for_each_out (\<lambda>p. out_size (length (me_vec p)) @ concat (map e_out (me_vec p))) (vectors d))
      (vectors d)"
    using reads_entries [OF cast, of wf_e "e_in cast" e_out "vectors d"] element.reads_out [OF cast] wf
    by (simp add: wf_descriptor_def)
  have x: "reads ((if extra = With_Extra then stream_in_extra cast else returnS) ?d1) ?x d"
    using reads_extra [OF cast, of d ?d1] wf reads_returnS
    by (cases d) (auto simp: wf_descriptor_def descriptor_init_def)
  show ?thesis
    unfolding descriptor_stream_in_def descriptor_stream_out_def descriptor_init_def
      basic_descriptor.select_convs
    by (intro reads_bindS [OF w] reads_bindS [OF v])
      (use x in \<open>simp add: descriptor_init_def\<close>)
qed

end

section \<open>The descriptor classes\<close>

definition key_ep :: string where "key_ep = ''endpoint''"
definition key_interface :: string where "key_interface = ''interface''"
definition key_dev_capability_data :: string where "key_dev_capability_data = ''dev_capability_data''"
definition key_dev_capability :: string where "key_dev_capability = ''dev_capability''"
definition key_altsetting :: string where "key_altsetting = ''altsetting''"

lemmas key_defs = key_ep_def key_interface_def key_dev_capability_data_def
  key_dev_capability_def key_altsetting_def

text \<open>Value initialisation \<open>T{}\<close> of the wrapped structures.\<close>

definition zero_device :: device_descriptor where
  "zero_device = \<lparr>dd_bLength = 0, dd_bDescriptorType = 0, dd_bcdUSB = 0, dd_bDeviceClass = 0,
     dd_bDeviceSubClass = 0, dd_bDeviceProtocol = 0, dd_bMaxPacketSize0 = 0, dd_idVendor = 0,
     dd_idProduct = 0, dd_bcdDevice = 0, dd_iManufacturer = 0, dd_iProduct = 0,
     dd_iSerialNumber = 0, dd_bNumConfigurations = 0\<rparr>"

definition zero_config :: config_descriptor where
  "zero_config = \<lparr>cd_bLength = 0, cd_bDescriptorType = 0, cd_wTotalLength = 0,
     cd_bNumInterfaces = 0, cd_bConfigurationValue = 0, cd_iConfiguration = 0,
     cd_bmAttributes = 0, cd_MaxPower = 0\<rparr>"

definition zero_interface :: interface_descriptor where
  "zero_interface = \<lparr>id_bLength = 0, id_bDescriptorType = 0, id_bInterfaceNumber = 0,
     id_bAlternateSetting = 0, id_bNumEndpoints = 0, id_bInterfaceClass = 0,
     id_bInterfaceSubClass = 0, id_bInterfaceProtocol = 0, id_iInterface = 0\<rparr>"

definition zero_endpoint :: endpoint_descriptor where
  "zero_endpoint = \<lparr>ed_bLength = 0, ed_bDescriptorType = 0, ed_bEndpointAddress = 0,
     ed_bmAttributes = 0, ed_wMaxPacketSize = 0, ed_bInterval = 0, ed_bRefresh = 0,
     ed_bSynchAddress = 0\<rparr>"

definition zero_bos :: bos_descriptor where
  "zero_bos = \<lparr>bd_bLength = 0, bd_bDescriptorType = 0, bd_wTotalLength = 0, bd_bNumDeviceCaps = 0\<rparr>"

definition zero_dev_capability :: dev_capability_descriptor where
  "zero_dev_capability = \<lparr>dc_bLength = 0, dc_bDescriptorType = 0, dc_bDevCapabilityType = 0\<rparr>"

text \<open>
  \<open>endpoint\<close> has the empty plugin (\<open>empty_list\<close>): no entries, so the element type does not
  matter. \<open>usb_interface\<close> wraps \<open>libusb_interface\<close>, of which nothing is described.
\<close>

type_synonym endpoint = "(endpoint_descriptor, unit) basic_descriptor"
type_synonym iface = "(interface_descriptor, endpoint) basic_descriptor"
type_synonym usb_interface = "(unit, iface) basic_descriptor"
type_synonym config = "(config_descriptor, usb_interface) basic_descriptor"
type_synonym bos_dev_capability = "(dev_capability_descriptor, u8) basic_descriptor"
type_synonym bos = "(bos_descriptor, bos_dev_capability) basic_descriptor"

definition no_element_out :: "unit \<Rightarrow> string" where "no_element_out u = ''''"
definition no_element_in :: "lexer \<Rightarrow> unit reader" where "no_element_in cast = returnS ()"

definition endpoint_init :: endpoint where
  "endpoint_init = descriptor_init zero_endpoint []"
definition endpoint_out :: "endpoint \<Rightarrow> string" where
  "endpoint_out = descriptor_stream_out With_Wrapped With_Extra endpoint_members no_element_out"
definition endpoint_in :: "lexer \<Rightarrow> endpoint reader" where
  "endpoint_in cast = descriptor_stream_in With_Wrapped With_Extra endpoint_members no_element_in cast endpoint_init"
definition endpoint_pack :: "endpoint \<Rightarrow> bytes" where
  "endpoint_pack = descriptor_pack With_Wrapped With_Extra pack_endpoint (\<lambda>_. [])"
definition wf_endpoint :: "endpoint \<Rightarrow> bool" where
  "wf_endpoint = wf_descriptor With_Wrapped With_Extra zero_endpoint [] (\<lambda>_. True)"

definition address :: "endpoint \<Rightarrow> u8" where
  "address ep = ed_bEndpointAddress (wrapped_value ep)"
definition attributes :: "endpoint \<Rightarrow> u8" where
  "attributes ep = ed_bmAttributes (wrapped_value ep)"

definition iface_init :: iface where
  "iface_init = descriptor_init zero_interface [key_ep]"
definition iface_out :: "iface \<Rightarrow> string" where
  "iface_out = descriptor_stream_out With_Wrapped With_Extra interface_members endpoint_out"
definition iface_in :: "lexer \<Rightarrow> iface reader" where
  "iface_in cast = descriptor_stream_in With_Wrapped With_Extra interface_members endpoint_in cast iface_init"
definition iface_pack :: "iface \<Rightarrow> bytes" where
  "iface_pack = descriptor_pack With_Wrapped With_Extra (pack_described interface_members) endpoint_pack"
definition wf_iface :: "iface \<Rightarrow> bool" where
  "wf_iface = wf_descriptor With_Wrapped With_Extra zero_interface [key_ep] wf_endpoint"

definition usb_interface_init :: usb_interface where
  "usb_interface_init = descriptor_init () [key_altsetting]"
definition usb_interface_out :: "usb_interface \<Rightarrow> string" where
  "usb_interface_out = descriptor_stream_out Without_Wrapped Without_Extra [] iface_out"
definition usb_interface_in :: "lexer \<Rightarrow> usb_interface reader" where
  "usb_interface_in cast = descriptor_stream_in Without_Wrapped Without_Extra [] iface_in cast usb_interface_init"
definition usb_interface_pack :: "usb_interface \<Rightarrow> bytes" where
  "usb_interface_pack = descriptor_pack Without_Wrapped Without_Extra (\<lambda>_. []) iface_pack"
definition wf_usb_interface :: "usb_interface \<Rightarrow> bool" where
  "wf_usb_interface = wf_descriptor Without_Wrapped Without_Extra () [key_altsetting] wf_iface"

definition config_init :: config where
  "config_init = descriptor_init zero_config [key_interface]"
definition config_out :: "config \<Rightarrow> string" where
  "config_out = descriptor_stream_out With_Wrapped With_Extra config_members usb_interface_out"
definition config_stream_in :: "lexer \<Rightarrow> config \<Rightarrow> config reader" where
  "config_stream_in cast c = descriptor_stream_in With_Wrapped With_Extra config_members usb_interface_in cast c"
definition config_pack :: "config \<Rightarrow> bytes" where
  "config_pack = descriptor_pack With_Wrapped With_Extra (pack_described config_members) usb_interface_pack"
definition wf_config :: "config \<Rightarrow> bool" where
  "wf_config = wf_descriptor With_Wrapped With_Extra zero_config [key_interface] wf_usb_interface"

definition self_powered_mask :: u8 where "self_powered_mask = 0b10000000"
definition config_is_self_powered :: "config \<Rightarrow> bool" where
  "config_is_self_powered c \<longleftrightarrow> cd_bmAttributes (wrapped_value c) AND self_powered_mask \<noteq> 0"

definition dev_capability_init :: bos_dev_capability where
  "dev_capability_init = descriptor_init zero_dev_capability [key_dev_capability_data]"
definition dev_capability_out :: "bos_dev_capability \<Rightarrow> string" where
  "dev_capability_out = descriptor_stream_out With_Wrapped Without_Extra dev_capability_members out_u8"
definition dev_capability_in :: "lexer \<Rightarrow> bos_dev_capability reader" where
  "dev_capability_in cast = descriptor_stream_in With_Wrapped Without_Extra dev_capability_members in_u8 cast dev_capability_init"
definition dev_capability_pack :: "bos_dev_capability \<Rightarrow> bytes" where
  "dev_capability_pack = descriptor_pack With_Wrapped Without_Extra (pack_described dev_capability_members) (\<lambda>b. [b])"
definition wf_dev_capability :: "bos_dev_capability \<Rightarrow> bool" where
  "wf_dev_capability = wf_descriptor With_Wrapped Without_Extra zero_dev_capability [key_dev_capability_data] (\<lambda>_. True)"

definition bos_init :: bos where
  "bos_init = descriptor_init zero_bos [key_dev_capability]"
definition bos_out :: "bos \<Rightarrow> string" where
  "bos_out = descriptor_stream_out With_Wrapped Without_Extra bos_members dev_capability_out"
definition bos_stream_in :: "lexer \<Rightarrow> bos \<Rightarrow> bos reader" where
  "bos_stream_in cast b = descriptor_stream_in With_Wrapped Without_Extra bos_members dev_capability_in cast b"
definition bos_pack :: "bos \<Rightarrow> bytes" where
  "bos_pack = descriptor_pack With_Wrapped Without_Extra (pack_described bos_members) dev_capability_pack"
definition wf_bos :: "bos \<Rightarrow> bool" where
  "wf_bos = wf_descriptor With_Wrapped Without_Extra zero_bos [key_dev_capability] wf_dev_capability"

text \<open>Each class is a layer over the one below; its own contract follows from the layer lemma.\<close>

interpretation no_element: streamable "\<lambda>_. True" no_element_out no_element_in
  by unfold_locales (simp add: no_element_out_def no_element_in_def reads_returnS)

interpretation endpoint_layer: descriptor_layer "\<lambda>_. True" no_element_out no_element_in
    With_Wrapped With_Extra endpoint_members zero_endpoint "[]"
  by unfold_locales (rule endpoint_struct.covers)

interpretation endpoint_stream: streamable wf_endpoint endpoint_out endpoint_in
  by unfold_locales
    (simp add: wf_endpoint_def endpoint_out_def endpoint_in_def endpoint_init_def endpoint_layer.layer_reads)

interpretation iface_layer: descriptor_layer wf_endpoint endpoint_out endpoint_in
    With_Wrapped With_Extra interface_members zero_interface "[key_ep]"
  by unfold_locales (rule interface_struct.covers)

interpretation iface_stream: streamable wf_iface iface_out iface_in
  by unfold_locales
    (simp add: wf_iface_def iface_out_def iface_in_def iface_init_def iface_layer.layer_reads)

interpretation usb_interface_layer: descriptor_layer wf_iface iface_out iface_in
    Without_Wrapped Without_Extra "[]" "()" "[key_altsetting]"
  by unfold_locales simp

interpretation usb_interface_stream: streamable wf_usb_interface usb_interface_out usb_interface_in
  by unfold_locales
    (simp add: wf_usb_interface_def usb_interface_out_def usb_interface_in_def
      usb_interface_init_def usb_interface_layer.layer_reads)

interpretation config_layer: descriptor_layer wf_usb_interface usb_interface_out usb_interface_in
    With_Wrapped With_Extra config_members zero_config "[key_interface]"
  by unfold_locales (rule config_struct.covers)

lemma reads_config:
  "lexical_cast_ok cast \<Longrightarrow> wf_config c \<Longrightarrow> reads (config_stream_in cast config_init) (config_out c) c"
  by (simp add: wf_config_def config_out_def config_stream_in_def config_init_def config_layer.layer_reads)

interpretation dev_capability_layer: descriptor_layer "\<lambda>_. True" out_u8 in_u8
    With_Wrapped Without_Extra dev_capability_members zero_dev_capability "[key_dev_capability_data]"
  by unfold_locales (rule dev_capability_struct.covers)

interpretation dev_capability_stream: streamable wf_dev_capability dev_capability_out dev_capability_in
  by unfold_locales
    (simp add: wf_dev_capability_def dev_capability_out_def dev_capability_in_def
      dev_capability_init_def dev_capability_layer.layer_reads)

interpretation bos_layer: descriptor_layer wf_dev_capability dev_capability_out dev_capability_in
    With_Wrapped Without_Extra bos_members zero_bos "[key_dev_capability]"
  by unfold_locales (rule bos_struct.covers)

lemma reads_bos:
  "lexical_cast_ok cast \<Longrightarrow> wf_bos b \<Longrightarrow> reads (bos_stream_in cast bos_init) (bos_out b) b"
  by (simp add: wf_bos_def bos_out_def bos_stream_in_def bos_init_def bos_layer.layer_reads)

lemmas wf_class_defs = wf_endpoint_def wf_iface_def wf_usb_interface_def wf_config_def
  wf_dev_capability_def wf_bos_def

lemmas init_class_defs = endpoint_init_def iface_init_def usb_interface_init_def config_init_def
  dev_capability_init_def bos_init_def

end
