(* ===== verification/Std_Map.thy ===== *)
theory Std_Map
  imports Prelude
begin

text \<open>
  \<open>std::map\<close> and \<open>std::set\<close> of the sources, as association lists sorted by key: the order in
  which the code iterates is the order of the list. \<open>om_insert\<close> is \<open>insert\<close>/\<open>emplace\<close> (an
  existing key keeps its value, the flag says whether the element went in), \<open>om_assign\<close> is
  \<open>m[k] = v\<close>, \<open>om_erase\<close> is \<open>erase\<close>. The locale states what the client code relies on, and
  its lemmas are what the component theories use.
\<close>

section \<open>Ordered maps\<close>

type_synonym ('k, 'v) omap = "('k \<times> 'v) list"

definition om_inv :: "('k::linorder, 'v) omap \<Rightarrow> bool" where
  "om_inv m \<longleftrightarrow> sorted_wrt (<) (map fst m)"

definition om_find :: "('k, 'v) omap \<Rightarrow> 'k \<Rightarrow> 'v option" where
  "om_find m k = map_of m k"

fun om_insert :: "'k::linorder \<Rightarrow> 'v \<Rightarrow> ('k, 'v) omap \<Rightarrow> ('k, 'v) omap \<times> bool" where
  "om_insert k v [] = ([(k, v)], True)"
| "om_insert k v ((k', v') # m) =
     (if k < k' then ((k, v) # (k', v') # m, True)
      else if k = k' then ((k', v') # m, False)
      else (let (m', b) = om_insert k v m in ((k', v') # m', b)))"

fun om_assign :: "'k::linorder \<Rightarrow> 'v \<Rightarrow> ('k, 'v) omap \<Rightarrow> ('k, 'v) omap" where
  "om_assign k v [] = [(k, v)]"
| "om_assign k v ((k', v') # m) =
     (if k < k' then (k, v) # (k', v') # m
      else if k = k' then (k, v) # m
      else (k', v') # om_assign k v m)"

definition om_erase :: "'k \<Rightarrow> ('k, 'v) omap \<Rightarrow> ('k, 'v) omap" where
  "om_erase k m = filter (\<lambda>e. fst e \<noteq> k) m"

lemma om_inv_Nil [simp]: "om_inv []"
  by (simp add: om_inv_def)

lemma om_inv_Cons: "om_inv ((k, v) # m) \<longleftrightarrow> (\<forall>e\<in>set m. k < fst e) \<and> om_inv m"
  by (auto simp: om_inv_def)

lemma om_inv_distinct: "om_inv m \<Longrightarrow> distinct (map fst m)"
  by (simp add: om_inv_def strict_sorted_iff)

lemma fst_om_insert_Cons [simp]:
  "fst (om_insert k v (e # m)) =
     (if k < fst e then (k, v) # e # m else if k = fst e then e # m else e # fst (om_insert k v m))"
  by (cases e) (simp split: prod.splits)

lemma snd_om_insert_Cons [simp]:
  "snd (om_insert k v (e # m)) = (k < fst e \<or> k \<noteq> fst e \<and> snd (om_insert k v m))"
  by (cases e) (simp split: prod.splits)

lemma om_insert_keys: "fst ` set (fst (om_insert k v m)) = insert k (fst ` set m)"
proof (induction m)
  case (Cons e m)
  then show ?case by (simp add: insert_commute)
qed simp

lemma om_insert_flag: "om_inv m \<Longrightarrow> snd (om_insert k v m) \<longleftrightarrow> k \<notin> fst ` set m"
proof (induction m)
  case (Cons e m)
  then have "om_inv m" and lt: "\<forall>x\<in>set m. fst e < fst x"
    by (cases e, simp add: om_inv_Cons)+
  have "k \<notin> fst ` set m" if "k < fst e" using lt that by fastforce
  with Cons.IH [OF \<open>om_inv m\<close>] show ?case by auto
qed simp

lemma om_inv_insert: "om_inv m \<Longrightarrow> om_inv (fst (om_insert k v m))"
proof (induction m)
  case Nil
  then show ?case by (simp add: om_inv_def)
next
  case (Cons e m)
  obtain k' v' where e: "e = (k', v')" by force
  have "\<forall>x\<in>set (fst (om_insert k v m)). k' < fst x" if "k' < k"
    using om_insert_keys [of k v m] Cons.prems that unfolding e om_inv_Cons by force
  with Cons show ?case unfolding e
    by (auto simp: om_inv_Cons split: prod.splits)
qed

lemma om_find_insert:
  "om_inv m \<Longrightarrow> om_find (fst (om_insert k v m)) =
     (if om_find m k = None then (om_find m)(k \<mapsto> v) else om_find m)"
proof (induction m)
  case Nil
  then show ?case by (auto simp: om_find_def)
next
  case (Cons e m)
  obtain k' v' where e: "e = (k', v')" by force
  have lt: "k < k' \<Longrightarrow> map_of m k = None"
    using Cons.prems unfolding e om_inv_Cons by (fastforce simp: map_of_eq_None_iff)
  from Cons lt show ?case unfolding e
    by (auto simp: om_inv_Cons om_find_def fun_eq_iff split: prod.splits)
qed

lemma om_assign_keys: "fst ` set (om_assign k v m) = insert k (fst ` set m)"
proof (induction m)
  case (Cons e m)
  then show ?case by (cases e) (simp add: insert_commute)
qed simp

lemma om_inv_assign: "om_inv m \<Longrightarrow> om_inv (om_assign k v m)"
proof (induction m)
  case Nil
  then show ?case by (simp add: om_inv_def)
next
  case (Cons e m)
  obtain k' v' where e: "e = (k', v')" by force
  have "\<forall>x\<in>set (om_assign k v m). k' < fst x" if "k' < k"
    using om_assign_keys [of k v m] Cons.prems that unfolding e om_inv_Cons by force
  with Cons show ?case unfolding e by (auto simp: om_inv_Cons)
qed

lemma om_find_assign: "om_find (om_assign k v m) = (om_find m)(k \<mapsto> v)"
  by (induction m) (auto simp: om_find_def fun_eq_iff)

lemma om_inv_erase: "om_inv m \<Longrightarrow> om_inv (om_erase k m)"
  by (induction m) (auto simp: om_inv_Cons om_erase_def)

lemma om_find_erase: "om_find (om_erase k m) = (om_find m)(k := None)"
  by (induction m) (auto simp: om_find_def om_erase_def fun_eq_iff)

lemma om_find_None_iff: "om_find m k = None \<longleftrightarrow> k \<notin> fst ` set m"
  by (simp add: om_find_def map_of_eq_None_iff)

text \<open>Inserting a key above all others appends: how the loops that build a map behave.\<close>

lemma om_insert_last:
  "\<forall>e\<in>set m. fst e < k \<Longrightarrow> om_insert k v m = (m @ [(k, v)], True)"
  by (induction m) auto

lemma om_inv_snoc: "om_inv (m @ [(k, v)]) \<longleftrightarrow> om_inv m \<and> (\<forall>e\<in>set m. fst e < k)"
  by (auto simp: om_inv_def sorted_wrt_append)

section \<open>The interface the client code relies on\<close>

locale ordered_container =
  fixes empty :: "'m"
    and find :: "'m \<Rightarrow> 'k \<Rightarrow> 'v option"
    and insert :: "'k \<Rightarrow> 'v \<Rightarrow> 'm \<Rightarrow> 'm \<times> bool"
    and erase :: "'k \<Rightarrow> 'm \<Rightarrow> 'm"
    and invar :: "'m \<Rightarrow> bool"
  assumes invar_empty: "invar empty"
    and find_empty: "find empty k = None"
    and invar_insert: "invar m \<Longrightarrow> invar (fst (insert k v m))"
    and find_insert: "invar m \<Longrightarrow> find (fst (insert k v m)) =
      (if find m k = None then (find m)(k \<mapsto> v) else find m)"
    and insert_flag: "invar m \<Longrightarrow> snd (insert k v m) \<longleftrightarrow> find m k = None"
    and invar_erase: "invar m \<Longrightarrow> invar (erase k m)"
    and find_erase: "invar m \<Longrightarrow> find (erase k m) = (find m)(k := None)"
begin

lemma find_insert_new: "invar m \<Longrightarrow> find m k = None \<Longrightarrow> find (fst (insert k v m)) k = Some v"
  by (simp add: find_insert)

lemma find_insert_old: "invar m \<Longrightarrow> find m k = Some w \<Longrightarrow> find (fst (insert k v m)) = find m"
  by (simp add: find_insert)

lemma find_insert_other: "invar m \<Longrightarrow> k' \<noteq> k \<Longrightarrow> find (fst (insert k v m)) k' = find m k'"
  by (simp add: find_insert)

lemma insert_twice: "invar m \<Longrightarrow>
    find (fst (insert k w (fst (insert k v m)))) = find (fst (insert k v m))"
  by (rule find_insert_old [where w = "the (find (fst (insert k v m)) k)"])
    (auto simp: find_insert invar_insert)

lemma erase_insert: "invar m \<Longrightarrow> find m k = None \<Longrightarrow>
    find (erase k (fst (insert k v m))) = find m"
  by (auto simp: find_insert find_erase invar_insert fun_eq_iff)

lemma find_erase_same: "invar m \<Longrightarrow> find (erase k m) k = None"
  by (simp add: find_erase)

end

interpretation smap: ordered_container "[]" om_find om_insert om_erase om_inv
  by unfold_locales
    (simp_all add: om_inv_insert om_find_insert om_insert_flag om_inv_erase om_find_erase
      om_find_None_iff)

text \<open>A \<open>std::set\<close> is a map to \<open>unit\<close>; only membership is observed.\<close>

type_synonym 'k oset = "('k, unit) omap"

definition os_contains :: "'k oset \<Rightarrow> 'k \<Rightarrow> bool" where
  "os_contains s k \<longleftrightarrow> om_find s k \<noteq> None"

lemma os_contains_insert: "om_inv s \<Longrightarrow>
    os_contains (fst (om_insert k () s)) k' \<longleftrightarrow> k' = k \<or> os_contains s k'"
  by (auto simp: os_contains_def om_find_insert)

lemma os_contains_erase: "os_contains (om_erase k s) k' \<longleftrightarrow> k' \<noteq> k \<and> os_contains s k'"
  by (auto simp: os_contains_def om_find_erase)

lemma os_contains_Nil [simp]: "\<not> os_contains [] k"
  by (simp add: os_contains_def om_find_def)

end
