(* ===== verification/Descriptor_Tree.thy ===== *)
theory Descriptor_Tree
  imports Basic_Descriptor Std_Map
begin

text \<open>
  The libusb structures with their pointers, \<open>packer\<close>, \<open>tree\<close> with its \<open>build\<close> functions, and
  saving and loading a device configuration (usb_descriptors_impl.cpp lines 209-756, tree.cppm,
  packer.cppm).
\<close>

section \<open>Structures with pointers\<close>

record libusb_endpoint_descriptor =
  lep_desc :: endpoint_descriptor
  lep_extra :: "u8 ptr"
  lep_extra_length :: int

record libusb_interface_descriptor =
  lid_desc :: interface_descriptor
  lid_endpoint :: "libusb_endpoint_descriptor ptr"
  lid_extra :: "u8 ptr"
  lid_extra_length :: int

record libusb_interface =
  lif_altsetting :: "libusb_interface_descriptor ptr"
  lif_num_altsetting :: int

record libusb_config_descriptor =
  lcd_desc :: config_descriptor
  lcd_interface :: "libusb_interface ptr"
  lcd_extra :: "u8 ptr"
  lcd_extra_length :: int

text \<open>
  \<open>dev_capability_data\<close> is a flexible array: the bytes that follow the header. The BOS
  descriptor holds an array of pointers to capabilities, each possibly null.
\<close>

record libusb_bos_dev_capability_descriptor =
  ldc_desc :: dev_capability_descriptor
  ldc_data :: bytes

record libusb_bos_descriptor =
  lbd_desc :: bos_descriptor
  lbd_dev_capability :: "libusb_bos_dev_capability_descriptor option list"

section \<open>packer\<close>

text \<open>Every function appends to \<open>packed_data_\<close>, its last argument.\<close>

definition to_packing_type :: "bytes \<Rightarrow> bytes \<Rightarrow> bytes" where
  "to_packing_type inp out = out @ inp"

definition packer_pack_device :: "device_descriptor \<Rightarrow> bytes \<Rightarrow> bytes" where
  "packer_pack_device d out = out @ pack_described device_members d"

definition packer_pack_extra :: "u8 ptr \<Rightarrow> int \<Rightarrow> bytes \<Rightarrow> bytes res" where
  "packer_pack_extra p len out =
     (if len = 0 then Inr out
      else bindR (vectorize p (size_of_int len)) (\<lambda>e. Inr (out @ e)))"

definition pack_endpoint_descriptor :: "libusb_endpoint_descriptor \<Rightarrow> bytes \<Rightarrow> bytes res" where
  "pack_endpoint_descriptor ep out =
     packer_pack_extra (lep_extra ep) (lep_extra_length ep) (out @ pack_endpoint (lep_desc ep))"

definition pack_interface_descriptor :: "libusb_interface_descriptor \<Rightarrow> bytes \<Rightarrow> bytes res" where
  "pack_interface_descriptor i out =
     bindR (packer_pack_extra (lid_extra i) (lid_extra_length i)
       (out @ pack_described interface_members (lid_desc i))) (\<lambda>out.
     bindR (vectorize (lid_endpoint i) (unat (id_bNumEndpoints (lid_desc i)))) (\<lambda>endpoints.
     foldR pack_endpoint_descriptor endpoints out))"

definition pack_interface :: "libusb_interface \<Rightarrow> bytes \<Rightarrow> bytes res" where
  "pack_interface i out =
     bindR (vectorize (lif_altsetting i) (size_of_int (lif_num_altsetting i))) (\<lambda>altsettings.
     foldR pack_interface_descriptor altsettings out)"

definition pack_interfaces :: "libusb_config_descriptor \<Rightarrow> bytes \<Rightarrow> bytes res" where
  "pack_interfaces c out =
     bindR (vectorize (lcd_interface c) (unat (cd_bNumInterfaces (lcd_desc c)))) (\<lambda>ifaces.
     foldR pack_interface ifaces out)"

definition packer_pack_libusb_config :: "libusb_config_descriptor \<Rightarrow> bytes \<Rightarrow> bytes res" where
  "packer_pack_libusb_config c out =
     bindR (packer_pack_extra (lcd_extra c) (lcd_extra_length c)
       (out @ pack_described config_members (lcd_desc c))) (pack_interfaces c)"

definition packer_pack_config :: "config \<Rightarrow> bytes \<Rightarrow> bytes" where
  "packer_pack_config c out = out @ config_pack c"

definition pack_bos_dev_capability_descriptor ::
  "libusb_bos_dev_capability_descriptor option \<Rightarrow> bytes \<Rightarrow> bytes res" where
  "pack_bos_dev_capability_descriptor dev_cap_desc out =
     (case dev_cap_desc of
        None \<Rightarrow> Inl Assertion_Failed
      | Some d \<Rightarrow>
          (let cap_data_size = uint (dc_bLength (ldc_desc d)) - uint (packed_size dev_capability_members)
           in bindR (vectorize (Some (ldc_data d)) (size_of_int cap_data_size)) (\<lambda>cap_data.
              Inr (out @ pack_described dev_capability_members (ldc_desc d) @ cap_data))))"

definition packer_pack_libusb_bos :: "libusb_bos_descriptor option \<Rightarrow> bytes \<Rightarrow> bytes res" where
  "packer_pack_libusb_bos bos_descriptor out =
     (case bos_descriptor of
        None \<Rightarrow> Inl Assertion_Failed
      | Some b \<Rightarrow>
          bindR (vectorize (Some (lbd_dev_capability b)) (unat (bd_bNumDeviceCaps (lbd_desc b)))) (\<lambda>dev_caps.
          foldR (\<lambda>d out. bindR (viu_assert (d \<noteq> None)) (\<lambda>_. pack_bos_dev_capability_descriptor d out))
            dev_caps (out @ pack_described bos_members (lbd_desc b))))"

definition packer_pack_bos :: "bos \<Rightarrow> bytes \<Rightarrow> bytes" where
  "packer_pack_bos b out = out @ bos_pack b"

section \<open>Building wrapped descriptors\<close>

definition vector_of_extra :: "u8 ptr \<Rightarrow> int \<Rightarrow> bytes res" where
  "vector_of_extra p len = vectorize p (size_of_int len)"

definition build_endpoint :: "libusb_endpoint_descriptor \<Rightarrow> endpoint res" where
  "build_endpoint ep =
     bindR (vector_of_extra (lep_extra ep) (lep_extra_length ep)) (\<lambda>e.
     Inr (wrap (lep_desc ep) (fill_extra e endpoint_init)))"

definition build_interface_descriptor :: "libusb_interface_descriptor \<Rightarrow> iface res" where
  "build_interface_descriptor i =
     bindR (vector_of_extra (lid_extra i) (lid_extra_length i)) (\<lambda>e.
     bindR (vectorize (lid_endpoint i) (unat (id_bNumEndpoints (lid_desc i)))) (\<lambda>eps.
     bindR (mapR build_endpoint eps) (\<lambda>ep_vector.
     Inr (wrap (lid_desc i) (fill_vector key_ep ep_vector (fill_extra e iface_init))))))"

definition build_interface :: "libusb_interface \<Rightarrow> usb_interface res" where
  "build_interface i =
     bindR (vectorize (lif_altsetting i) (size_of_int (lif_num_altsetting i))) (\<lambda>altsettings.
     bindR (mapR build_interface_descriptor altsettings) (\<lambda>altsetting_vector.
     Inr (wrap () (fill_vector key_altsetting altsetting_vector usb_interface_init))))"

definition build_config :: "libusb_config_descriptor option \<Rightarrow> config \<Rightarrow> config res" where
  "build_config config_desc wrapped_config_desc =
     (case config_desc of
        None \<Rightarrow> Inl Assertion_Failed
      | Some c \<Rightarrow>
          bindR (vector_of_extra (lcd_extra c) (lcd_extra_length c)) (\<lambda>e.
          bindR (viu_assert (lcd_interface c \<noteq> None)) (\<lambda>_.
          bindR (vectorize (lcd_interface c) (unat (cd_bNumInterfaces (lcd_desc c)))) (\<lambda>ifaces.
          bindR (mapR build_interface ifaces) (\<lambda>interface_vector.
          Inr (wrap (lcd_desc c)
                (fill_vector key_interface interface_vector (fill_extra e wrapped_config_desc))))))))"

definition build_dev_capability :: "libusb_bos_dev_capability_descriptor option \<Rightarrow> bos_dev_capability res" where
  "build_dev_capability dev_cap_desc =
     (case dev_cap_desc of
        None \<Rightarrow> Inl Assertion_Failed
      | Some d \<Rightarrow>
          bindR (vectorize (Some (ldc_data d)) (size_of_int (uint (dc_bLength (ldc_desc d)) - 3))) (\<lambda>data.
          Inr (wrap (ldc_desc d) (fill_vector key_dev_capability_data data dev_capability_init))))"

definition build_bos :: "libusb_bos_descriptor option \<Rightarrow> bos \<Rightarrow> bos res" where
  "build_bos bos_desc wrapped_bos_desc =
     (case bos_desc of
        None \<Rightarrow> Inr wrapped_bos_desc
      | Some b \<Rightarrow>
          bindR (vectorize (Some (lbd_dev_capability b)) (unat (bd_bNumDeviceCaps (lbd_desc b)))) (\<lambda>dev_caps.
          bindR (mapR build_dev_capability dev_caps) (\<lambda>dev_cap_vector.
          Inr (wrap (lbd_desc b) (fill_vector key_dev_capability dev_cap_vector wrapped_bos_desc)))))"

section \<open>The tree\<close>

type_synonym string_descriptor_map = "(u16, bytes list) omap"

record tree =
  device_desc :: device_descriptor
  wrapped_config_desc :: config
  string_descs :: string_descriptor_map
  wrapped_bos_desc :: bos
  report_desc :: bytes

definition tree_init :: tree where
  "tree_init = \<lparr>device_desc = zero_device, wrapped_config_desc = config_init, string_descs = [],
     wrapped_bos_desc = bos_init, report_desc = []\<rparr>"

definition tree_construct ::
  "device_descriptor \<Rightarrow> libusb_config_descriptor option \<Rightarrow> string_descriptor_map \<Rightarrow>
   libusb_bos_descriptor option \<Rightarrow> bytes \<Rightarrow> tree res" where
  "tree_construct device config_desc strings bos_desc report =
     bindR (build_config config_desc config_init) (\<lambda>c.
     bindR (build_bos bos_desc bos_init) (\<lambda>b.
     Inr \<lparr>device_desc = device, wrapped_config_desc = c, string_descs = strings,
          wrapped_bos_desc = b, report_desc = report\<rparr>))"

section \<open>Saving and loading\<close>

text \<open>
  \<open>streamer::out\<close>: every \<open>stream\<close> asserts that the file is open (\<open>is_open\<close>) and appends.
\<close>

definition stream_strings_out :: "string_descriptor_map \<Rightarrow> string" where
  "stream_strings_out m =
     out_size (length m) @
     concat (map (\<lambda>(lang, sd). out_u16 lang @ out_size (length sd) @
       concat (map (\<lambda>v. out_size (length v) @ concat (map out_u8 v)) sd)) m)"

definition stream_report_out :: "bytes \<Rightarrow> string" where
  "stream_report_out r = out_size (length r) @ concat (map out_u8 r)"

definition tree_save :: "bool \<Rightarrow> tree \<Rightarrow> string res" where
  "tree_save is_open t =
     bindR (viu_assert is_open) (\<lambda>_.
     Inr (stream_out_described device_members (device_desc t) @
          config_out (wrapped_config_desc t) @
          stream_strings_out (string_descs t) @
          stream_report_out (report_desc t) @
          bos_out (wrapped_bos_desc t)))"

text \<open>
  \<open>streamer::in\<close>: a \<open>.json\<close> file is converted by the JSON parser, whose exceptions are caught
  and printed, so the stream holds what the parser wrote until then (\<open>json_text\<close>); any other
  file is taken as it is, and must open.
\<close>

definition streamer_in :: "bool \<Rightarrow> string option \<Rightarrow> string \<Rightarrow> string res" where
  "streamer_in is_json file json_text =
     (if is_json then Inr json_text
      else (case file of None \<Rightarrow> Inl Assertion_Failed | Some text \<Rightarrow> Inr text))"

definition in_bytes :: "lexer \<Rightarrow> bytes \<Rightarrow> bytes reader" where
  "in_bytes cast v = bindS (in_size cast) (\<lambda>vector_size. read_n vector_size (in_u8 cast) v)"

fun stream_strings_loop :: "lexer \<Rightarrow> nat \<Rightarrow> string_descriptor_map \<Rightarrow> string_descriptor_map reader" where
  "stream_strings_loop cast 0 m = returnS m"
| "stream_strings_loop cast (Suc i) m =
     bindS (in_u16 cast) (\<lambda>lang_id.
     bindS (in_size cast) (\<lambda>size.
     bindS (read_n size (in_bytes cast []) []) (\<lambda>sd.
     stream_strings_loop cast i (fst (om_insert lang_id sd m)))))"

definition stream_strings_in :: "lexer \<Rightarrow> string_descriptor_map \<Rightarrow> string_descriptor_map reader" where
  "stream_strings_in cast m = bindS (in_size cast) (\<lambda>map_size. stream_strings_loop cast map_size m)"

definition tree_stream_in :: "lexer \<Rightarrow> tree \<Rightarrow> tree reader" where
  "tree_stream_in cast t =
     bindS (stream_in_described cast device_members (device_desc t)) (\<lambda>d.
     bindS (config_stream_in cast (wrapped_config_desc t)) (\<lambda>c.
     bindS (stream_strings_in cast (string_descs t)) (\<lambda>m.
     bindS (in_bytes cast (report_desc t)) (\<lambda>r.
     bindS (bos_stream_in cast (wrapped_bos_desc t)) (\<lambda>b.
     returnS \<lparr>device_desc = d, wrapped_config_desc = c, string_descs = m,
              wrapped_bos_desc = b, report_desc = r\<rparr>)))))"

definition tree_load :: "lexer \<Rightarrow> string res \<Rightarrow> tree \<Rightarrow> tree res" where
  "tree_load cast is t = bindR is (\<lambda>s. bindR (tree_stream_in cast t s) (\<lambda>(t', s'). Inr t'))"

text \<open>A tree as the program builds it.\<close>

definition wf_strings :: "string_descriptor_map \<Rightarrow> bool" where
  "wf_strings m \<longleftrightarrow> om_inv m \<and> length m < 2 ^ 64 \<and>
     list_all (\<lambda>(lang, sd). length sd < 2 ^ 64 \<and> list_all (\<lambda>v. length v < 2 ^ 64) sd) m"

definition wf_tree :: "tree \<Rightarrow> bool" where
  "wf_tree t \<longleftrightarrow> wf_config (wrapped_config_desc t) \<and> wf_strings (string_descs t) \<and>
     length (report_desc t) < 2 ^ 64 \<and> wf_bos (wrapped_bos_desc t)"

lemma reads_in_bytes:
  assumes "lexical_cast_ok cast" "length v < 2 ^ 64"
  shows "reads (in_bytes cast acc) (out_size (length v) @ concat (map out_u8 v)) (acc @ v)"
  using byte_stream.reads_vector_out [OF assms(1) assms(2), of acc]
  by (simp add: in_vector_def out_vector_def in_bytes_def)

lemma reads_strings_loop:
  assumes cast: "lexical_cast_ok cast"
  shows "list_all (\<lambda>(lang, sd). length sd < 2 ^ 64 \<and> list_all (\<lambda>v. length v < 2 ^ 64) sd) ms \<Longrightarrow>
    om_inv (pre @ ms) \<Longrightarrow>
    reads (stream_strings_loop cast (length ms) pre)
      (concat (map (\<lambda>(lang, sd). out_u16 lang @ out_size (length sd) @
         concat (map (\<lambda>v. out_size (length v) @ concat (map out_u8 v)) sd)) ms))
      (pre @ ms)"
proof (induction ms arbitrary: pre)
  case Nil
  show ?case by (simp add: reads_returnS)
next
  case (Cons e ms)
  obtain lang sd where e: "e = (lang, sd)" by force
  have inv: "om_inv ((pre @ [(lang, sd)]) @ ms)" using Cons.prems(2) e by simp
  then have "om_inv (pre @ [(lang, sd)])" by (simp add: om_inv_def sorted_wrt_append)
  then have ins: "om_insert lang sd pre = (pre @ [(lang, sd)], True)"
    by (intro om_insert_last) (simp add: om_inv_snoc)
  have vecs: "reads (read_n (length sd) (in_bytes cast []) [])
      (concat (map (\<lambda>v. out_size (length v) @ concat (map out_u8 v)) sd)) ([] @ sd)"
    by (rule reads_n) (use reads_in_bytes [OF cast, of _ "[]"] Cons.prems(1) e in \<open>auto simp: list_all_iff\<close>)
  have size: "reads (in_size cast) (out_size (length sd)) (length sd)"
    using cast Cons.prems(1) e by (intro reads_size) simp_all
  have rest: "reads (stream_strings_loop cast (length ms) (fst (om_insert lang sd pre)))
      (concat (map (\<lambda>(lang, sd). out_u16 lang @ out_size (length sd) @
         concat (map (\<lambda>v. out_size (length v) @ concat (map out_u8 v)) sd)) ms))
      ((pre @ [(lang, sd)]) @ ms)"
    unfolding ins fst_conv by (rule Cons.IH) (use Cons.prems(1) inv in simp_all)
  have "reads (stream_strings_loop cast (length (e # ms)) pre)
      (out_u16 lang @ out_size (length sd) @
       concat (map (\<lambda>v. out_size (length v) @ concat (map out_u8 v)) sd) @
       concat (map (\<lambda>(lang, sd). out_u16 lang @ out_size (length sd) @
         concat (map (\<lambda>v. out_size (length v) @ concat (map out_u8 v)) sd)) ms))
      ((pre @ [(lang, sd)]) @ ms)"
    unfolding list.size(4) add_0_right add_Suc_right stream_strings_loop.simps
    by (intro reads_bindS [OF reads_u16 [OF cast]] reads_bindS [OF size]
        reads_bindS [OF vecs [simplified]] rest)
  then show ?case by (simp add: e)
qed

lemma reads_strings:
  assumes "lexical_cast_ok cast" "wf_strings m"
  shows "reads (stream_strings_in cast []) (stream_strings_out m) m"
  unfolding stream_strings_in_def stream_strings_out_def
  by (rule reads_bindS [OF reads_size]) (use assms reads_strings_loop [OF assms(1), of m "[]"] in
      \<open>simp_all add: wf_strings_def\<close>)

lemma reads_tree:
  assumes cast: "lexical_cast_ok cast" and wf: "wf_tree t"
  shows "reads (tree_stream_in cast tree_init)
     (stream_out_described device_members (device_desc t) @ config_out (wrapped_config_desc t) @
      stream_strings_out (string_descs t) @ stream_report_out (report_desc t) @
      bos_out (wrapped_bos_desc t) @ []) t"
proof -
  have report: "reads (in_bytes cast []) (stream_report_out (report_desc t)) (report_desc t)"
    using reads_in_bytes [OF cast, of "report_desc t" "[]"] wf
    by (simp add: wf_tree_def stream_report_out_def)
  have config: "reads (config_stream_in cast config_init) (config_out (wrapped_config_desc t)) (wrapped_config_desc t)"
    and bos: "reads (bos_stream_in cast bos_init) (bos_out (wrapped_bos_desc t)) (wrapped_bos_desc t)"
    and strings: "reads (stream_strings_in cast []) (stream_strings_out (string_descs t)) (string_descs t)"
    using wf by (simp_all add: wf_tree_def reads_config [OF cast] reads_bos [OF cast] reads_strings [OF cast])
  have t: "\<lparr>device_desc = device_desc t, wrapped_config_desc = wrapped_config_desc t,
      string_descs = string_descs t, wrapped_bos_desc = wrapped_bos_desc t, report_desc = report_desc t\<rparr> = t"
    by simp
  show ?thesis
    unfolding tree_stream_in_def tree_init_def tree.select_convs
    by (intro reads_bindS [OF device_struct.reads_struct [OF cast]] reads_bindS [OF config]
        reads_bindS [OF strings] reads_bindS [OF report] reads_bindS [OF bos])
      (simp add: t reads_returnS)
qed

end
