(* ===== verification/Tree_Build.thy ===== *)
theory Tree_Build
  imports Descriptor_Tree
begin

text \<open>
  What \<open>build\<close> makes of the libusb structures: the wrapped descriptors are well formed, so that
  they can be saved and loaded, and they pack to the bytes that \<open>packer\<close> makes of the structures
  themselves.
\<close>

section \<open>Built descriptors are well formed\<close>

lemma size_of_int_less: "size_of_int i < 2 ^ 64"
proof -
  have "i mod 2 ^ 64 < 2 ^ 64" by (rule pos_mod_bound) simp
  then show ?thesis unfolding size_of_int_def by (simp add: nat_less_iff)
qed

lemma vectorize_short: "vectorize p (size_of_int i) = Inr xs \<Longrightarrow> length xs < 2 ^ 64"
  using vectorize_Inr_length [of p "size_of_int i" xs] size_of_int_less [of i] by linarith

lemma u8_short: "length xs \<le> unat (n :: u8) \<Longrightarrow> length xs < 2 ^ 64"
  using unsigned_less [of n, where 'a=nat] by simp

lemma vectorize_u8_short: "vectorize p (unat (n :: u8)) = Inr xs \<Longrightarrow> length xs < 2 ^ 64"
  by (rule u8_short) (rule vectorize_Inr_length)

text \<open>The one shape every class has: extra bytes and one vector, filled.\<close>

lemma wf_filled:
  assumes "length e < 2 ^ 64" "length vs < 2 ^ 64" "list_all ok vs"
  shows "wf_descriptor With_Wrapped With_Extra w0 [key] ok
    (wrap w (fill_vector key vs (fill_extra e (descriptor_init w0 [key]))))"
  using assms by (simp add: wf_descriptor_def wrap_def fill_vector_def fill_extra_def
      descriptor_init_def plugin_init_one plugin_shape_def)

lemma wf_filled_no_extra:
  assumes "length vs < 2 ^ 64" "list_all ok vs"
  shows "wf_descriptor With_Wrapped Without_Extra w0 [key] ok
    (wrap w (fill_vector key vs (descriptor_init w0 [key])))"
  using assms by (simp add: wf_descriptor_def wrap_def fill_vector_def
      descriptor_init_def plugin_init_one plugin_shape_def)

lemma build_endpoint_wf: "build_endpoint ep = Inr b \<Longrightarrow> wf_endpoint b"
  by (auto simp: build_endpoint_def bindR_Inr_iff vector_of_extra_def wf_endpoint_def
      wf_descriptor_def wrap_def fill_extra_def endpoint_init_def descriptor_init_def
      plugin_shape_def plugin_init_def dest: vectorize_short)

lemma build_interface_descriptor_wf:
  assumes "build_interface_descriptor i = Inr b"
  shows "wf_iface b"
proof -
  from assms obtain e eps ev where e: "vectorize (lid_extra i) (size_of_int (lid_extra_length i)) = Inr e"
    and eps: "vectorize (lid_endpoint i) (unat (id_bNumEndpoints (lid_desc i))) = Inr eps"
    and ev: "mapR build_endpoint eps = Inr ev"
    and b: "b = wrap (lid_desc i) (fill_vector key_ep ev (fill_extra e iface_init))"
    by (auto simp: build_interface_descriptor_def vector_of_extra_def bindR_Inr_iff)
  have "list_all wf_endpoint ev" by (rule mapR_all [OF ev]) (rule build_endpoint_wf)
  moreover have "length ev < 2 ^ 64" using vectorize_u8_short [OF eps] mapR_length [OF ev] by simp
  ultimately show ?thesis
    unfolding b wf_iface_def iface_init_def by (intro wf_filled vectorize_short [OF e])
qed

lemma build_interface_wf: "build_interface i = Inr b \<Longrightarrow> wf_usb_interface b"
proof -
  assume "build_interface i = Inr b"
  then obtain alts av where alts: "vectorize (lif_altsetting i) (size_of_int (lif_num_altsetting i)) = Inr alts"
    and av: "mapR build_interface_descriptor alts = Inr av"
    and b: "b = wrap () (fill_vector key_altsetting av usb_interface_init)"
    by (auto simp: build_interface_def bindR_Inr_iff)
  have "list_all wf_iface av"
    by (rule mapR_all [OF av]) (rule build_interface_descriptor_wf)
  moreover have "length av < 2 ^ 64"
    using vectorize_short [OF alts] mapR_length [OF av] by simp
  ultimately show ?thesis
    by (simp add: b wf_usb_interface_def wf_descriptor_def wrap_def fill_vector_def
        usb_interface_init_def descriptor_init_def plugin_init_one plugin_shape_def)
qed

lemma build_config_wf:
  assumes "build_config c config_init = Inr b"
  shows "wf_config b"
proof -
  obtain d where c: "c = Some d" using assms by (cases c) (simp_all add: build_config_def)
  from assms obtain e ifs iv where e: "vectorize (lcd_extra d) (size_of_int (lcd_extra_length d)) = Inr e"
    and ifs: "vectorize (lcd_interface d) (unat (cd_bNumInterfaces (lcd_desc d))) = Inr ifs"
    and iv: "mapR build_interface ifs = Inr iv"
    and b: "b = wrap (lcd_desc d) (fill_vector key_interface iv (fill_extra e config_init))"
    by (auto simp: build_config_def vector_of_extra_def bindR_Inr_iff c)
  have "list_all wf_usb_interface iv" by (rule mapR_all [OF iv]) (rule build_interface_wf)
  moreover have "length iv < 2 ^ 64" using vectorize_u8_short [OF ifs] mapR_length [OF iv] by simp
  ultimately show ?thesis
    unfolding b wf_config_def config_init_def by (intro wf_filled vectorize_short [OF e])
qed

lemma build_dev_capability_wf:
  assumes "build_dev_capability d = Inr b"
  shows "wf_dev_capability b"
proof -
  obtain c where d: "d = Some c" using assms by (cases d) (simp_all add: build_dev_capability_def)
  from assms obtain data where data: "vectorize (Some (ldc_data c)) (size_of_int (uint (dc_bLength (ldc_desc c)) - 3)) = Inr data"
    and b: "b = wrap (ldc_desc c) (fill_vector key_dev_capability_data data dev_capability_init)"
    by (auto simp: build_dev_capability_def bindR_Inr_iff d)
  show ?thesis
    unfolding b wf_dev_capability_def dev_capability_init_def
    by (intro wf_filled_no_extra vectorize_short [OF data]) (simp add: list_all_iff)
qed

lemma wf_bos_init: "wf_bos bos_init"
  by (simp add: wf_bos_def bos_init_def wf_descriptor_def descriptor_init_def plugin_init_def
      plugin_shape_def)

lemma build_bos_wf:
  assumes "build_bos d bos_init = Inr b"
  shows "wf_bos b"
proof (cases d)
  case None
  with assms show ?thesis by (simp add: build_bos_def wf_bos_init)
next
  case (Some c)
  with assms obtain caps cv where caps: "vectorize (Some (lbd_dev_capability c)) (unat (bd_bNumDeviceCaps (lbd_desc c))) = Inr caps"
    and cv: "mapR build_dev_capability caps = Inr cv"
    and b: "b = wrap (lbd_desc c) (fill_vector key_dev_capability cv bos_init)"
    by (auto simp: build_bos_def bindR_Inr_iff)
  have "list_all wf_dev_capability cv" by (rule mapR_all [OF cv]) (rule build_dev_capability_wf)
  moreover have "length cv < 2 ^ 64" using vectorize_u8_short [OF caps] mapR_length [OF cv] by simp
  ultimately show ?thesis
    unfolding b wf_bos_def bos_init_def by (intro wf_filled_no_extra)
qed

lemma tree_construct_wf:
  assumes "tree_construct d c m b r = Inr t" "wf_strings m" "length r < 2 ^ 64"
  shows "wf_tree t"
  using assms build_config_wf build_bos_wf
  by (auto simp: tree_construct_def bindR_Inr_iff wf_tree_def)

section \<open>Packing the structures and packing what is built from them\<close>

lemma packer_extra_build:
  "vector_of_extra p len = Inr e \<Longrightarrow> packer_pack_extra p len out = Inr (out @ e)"
  by (auto simp: packer_pack_extra_def vector_of_extra_def size_of_int_def)

lemma pack_endpoint_build:
  "build_endpoint ep = Inr b \<Longrightarrow> pack_endpoint_descriptor ep out = Inr (out @ endpoint_pack b)"
  by (auto simp: build_endpoint_def pack_endpoint_descriptor_def bindR_Inr_iff packer_extra_build
      endpoint_pack_def descriptor_pack_def wrap_def fill_extra_def endpoint_init_def
      descriptor_init_def pack_extra_def plugin_init_def for_each_out_def)

text \<open>Packing a descriptor with one vector.\<close>

lemma descriptor_pack_filled:
  "descriptor_pack With_Wrapped With_Extra wp ep
     (wrap w (fill_vector key vs (fill_extra e (descriptor_init w0 [key])))) =
   wp w @ e @ concat (map ep vs)"
  by (simp add: descriptor_pack_def wrap_def fill_vector_def fill_extra_def descriptor_init_def
      plugin_init_one pack_extra_def for_each_out_def)

lemma descriptor_pack_filled_no_extra:
  "descriptor_pack With_Wrapped Without_Extra wp ep
     (wrap w (fill_vector key vs (descriptor_init w0 [key]))) = wp w @ concat (map ep vs)"
  by (simp add: descriptor_pack_def wrap_def fill_vector_def descriptor_init_def
      plugin_init_one for_each_out_def)

lemma pack_interface_descriptor_build:
  assumes "build_interface_descriptor i = Inr b"
  shows "pack_interface_descriptor i out = Inr (out @ iface_pack b)"
proof -
  from assms obtain e eps ev where e: "vector_of_extra (lid_extra i) (lid_extra_length i) = Inr e"
    and eps: "vectorize (lid_endpoint i) (unat (id_bNumEndpoints (lid_desc i))) = Inr eps"
    and ev: "mapR build_endpoint eps = Inr ev"
    and b: "b = wrap (lid_desc i) (fill_vector key_ep ev (fill_extra e iface_init))"
    by (auto simp: build_interface_descriptor_def bindR_Inr_iff)
  have "foldR pack_endpoint_descriptor eps out' = Inr (out' @ concat (map endpoint_pack ev))" for out'
    by (rule foldR_append [OF ev]) (rule pack_endpoint_build)
  then show ?thesis
    by (simp add: pack_interface_descriptor_def packer_extra_build [OF e] eps b iface_pack_def
        iface_init_def descriptor_pack_filled)
qed

lemma pack_interface_build:
  assumes "build_interface i = Inr b"
  shows "pack_interface i out = Inr (out @ usb_interface_pack b)"
proof -
  from assms obtain alts av where alts: "vectorize (lif_altsetting i) (size_of_int (lif_num_altsetting i)) = Inr alts"
    and av: "mapR build_interface_descriptor alts = Inr av"
    and b: "b = wrap () (fill_vector key_altsetting av usb_interface_init)"
    by (auto simp: build_interface_def bindR_Inr_iff)
  have "foldR pack_interface_descriptor alts out = Inr (out @ concat (map iface_pack av))"
    by (rule foldR_append [OF av]) (rule pack_interface_descriptor_build)
  then show ?thesis
    by (simp add: pack_interface_def alts b usb_interface_pack_def usb_interface_init_def
        descriptor_pack_def wrap_def fill_vector_def descriptor_init_def plugin_init_one
        for_each_out_def)
qed

lemma packer_config_build:
  assumes "build_config (Some c) config_init = Inr b"
  shows "packer_pack_libusb_config c out = Inr (packer_pack_config b out)"
proof -
  from assms obtain e ifs iv where e: "vector_of_extra (lcd_extra c) (lcd_extra_length c) = Inr e"
    and ifs: "vectorize (lcd_interface c) (unat (cd_bNumInterfaces (lcd_desc c))) = Inr ifs"
    and iv: "mapR build_interface ifs = Inr iv"
    and b: "b = wrap (lcd_desc c) (fill_vector key_interface iv (fill_extra e config_init))"
    by (auto simp: build_config_def bindR_Inr_iff)
  have "foldR pack_interface ifs out' = Inr (out' @ concat (map usb_interface_pack iv))" for out'
    by (rule foldR_append [OF iv]) (rule pack_interface_build)
  then show ?thesis
    by (simp add: packer_pack_libusb_config_def packer_extra_build [OF e] pack_interfaces_def ifs b
        packer_pack_config_def config_pack_def config_init_def descriptor_pack_filled)
qed

lemma packed_size_dev_capability: "uint (packed_size dev_capability_members) = 3"
  by (simp add: packed_size_def dev_capability_members_def)

lemma pack_dev_capability_build:
  assumes "build_dev_capability d = Inr b"
  shows "pack_bos_dev_capability_descriptor d out = Inr (out @ dev_capability_pack b)"
  using assms
  by (auto simp: build_dev_capability_def pack_bos_dev_capability_descriptor_def bindR_Inr_iff
      packed_size_dev_capability dev_capability_pack_def dev_capability_init_def
      descriptor_pack_filled_no_extra split: option.splits)

lemma packer_bos_build:
  assumes "build_bos (Some d) bos_init = Inr b"
  shows "packer_pack_libusb_bos (Some d) out = Inr (packer_pack_bos b out)"
proof -
  from assms obtain caps cv where caps: "vectorize (Some (lbd_dev_capability d)) (unat (bd_bNumDeviceCaps (lbd_desc d))) = Inr caps"
    and cv: "mapR build_dev_capability caps = Inr cv"
    and b: "b = wrap (lbd_desc d) (fill_vector key_dev_capability cv bos_init)"
    by (auto simp: build_bos_def bindR_Inr_iff)
  have "foldR (\<lambda>d out. bindR (viu_assert (d \<noteq> None)) (\<lambda>_. pack_bos_dev_capability_descriptor d out)) caps out'
      = Inr (out' @ concat (map dev_capability_pack cv))" for out'
  proof (rule foldR_append [OF cv])
    fix x y out'
    assume y: "build_dev_capability x = Inr y"
    then have "x \<noteq> None" by (auto simp: build_dev_capability_def split: option.splits)
    with pack_dev_capability_build [OF y, of out']
    show "bindR (viu_assert (x \<noteq> None)) (\<lambda>_. pack_bos_dev_capability_descriptor x out') =
      Inr (out' @ dev_capability_pack y)" by simp
  qed
  then show ?thesis
    by (simp add: packer_pack_libusb_bos_def caps b packer_pack_bos_def bos_pack_def bos_init_def
        descriptor_pack_filled_no_extra)
qed

end
