(* ===== verification/Tree_Properties.thy ===== *)
theory Tree_Properties
  imports Tree_Build
begin

text \<open>
  The properties of the descriptor library: saving and loading, packing, and the vector plugin
  that carries the lists.
\<close>

section \<open>A small device\<close>

definition example_endpoint :: libusb_endpoint_descriptor where
  "example_endpoint = \<lparr>lep_desc = zero_endpoint\<lparr>ed_bLength := 7, ed_bEndpointAddress := 0x81, ed_bmAttributes := 3\<rparr>,
     lep_extra = Some [5, 6], lep_extra_length = 2\<rparr>"

definition example_altsetting :: libusb_interface_descriptor where
  "example_altsetting = \<lparr>lid_desc = zero_interface\<lparr>id_bNumEndpoints := 1\<rparr>,
     lid_endpoint = Some [example_endpoint], lid_extra = None, lid_extra_length = 0\<rparr>"

definition example_config :: libusb_config_descriptor where
  "example_config = \<lparr>lcd_desc = zero_config\<lparr>cd_bNumInterfaces := 1\<rparr>,
     lcd_interface = Some [\<lparr>lif_altsetting = Some [example_altsetting], lif_num_altsetting = 1\<rparr>],
     lcd_extra = None, lcd_extra_length = 0\<rparr>"

definition example_bos :: libusb_bos_descriptor where
  "example_bos = \<lparr>lbd_desc = zero_bos\<lparr>bd_bNumDeviceCaps := 1\<rparr>,
     lbd_dev_capability = [Some \<lparr>ldc_desc = zero_dev_capability\<lparr>dc_bLength := 5\<rparr>, ldc_data = [8, 9]\<rparr>]\<rparr>"

definition example_strings :: string_descriptor_map where
  "example_strings = [(0, [[4, 3, 9, 4]]), (0x409, [[4, 3, 65, 0], []])]"

lemma wf_example_strings: "wf_strings example_strings"
  by (simp add: wf_strings_def example_strings_def om_inv_def)

lemma example_config_builds: "\<exists>b. build_config (Some example_config) config_init = Inr b"
  by (simp add: example_config_def build_config_def vector_of_extra_def size_of_int_def
      build_interface_def example_altsetting_def build_interface_descriptor_def
      build_endpoint_def example_endpoint_def vectorize_def)

lemma example_bos_builds: "\<exists>b. build_bos (Some example_bos) bos_init = Inr b"
  by (simp add: example_bos_def build_bos_def build_dev_capability_def size_of_int_def vectorize_def)

lemma example_tree_builds:
  "\<exists>t. tree_construct zero_device (Some example_config) example_strings (Some example_bos) [1, 2, 3] = Inr t"
  using example_config_builds example_bos_builds by (auto simp: tree_construct_def)

section \<open>Saving and loading\<close>

text \<open>C17: A device configuration survives being saved and loaded: the tree built from a device's
  descriptors, saved to an open file and loaded into a fresh tree, is the same tree, with every
  descriptor field, all extra bytes, alternate settings, endpoints, strings, capabilities and the HID
  report.\<close>

theorem saved_configuration_loads:
  assumes "lexical_cast_ok cast"
    and "tree_construct device config_desc strings bos_desc report = Inr t"
    and "wf_strings strings" "length report < 2 ^ 64"
  shows "\<exists>file. tree_save True t = Inr file \<and>
    tree_load cast (streamer_in False (Some file) json) tree_init = Inr t"
proof -
  have "wf_tree t" by (rule tree_construct_wf [OF assms(2-4)])
  from reads_whole [OF reads_tree [OF assms(1) this]] show ?thesis
    by (fastforce simp: tree_save_def tree_load_def streamer_in_def)
qed

lemma saved_configuration_loads_witness:
  "\<exists>t file. tree_construct zero_device (Some example_config) example_strings (Some example_bos) [1, 2, 3] = Inr t \<and>
    tree_save True t = Inr file \<and> tree_load decimal_lex (streamer_in False (Some file) []) tree_init = Inr t"
proof -
  obtain t where t: "tree_construct zero_device (Some example_config) example_strings (Some example_bos) [1, 2, 3] = Inr t"
    using example_tree_builds by blast
  from saved_configuration_loads [OF decimal_lex_ok t wf_example_strings, of "[]"] t
  show ?thesis by auto
qed

text \<open>Two trees that save the same text are the same tree: nothing of a configuration is lost in
  the file.\<close>

lemma saved_text_determines_tree:
  assumes "wf_tree t" "wf_tree u" "tree_save True t = Inr file" "tree_save True u = Inr file"
  shows "t = u"
proof -
  have "tree_stream_in decimal_lex tree_init file = Inr (t, s) \<Longrightarrow>
      tree_stream_in decimal_lex tree_init file = Inr (u, s') \<Longrightarrow> t = u" for s s' by simp
  moreover obtain s where "tree_stream_in decimal_lex tree_init file = Inr (t, s)"
    using reads_whole [OF reads_tree [OF decimal_lex_ok assms(1)]] assms(3) by (auto simp: tree_save_def)
  moreover obtain s' where "tree_stream_in decimal_lex tree_init file = Inr (u, s')"
    using reads_whole [OF reads_tree [OF decimal_lex_ok assms(2)]] assms(4) by (auto simp: tree_save_def)
  ultimately show ?thesis by blast
qed

lemma wf_tree_init: "wf_tree tree_init"
  by (simp add: wf_tree_def tree_init_def wf_config_def config_init_def wf_descriptor_def
      descriptor_init_def plugin_init_def plugin_shape_def wf_strings_def wf_bos_init)

lemma saved_text_determines_tree_witness:
  "\<exists>txt0. tree_save True tree_init = Inr txt0 \<and> (tree_init :: tree) = tree_init\<lparr>report_desc := []\<rparr>"
proof -
  obtain txt0 where f: "tree_save True tree_init = Inr txt0" by (simp add: tree_save_def)
  moreover have "tree_save True (tree_init\<lparr>report_desc := []\<rparr>) = Inr txt0"
    using f by (simp add: tree_init_def)
  moreover have "wf_tree (tree_init\<lparr>report_desc := []\<rparr>)" using wf_tree_init by (simp add: tree_init_def)
  ultimately show ?thesis using saved_text_determines_tree [OF wf_tree_init] by blast
qed

text \<open>A file that is empty or holds only blanks is refused with a failed conversion, into
  whatever tree it is loaded.\<close>

lemma blank_file_refused:
  assumes "lexical_cast_strict cast" "skip_ws file = []"
  shows "tree_load cast (streamer_in False (Some file) json) t = Inl Bad_Lexical_Cast"
proof -
  have "in_u8 cast file = Inl Bad_Lexical_Cast"
    using in_number_end [OF assms] by (simp add: in_u8_def)
  then show ?thesis
    by (simp add: tree_load_def streamer_in_def tree_stream_in_def device_members_def bindS_def)
qed

lemma blank_file_refused_witness:
  "tree_load decimal_lex (streamer_in False (Some ''  '') []) tree_init = Inl Bad_Lexical_Cast"
  by (rule blank_file_refused [OF decimal_lex_strict]) (simp add: skip_ws_def is_space_def)

section \<open>Packing\<close>

text \<open>Packing a libusb configuration through its pointers and packing the wrapped configuration
  built from it give the same bytes, behind whatever was packed before.\<close>

lemma packing_config_agrees:
  assumes "build_config (Some c) config_init = Inr b"
  shows "packer_pack_libusb_config c out = Inr (packer_pack_config b out)"
  by (rule packer_config_build [OF assms])

lemma packing_config_agrees_witness:
  "\<exists>b. build_config (Some example_config) config_init = Inr b \<and>
    packer_pack_libusb_config example_config [1] = Inr (packer_pack_config b [1])"
  using packing_config_agrees example_config_builds by blast

text \<open>The same for the binary object store.\<close>

lemma packing_bos_agrees:
  assumes "build_bos (Some d) bos_init = Inr b"
  shows "packer_pack_libusb_bos (Some d) out = Inr (packer_pack_bos b out)"
  by (rule packer_bos_build [OF assms])

lemma packing_bos_agrees_witness:
  "\<exists>b. build_bos (Some example_bos) bos_init = Inr b \<and>
    packer_pack_libusb_bos (Some example_bos) [] = Inr (packer_pack_bos b [])"
  using packing_bos_agrees example_bos_builds by blast

text \<open>The length of a packed configuration, level by level.\<close>

definition endpoint_packed_length :: "endpoint \<Rightarrow> nat" where
  "endpoint_packed_length ep = (if is_audio (wrapped_value ep) then 9 else 7) + extra_length ep"

definition iface_packed_length :: "iface \<Rightarrow> nat" where
  "iface_packed_length i = 9 + extra_length i + sum_list (map endpoint_packed_length (read_vector key_ep i))"

definition usb_interface_packed_length :: "usb_interface \<Rightarrow> nat" where
  "usb_interface_packed_length u = sum_list (map iface_packed_length (read_vector key_altsetting u))"

definition config_packed_length :: "config \<Rightarrow> nat" where
  "config_packed_length c = 9 + extra_length c + sum_list (map usb_interface_packed_length (read_vector key_interface c))"

lemma one_entry_shape:
  assumes "plugin_shape ps = [((), key)]"
  obtains vs where "ps = one_entry key vs"
proof -
  from assms obtain e where e: "ps = [e]" "me_key e = key" by (cases ps) (auto simp: plugin_shape_def)
  then have "ps = one_entry key (me_vec e)" by (cases e) simp
  then show thesis by (rule that)
qed

lemma length_concat_map: "(\<And>x. x \<in> set xs \<Longrightarrow> length (f x) = g x) \<Longrightarrow>
    length (concat (map f xs)) = sum_list (map g xs)"
  by (induction xs) auto

lemma length_endpoint_pack: "wf_endpoint ep \<Longrightarrow> length (endpoint_pack ep) = endpoint_packed_length ep"
  by (auto simp: wf_endpoint_def wf_descriptor_def endpoint_pack_def descriptor_pack_def
      endpoint_packed_length_def pack_endpoint_def length_pack_described endpoint_members_def
      plain_endpoint_members_def pack_extra_def extra_length_def for_each_out_def plugin_shape_def)

lemma length_iface_pack: "wf_iface i \<Longrightarrow> length (iface_pack i) = iface_packed_length i"
proof -
  assume wf: "wf_iface i"
  then obtain vs where vs: "vectors i = one_entry key_ep vs"
    by (auto simp: wf_iface_def wf_descriptor_def elim: one_entry_shape)
  have "length (concat (map endpoint_pack vs)) = sum_list (map endpoint_packed_length vs)"
    using wf vs by (intro length_concat_map length_endpoint_pack)
      (simp add: wf_iface_def wf_descriptor_def list_all_iff)
  then show ?thesis
    by (simp add: iface_pack_def descriptor_pack_def iface_packed_length_def length_pack_described
        interface_members_def pack_extra_def extra_length_def for_each_out_def read_vector_def vs)
qed

lemma length_usb_interface_pack:
  "wf_usb_interface u \<Longrightarrow> length (usb_interface_pack u) = usb_interface_packed_length u"
proof -
  assume wf: "wf_usb_interface u"
  then obtain vs where vs: "vectors u = one_entry key_altsetting vs"
    by (auto simp: wf_usb_interface_def wf_descriptor_def elim: one_entry_shape)
  have "length (concat (map iface_pack vs)) = sum_list (map iface_packed_length vs)"
    using wf vs by (intro length_concat_map length_iface_pack)
      (simp add: wf_usb_interface_def wf_descriptor_def list_all_iff)
  then show ?thesis
    by (simp add: usb_interface_pack_def descriptor_pack_def usb_interface_packed_length_def
        for_each_out_def read_vector_def vs)
qed

text \<open>The bytes of a packed configuration are counted: 9 for the configuration and for each
  alternate setting, 9 for an audio endpoint and 7 for any other, and every extra byte once.\<close>

lemma packed_config_length:
  assumes "build_config config_desc config_init = Inr c"
  shows "length (config_pack c) = config_packed_length c"
proof -
  have wf: "wf_config c" by (rule build_config_wf [OF assms])
  then obtain vs where vs: "vectors c = one_entry key_interface vs"
    by (auto simp: wf_config_def wf_descriptor_def elim: one_entry_shape)
  have "length (concat (map usb_interface_pack vs)) = sum_list (map usb_interface_packed_length vs)"
    using wf vs by (intro length_concat_map length_usb_interface_pack)
      (simp add: wf_config_def wf_descriptor_def list_all_iff)
  then show ?thesis
    by (simp add: config_pack_def descriptor_pack_def config_packed_length_def length_pack_described
        config_members_def pack_extra_def extra_length_def for_each_out_def read_vector_def vs)
qed

lemma packed_config_length_witness:
  "\<exists>c. build_config (Some example_config) config_init = Inr c \<and> length (config_pack c) = config_packed_length c"
  using packed_config_length example_config_builds by blast

text \<open>A BOS capability that announces fewer than its three header bytes makes \<open>bLength - 3\<close>
  negative; the count turns into a huge \<open>std::size_t\<close> and the copy runs past the capability's data,
  both when the tree is built and when the descriptor is packed.\<close>

lemma short_capability_undefined:
  assumes "uint (dc_bLength (ldc_desc d)) < 3" "length (ldc_data d) < 2 ^ 63"
  shows "build_dev_capability (Some d) = Inl Undefined_Behaviour \<and>
    pack_bos_dev_capability_descriptor (Some d) out = Inl Undefined_Behaviour"
proof -
  have "2 ^ 63 \<le> size_of_int (uint (dc_bLength (ldc_desc d)) - 3)"
  proof (rule size_of_int_neg)
    have "(0 :: int) \<le> 2 ^ 31 - 3" "0 \<le> uint (dc_bLength (ldc_desc d))" by simp_all
    then show "- (2 ^ 31) \<le> uint (dc_bLength (ldc_desc d)) - 3" by linarith
  qed (use assms(1) in linarith)
  then have "vectorize (Some (ldc_data d)) (size_of_int (uint (dc_bLength (ldc_desc d)) - 3)) = Inl Undefined_Behaviour"
    using assms(2) by (auto simp: vectorize_def)
  then show ?thesis
    by (simp add: build_dev_capability_def pack_bos_dev_capability_descriptor_def packed_size_dev_capability)
qed

lemma short_capability_undefined_witness:
  "build_dev_capability (Some \<lparr>ldc_desc = zero_dev_capability\<lparr>dc_bLength := 2\<rparr>, ldc_data = [1, 2]\<rparr>) = Inl Undefined_Behaviour"
  using short_capability_undefined [of "\<lparr>ldc_desc = zero_dev_capability\<lparr>dc_bLength := 2\<rparr>, ldc_data = [1, 2]\<rparr>"]
  by (simp add: zero_dev_capability_def)

text \<open>A packed device descriptor is 18 bytes and determines the descriptor.\<close>

lemma device_descriptor_pack:
  "length (packer_pack_device d []) = 18 \<and> (packer_pack_device d [] = packer_pack_device d' [] \<longleftrightarrow> d = d')"
  by (simp add: packer_pack_device_def length_pack_described device_members_def
      device_struct.pack_inject [unfolded device_members_def])

section \<open>The vector plugin\<close>

text \<open>A plugin constructed from keys and vectors, whose keys are unique as the constructor
  asserts, reads back each vector under its key and type.\<close>

lemma plugin_reads_constructed:
  assumes "keys_are_unique (map (\<lambda>(_, k, _). k) ks)" "(t, key, vs) \<in> set ks"
  shows "read_vec t key (plugin_construct ks) old = vs"
  unfolding plugin_construct_def
  by (rule read_plugin_of [OF assms]) (use assms(2) in \<open>force simp: has_entry_shape\<close>)

lemma plugin_reads_constructed_witness:
  "read_vec (1 :: nat) ''b'' (plugin_construct [(0, ''a'', [1 :: nat]), (1, ''b'', [2, 3])]) [] = [2, 3]"
  by (rule plugin_reads_constructed) simp_all

text \<open>The compile-time check of the keys decides whether they are distinct, and the alternatives
  of the entry variant are the entry types, each once.\<close>

lemma plugin_compile_time_checks:
  "keys_are_unique ks = distinct ks \<and> distinct (unique_types ts) \<and> set (unique_types ts) = set ts"
  using unique_acc_spec [of "[]" ts] by (simp add: keys_are_unique_distinct unique_types_def)

text \<open>The descriptor type and index of a request are the high and the low byte of \<open>wValue\<close>.\<close>

lemma value_halves:
  "unat v = 256 * unat (type_from_value v) + unat (index_from_value v)"
proof -
  have "unat v < 65536" using unsigned_less [of v, where 'a=nat] by simp
  then show ?thesis
    by (simp add: type_from_value_def index_from_value_def at_u8_u16_low at_u8_u16_high [simplified]
        unat_ucast_byte_mod unat_drop_bit)
qed

end
