(* ===== verification/Cli_Model.thy ===== *)
theory Cli_Model
  imports Prelude
begin

text \<open>
  \<open>viu::cli\<close> (src/cli/cli_impl.cpp): the client serialises its \<open>argv\<close> for the daemon, which
  deserialises it. A C string is the list of its bytes without the terminator, a null pointer
  is \<open>None\<close>.

  \<open>deserialized_args\<close> keeps raw pointers into its own vector of strings, so the model of that
  vector counts its reallocations: a pointer remembers the allocation it points into and is
  dangling after the next one.
\<close>

section \<open>Serialising\<close>

definition strlen :: "bytes \<Rightarrow> nat" where
  "strlen s = length (takeWhile (\<lambda>c. c \<noteq> 0) s)"

definition append_u32 :: "u32 \<Rightarrow> bytes \<Rightarrow> bytes" where
  "append_u32 v buffer = buffer @ le_bytes 4 v"

fun serialize_loop :: "nat \<Rightarrow> bytes option list \<Rightarrow> bytes \<Rightarrow> bytes res" where
  "serialize_loop 0 argv buffer = Inr buffer"
| "serialize_loop (Suc n) [] buffer = Inl Undefined_Behaviour"
| "serialize_loop (Suc n) (None # argv) buffer = Inl Undefined_Behaviour"
| "serialize_loop (Suc n) (Some arg # argv) buffer =
     (let len = of_nat (strlen arg) :: u32
      in serialize_loop n argv (append_u32 len buffer @ take (unat len) arg))"

definition serialize_argv :: "int \<Rightarrow> bytes option list \<Rightarrow> bytes res" where
  "serialize_argv argc argv = serialize_loop (nat argc) argv (append_u32 (word_of_int argc) [])"

section \<open>A vector whose elements are pointed to\<close>

record 'a storage =
  sto_cap :: nat
  sto_alloc :: nat
  sto_items :: "'a list"

definition storage_empty :: "'a storage" where
  "storage_empty = \<lparr>sto_cap = 0, sto_alloc = 0, sto_items = []\<rparr>"

definition storage_reserve :: "nat \<Rightarrow> 'a storage \<Rightarrow> 'a storage" where
  "storage_reserve n s = (if n > sto_cap s then s\<lparr>sto_cap := n, sto_alloc := Suc (sto_alloc s)\<rparr> else s)"

definition storage_emplace_back :: "'a \<Rightarrow> 'a storage \<Rightarrow> 'a storage" where
  "storage_emplace_back x s =
     (if length (sto_items s) < sto_cap s then s\<lparr>sto_items := sto_items s @ [x]\<rparr>
      else \<lparr>sto_cap = max 1 (2 * sto_cap s), sto_alloc = Suc (sto_alloc s), sto_items = sto_items s @ [x]\<rparr>)"

record element_ptr =
  ep_alloc :: nat
  ep_index :: nat

definition storage_back :: "'a storage \<Rightarrow> element_ptr" where
  "storage_back s = \<lparr>ep_alloc = sto_alloc s, ep_index = length (sto_items s) - 1\<rparr>"

definition storage_deref :: "'a storage \<Rightarrow> element_ptr \<Rightarrow> 'a res" where
  "storage_deref s p =
     (if ep_alloc p = sto_alloc s \<and> ep_index p < length (sto_items s)
      then Inr (sto_items s ! ep_index p) else Inl Undefined_Behaviour)"

section \<open>Deserialising\<close>

record deserialized_args =
  da_argc :: int
  da_argv_storage :: "element_ptr option list"
  da_string_storage :: "bytes storage"

definition malformed :: exn where
  "malformed = Runtime_Error ''Malformed argv payload''"

text \<open>Reading \<open>n\<close> bytes at \<open>offset\<close>; past the end of the payload's memory is undefined.\<close>

definition read_bytes :: "bytes \<Rightarrow> nat \<Rightarrow> nat \<Rightarrow> bytes res" where
  "read_bytes data offset n =
     (if offset + n \<le> length data then Inr (take n (drop offset data)) else Inl Undefined_Behaviour)"

definition read_u32 :: "bytes \<Rightarrow> nat \<Rightarrow> nat \<Rightarrow> (u32 \<times> nat) res" where
  "read_u32 data sz offset =
     (if offset + 4 > sz then Inl malformed
      else bindR (read_bytes data offset 4) (\<lambda>bs. Inr (of_nat (from_le bs), offset + 4)))"

fun deserialize_loop :: "bytes \<Rightarrow> nat \<Rightarrow> nat \<Rightarrow> nat \<Rightarrow> element_ptr option list \<Rightarrow> bytes storage \<Rightarrow>
    (element_ptr option list \<times> bytes storage) res" where
  "deserialize_loop data sz 0 offset argv strings = Inr (argv, strings)"
| "deserialize_loop data sz (Suc n) offset argv strings =
     bindR (read_u32 data sz offset) (\<lambda>(len, offset).
       if offset + unat len > sz then Inl malformed
       else bindR (read_bytes data offset (unat len)) (\<lambda>s.
         let strings = storage_emplace_back s strings
         in deserialize_loop data sz n (offset + unat len) (argv @ [Some (storage_back strings)]) strings))"

text \<open>
  \<open>argc + 1\<close> overflows for the largest \<open>int\<close>; a negative count becomes a \<open>std::size_t\<close> no
  vector can reserve, either in the first \<open>reserve\<close> or (for -1) in the second.
\<close>

definition deserialize_argv :: "bytes \<Rightarrow> nat \<Rightarrow> deserialized_args res" where
  "deserialize_argv data sz =
     bindR (read_u32 data sz 0) (\<lambda>(v, offset).
     let argc = sint v in
     if argc = 2 ^ 31 - 1 then Inl Undefined_Behaviour
     else if argc < 0 then Inl Length_Error
     else bindR (deserialize_loop data sz (nat argc) offset [] (storage_reserve (nat argc) storage_empty))
       (\<lambda>(argv, strings). Inr \<lparr>da_argc = argc, da_argv_storage = argv @ [None],
          da_string_storage = strings\<rparr>))"

section \<open>Round trip\<close>

definition encode_args :: "bytes list \<Rightarrow> bytes" where
  "encode_args as = concat (map (\<lambda>a. le_bytes 4 (of_nat (length a) :: u32) @ a) as)"

definition c_string :: "bytes \<Rightarrow> bool" where
  "c_string a \<longleftrightarrow> 0 \<notin> set a \<and> length a < 2 ^ 32"

lemma encode_args_Cons: "encode_args (a # as) = le_bytes 4 (of_nat (length a) :: u32) @ a @ encode_args as"
  by (simp add: encode_args_def)

lemma strlen_c_string: "c_string a \<Longrightarrow> strlen a = length a"
proof -
  assume "c_string a"
  then have "takeWhile (\<lambda>c. c \<noteq> 0) a = a"
    unfolding takeWhile_eq_all_conv by (auto simp: c_string_def)
  then show ?thesis unfolding strlen_def by (rule arg_cong)
qed

lemma unat_of_nat_u32: "n < 2 ^ 32 \<Longrightarrow> unat (of_nat n :: u32) = n"
  by (simp add: unat_of_nat take_bit_nat_eq_self)

lemma serialize_loop_encode:
  "list_all c_string as \<Longrightarrow>
   serialize_loop (length as) (map Some as @ rest) buffer = Inr (buffer @ encode_args as)"
proof (induction as arbitrary: buffer)
  case Nil
  show ?case by (simp add: encode_args_def)
next
  case (Cons a as)
  then have "unat (of_nat (length a) :: u32) = length a"
    by (intro unat_of_nat_u32) (simp add: c_string_def)
  with Cons show ?case
    by (simp add: strlen_c_string append_u32_def encode_args_Cons)
qed

lemma read_bytes_at [res_simps]:
  "length pre = offset \<Longrightarrow> length bs = n \<Longrightarrow> read_bytes (pre @ bs @ post) offset n = Inr bs"
  by (simp add: read_bytes_def)

lemma read_u32_at:
  "length pre = offset \<Longrightarrow> offset + 4 \<le> sz \<Longrightarrow>
   read_u32 (pre @ le_bytes 4 (v :: u32) @ post) sz offset = Inr (v, offset + 4)"
  by (simp add: read_u32_def read_bytes_at from_le_of_nat)

lemma storage_emplace_within:
  "length (sto_items s) < sto_cap s \<Longrightarrow> storage_emplace_back x s = s\<lparr>sto_items := sto_items s @ [x]\<rparr>"
  by (simp add: storage_emplace_back_def)

definition argv_pointers :: "nat \<Rightarrow> nat \<Rightarrow> nat \<Rightarrow> element_ptr option list" where
  "argv_pointers alloc i n = map (\<lambda>k. Some \<lparr>ep_alloc = alloc, ep_index = k\<rparr>) [i..<i + n]"

lemma argv_pointers_Suc:
  "argv_pointers alloc i (Suc n) = Some \<lparr>ep_alloc = alloc, ep_index = i\<rparr> # argv_pointers alloc (Suc i) n"
  by (simp add: argv_pointers_def upt_conv_Cons)

lemma deserialize_loop_encode:
  assumes "list_all c_string as" "length pre + length (encode_args as) \<le> sz"
    "length (sto_items s) + length as \<le> sto_cap s"
  shows "deserialize_loop (pre @ encode_args as @ post) sz (length as) (length pre) argv s =
    Inr (argv @ argv_pointers (sto_alloc s) (length (sto_items s)) (length as),
         s\<lparr>sto_items := sto_items s @ as\<rparr>)"
  using assms
proof (induction as arbitrary: pre argv s)
  case Nil
  show ?case by (simp add: argv_pointers_def)
next
  case (Cons a as)
  let ?h = "le_bytes 4 (of_nat (length a) :: u32)"
  let ?s = "s\<lparr>sto_items := sto_items s @ [a]\<rparr>"
  have len: "unat (of_nat (length a) :: u32) = length a"
    using Cons.prems(1) by (intro unat_of_nat_u32) (simp add: c_string_def)
  have sz: "length pre + 4 + length a + length (encode_args as) \<le> sz"
    using Cons.prems(2) by (simp add: encode_args_Cons)
  have head: "read_u32 (pre @ ?h @ a @ encode_args as @ post) sz (length pre) =
      Inr (of_nat (length a), length pre + 4)"
    by (rule read_u32_at) (use sz in simp_all)
  have body: "read_bytes (pre @ ?h @ a @ encode_args as @ post) (length pre + 4) (length a) = Inr a"
    using read_bytes_at [of "pre @ ?h" "length pre + 4" a "length a"] by simp
  have em: "storage_emplace_back a s = ?s"
    by (rule storage_emplace_within) (use Cons.prems(3) in simp)
  have "deserialize_loop ((pre @ ?h @ a) @ encode_args as @ post) sz (length as)
      (length (pre @ ?h @ a)) (argv @ [Some (storage_back ?s)]) ?s =
    Inr ((argv @ [Some (storage_back ?s)]) @ argv_pointers (sto_alloc ?s) (length (sto_items ?s)) (length as),
         ?s\<lparr>sto_items := sto_items ?s @ as\<rparr>)"
    by (rule Cons.IH) (use Cons.prems sz in simp_all)
  then show ?case
    using sz by (simp add: encode_args_Cons head body em len argv_pointers_Suc storage_back_def add.assoc)
qed

definition args_of :: "deserialized_args \<Rightarrow> bytes list res" where
  "args_of d = mapR (\<lambda>p. case p of None \<Rightarrow> Inl Undefined_Behaviour
     | Some q \<Rightarrow> storage_deref (da_string_storage d) q) (take (nat (da_argc d)) (da_argv_storage d))"

lemma sint_of_nat_u32: "n < 2 ^ 31 \<Longrightarrow> sint (of_nat n :: u32) = int n"
  by (simp add: signed_of_nat signed_take_bit_int_eq_self)

lemma deserialize_encode:
  assumes "list_all c_string as" "length as < 2 ^ 31 - 1"
  shows "deserialize_argv (le_bytes 4 (of_nat (length as) :: u32) @ encode_args as)
      (4 + length (encode_args as)) =
    Inr \<lparr>da_argc = int (length as),
         da_argv_storage = argv_pointers (sto_alloc (storage_reserve (length as) (storage_empty :: bytes storage))) 0 (length as) @ [None],
         da_string_storage = (storage_reserve (length as) storage_empty)\<lparr>sto_items := as\<rparr>\<rparr>"
proof -
  let ?h = "le_bytes 4 (of_nat (length as) :: u32)"
  let ?s = "storage_reserve (length as) (storage_empty :: bytes storage)"
  have s: "sto_items ?s = []" "length as \<le> sto_cap ?s"
    by (simp_all add: storage_reserve_def storage_empty_def)
  have argc: "sint (of_nat (length as) :: u32) = int (length as)"
    by (rule sint_of_nat_u32) (use assms(2) in linarith)
  have ne: "int (length as) \<noteq> 2 ^ 31 - 1"
    using assms(2) by simp
  have head: "read_u32 (?h @ encode_args as) (4 + length (encode_args as)) 0 = Inr (of_nat (length as), 4)"
    using read_u32_at [of "[]" 0] by simp
  have loop: "deserialize_loop (?h @ encode_args as @ []) (4 + length (encode_args as)) (length as) (length ?h) [] ?s =
      Inr ([] @ argv_pointers (sto_alloc ?s) (length (sto_items ?s)) (length as),
           ?s\<lparr>sto_items := sto_items ?s @ as\<rparr>)"
    by (rule deserialize_loop_encode) (use assms(1) s in simp_all)
  show ?thesis
    using loop ne s by (simp add: deserialize_argv_def head argc)
qed

lemma args_of_deserialized:
  "args_of \<lparr>da_argc = int (length as), da_argv_storage = argv_pointers (sto_alloc s) 0 (length as) @ [None],
      da_string_storage = s\<lparr>sto_items := as\<rparr>\<rparr> = Inr as"
proof -
  let ?d = "\<lambda>p. case p of None \<Rightarrow> Inl Undefined_Behaviour
     | Some q \<Rightarrow> storage_deref (s\<lparr>sto_items := as\<rparr>) q"
  have ptrs: "argv_pointers (sto_alloc s) 0 (length as) =
      map (\<lambda>k. Some \<lparr>ep_alloc = sto_alloc s, ep_index = k\<rparr>) [0..<length as]"
    by (simp add: argv_pointers_def)
  have "mapR ?d (map (\<lambda>k. Some \<lparr>ep_alloc = sto_alloc s, ep_index = k\<rparr>) [0..<length as]) =
      Inr (map (\<lambda>p. as ! ep_index (the p)) (map (\<lambda>k. Some \<lparr>ep_alloc = sto_alloc s, ep_index = k\<rparr>) [0..<length as]))"
    by (rule mapR_Inr) (auto simp: storage_deref_def)
  also have "map (\<lambda>p. as ! ep_index (the p)) (map (\<lambda>k. Some \<lparr>ep_alloc = sto_alloc s, ep_index = k\<rparr>) [0..<length as]) = as"
    by (simp add: comp_def map_nth)
  finally show ?thesis by (simp add: args_of_def ptrs cong: option.case_cong)
qed

section \<open>Payloads that are not an argument vector\<close>

text \<open>No prefix of a payload is accepted.\<close>

lemma read_u32_short [res_simps]: "sz < offset + 4 \<Longrightarrow> read_u32 data sz offset = Inl malformed"
  by (simp add: read_u32_def)

lemma deserialize_loop_truncated:
  assumes "list_all c_string as" "k < length pre + length (encode_args as)" "length pre \<le> k"
  shows "deserialize_loop (take k (pre @ encode_args as)) k (length as) (length pre) argv s = Inl malformed"
  using assms
proof (induction as arbitrary: pre argv s)
  case Nil
  then show ?case by (simp add: encode_args_def)
next
  case (Cons a as)
  let ?h = "le_bytes 4 (of_nat (length a) :: u32)"
  define data where "data = take k (pre @ encode_args (a # as))"
  have len: "unat (of_nat (length a) :: u32) = length a"
    using Cons.prems(1) by (intro unat_of_nat_u32) (simp add: c_string_def)
  have "deserialize_loop data k (Suc (length as)) (length pre) argv s = Inl malformed"
  proof (cases "k < length pre + 4")
    case True
    then show ?thesis by (simp add: read_u32_short)
  next
    case h: False
    then have "data = pre @ ?h @ take (k - length pre - 4) (a @ encode_args as)"
      by (simp add: encode_args_Cons data_def)
    then have head: "read_u32 data k (length pre) = Inr (of_nat (length a), length pre + 4)"
      using h read_u32_at [of pre "length pre" k] by simp
    show ?thesis
    proof (cases "k < length pre + 4 + length a")
      case True
      then show ?thesis by (simp add: head len)
    next
      case whole: False
      then have "data = (pre @ ?h) @ a @ take (k - length pre - 4 - length a) (encode_args as)"
        using h by (simp add: encode_args_Cons data_def)
      then have body: "read_bytes data (length pre + 4) (length a) = Inr a"
        using read_bytes_at [of "pre @ ?h" "length pre + 4" a "length a"] by simp
      have d: "data = take k ((pre @ ?h @ a) @ encode_args as)"
        by (simp only: data_def encode_args_Cons append_assoc)
      have "deserialize_loop data k (length as) (length (pre @ ?h @ a))
          (argv @ [Some (storage_back (storage_emplace_back a s))]) (storage_emplace_back a s) = Inl malformed"
        unfolding d by (rule Cons.IH) (use Cons.prems whole in \<open>simp_all add: encode_args_Cons\<close>)
      with whole show ?thesis by (simp add: head body len Let_def add.assoc)
    qed
  qed
  then show ?case by (simp only: data_def list.size(4) add_0_right add_Suc_right One_nat_def)
qed

text \<open>The daemon reads what a socket delivers: no read leaves the payload.\<close>

lemma deserialize_loop_safe:
  "sz \<le> length data \<Longrightarrow> deserialize_loop data sz n offset argv s \<noteq> Inl Undefined_Behaviour"
proof (induction n arbitrary: offset argv s)
  case (Suc n)
  then show ?case
    by (auto simp: read_u32_def read_bytes_def malformed_def Let_def)
qed simp

lemma serialize_encode:
  assumes "list_all c_string as"
  shows "serialize_argv (int (length as)) (map Some as @ [None]) =
    Inr (le_bytes 4 (of_nat (length as) :: u32) @ encode_args as)"
  using serialize_loop_encode [OF assms, of "[None]"]
  by (simp add: serialize_argv_def append_u32_def)

section \<open>Properties\<close>

text \<open>What the client serialises, the daemon deserialises: for arguments that are C strings the
  deserialised object has the same count, its pointers are valid (the reservation keeps the
  vector of strings from moving) and read the same arguments, and a null pointer ends them.\<close>

lemma argv_round_trip:
  assumes "list_all c_string as" "length as < 2 ^ 31 - 1"
  shows "\<exists>payload d. serialize_argv (int (length as)) (map Some as @ [None]) = Inr payload \<and>
    deserialize_argv payload (length payload) = Inr d \<and> da_argc d = int (length as) \<and>
    args_of d = Inr as \<and> last (da_argv_storage d) = None"
  using serialize_encode [OF assms(1)] deserialize_encode [OF assms]
  by (simp add: args_of_deserialized)

lemma argv_round_trip_witness:
  "\<exists>payload d. serialize_argv 2 [Some [0x76, 0x69], Some [], None] = Inr payload \<and>
    deserialize_argv payload (length payload) = Inr d \<and> da_argc d = 2 \<and>
    args_of d = Inr [[0x76, 0x69], []] \<and> last (da_argv_storage d) = None"
  using argv_round_trip [of "[[0x76, 0x69], []]"] by (simp add: c_string_def)

text \<open>A payload that was cut short anywhere is refused as malformed.\<close>

lemma argv_truncated:
  assumes "list_all c_string as" "length as < 2 ^ 31 - 1"
    and "serialize_argv (int (length as)) (map Some as @ [None]) = Inr payload" "k < length payload"
  shows "deserialize_argv (take k payload) k = Inl malformed"
proof (cases "k < 4")
  case True
  then show ?thesis by (simp add: deserialize_argv_def read_u32_short)
next
  case False
  let ?h = "le_bytes 4 (of_nat (length as) :: u32)"
  have p: "payload = ?h @ encode_args as"
    using assms(3) serialize_encode [OF assms(1)] by simp
  define data where "data = take k payload"
  have "data = [] @ ?h @ take (k - 4) (encode_args as)"
    using False by (simp add: p data_def)
  then have head: "read_u32 data k 0 = Inr (of_nat (length as), 4)"
    using read_u32_at [of "[]" 0 k] False by simp
  have argc: "sint (of_nat (length as) :: u32) = int (length as)" "int (length as) \<noteq> 2 ^ 31 - 1"
    using assms(2) by (auto intro!: sint_of_nat_u32)
  have "deserialize_loop data k (length as) (length ?h) []
      (storage_reserve (length as) storage_empty) = Inl malformed"
    unfolding data_def p by (rule deserialize_loop_truncated [OF assms(1)]) (use assms(4) False p in simp_all)
  then show ?thesis
    unfolding data_def [symmetric] using argc by (simp add: deserialize_argv_def head)
qed

lemma argv_truncated_witness:
  "deserialize_argv (take 9 [1, 0, 0, 0, 2, 0, 0, 0, 0x76, 0x69]) 9 = Inl malformed"
proof -
  have "serialize_argv (int (length [[0x76, 0x69 :: u8]])) (map Some [[0x76, 0x69]] @ [None]) =
      Inr [1, 0, 0, 0, 2, 0, 0, 0, 0x76, 0x69]"
    by code_simp
  from argv_truncated [OF _ _ this, of 9] show ?thesis by (simp add: c_string_def)
qed

text \<open>C37: Deserialising never reads outside the payload, whatever its bytes; the one undefined run is
  a count of 0x7fffffff, for which \<open>argc + 1\<close> overflows.\<close>

theorem deserialize_argv_safe:
  assumes "sz \<le> length data"
  shows "deserialize_argv data sz = Inl Undefined_Behaviour \<longleftrightarrow>
    4 \<le> sz \<and> take 4 data = [0xff, 0xff, 0xff, 0x7f]"
proof (cases "4 \<le> sz")
  case False
  then show ?thesis by (simp add: deserialize_argv_def read_u32_short malformed_def)
next
  case True
  let ?v = "of_nat (from_le (take 4 data)) :: u32"
  have head: "read_u32 data sz 0 = Inr (?v, 4)"
    using True assms by (simp add: read_u32_def read_bytes_def)
  have lt: "from_le (take 4 data) < 2 ^ 32"
    using from_le_less [of "take 4 data"] True assms by simp
  have v: "?v = 0x7fffffff \<longleftrightarrow> from_le (take 4 data) = 0x7fffffff"
    using unat_of_nat_u32 [OF lt] by (simp add: word_unat_eq_iff)
  have max: "sint ?v = 2 ^ 31 - 1 \<longleftrightarrow> ?v = 0x7fffffff"
  proof -
    have "sint (0x7fffffff :: u32) = 2 ^ 31 - 1" by simp
    then show ?thesis by (metis signed_word_eqI)
  qed
  have "from_le (take 4 data) = from_le [0xff, 0xff, 0xff, 0x7f] \<longleftrightarrow> take 4 data = [0xff, 0xff, 0xff, 0x7f]"
    using from_le_inject [of "take 4 data" "[0xff, 0xff, 0xff, 0x7f]"] True assms by auto
  moreover have "from_le [0xff, 0xff, 0xff, 0x7f] = 0x7fffffff" by simp
  ultimately show ?thesis
    using True deserialize_loop_safe [OF assms] max v
    by (auto simp: deserialize_argv_def head bindR_Inl_iff Let_def split: if_splits)
qed

lemma deserialize_argv_safe_witness:
  "deserialize_argv [0xff, 0xff, 0xff, 0x7f] 4 = Inl Undefined_Behaviour \<and>
   deserialize_argv [1, 0, 0, 0, 9] 5 \<noteq> Inl Undefined_Behaviour"
  using deserialize_argv_safe [of 4 "[0xff, 0xff, 0xff, 0x7f]"] deserialize_argv_safe [of 5 "[1, 0, 0, 0, 9]"]
  by simp

end
