(* ===== verification/Usbip_Command.thy ===== *)
theory Usbip_Command
  imports Descriptors
begin

text \<open>
  \<open>viu::usbip::command\<close> (src/vhci.cppm lines 15-178, src/vhci_impl.cpp lines 116-280).
  A header is five 32-bit words and a union of 28 bytes. The union is kept as its bytes, so
  that reading a member that was not written means what it means in memory; \<open>load32\<close> and
  \<open>store32\<close> access its 32-bit members. A signed member is the same word read with \<open>sint\<close>.
\<close>

section \<open>Words in memory\<close>

definition load32 :: "nat \<Rightarrow> bytes \<Rightarrow> u32" where
  "load32 offset bs = word_of_nat (from_le (take 4 (drop offset bs)))"

definition store32 :: "nat \<Rightarrow> u32 \<Rightarrow> bytes \<Rightarrow> bytes" where
  "store32 offset w bs = take offset bs @ le_bytes 4 w @ drop (offset + 4) bs"

lemma length_store32 [simp, wire_simps]: "offset + 4 \<le> length bs \<Longrightarrow> length (store32 offset w bs) = length bs"
  by (simp add: store32_def)

lemma load_store32 [simp]:
  "offset + 4 \<le> length bs \<Longrightarrow> load32 offset (store32 offset w bs) = w"
  by (simp add: load32_def store32_def word_of_le_bytes [where n = 4])

lemma load_store32_other:
  assumes "offset + 4 \<le> length bs" "i + 4 \<le> offset \<or> offset + 4 \<le> i"
  shows "load32 i (store32 offset w bs) = load32 i bs"
  using assms(2)
proof
  assume "i + 4 \<le> offset"
  then have "take 4 (drop i (store32 offset w bs)) = take 4 (drop i bs)"
    using assms(1) by (simp add: store32_def drop_take)
  then show ?thesis by (simp add: load32_def)
next
  assume "offset + 4 \<le> i"
  then have "drop i (store32 offset w bs) = drop i bs"
    using assms(1) by (simp add: store32_def)
  then show ?thesis by (simp add: load32_def)
qed

text \<open>The network form of a word.\<close>

definition be32 :: "u32 \<Rightarrow> bytes" where
  "be32 w = rev (le_bytes 4 w)"

lemma length_be32 [simp, wire_simps]: "length (be32 w) = 4"
  by (simp add: be32_def)

lemma le_bytes_to_big: "le_bytes 4 (to_big (w :: u32)) = be32 w"
  by (simp add: to_big_def be32_def le_bytes_byteswap [where n = 4])

lemma load32_be32: "length pre = i \<Longrightarrow> load32 i (pre @ be32 w @ post) = to_big w"
  by (simp add: load32_def be32_def to_big_def byteswap_def)

section \<open>The header\<close>

definition USBIP_CMD_SUBMIT :: u32 where "USBIP_CMD_SUBMIT = 0x0001"
definition USBIP_CMD_UNLINK :: u32 where "USBIP_CMD_UNLINK = 0x0002"
definition USBIP_RET_SUBMIT :: u32 where "USBIP_RET_SUBMIT = 0x0003"
definition USBIP_RET_UNLINK :: u32 where "USBIP_RET_UNLINK = 0x0004"
definition USBIP_DIR_OUT :: u32 where "USBIP_DIR_OUT = 0x00"
definition USBIP_DIR_IN :: u32 where "USBIP_DIR_IN = 0x01"

lemmas usbip_consts = USBIP_CMD_SUBMIT_def USBIP_CMD_UNLINK_def USBIP_RET_SUBMIT_def
  USBIP_RET_UNLINK_def USBIP_DIR_OUT_def USBIP_DIR_IN_def

record usbip_header_basic =
  hb_command :: u32
  hb_seqnum :: u32
  hb_devid :: u32
  hb_direction :: u32
  hb_ep :: u32

record usbip_header_ret_submit =
  rs_status :: u32
  rs_actual_length :: u32
  rs_start_frame :: u32
  rs_number_of_packets :: u32
  rs_error_count :: u32

definition union_size :: nat where "union_size = 28"
definition header_size :: nat where "header_size = 20 + union_size"

text \<open>The members of \<open>cmd_submit\<close> and \<open>cmd_unlink\<close> by their offsets in the union.\<close>

definition off_transfer_flags :: nat where "off_transfer_flags = 0"
definition off_transfer_buffer_length :: nat where "off_transfer_buffer_length = 4"
definition off_start_frame :: nat where "off_start_frame = 8"
definition off_number_of_packets :: nat where "off_number_of_packets = 12"
definition off_interval :: nat where "off_interval = 16"
definition off_setup :: nat where "off_setup = 20"
definition off_unlink_seqnum :: nat where "off_unlink_seqnum = 0"

lemmas off_defs = off_transfer_flags_def off_transfer_buffer_length_def off_start_frame_def
  off_number_of_packets_def off_interval_def off_setup_def off_unlink_seqnum_def

record command =
  hdr_base :: usbip_header_basic
  union_bytes :: bytes
  cmd_payload :: bytes

definition command_init :: command where
  "command_init = \<lparr>hdr_base = \<lparr>hb_command = 0, hb_seqnum = 0, hb_devid = 0, hb_direction = 0, hb_ep = 0\<rparr>,
     union_bytes = replicate union_size 0, cmd_payload = []\<rparr>"

section \<open>Reading a command\<close>

definition request :: "command \<Rightarrow> u32" where "request c = hb_command (hdr_base c)"
definition direction :: "command \<Rightarrow> u32" where "direction c = hb_direction (hdr_base c)"
definition is_in :: "command \<Rightarrow> bool" where "is_in c \<longleftrightarrow> direction c = USBIP_DIR_IN"
definition is_out :: "command \<Rightarrow> bool" where "is_out c \<longleftrightarrow> direction c = USBIP_DIR_OUT"
definition is_unlink :: "command \<Rightarrow> bool" where "is_unlink c \<longleftrightarrow> request c = USBIP_CMD_UNLINK"
definition is_submit :: "command \<Rightarrow> bool" where "is_submit c \<longleftrightarrow> request c = USBIP_CMD_SUBMIT"
definition cmd_ep :: "command \<Rightarrow> u32" where "cmd_ep c = hb_ep (hdr_base c)"
definition seqnum :: "command \<Rightarrow> u32" where "seqnum c = hb_seqnum (hdr_base c)"
definition devid :: "command \<Rightarrow> u32" where "devid c = hb_devid (hdr_base c)"

definition LIBUSB_ENDPOINT_IN :: u8 where "LIBUSB_ENDPOINT_IN = 0x80"
definition LIBUSB_ENDPOINT_OUT :: u8 where "LIBUSB_ENDPOINT_OUT = 0x00"

definition ep_address :: "command \<Rightarrow> u8" where
  "ep_address c = ucast (cmd_ep c OR ucast (if is_in c then LIBUSB_ENDPOINT_IN else LIBUSB_ENDPOINT_OUT))"

definition transfer_buffer_size :: "command \<Rightarrow> nat res" where
  "transfer_buffer_size c =
     bindR (viu_assert (is_submit c)) (\<lambda>_.
     bindR (viu_assert (sint (load32 off_transfer_buffer_length (union_bytes c)) \<ge> 0)) (\<lambda>_.
     Inr (nat (sint (load32 off_transfer_buffer_length (union_bytes c))))))"

definition iso_packet_count :: "command \<Rightarrow> u32 res" where
  "iso_packet_count c =
     bindR (viu_assert (is_submit c)) (\<lambda>_. Inr (load32 off_number_of_packets (union_bytes c)))"

definition start_frame :: "command \<Rightarrow> u32 res" where
  "start_frame c =
     bindR (viu_assert (is_submit c)) (\<lambda>_. Inr (load32 off_start_frame (union_bytes c)))"

definition unlink_seqnum :: "command \<Rightarrow> u32 res" where
  "unlink_seqnum c =
     bindR (viu_assert (is_unlink c)) (\<lambda>_. Inr (load32 off_unlink_seqnum (union_bytes c)))"

definition is_iso :: "command \<Rightarrow> bool res" where
  "is_iso c = bindR (iso_packet_count c) (\<lambda>n. Inr (n \<noteq> 0 \<and> n \<noteq> 0xffffffff))"

text \<open>
  \<open>iso_descriptor_size\<close> multiplies an \<open>int\<close> with a \<open>std::size_t\<close>; \<open>payload_size\<close> adds it to an
  \<open>int\<close>, which truncates the sum.
\<close>

definition usbip_iso_descriptor_size :: nat where "usbip_iso_descriptor_size = 16"

definition iso_descriptor_size :: "command \<Rightarrow> u64 res" where
  "iso_descriptor_size c =
     bindR (iso_packet_count c) (\<lambda>n. Inr (scast n * of_nat usbip_iso_descriptor_size))"

definition payload_size :: "command \<Rightarrow> u32 res" where
  "payload_size c =
     (if is_unlink c then Inr 0
      else bindR (if is_out c then bindR (transfer_buffer_size c) (\<lambda>n. Inr (of_nat n)) else Inr 0) (\<lambda>size0 :: u32.
           bindR (is_iso c) (\<lambda>i.
           if i then bindR (iso_descriptor_size c) (\<lambda>n. Inr (ucast (scast size0 + n)))
           else Inr size0)))"

definition reply_header :: "command \<Rightarrow> usbip_header_basic" where
  "reply_header c =
     \<lparr>hb_command = to_big (if is_submit c then USBIP_RET_SUBMIT else USBIP_RET_UNLINK),
      hb_seqnum = to_big (seqnum c), hb_devid = to_big (devid c),
      hb_direction = to_big (direction c), hb_ep = to_big (cmd_ep c)\<rparr>"

record control_setup =
  bmRequestType :: u8
  bRequest :: u8
  wValue :: u16
  wIndex :: u16
  wLength :: u16

definition load_little_u16 :: "nat \<Rightarrow> bytes \<Rightarrow> u16" where
  "load_little_u16 offset bs = word_of_nat (from_le (take 2 (drop offset bs)))"

definition setup_bytes :: "command \<Rightarrow> bytes" where
  "setup_bytes c = take 8 (drop off_setup (union_bytes c))"

definition control_setup :: "command \<Rightarrow> control_setup" where
  "control_setup c =
     \<lparr>bmRequestType = setup_bytes c ! 0, bRequest = setup_bytes c ! 1,
      wValue = from_little (load_little_u16 2 (setup_bytes c)),
      wIndex = from_little (load_little_u16 4 (setup_bytes c)),
      wLength = from_little (load_little_u16 6 (setup_bytes c))\<rparr>"

definition config_index :: "command \<Rightarrow> u8" where
  "config_index c = integral_at 0 (wValue (control_setup c))"

definition recipient :: "command \<Rightarrow> u8" where
  "recipient c = bmRequestType (control_setup c) AND 0b00011111"

definition request_type :: "command \<Rightarrow> u8" where
  "request_type c = bmRequestType (control_setup c) AND 0b01100000"

section \<open>From and to the wire\<close>

text \<open>
  \<open>sgetn\<close> copies what the buffer holds over a zeroed header, up to its size; then every field
  is converted in place.
\<close>

definition header_of_bytes :: "bytes \<Rightarrow> command" where
  "header_of_bytes buffer =
     (let raw = take header_size buffer @ replicate (header_size - length buffer) 0
      in \<lparr>hdr_base = \<lparr>hb_command = load32 0 raw, hb_seqnum = load32 4 raw, hb_devid = load32 8 raw,
            hb_direction = load32 12 raw, hb_ep = load32 16 raw\<rparr>,
          union_bytes = drop 20 raw, cmd_payload = []\<rparr>)"

definition swap_at :: "nat \<Rightarrow> bytes \<Rightarrow> bytes" where
  "swap_at offset bs = store32 offset (from_big (load32 offset bs)) bs"

definition from_big_endian :: "bytes \<Rightarrow> command res" where
  "from_big_endian buffer =
     (let cmd0 = header_of_bytes buffer;
          b = hdr_base cmd0;
          cmd = cmd0\<lparr>hdr_base := \<lparr>hb_command = from_big (hb_command b), hb_seqnum = from_big (hb_seqnum b),
             hb_devid = from_big (hb_devid b), hb_direction = from_big (hb_direction b),
             hb_ep = from_big (hb_ep b)\<rparr>\<rparr>;
          u = union_bytes cmd
      in if request cmd = USBIP_CMD_SUBMIT then
           Inr (cmd\<lparr>union_bytes := swap_at off_interval (swap_at off_number_of_packets
             (swap_at off_start_frame (swap_at off_transfer_buffer_length
               (swap_at off_transfer_flags u))))\<rparr>)
         else if request cmd = USBIP_CMD_UNLINK then
           bindR (unlink_seqnum cmd) (\<lambda>n.
           Inr (cmd\<lparr>union_bytes := store32 off_unlink_seqnum (from_big n) u\<rparr>))
         else Inl (Runtime_Error (make_string [Text ''Invalid usbip command:'', Arith (uint (request cmd))])))"

text \<open>Lengths and counts beyond 32 bits are cut off.\<close>

definition make_ret_submit_header :: "command \<Rightarrow> nat \<Rightarrow> u32 \<Rightarrow> u32 \<Rightarrow> usbip_header_ret_submit res" where
  "make_ret_submit_header c len status error_count =
     bindR (viu_assert (is_submit c)) (\<lambda>_.
     bindR (start_frame c) (\<lambda>sf.
     bindR (iso_packet_count c) (\<lambda>n.
     Inr \<lparr>rs_status = to_big status, rs_actual_length = to_big (of_nat len), rs_start_frame = to_big sf,
          rs_number_of_packets = to_big n, rs_error_count = to_big error_count\<rparr>)))"

definition make_ret_unlink_header :: "command \<Rightarrow> u32 \<Rightarrow> u32 res" where
  "make_ret_unlink_header c status = bindR (viu_assert (is_unlink c)) (\<lambda>_. Inr (to_big status))"

text \<open>Writing \<open>ret_submit\<close> and \<open>ret_unlink\<close> into the union, and a header into a stream.\<close>

definition put_ret_submit :: "usbip_header_ret_submit \<Rightarrow> bytes \<Rightarrow> bytes" where
  "put_ret_submit r u = store32 16 (rs_error_count r) (store32 12 (rs_number_of_packets r)
     (store32 8 (rs_start_frame r) (store32 4 (rs_actual_length r) (store32 0 (rs_status r) u))))"

definition put_ret_unlink :: "u32 \<Rightarrow> bytes \<Rightarrow> bytes" where
  "put_ret_unlink status u = store32 0 status u"

definition header_bytes :: "command \<Rightarrow> bytes" where
  "header_bytes c = le_bytes 4 (hb_command (hdr_base c)) @ le_bytes 4 (hb_seqnum (hdr_base c)) @
     le_bytes 4 (hb_devid (hdr_base c)) @ le_bytes 4 (hb_direction (hdr_base c)) @
     le_bytes 4 (hb_ep (hdr_base c)) @ union_bytes c"

section \<open>The network protocol\<close>

text \<open>
  What the USB/IP protocol puts on the wire: every 32-bit field big endian, the setup packet
  as it is. The refinement lemmas state the decoder and the reply encoder against it.
\<close>

definition submit_wire :: "usbip_header_basic \<Rightarrow> u32 \<Rightarrow> u32 \<Rightarrow> u32 \<Rightarrow> u32 \<Rightarrow> u32 \<Rightarrow> bytes \<Rightarrow> bytes" where
  "submit_wire b flags len frame packets interval stp =
     be32 (hb_command b) @ be32 (hb_seqnum b) @ be32 (hb_devid b) @ be32 (hb_direction b) @ be32 (hb_ep b) @
     be32 flags @ be32 len @ be32 frame @ be32 packets @ be32 interval @ stp"

definition unlink_wire :: "usbip_header_basic \<Rightarrow> u32 \<Rightarrow> bytes" where
  "unlink_wire b n =
     be32 (hb_command b) @ be32 (hb_seqnum b) @ be32 (hb_devid b) @ be32 (hb_direction b) @ be32 (hb_ep b) @
     be32 n @ replicate 24 0"

lemma swap_at_be32:
  "length pre = i \<Longrightarrow> swap_at i (pre @ be32 w @ post) = pre @ le_bytes 4 w @ post"
  by (simp add: swap_at_def load32_be32 store32_def)

lemma header_of_bytes_wire:
  assumes "length u = union_size"
  shows "header_of_bytes (be32 a @ be32 b @ be32 c @ be32 d @ be32 e @ u) =
    \<lparr>hdr_base = \<lparr>hb_command = to_big a, hb_seqnum = to_big b, hb_devid = to_big c, hb_direction = to_big d,
       hb_ep = to_big e\<rparr>, union_bytes = u, cmd_payload = []\<rparr>"
proof -
  let ?w = "be32 a @ be32 b @ be32 c @ be32 d @ be32 e @ u"
  have raw: "take header_size ?w @ replicate (header_size - length ?w) 0 = ?w"
    using assms by (simp add: header_size_def)
  have "load32 0 ?w = to_big a" using load32_be32 [of "[]" 0] by simp
  moreover have "load32 4 ?w = to_big b" using load32_be32 [of "be32 a" 4] by simp
  moreover have "load32 8 ?w = to_big c" using load32_be32 [of "be32 a @ be32 b" 8] by simp
  moreover have "load32 12 ?w = to_big d" using load32_be32 [of "be32 a @ be32 b @ be32 c" 12] by simp
  moreover have "load32 16 ?w = to_big e"
    using load32_be32 [of "be32 a @ be32 b @ be32 c @ be32 d" 16] by simp
  moreover have "drop 20 ?w = u" by simp
  ultimately show ?thesis by (simp only: header_of_bytes_def raw Let_def)
qed

lemma from_big_endian_submit:
  assumes "hb_command b = USBIP_CMD_SUBMIT" "length stp = 8"
  shows "from_big_endian (submit_wire b flags len frame packets interval stp) =
    Inr \<lparr>hdr_base = b, union_bytes = le_bytes 4 flags @ le_bytes 4 len @ le_bytes 4 frame @
      le_bytes 4 packets @ le_bytes 4 interval @ stp, cmd_payload = []\<rparr>"
proof -
  let ?u = "be32 flags @ be32 len @ be32 frame @ be32 packets @ be32 interval @ stp"
  have hd: "header_of_bytes (submit_wire b flags len frame packets interval stp) =
    \<lparr>hdr_base = \<lparr>hb_command = to_big (hb_command b), hb_seqnum = to_big (hb_seqnum b),
       hb_devid = to_big (hb_devid b), hb_direction = to_big (hb_direction b),
       hb_ep = to_big (hb_ep b)\<rparr>, union_bytes = ?u, cmd_payload = []\<rparr>"
    unfolding submit_wire_def by (rule header_of_bytes_wire) (simp add: union_size_def assms(2))
  have s0: "swap_at 0 ?u = le_bytes 4 flags @ be32 len @ be32 frame @ be32 packets @ be32 interval @ stp"
    using swap_at_be32 [of "[]" 0] by simp
  have s1: "swap_at 4 (le_bytes 4 flags @ be32 len @ be32 frame @ be32 packets @ be32 interval @ stp)
    = le_bytes 4 flags @ le_bytes 4 len @ be32 frame @ be32 packets @ be32 interval @ stp"
    using swap_at_be32 [of "le_bytes 4 flags" 4] by simp
  have s2: "swap_at 8 (le_bytes 4 flags @ le_bytes 4 len @ be32 frame @ be32 packets @ be32 interval @ stp)
    = le_bytes 4 flags @ le_bytes 4 len @ le_bytes 4 frame @ be32 packets @ be32 interval @ stp"
    using swap_at_be32 [of "le_bytes 4 flags @ le_bytes 4 len" 8] by simp
  have s3: "swap_at 12 (le_bytes 4 flags @ le_bytes 4 len @ le_bytes 4 frame @ be32 packets @ be32 interval @ stp)
    = le_bytes 4 flags @ le_bytes 4 len @ le_bytes 4 frame @ le_bytes 4 packets @ be32 interval @ stp"
    using swap_at_be32 [of "le_bytes 4 flags @ le_bytes 4 len @ le_bytes 4 frame" 12] by simp
  have s4: "swap_at 16 (le_bytes 4 flags @ le_bytes 4 len @ le_bytes 4 frame @ le_bytes 4 packets @ be32 interval @ stp)
    = le_bytes 4 flags @ le_bytes 4 len @ le_bytes 4 frame @ le_bytes 4 packets @ le_bytes 4 interval @ stp"
    using swap_at_be32 [of "le_bytes 4 flags @ le_bytes 4 len @ le_bytes 4 frame @ le_bytes 4 packets" 16] by simp
  show ?thesis
    using assms(1)
    by (simp add: from_big_endian_def hd request_def off_defs s0 s1 s2 s3 s4)
qed

lemma length_submit_wire [simp]: "length (submit_wire b flags len frame packets interval stp) = 40 + length stp"
  by (simp add: submit_wire_def)

lemma load32_le: "length pre = i \<Longrightarrow> load32 i (pre @ le_bytes 4 w @ post) = w"
  by (simp add: load32_def word_of_le_bytes [where n = 4])

lemma submit_union_fields:
  assumes "u = le_bytes 4 flags @ le_bytes 4 len @ le_bytes 4 frame @ le_bytes 4 packets @
    le_bytes 4 interval @ stp"
  shows "load32 off_transfer_flags u = flags" "load32 off_transfer_buffer_length u = len"
    "load32 off_start_frame u = frame" "load32 off_number_of_packets u = packets"
    "load32 off_interval u = interval" "drop off_setup u = stp"
  unfolding assms off_defs
  using load32_le [of "[]" 0 flags] load32_le [of "le_bytes 4 flags" 4 len]
    load32_le [of "le_bytes 4 flags @ le_bytes 4 len" 8 frame]
    load32_le [of "le_bytes 4 flags @ le_bytes 4 len @ le_bytes 4 frame" 12 packets]
    load32_le [of "le_bytes 4 flags @ le_bytes 4 len @ le_bytes 4 frame @ le_bytes 4 packets" 16 interval]
  by simp_all

section \<open>Properties\<close>

text \<open>C35: Decoding a CMD_SUBMIT as the protocol writes it gives back every field and the setup
  packet.\<close>

theorem submit_decodes:
  assumes "hb_command b = USBIP_CMD_SUBMIT" "length stp = 8"
  shows "\<exists>c. from_big_endian (submit_wire b flags len frame packets interval stp) = Inr c \<and>
    hdr_base c = b \<and> is_submit c \<and>
    load32 off_transfer_flags (union_bytes c) = flags \<and>
    load32 off_transfer_buffer_length (union_bytes c) = len \<and>
    start_frame c = Inr frame \<and> iso_packet_count c = Inr packets \<and>
    load32 off_interval (union_bytes c) = interval \<and> setup_bytes c = stp \<and>
    length (union_bytes c) = union_size"
  by (rule exI, rule conjI, rule from_big_endian_submit [OF assms])
    (use assms in \<open>simp add: is_submit_def request_def start_frame_def iso_packet_count_def
      setup_bytes_def submit_union_fields(1-5) [OF refl] off_setup_def union_size_def\<close>)

definition example_base :: usbip_header_basic where
  "example_base = \<lparr>hb_command = 1, hb_seqnum = 7, hb_devid = 0x10002, hb_direction = 1, hb_ep = 2\<rparr>"

lemma submit_decodes_witness:
  "\<exists>c. from_big_endian (submit_wire example_base 0x200 64 0 0 1 [0x80, 6, 0, 1, 0, 0, 18, 0]) = Inr c \<and>
    hdr_base c = example_base \<and> iso_packet_count c = Inr 0"
  using submit_decodes [where b = example_base and stp = "[0x80, 6, 0, 1, 0, 0, 18, 0]"
      and flags = "0x200" and len = 64 and frame = 0 and packets = 0 and interval = 1]
  by (auto simp: example_base_def usbip_consts)

text \<open>Decoding a CMD_UNLINK gives back the header and the sequence number to unlink.\<close>

lemma unlink_decodes:
  assumes "hb_command b = USBIP_CMD_UNLINK"
  shows "\<exists>c. from_big_endian (unlink_wire b n) = Inr c \<and> hdr_base c = b \<and> is_unlink c \<and>
    unlink_seqnum c = Inr n \<and> payload_size c = Inr 0 \<and> length (union_bytes c) = union_size"
proof -
  let ?u = "be32 n @ replicate 24 0"
  have hd: "header_of_bytes (unlink_wire b n) =
    \<lparr>hdr_base = \<lparr>hb_command = to_big (hb_command b), hb_seqnum = to_big (hb_seqnum b),
       hb_devid = to_big (hb_devid b), hb_direction = to_big (hb_direction b),
       hb_ep = to_big (hb_ep b)\<rparr>, union_bytes = ?u, cmd_payload = []\<rparr>"
    unfolding unlink_wire_def by (rule header_of_bytes_wire) (simp add: union_size_def)
  have n: "load32 0 ?u = to_big n" using load32_be32 [of "[]" 0] by simp
  have "from_big_endian (unlink_wire b n) =
      Inr \<lparr>hdr_base = b, union_bytes = store32 0 n ?u, cmd_payload = []\<rparr>"
    using assms
    by (simp add: from_big_endian_def hd request_def is_unlink_def unlink_seqnum_def off_defs n usbip_consts)
  then show ?thesis
    using assms
    by (simp add: is_unlink_def request_def unlink_seqnum_def off_defs payload_size_def union_size_def)
qed

lemma unlink_decodes_witness:
  "\<exists>c. from_big_endian (unlink_wire (example_base\<lparr>hb_command := 2\<rparr>) 5) = Inr c \<and> unlink_seqnum c = Inr 5"
  using unlink_decodes [of "example_base\<lparr>hb_command := 2\<rparr>" 5] by (auto simp: usbip_consts)

text \<open>Any other command word is refused with its number in the message, whatever follows.\<close>

lemma other_commands_refused:
  assumes "length u = union_size" "a \<noteq> USBIP_CMD_SUBMIT" "a \<noteq> USBIP_CMD_UNLINK"
  shows "from_big_endian (be32 a @ be32 b @ be32 c @ be32 d @ be32 e @ u) =
    Inl (Runtime_Error (make_string [Text ''Invalid usbip command:'', Arith (uint a)]))"
  using assms(2,3) by (simp add: from_big_endian_def header_of_bytes_wire [OF assms(1)] request_def)

lemma other_commands_refused_witness:
  "from_big_endian (be32 3 @ be32 0 @ be32 0 @ be32 0 @ be32 0 @ replicate 28 0) =
    Inl (Runtime_Error (make_string [Text ''Invalid usbip command:'', Arith 3]))"
  using other_commands_refused [of "replicate 28 0" 3 0 0 0 0] by (simp add: union_size_def usbip_consts)

text \<open>The bytes that follow a submit header: the transfer buffer when the host writes, and 16
  bytes per isochronous packet; nothing overflows below \<open>2 ^ 26\<close> packets.\<close>

lemma payload_size_submit:
  assumes "is_submit c" "sint (load32 off_transfer_buffer_length (union_bytes c)) = int len"
    "load32 off_number_of_packets (union_bytes c) = n" "n = 0xffffffff \<or> unat n < 2 ^ 26" "len < 2 ^ 30"
  shows "payload_size c = Inr (of_nat ((if is_out c then len else 0) +
    (if n = 0 \<or> n = 0xffffffff then 0 else 16 * unat n)))"
proof -
  have not_unlink: "\<not> is_unlink c" using assms(1) by (simp add: is_submit_def is_unlink_def usbip_consts)
  have size: "transfer_buffer_size c = Inr len" using assms(1,2) by (simp add: transfer_buffer_size_def)
  have sx: "(scast (of_nat len :: u32) :: u64) = of_nat len"
  proof -
    have "sint (of_nat len :: u32) = int len"
      using assms(5) by (simp add: signed_of_nat signed_take_bit_int_eq_self)
    then show ?thesis by (simp add: scast_eq)
  qed
  show ?thesis
  proof (cases "n = 0 \<or> n = 0xffffffff")
    case True
    then show ?thesis
      using assms(1,3) not_unlink size by (auto simp: payload_size_def is_iso_def iso_packet_count_def)
  next
    case False
    then have lt: "unat n < 2 ^ 26" using assms(4) by blast
    have nx: "(scast n :: u64) = of_nat (unat n)"
    proof -
      have "sint n = int (unat n)" using lt by (intro sint_small) simp
      then show ?thesis by (simp only: scast_eq) simp
    qed
    have cut: "(ucast (of_nat k :: u64) :: u32) = of_nat k" for k
      by (rule bit_word_eqI) (auto simp: bit_simps)
    have sum: "ucast (of_nat len + of_nat (unat n) * 16 :: u64) = (of_nat (len + 16 * unat n) :: u32)"
      "ucast (of_nat (unat n) * 16 :: u64) = (of_nat (16 * unat n) :: u32)"
      using cut [of "len + 16 * unat n"] cut [of "16 * unat n"] by (simp_all only: of_nat_add of_nat_mult of_nat_numeral mult.commute)
    show ?thesis
      using assms(1,3) not_unlink size False
      by (simp add: payload_size_def is_iso_def iso_packet_count_def iso_descriptor_size_def
          usbip_iso_descriptor_size_def sx nx sum del: of_nat_unat)
  qed
qed

definition example_submit :: command where
  "example_submit = command_init\<lparr>hdr_base := example_base\<lparr>hb_direction := 0\<rparr>,
     union_bytes := le_bytes 4 (0 :: u32) @ le_bytes 4 (64 :: u32) @ le_bytes 4 (0 :: u32) @
       le_bytes 4 (8 :: u32) @ le_bytes 4 (1 :: u32) @ replicate 8 0\<rparr>"

lemma payload_size_submit_witness: "payload_size example_submit = Inr 192"
proof -
  note fields = submit_union_fields [where u = "union_bytes example_submit" and flags = 0 and len = 64
      and frame = 0 and packets = 8 and interval = 1 and stp = "replicate 8 0"]
  have u: "load32 off_transfer_buffer_length (union_bytes example_submit) = 64"
    "load32 off_number_of_packets (union_bytes example_submit) = 8"
    using fields by (simp_all add: example_submit_def)
  have "is_submit example_submit" "is_out example_submit"
    by (simp_all add: example_submit_def is_submit_def request_def is_out_def direction_def
        example_base_def usbip_consts)
  then show ?thesis
    using payload_size_submit [of example_submit 64 8] u by simp
qed

end
