(* ===== verification/Transfer_Model.thy ===== *)
theory Transfer_Model
  imports Format_Model Std_Map
begin

text \<open>
  \<open>viu::usb::transfer\<close> (src/transfer.cppm, src/transfer_impl.cpp): the transfer object as
  the code uses it, the \<open>control\<close> handle a plugin gets, the isochronous packets, and
  \<open>pending_map\<close>, which owns the transfers between \<open>attach\<close> and their completion.

  A C \<open>int\<close> of the structure is an \<open>int\<close>. A null transfer pointer is \<open>None\<close>.
\<close>

section \<open>Transfers\<close>

datatype xfer_status = Completed | Error | Timed_Out | Cancelled | Stall | No_Device | Overflow

record iso_packet =
  ip_length :: u32
  ip_actual_length :: u32
  ip_status :: xfer_status

record libusb_transfer =
  t_dev_handle :: "nat option"
  t_endpoint :: u8
  t_type :: u8
  t_status :: xfer_status
  t_length :: int
  t_actual_length :: int
  t_buffer :: "u8 ptr"
  t_num_iso_packets :: int
  t_iso_packet_desc :: "iso_packet list"
  t_user_data :: "nat option"

definition number_of_packets :: "libusb_transfer option \<Rightarrow> int" where
  "number_of_packets xfer = (case xfer of None \<Rightarrow> 0 | Some t \<Rightarrow> t_num_iso_packets t)"

definition is_iso_transfer :: "libusb_transfer option \<Rightarrow> bool" where
  "is_iso_transfer xfer \<longleftrightarrow>
     number_of_packets xfer \<noteq> 0 \<and> number_of_packets xfer mod 2 ^ 32 \<noteq> 0xffffffff"

definition iso_packet_descriptor_size :: nat where "iso_packet_descriptor_size = 16"

definition transfer_iso_descriptor_size :: "libusb_transfer option \<Rightarrow> nat" where
  "transfer_iso_descriptor_size xfer =
     size_of_int (number_of_packets xfer * int iso_packet_descriptor_size)"

definition is_mock :: "libusb_transfer option \<Rightarrow> bool res" where
  "is_mock xfer = (case xfer of None \<Rightarrow> Inl Assertion_Failed | Some t \<Rightarrow> Inr (t_dev_handle t = None))"

definition iso_packets_of :: "libusb_transfer \<Rightarrow> iso_packet list res" where
  "iso_packets_of t = vectorize (Some (t_iso_packet_desc t)) (size_of_int (t_num_iso_packets t))"

definition actual_length :: "libusb_transfer option \<Rightarrow> u32 res" where
  "actual_length transfer =
     (case transfer of
        None \<Rightarrow> Inl Assertion_Failed
      | Some t \<Rightarrow>
          if is_iso_transfer transfer
          then bindR (iso_packets_of t) (\<lambda>ps. Inr (foldl (\<lambda>sum ipd. sum + ip_actual_length ipd) 0 ps))
          else Inr (word_of_int (t_actual_length t)))"

section \<open>Isochronous data\<close>

text \<open>\<open>subspan(offset, count)\<close> outside the span is undefined.\<close>

definition subspan :: "bytes \<Rightarrow> nat \<Rightarrow> nat \<Rightarrow> bytes res" where
  "subspan bs offset count =
     (if offset + count \<le> length bs then Inr (take count (drop offset bs)) else Inl Undefined_Behaviour)"

fun iso_data_loop :: "bytes \<Rightarrow> iso_packet list \<Rightarrow> u32 \<Rightarrow> bytes \<Rightarrow> bytes res" where
  "iso_data_loop in_buffer [] offset acc = Inr acc"
| "iso_data_loop in_buffer (ipk # ipks) offset acc =
     (if ip_status ipk \<noteq> Completed then iso_data_loop in_buffer ipks offset acc
      else bindR (subspan in_buffer (size_of_int (sint offset)) (unat (ip_actual_length ipk))) (\<lambda>data_chunk.
           iso_data_loop in_buffer ipks (offset + ip_length ipk) (acc @ data_chunk)))"

definition iso_data :: "libusb_transfer option \<Rightarrow> bytes res" where
  "iso_data transfer =
     (case transfer of
        None \<Rightarrow> Inl Assertion_Failed
      | Some t \<Rightarrow>
          bindR (viu_assert (t_buffer t \<noteq> None)) (\<lambda>_.
          bindR (viu_assert (is_iso_transfer transfer)) (\<lambda>_.
          bindR (iso_packets_of t) (\<lambda>iso_packets.
          bindR (vectorize (t_buffer t) (size_of_int (t_length t))) (\<lambda>in_buffer.
          iso_data_loop in_buffer iso_packets 0 [])))))"

record usbip_iso_packet_descriptor =
  ud_offset :: u32
  ud_length :: u32
  ud_actual_length :: u32
  ud_status :: u32

record iso_desc =
  data_size :: nat
  descriptors :: "usbip_iso_packet_descriptor list"
  error_count :: nat

definition EINVAL :: u32 where "EINVAL = 22"

fun iso_descriptors_loop :: "iso_packet list \<Rightarrow> u32 \<Rightarrow> iso_desc \<Rightarrow> iso_desc" where
  "iso_descriptors_loop [] offset d = d"
| "iso_descriptors_loop (ipk # ipks) offset d =
     (let failed = ip_status ipk \<noteq> Completed;
          iso_descriptor = \<lparr>ud_offset = to_big offset, ud_length = to_big (ip_length ipk),
            ud_actual_length = to_big (ip_actual_length ipk),
            ud_status = (if failed then to_big (- EINVAL) else 0)\<rparr>
      in iso_descriptors_loop ipks (offset + ip_length ipk)
           \<lparr>data_size = data_size d + unat (ip_actual_length ipk),
            descriptors = descriptors d @ [iso_descriptor],
            error_count = error_count d + (if failed then 1 else 0)\<rparr>)"

definition iso_descriptors :: "libusb_transfer option \<Rightarrow> iso_desc res" where
  "iso_descriptors transfer =
     (case transfer of
        None \<Rightarrow> Inl Assertion_Failed
      | Some t \<Rightarrow>
          bindR (viu_assert (is_iso_transfer transfer)) (\<lambda>_.
          bindR (iso_packets_of t) (\<lambda>iso_packets.
          Inr (iso_descriptors_loop iso_packets 0 \<lparr>data_size = 0, descriptors = [], error_count = 0\<rparr>))))"

section \<open>The control handle\<close>

definition direction_mask :: u8 where "direction_mask = 0x80"

definition control_is_in :: "libusb_transfer option \<Rightarrow> bool res" where
  "control_is_in xfer = (case xfer of None \<Rightarrow> Inl Assertion_Failed
     | Some t \<Rightarrow> Inr (t_endpoint t AND direction_mask = 0x80))"

definition control_is_out :: "libusb_transfer option \<Rightarrow> bool res" where
  "control_is_out xfer = (case xfer of None \<Rightarrow> Inl Assertion_Failed
     | Some t \<Rightarrow> Inr (t_endpoint t AND direction_mask = 0x00))"

definition control_size :: "libusb_transfer option \<Rightarrow> int res" where
  "control_size xfer = (case xfer of None \<Rightarrow> Inl Assertion_Failed | Some t \<Rightarrow> Inr (t_length t))"

definition control_type :: "libusb_transfer option \<Rightarrow> u8 res" where
  "control_type xfer = (case xfer of None \<Rightarrow> Inl Assertion_Failed | Some t \<Rightarrow> Inr (t_type t))"

definition control_ep :: "libusb_transfer option \<Rightarrow> u8 res" where
  "control_ep xfer = (case xfer of None \<Rightarrow> Inl Assertion_Failed | Some t \<Rightarrow> Inr (t_endpoint t))"

text \<open>\<open>memcpy\<close> into the transfer's buffer.\<close>

definition buffer_copy :: "u8 ptr \<Rightarrow> bytes \<Rightarrow> u8 ptr res" where
  "buffer_copy buffer data =
     (case buffer of
        None \<Rightarrow> if data = [] then Inr None else Inl Undefined_Behaviour
      | Some bs \<Rightarrow> if length data \<le> length bs then Inr (Some (data @ drop (length data) bs))
                   else Inl Undefined_Behaviour)"

text \<open>The loop \<open>ipd->actual_length = ipd->length; ipd++\<close>.\<close>

definition complete_packets :: "libusb_transfer \<Rightarrow> libusb_transfer res" where
  "complete_packets t =
     (if is_iso_transfer (Some t)
      then (let n = nat (t_num_iso_packets t) in
            if n \<le> length (t_iso_packet_desc t)
            then Inr (t\<lparr>t_iso_packet_desc :=
                   map (\<lambda>ipd. ipd\<lparr>ip_actual_length := ip_length ipd\<rparr>) (take n (t_iso_packet_desc t)) @
                   drop n (t_iso_packet_desc t)\<rparr>)
            else Inl Undefined_Behaviour)
      else Inr t)"

definition control_fill :: "bytes \<Rightarrow> libusb_transfer option \<Rightarrow> libusb_transfer option res" where
  "control_fill data xfer =
     (case xfer of
        None \<Rightarrow> Inl Assertion_Failed
      | Some t \<Rightarrow>
          bindR (control_is_in xfer) (\<lambda>i.
          bindR (viu_assert i) (\<lambda>_.
          bindR (viu_assert (length data \<le> size_of_int (t_length t))) (\<lambda>_.
          bindR (buffer_copy (t_buffer t) data) (\<lambda>buffer.
          bindR (complete_packets (t\<lparr>t_buffer := buffer, t_actual_length := int (length data)\<rparr>)) (\<lambda>t'.
          Inr (Some t')))))))"

text \<open>\<open>read\<close> marks an OUT transfer as transferred and returns the first \<open>read_size\<close> bytes.\<close>

definition control_read :: "u32 option \<Rightarrow> libusb_transfer option \<Rightarrow> (bytes \<times> libusb_transfer option) res" where
  "control_read sz xfer =
     (case xfer of
        None \<Rightarrow> Inl Assertion_Failed
      | Some t \<Rightarrow>
          (let read_size = (case sz of Some n \<Rightarrow> n | None \<Rightarrow> word_of_int (t_length t)) in
           bindR (viu_assert (read_size \<le> word_of_int (t_length t))) (\<lambda>_.
           bindR (control_is_out xfer) (\<lambda>is_out.
           bindR (if is_out then complete_packets (t\<lparr>t_actual_length := sint read_size\<rparr>) else Inr t) (\<lambda>t'.
           bindR (vectorize (t_buffer t') (unat read_size)) (\<lambda>bs. Inr (bs, Some t')))))))"

definition read_iso_packet_descriptors :: "libusb_transfer option \<Rightarrow> iso_packet list res" where
  "read_iso_packet_descriptors xfer =
     (case xfer of
        None \<Rightarrow> Inl Assertion_Failed
      | Some t \<Rightarrow> bindR (viu_assert (is_iso_transfer xfer)) (\<lambda>_. iso_packets_of t))"

definition iso_packet_descriptor_count :: "libusb_transfer option \<Rightarrow> nat res" where
  "iso_packet_descriptor_count xfer =
     (case xfer of
        None \<Rightarrow> Inl Assertion_Failed
      | Some t \<Rightarrow> Inr (if is_iso_transfer xfer then size_of_int (t_num_iso_packets t) else 0))"

definition fill_iso_packet_descriptors ::
  "iso_packet list \<Rightarrow> libusb_transfer option \<Rightarrow> libusb_transfer option res" where
  "fill_iso_packet_descriptors data xfer =
     (case xfer of
        None \<Rightarrow> Inl Assertion_Failed
      | Some t \<Rightarrow>
          bindR (viu_assert (is_iso_transfer xfer)) (\<lambda>_.
          bindR (viu_assert (length data \<le> size_of_int (t_num_iso_packets t))) (\<lambda>_.
          if length data \<le> length (t_iso_packet_desc t)
          then Inr (Some (t\<lparr>t_iso_packet_desc := data @ drop (length data) (t_iso_packet_desc t)\<rparr>))
          else Inl Undefined_Behaviour)))"

text \<open>A transfer as libusb allocates and fills it.\<close>

definition wf_transfer :: "libusb_transfer \<Rightarrow> bool" where
  "wf_transfer t \<longleftrightarrow> 0 \<le> t_length t \<and> t_length t < 2 ^ 31 \<and>
     (case t_buffer t of None \<Rightarrow> t_length t = 0 | Some bs \<Rightarrow> length bs = nat (t_length t)) \<and>
     0 \<le> t_num_iso_packets t \<and> t_num_iso_packets t < 2 ^ 31 \<and>
     length (t_iso_packet_desc t) = nat (t_num_iso_packets t)"

lemma wf_transfer_sizes:
  assumes "wf_transfer t"
  shows "size_of_int (t_length t) = nat (t_length t)"
    "size_of_int (t_num_iso_packets t) = length (t_iso_packet_desc t)"
    "unat (word_of_int (t_length t) :: u32) = nat (t_length t)"
    "is_iso_transfer (Some t) \<longleftrightarrow> t_iso_packet_desc t \<noteq> []"
proof -
  from assms have len: "0 \<le> t_length t" "t_length t < 2 ^ 31"
    and num: "0 \<le> t_num_iso_packets t" "t_num_iso_packets t < 2 ^ 31"
    and pk: "length (t_iso_packet_desc t) = nat (t_num_iso_packets t)"
    by (simp_all add: wf_transfer_def)
  show "size_of_int (t_length t) = nat (t_length t)"
    by (rule size_of_int_nonneg) (use len in simp_all)
  show "size_of_int (t_num_iso_packets t) = length (t_iso_packet_desc t)"
    using size_of_int_nonneg [of "t_num_iso_packets t"] num pk by simp
  have "uint (word_of_int (t_length t) :: u32) = t_length t"
    using len by (simp add: uint_word_of_int take_bit_int_eq_self)
  then show "unat (word_of_int (t_length t) :: u32) = nat (t_length t)"
    by (simp only: unat_eq_nat_uint)
  have "t_num_iso_packets t mod 2 ^ 32 = t_num_iso_packets t" using num by simp
  then show "is_iso_transfer (Some t) \<longleftrightarrow> t_iso_packet_desc t \<noteq> []"
    using num pk by (auto simp: is_iso_transfer_def number_of_packets_def)
qed

lemma complete_packets_wf:
  "wf_transfer t \<Longrightarrow> complete_packets t = Inr (t\<lparr>t_iso_packet_desc :=
     map (\<lambda>ipd. ipd\<lparr>ip_actual_length := ip_length ipd\<rparr>) (t_iso_packet_desc t)\<rparr>)"
  using wf_transfer_sizes(4) [of t]
  by (auto simp: complete_packets_def wf_transfer_def)

lemma control_fill_wf:
  assumes "wf_transfer t" "t_endpoint t AND direction_mask = 0x80" "length data \<le> nat (t_length t)"
  shows "control_fill data (Some t) = Inr (Some (t\<lparr>
      t_buffer := map_option (\<lambda>bs. data @ drop (length data) bs) (t_buffer t),
      t_actual_length := int (length data),
      t_iso_packet_desc := map (\<lambda>ipd. ipd\<lparr>ip_actual_length := ip_length ipd\<rparr>) (t_iso_packet_desc t)\<rparr>))"
proof -
  let ?b = "map_option (\<lambda>bs. data @ drop (length data) bs) (t_buffer t)"
  let ?t = "t\<lparr>t_buffer := ?b, t_actual_length := int (length data)\<rparr>"
  have b: "buffer_copy (t_buffer t) data = Inr ?b"
    using assms by (auto simp: buffer_copy_def wf_transfer_def split: option.splits)
  have "wf_transfer ?t"
    using assms by (auto simp: wf_transfer_def split: option.splits)
  then have "complete_packets ?t = Inr (?t\<lparr>t_iso_packet_desc :=
     map (\<lambda>ipd. ipd\<lparr>ip_actual_length := ip_length ipd\<rparr>) (t_iso_packet_desc t)\<rparr>)"
    using complete_packets_wf [of ?t] by simp
  then show ?thesis
    using assms wf_transfer_sizes(1) [OF assms(1)]
    by (simp add: control_fill_def control_is_in_def b)
qed

section \<open>Where the packets of an isochronous buffer lie\<close>

text \<open>
  The specification: packet \<open>i\<close> owns the bytes after the lengths of the packets before it, and
  of these the first \<open>actual_length\<close> carry data.
\<close>

fun packet_slices :: "bytes \<Rightarrow> iso_packet list \<Rightarrow> nat \<Rightarrow> bytes" where
  "packet_slices bs [] offset = []"
| "packet_slices bs (p # ps) offset =
     take (unat (ip_actual_length p)) (drop offset bs) @
     packet_slices bs ps (offset + unat (ip_length p))"

definition total_length :: "iso_packet list \<Rightarrow> nat" where
  "total_length ps = sum_list (map (\<lambda>p. unat (ip_length p)) ps)"

definition packets_ok :: "iso_packet list \<Rightarrow> bool" where
  "packets_ok ps \<longleftrightarrow> list_all (\<lambda>p. ip_status p = Completed \<and> ip_actual_length p \<le> ip_length p) ps"

lemma total_length_Cons [simp]: "total_length (p # ps) = unat (ip_length p) + total_length ps"
  by (simp add: total_length_def)

lemma total_length_Nil [simp]: "total_length [] = 0"
  by (simp add: total_length_def)

lemma u32_add_small:
  assumes "unat (a :: u32) + unat b < 2 ^ 31"
  shows "unat (a + b) = unat a + unat b"
proof -
  have "unat a + unat b < 2 ^ LENGTH(32)" using assms by simp
  then show ?thesis by (rule unat_add_lem [THEN iffD1])
qed

lemma offset_size: "unat (offset :: u32) < 2 ^ 31 \<Longrightarrow> size_of_int (sint offset) = unat offset"
proof -
  assume lt: "unat offset < 2 ^ 31"
  have "int (unat offset) < int (2 ^ 64)"
    by (subst of_nat_less_iff) (use lt in simp)
  then have "int (unat offset) mod 2 ^ 64 = int (unat offset)"
    by (intro mod_pos_pos_trivial) (simp_all only: of_nat_0_le_iff of_nat_power of_nat_numeral)
  with lt show ?thesis by (simp only: sint_small size_of_int_def nat_int)
qed

lemma iso_data_loop_slices:
  assumes "packets_ok ps" "unat offset + total_length ps \<le> length bs" "length bs < 2 ^ 31"
  shows "iso_data_loop bs ps offset acc = Inr (acc @ packet_slices bs ps (unat offset))"
  using assms
proof (induction ps arbitrary: offset acc)
  case Nil
  show ?case by simp
next
  case (Cons p ps)
  have ok: "ip_status p = Completed" "unat (ip_actual_length p) \<le> unat (ip_length p)" "packets_ok ps"
    using Cons.prems(1) by (simp_all add: packets_ok_def word_le_nat_alt)
  have sum: "unat offset + unat (ip_length p) + total_length ps \<le> length bs"
    using Cons.prems(2) by simp
  then have next_offset: "unat (offset + ip_length p) = unat offset + unat (ip_length p)"
    by (intro u32_add_small) (use Cons.prems(3) in linarith)
  have "unat offset < 2 ^ 31" using sum Cons.prems(3) by linarith
  moreover have "unat offset + unat (ip_actual_length p) \<le> length bs" using sum ok(2) by linarith
  ultimately have chunk: "subspan bs (size_of_int (sint offset)) (unat (ip_actual_length p)) =
      Inr (take (unat (ip_actual_length p)) (drop (unat offset) bs))"
    by (simp only: offset_size subspan_def if_True)
  have "iso_data_loop bs ps (offset + ip_length p) (acc @ take (unat (ip_actual_length p)) (drop (unat offset) bs)) =
      Inr ((acc @ take (unat (ip_actual_length p)) (drop (unat offset) bs)) @
        packet_slices bs ps (unat (offset + ip_length p)))"
    by (rule Cons.IH) (use ok sum next_offset Cons.prems(3) in simp_all)
  then show ?case by (simp add: ok(1) chunk next_offset)
qed

lemma length_packet_slices:
  "packets_ok ps \<Longrightarrow> offset + total_length ps \<le> length bs \<Longrightarrow>
   length (packet_slices bs ps offset) = sum_list (map (\<lambda>p. unat (ip_actual_length p)) ps)"
  by (induction ps arbitrary: offset) (auto simp: packets_ok_def word_le_nat_alt)

lemma iso_descriptors_loop_data_size:
  "data_size (iso_descriptors_loop ps offset d) =
     data_size d + sum_list (map (\<lambda>p. unat (ip_actual_length p)) ps)"
  by (induction ps arbitrary: offset d) (simp_all add: Let_def)

lemma iso_descriptors_loop_error_count:
  "error_count (iso_descriptors_loop ps offset d) =
     error_count d + length (filter (\<lambda>p. ip_status p \<noteq> Completed) ps)"
  by (induction ps arbitrary: offset d) (simp_all add: Let_def)

lemma iso_descriptors_loop_length:
  "length (descriptors (iso_descriptors_loop ps offset d)) = length (descriptors d) + length ps"
  by (induction ps arbitrary: offset d) (simp_all add: Let_def)

lemma iso_packets_of_wf: "wf_transfer t \<Longrightarrow> iso_packets_of t = Inr (t_iso_packet_desc t)"
  by (simp add: iso_packets_of_def wf_transfer_sizes)

lemma iso_descriptors_wf:
  "wf_transfer t \<Longrightarrow> t_iso_packet_desc t \<noteq> [] \<Longrightarrow>
   iso_descriptors (Some t) = Inr (iso_descriptors_loop (t_iso_packet_desc t) 0
     \<lparr>data_size = 0, descriptors = [], error_count = 0\<rparr>)"
  by (simp add: iso_descriptors_def iso_packets_of_wf wf_transfer_sizes)

lemma buffer_wf: "wf_transfer t \<Longrightarrow> t_buffer t = Some bs \<Longrightarrow> length bs < 2 ^ 31 \<and> vectorize (t_buffer t) (size_of_int (t_length t)) = Inr bs"
  using wf_transfer_sizes(1) [of t] vectorize_all [of bs] by (auto simp: wf_transfer_def)

lemma iso_data_spec:
  assumes "wf_transfer t" "t_buffer t = Some bs" "t_iso_packet_desc t \<noteq> []"
    and "packets_ok (t_iso_packet_desc t)" "total_length (t_iso_packet_desc t) \<le> length bs"
  shows "iso_data (Some t) = Inr (packet_slices bs (t_iso_packet_desc t) 0)"
    and "data_size (iso_descriptors_loop (t_iso_packet_desc t) 0 \<lparr>data_size = 0, descriptors = [], error_count = 0\<rparr>) =
      length (packet_slices bs (t_iso_packet_desc t) 0)"
    and "error_count (iso_descriptors_loop (t_iso_packet_desc t) 0 \<lparr>data_size = 0, descriptors = [], error_count = 0\<rparr>) = 0"
proof -
  have "iso_data_loop bs (t_iso_packet_desc t) 0 [] = Inr ([] @ packet_slices bs (t_iso_packet_desc t) (unat (0 :: u32)))"
    by (rule iso_data_loop_slices) (use assms buffer_wf [OF assms(1,2)] in simp_all)
  then show "iso_data (Some t) = Inr (packet_slices bs (t_iso_packet_desc t) 0)"
    using assms buffer_wf [OF assms(1,2)]
    by (simp add: iso_data_def iso_packets_of_wf wf_transfer_sizes)
  have "filter (\<lambda>p. ip_status p \<noteq> Completed) (t_iso_packet_desc t) = []"
    using assms(4) by (simp add: packets_ok_def list_all_iff filter_empty_conv)
  then show "error_count (iso_descriptors_loop (t_iso_packet_desc t) 0 \<lparr>data_size = 0, descriptors = [], error_count = 0\<rparr>) = 0"
    by (simp add: iso_descriptors_loop_error_count)
  show "data_size (iso_descriptors_loop (t_iso_packet_desc t) 0 \<lparr>data_size = 0, descriptors = [], error_count = 0\<rparr>) =
      length (packet_slices bs (t_iso_packet_desc t) 0)"
    using assms by (simp add: iso_descriptors_loop_data_size length_packet_slices)
qed

lemma actual_le_total:
  "packets_ok ps \<Longrightarrow> sum_list (map (\<lambda>p. unat (ip_actual_length p)) ps) \<le> total_length ps"
  unfolding total_length_def packets_ok_def
  by (rule sum_list_mono) (simp add: list_all_iff word_le_nat_alt)

section \<open>Properties\<close>

text \<open>When every packet completed, \<open>iso_data\<close> is the packets' data cut from their places in the
  buffer, and \<open>iso_descriptors\<close> announces exactly that many bytes and no error, which is what the
  assertion in \<open>queue_data_for_host\<close> compares.\<close>

lemma iso_data_completed:
  assumes "wf_transfer t" "t_buffer t = Some bs" "t_iso_packet_desc t \<noteq> []"
    and "packets_ok (t_iso_packet_desc t)" "total_length (t_iso_packet_desc t) \<le> length bs"
  shows "\<exists>d. iso_data (Some t) = Inr (packet_slices bs (t_iso_packet_desc t) 0) \<and>
    iso_descriptors (Some t) = Inr d \<and>
    data_size d = length (packet_slices bs (t_iso_packet_desc t) 0) \<and> error_count d = 0"
  using iso_data_spec [OF assms] assms(1,3) by (simp add: iso_descriptors_wf)

definition example_packet :: "u32 \<Rightarrow> u32 \<Rightarrow> xfer_status \<Rightarrow> iso_packet" where
  "example_packet len actual status = \<lparr>ip_length = len, ip_actual_length = actual, ip_status = status\<rparr>"

definition example_transfer :: "u8 \<Rightarrow> bytes \<Rightarrow> iso_packet list \<Rightarrow> libusb_transfer" where
  "example_transfer endpoint bs ps =
     \<lparr>t_dev_handle = None, t_endpoint = endpoint, t_type = 1, t_status = Completed,
      t_length = int (length bs), t_actual_length = 0, t_buffer = Some bs,
      t_num_iso_packets = int (length ps), t_iso_packet_desc = ps, t_user_data = None\<rparr>"

lemma iso_data_completed_witness:
  "\<exists>d. iso_data (Some (example_transfer 0x81 [1, 2, 3, 4] [example_packet 2 1 Completed, example_packet 2 2 Completed])) =
      Inr [1, 3, 4] \<and>
    iso_descriptors (Some (example_transfer 0x81 [1, 2, 3, 4] [example_packet 2 1 Completed, example_packet 2 2 Completed])) = Inr d \<and>
    data_size d = 3 \<and> error_count d = 0"
  using iso_data_completed [of "example_transfer 0x81 [1, 2, 3, 4] [example_packet 2 1 Completed, example_packet 2 2 Completed]" "[1, 2, 3, 4]"]
  by (simp add: example_transfer_def example_packet_def wf_transfer_def packets_ok_def numeral_3_eq_3)

text \<open>A packet that did not complete does not advance the read offset, so the data of the next
  packet is cut from the failed packet's place in the buffer: with a failed packet of length
  \<open>n\<close> in front, \<open>iso_data\<close> returns the first \<open>m\<close> bytes of the buffer, while the descriptors sent
  along place the second packet at offset \<open>n\<close>.\<close>

lemma iso_data_after_failed_packet:
  assumes "wf_transfer t" "t_buffer t = Some bs" "t_iso_packet_desc t = [p, q]"
    and "ip_status p \<noteq> Completed" "ip_status q = Completed"
    and "unat (ip_length p) + unat (ip_actual_length q) \<le> length bs"
  shows "iso_data (Some t) = Inr (take (unat (ip_actual_length q)) bs) \<and>
    (\<exists>d. iso_descriptors (Some t) = Inr d \<and> map ud_offset (descriptors d) = [0, to_big (ip_length p)])"
  using assms buffer_wf [OF assms(1,2)]
  by (simp add: iso_data_def iso_packets_of_wf wf_transfer_sizes subspan_def size_of_int_def
      iso_descriptors_wf Let_def)

lemma iso_data_after_failed_packet_witness:
  "iso_data (Some (example_transfer 0x81 [1, 2, 3, 4] [example_packet 2 0 Error, example_packet 2 2 Completed])) =
     Inr [1, 2]"
  using iso_data_after_failed_packet [of "example_transfer 0x81 [1, 2, 3, 4] [example_packet 2 0 Error, example_packet 2 2 Completed]"
      "[1, 2, 3, 4]" "example_packet 2 0 Error" "example_packet 2 2 Completed"]
  by (simp add: example_transfer_def example_packet_def wf_transfer_def)

lemma packet_slices_full:
  "total_length ps \<le> length bs - offset \<Longrightarrow> offset \<le> length bs \<Longrightarrow>
   packet_slices bs (map (\<lambda>p. p\<lparr>ip_actual_length := ip_length p\<rparr>) ps) offset =
     take (total_length ps) (drop offset bs)"
proof (induction ps arbitrary: offset)
  case (Cons p ps)
  then show ?case by (simp add: take_add add.commute [of offset])
qed simp

text \<open>What a mock device fills into an IN transfer is what the engine reads back: for an
  isochronous transfer whose packets cover the buffer and a full fill, \<open>iso_data\<close> of the completed
  transfer is the filled data; the transfer's actual length is its size.\<close>

lemma fill_then_iso_data:
  assumes "wf_transfer t" "t_buffer t = Some bs" "t_iso_packet_desc t \<noteq> []"
    and "t_endpoint t AND direction_mask = 0x80"
    and "list_all (\<lambda>p. ip_status p = Completed) (t_iso_packet_desc t)"
    and "total_length (t_iso_packet_desc t) = length bs" "length data = length bs"
  shows "\<exists>t'. control_fill data (Some t) = Inr (Some t') \<and> iso_data (Some t') = Inr data \<and>
    t_actual_length t' = int (length data)"
proof -
  let ?ps = "map (\<lambda>p. p\<lparr>ip_actual_length := ip_length p\<rparr>) (t_iso_packet_desc t)"
  let ?t = "t\<lparr>t_buffer := Some data, t_actual_length := int (length data), t_iso_packet_desc := ?ps\<rparr>"
  have len: "nat (t_length t) = length bs" using assms(1,2) by (simp add: wf_transfer_def)
  have fill: "control_fill data (Some t) = Inr (Some ?t)"
    using control_fill_wf [OF assms(1,4), of data] len assms(2,7) by simp
  have total: "total_length ?ps = total_length (t_iso_packet_desc t)"
    by (simp add: total_length_def comp_def)
  have "iso_data_loop data ?ps 0 [] = Inr ([] @ packet_slices data ?ps (unat (0 :: u32)))"
    by (rule iso_data_loop_slices)
      (use assms total buffer_wf [OF assms(1,2)] in \<open>auto simp: packets_ok_def list_all_iff\<close>)
  also have "packet_slices data ?ps (unat (0 :: u32)) = data"
    using packet_slices_full [of "t_iso_packet_desc t" data 0] assms(6,7) by simp
  finally have "iso_data_loop data ?ps 0 [] = Inr data" by simp
  moreover have wf: "wf_transfer ?t"
    using assms by (simp add: wf_transfer_def)
  ultimately have "iso_data (Some ?t) = Inr data"
    using buffer_wf [OF wf, of data] assms(3)
    by (simp add: iso_data_def iso_packets_of_wf [OF wf] wf_transfer_sizes(4) [OF wf])
  with fill show ?thesis by auto
qed

lemma fill_then_iso_data_witness:
  "\<exists>t'. control_fill [9, 8, 7, 6] (Some (example_transfer 0x81 [0, 0, 0, 0] [example_packet 2 0 Completed, example_packet 2 0 Completed])) =
     Inr (Some t') \<and> iso_data (Some t') = Inr [9, 8, 7, 6]"
  using fill_then_iso_data [of "example_transfer 0x81 [0, 0, 0, 0] [example_packet 2 0 Completed, example_packet 2 0 Completed]"
      "[0, 0, 0, 0]" "[9, 8, 7, 6]"]
  by (auto simp: example_transfer_def example_packet_def wf_transfer_def direction_mask_def)

text \<open>Reading an OUT transfer without a size returns the whole buffer and marks all of it as
  transferred, which is what \<open>on_out_transfer_complete\<close> asserts before it replies.\<close>

lemma read_out_transfer:
  assumes "wf_transfer t" "t_buffer t = Some bs" "t_endpoint t AND direction_mask = 0"
  shows "\<exists>t'. control_read None (Some t) = Inr (bs, Some t') \<and> t_actual_length t' = t_length t' \<and>
    t_buffer t' = Some bs"
proof -
  have lt: "t_length t < 2 ^ 31" "0 \<le> t_length t" and len: "length bs = nat (t_length t)"
    using assms(1,2) by (simp_all add: wf_transfer_def)
  have u: "unat (word_of_int (t_length t) :: u32) = nat (t_length t)"
    by (rule wf_transfer_sizes(3) [OF assms(1)])
  have sg: "sint (word_of_int (t_length t) :: u32) = t_length t"
    using sint_small [of "word_of_int (t_length t)"] u lt by simp
  have wf: "wf_transfer (t\<lparr>t_actual_length := t_length t\<rparr>)" using assms(1,2) by (simp add: wf_transfer_def)
  have "vectorize (Some bs) (unat (word_of_int (t_length t) :: u32)) = Inr bs"
    using vectorize_all [of bs] by (simp only: u len)
  then show ?thesis
    using complete_packets_wf [OF wf] assms(2,3)
    by (simp add: control_read_def control_is_out_def sg)
qed

lemma read_out_transfer_witness:
  "\<exists>t'. control_read None (Some (example_transfer 0x01 [5, 6] [])) = Inr ([5, 6], Some t') \<and>
    t_actual_length t' = t_length t'"
  using read_out_transfer [of "example_transfer 0x01 [5, 6] []" "[5, 6]"]
  by (auto simp: example_transfer_def wf_transfer_def direction_mask_def)

end
