(* ===== verification/Sync_Queue.thy ===== *)
theory Sync_Queue
  imports Prelude
begin

text \<open>
  \<open>boost::concurrent::sync_queue\<close> as the engine uses it: a first-in first-out queue that can be
  closed. \<open>push\<close> on a closed queue throws; \<open>pull\<close> takes the oldest element, waits while there is
  none (\<open>None\<close>) and throws when the queue is closed and empty. The library is not part of the
  sources; the locale states what the engine relies on and the list model provides it.
\<close>

record 'a sync_queue =
  q_items :: "'a list"
  q_closed :: bool

definition q_init :: "'a sync_queue" where
  "q_init = \<lparr>q_items = [], q_closed = False\<rparr>"

definition q_push :: "'a \<Rightarrow> 'a sync_queue \<Rightarrow> 'a sync_queue res" where
  "q_push x q = (if q_closed q then Inl Queue_Closed else Inr (q\<lparr>q_items := q_items q @ [x]\<rparr>))"

definition q_pull :: "'a sync_queue \<Rightarrow> ('a \<times> 'a sync_queue) res option" where
  "q_pull q = (case q_items q of
     [] \<Rightarrow> if q_closed q then Some (Inl Queue_Closed) else None
   | x # xs \<Rightarrow> Some (Inr (x, q\<lparr>q_items := xs\<rparr>)))"

definition q_close :: "'a sync_queue \<Rightarrow> 'a sync_queue" where
  "q_close q = q\<lparr>q_closed := True\<rparr>"

locale closable_fifo =
  fixes items :: "'q \<Rightarrow> 'a list"
    and closed :: "'q \<Rightarrow> bool"
    and push :: "'a \<Rightarrow> 'q \<Rightarrow> 'q res"
    and pull :: "'q \<Rightarrow> ('a \<times> 'q) res option"
    and close :: "'q \<Rightarrow> 'q"
  assumes push_closed: "closed q \<Longrightarrow> push x q = Inl Queue_Closed"
    and push_open: "\<not> closed q \<Longrightarrow> \<exists>q'. push x q = Inr q' \<and> items q' = items q @ [x] \<and> \<not> closed q'"
    and pull_empty: "items q = [] \<Longrightarrow> pull q = (if closed q then Some (Inl Queue_Closed) else None)"
    and pull_head: "items q = x # xs \<Longrightarrow> \<exists>q'. pull q = Some (Inr (x, q')) \<and> items q' = xs \<and> closed q' = closed q"
    and close_closes: "closed (close q) \<and> items (close q) = items q"
begin

lemma pull_Inr:
  assumes "pull q = Some (Inr (x, q'))"
  shows "items q = x # items q' \<and> closed q' = closed q"
proof (cases "items q")
  case Nil
  then show ?thesis using assms pull_empty [of q] by (simp split: if_splits)
next
  case (Cons y ys)
  then show ?thesis using assms pull_head [of q y ys] by auto
qed

lemma push_Inr: "push x q = Inr q' \<Longrightarrow> items q' = items q @ [x] \<and> \<not> closed q \<and> \<not> closed q'"
  using push_closed [of q x] push_open [of q x] by (cases "closed q") auto

text \<open>A closed queue drains: every element is still delivered, then \<open>pull\<close> throws.\<close>

lemma drained: "items q = [] \<Longrightarrow> pull (close q) = Some (Inl Queue_Closed)"
  using pull_empty [of "close q"] close_closes [of q] by simp

lemma close_keeps: "items q = x # xs \<Longrightarrow> \<exists>q'. pull (close q) = Some (Inr (x, q')) \<and> items q' = xs"
  using pull_head [of "close q" x xs] close_closes [of q] by auto

lemma push_pull:
  assumes "items q = []" "push x q = Inr q'"
  shows "\<exists>q''. pull q' = Some (Inr (x, q'')) \<and> items q'' = []"
  using assms push_Inr [of x q q'] pull_head [of q' x "[]"] by auto

end

interpretation sq: closable_fifo q_items q_closed q_push q_pull q_close
  by unfold_locales (auto simp: q_push_def q_pull_def q_close_def)

end
