(* ===== verification/Basic_Engine.thy ===== *)
theory Basic_Engine
  imports Usbip_Command Transfer_Model Sync_Queue
begin

text \<open>
  \<open>viu::device::basic\<close> (src/usb_basic.cppm, src/usb_basic_impl.cpp): the queues between the
  USB/IP socket and the device, and the bodies of the four kinds of threads that serve them. Each
  body is one step on the engine's state; a step that has to wait for a queue or for the socket is
  \<open>None\<close>, an exception or a failed assertion is \<open>Some (Inl _)\<close>. The device behind the engine is
  the field \<open>dev\<close>; the four virtual functions are the argument \<open>handlers\<close>.
\<close>

section \<open>State\<close>

definition max_count_in :: nat where "max_count_in = 16"
definition max_count_out :: nat where "max_count_out = 16"

record transfer_data =
  td_buffer :: bytes
  td_iso_descriptor_size :: nat
  td_error_count :: u32

record queue_reply_request =
  rq_cmd :: command
  rq_data :: "u8 ptr"
  rq_size :: nat
  rq_status :: u32
  rq_iso_descriptor_size :: nat
  rq_error_count :: u32

record 'd engine =
  in_commands :: "command sync_queue list"
  in_data :: "transfer_data sync_queue list"
  commands_queue :: "command sync_queue"
  replies_queue :: "command sync_queue"
  unlinked_seqnums :: "u32 oset"
  socket_in :: bytes
  socket_out :: "bytes list"
  dev :: 'd

definition engine_init :: "'d \<Rightarrow> 'd engine" where
  "engine_init d = \<lparr>in_commands = replicate max_count_in q_init, in_data = replicate max_count_in q_init,
     commands_queue = q_init, replies_queue = q_init, unlinked_seqnums = [], socket_in = [],
     socket_out = [], dev = d\<rparr>"

definition request_of :: "command \<Rightarrow> queue_reply_request" where
  "request_of cmd = \<lparr>rq_cmd = cmd, rq_data = None, rq_size = 0, rq_status = 0,
     rq_iso_descriptor_size = 0, rq_error_count = 0\<rparr>"

section \<open>Replies\<close>

text \<open>\<open>queue_reply_to_host\<close> builds the reply, then pushes it.\<close>

definition make_reply :: "queue_reply_request \<Rightarrow> command res" where
  "make_reply req =
     (let cmd = rq_cmd req;
          replay = command_init\<lparr>hdr_base := reply_header cmd\<rparr>
      in if request cmd = USBIP_CMD_SUBMIT then
           bindR (make_ret_submit_header cmd (rq_size req) (rq_status req) (rq_error_count req)) (\<lambda>ret.
           bindR (is_iso cmd) (\<lambda>iso_cmd.
           let payload_len = (if is_out cmd then 0 else rq_size req) +
                             (if iso_cmd then rq_iso_descriptor_size req else 0);
               replay = replay\<lparr>union_bytes := put_ret_submit ret (union_bytes replay)\<rparr>
           in case rq_data req of
                None \<Rightarrow> Inr replay
              | Some data \<Rightarrow> bindR (vectorize (Some data) payload_len) (\<lambda>p. Inr (replay\<lparr>cmd_payload := p\<rparr>))))
         else if request cmd = USBIP_CMD_UNLINK then
           bindR (make_ret_unlink_header cmd (rq_status req)) (\<lambda>st.
           Inr (replay\<lparr>union_bytes := put_ret_unlink st (union_bytes replay)\<rparr>))
         else Inl (Runtime_Error (make_string [Text ''Invalid request:'', Arith (uint (request cmd))])))"

definition queue_reply_to_host :: "queue_reply_request \<Rightarrow> 'd engine \<Rightarrow> 'd engine res" where
  "queue_reply_to_host req e =
     bindR (make_reply req) (\<lambda>replay.
     bindR (q_push replay (replies_queue e)) (\<lambda>q. Inr (e\<lparr>replies_queue := q\<rparr>)))"

text \<open>The body of the reply thread.\<close>

definition reply_consume :: "'d engine \<Rightarrow> 'd engine res option" where
  "reply_consume e =
     (case q_pull (replies_queue e) of
        None \<Rightarrow> None
      | Some (Inl x) \<Rightarrow> Some (Inl x)
      | Some (Inr (rep, q)) \<Rightarrow>
          (let cmd_seqnum = from_big (seqnum rep); e = e\<lparr>replies_queue := q\<rparr>
           in if os_contains (unlinked_seqnums e) cmd_seqnum
              then Some (Inr (e\<lparr>unlinked_seqnums := om_erase cmd_seqnum (unlinked_seqnums e)\<rparr>))
              else Some (Inr (e\<lparr>socket_out := socket_out e @ [header_bytes rep @ cmd_payload rep]\<rparr>))))"

section \<open>Commands\<close>

definition read_command :: "bytes \<Rightarrow> (command \<times> bytes) res option" where
  "read_command s =
     (if length s < header_size then None
      else case from_big_endian (take header_size s) of
             Inl x \<Rightarrow> Some (Inl x)
           | Inr cmd \<Rightarrow>
               (case payload_size cmd of
                  Inl x \<Rightarrow> Some (Inl x)
                | Inr n \<Rightarrow>
                    if n = 0 then Some (Inr (cmd, drop header_size s))
                    else (let k = size_of_int (sint n) in
                          if length s < header_size + k then None
                          else Some (Inr (cmd\<lparr>cmd_payload := cmd_payload cmd @ take k (drop header_size s)\<rparr>,
                                          drop (header_size + k) s)))))"

definition command_produce :: "'d engine \<Rightarrow> 'd engine res option" where
  "command_produce e =
     (case read_command (socket_in e) of
        None \<Rightarrow> None
      | Some (Inl x) \<Rightarrow> Some (Inl x)
      | Some (Inr (cmd, rest)) \<Rightarrow>
          Some (bindR (q_push cmd (commands_queue e)) (\<lambda>q.
                Inr (e\<lparr>commands_queue := q, socket_in := rest\<rparr>))))"

definition ECONNRESET :: u32 where "ECONNRESET = 104"

definition unlink_command :: "command \<Rightarrow> 'd engine \<Rightarrow> 'd engine res" where
  "unlink_command cmd e =
     bindR (viu_assert (unat (cmd_ep cmd) < max_count_in)) (\<lambda>_.
     bindR (viu_assert (is_unlink cmd)) (\<lambda>_.
     bindR (unlink_seqnum cmd) (\<lambda>n.
     let result = om_insert n () (unlinked_seqnums e);
         status = (if snd result then - ECONNRESET else 0)
     in queue_reply_to_host ((request_of cmd)\<lparr>rq_status := status\<rparr>) (e\<lparr>unlinked_seqnums := fst result\<rparr>))))"

record 'd handlers =
  execute_in_control_command :: "command \<Rightarrow> 'd engine \<Rightarrow> 'd engine res"
  execute_out_control_command :: "command \<Rightarrow> 'd engine \<Rightarrow> 'd engine res"
  send_data_to_device :: "command \<Rightarrow> 'd engine \<Rightarrow> 'd engine res"
  read_data_from_device :: "command \<Rightarrow> 'd engine \<Rightarrow> 'd engine res"

definition invalid_direction :: exn where
  "invalid_direction = Runtime_Error ''Invalid command direction''"

definition execute_control_command :: "'d handlers \<Rightarrow> command \<Rightarrow> 'd engine \<Rightarrow> 'd engine res" where
  "execute_control_command h cmd e =
     (if is_in cmd then execute_in_control_command h cmd e
      else if is_out cmd then execute_out_control_command h cmd e
      else Inl invalid_direction)"

text \<open>\<open>std::array::operator[]\<close> outside the array is undefined.\<close>

definition push_in_command :: "command \<Rightarrow> 'd engine \<Rightarrow> 'd engine res" where
  "push_in_command cmd e =
     (let i = unat (cmd_ep cmd) in
      if i < length (in_commands e)
      then bindR (q_push cmd (in_commands e ! i)) (\<lambda>q. Inr (e\<lparr>in_commands := (in_commands e)[i := q]\<rparr>))
      else Inl Undefined_Behaviour)"

definition execute_ep_command :: "'d handlers \<Rightarrow> command \<Rightarrow> 'd engine \<Rightarrow> 'd engine res" where
  "execute_ep_command h cmd e =
     (if is_in cmd then bindR (read_data_from_device h cmd e) (push_in_command cmd)
      else if is_out cmd then send_data_to_device h cmd e
      else Inl invalid_direction)"

definition execute_command :: "'d handlers \<Rightarrow> 'd engine \<Rightarrow> 'd engine res option" where
  "execute_command h e =
     (case q_pull (commands_queue e) of
        None \<Rightarrow> None
      | Some (Inl x) \<Rightarrow> Some (Inl x)
      | Some (Inr (cmd, q)) \<Rightarrow>
          (let e = e\<lparr>commands_queue := q\<rparr> in
           Some (if is_submit cmd then
                   (if cmd_ep cmd = 0 then execute_control_command h cmd e else execute_ep_command h cmd e)
                 else if is_unlink cmd then unlink_command cmd e
                 else Inl (Runtime_Error (make_string [Text ''Invalid usbip command:'', Arith (uint (request cmd))])))))"

section \<open>Data for the host\<close>

text \<open>
  The body of the transfer thread of endpoint \<open>ep\<close>. It pulls a command and then waits for data;
  no one else pulls from these two queues, so pulling both in one step is the same.
\<close>

definition send_data_to_host :: "nat \<Rightarrow> 'd engine \<Rightarrow> 'd engine res option" where
  "send_data_to_host i e =
     (if \<not> i < length (in_commands e) then Some (Inl Undefined_Behaviour)
      else case q_pull (in_commands e ! i) of
        None \<Rightarrow> None
      | Some (Inl x) \<Rightarrow> Some (Inl x)
      | Some (Inr (cmd, cq)) \<Rightarrow>
          (case bindR (transfer_buffer_size cmd) (\<lambda>n. bindR (viu_assert (n > 0)) (\<lambda>_. Inr n)) of
             Inl x \<Rightarrow> Some (Inl x)
           | Inr buffer_size \<Rightarrow>
               (let j = unat (cmd_ep cmd) in
                if \<not> j < length (in_data e) then Some (Inl Undefined_Behaviour)
                else case q_pull (in_data e ! j) of
                  None \<Rightarrow> None
                | Some (Inl x) \<Rightarrow> Some (Inl x)
                | Some (Inr (data, dq)) \<Rightarrow>
                    (let data_sz = size_of_int (int (length (td_buffer data)) - int (td_iso_descriptor_size data));
                         e = e\<lparr>in_commands := (in_commands e)[i := cq], in_data := (in_data e)[j := dq]\<rparr>
                     in Some (bindR (viu_assert (data_sz \<le> buffer_size)) (\<lambda>_.
                          queue_reply_to_host
                            \<lparr>rq_cmd = cmd, rq_data = Some (td_buffer data), rq_size = data_sz, rq_status = 0,
                             rq_iso_descriptor_size = td_iso_descriptor_size data,
                             rq_error_count = td_error_count data\<rparr> e))))))"

definition descriptor_bytes :: "usbip_iso_packet_descriptor \<Rightarrow> bytes" where
  "descriptor_bytes d = le_bytes 4 (ud_offset d) @ le_bytes 4 (ud_length d) @
     le_bytes 4 (ud_actual_length d) @ le_bytes 4 (ud_status d)"

definition LIBUSB_ENDPOINT_DIR_MASK :: u8 where "LIBUSB_ENDPOINT_DIR_MASK = 0x80"
definition LIBUSB_ENDPOINT_ADDRESS_MASK :: u8 where "LIBUSB_ENDPOINT_ADDRESS_MASK = 0x0f"

text \<open>The data of a transfer, its size, and the error count.\<close>

definition data_for_host :: "libusb_transfer \<Rightarrow> (bytes \<times> nat \<times> u32) res" where
  "data_for_host t =
     (let iso_desc_size = transfer_iso_descriptor_size (Some t) in
      if is_iso_transfer (Some t) then
        bindR (iso_descriptors (Some t)) (\<lambda>d.
        bindR (iso_data (Some t)) (\<lambda>data.
        bindR (viu_assert (data_size d = length data)) (\<lambda>_.
        bindR (vectorize (Some (concat (map descriptor_bytes (descriptors d)))) iso_desc_size) (\<lambda>db.
        Inr (data @ db, data_size d, of_nat (error_count d))))))
      else bindR (vectorize (t_buffer t) (size_of_int (t_actual_length t))) (\<lambda>data.
        Inr (data, size_of_int (t_actual_length t), 0)))"

definition queue_data_for_host :: "libusb_transfer option \<Rightarrow> 'd engine \<Rightarrow> 'd engine res" where
  "queue_data_for_host transfer e =
     (case transfer of
        None \<Rightarrow> Inl Assertion_Failed
      | Some t \<Rightarrow>
          bindR (viu_assert (t_endpoint t AND LIBUSB_ENDPOINT_DIR_MASK = LIBUSB_ENDPOINT_IN)) (\<lambda>_.
          let ep_index = unat (t_endpoint t AND LIBUSB_ENDPOINT_ADDRESS_MASK) in
          bindR (viu_assert (ep_index < length (in_data e))) (\<lambda>_.
          bindR (data_for_host t) (\<lambda>(data, sz, error_cnt).
          let iso_desc_size = transfer_iso_descriptor_size transfer;
              total_size = (sz + iso_desc_size) mod 2 ^ 64
          in bindR (viu_assert (total_size \<le> length data)) (\<lambda>_.
             bindR (q_push \<lparr>td_buffer = take total_size data, td_iso_descriptor_size = iso_desc_size,
                            td_error_count = error_cnt\<rparr> (in_data e ! ep_index)) (\<lambda>q.
             Inr (e\<lparr>in_data := (in_data e)[ep_index := q]\<rparr>)))))))"

section \<open>Starting and stopping\<close>

text \<open>The destructor closes every queue; the threads run into \<open>Queue_Closed\<close> and end.\<close>

definition close_queues :: "'d engine \<Rightarrow> 'd engine" where
  "close_queues e = e\<lparr>commands_queue := q_close (commands_queue e),
     replies_queue := q_close (replies_queue e), in_commands := map q_close (in_commands e),
     in_data := map q_close (in_data e)\<rparr>"

section \<open>The reply on the wire\<close>

definition submit_reply_wire :: "command \<Rightarrow> u32 \<Rightarrow> nat \<Rightarrow> u32 \<Rightarrow> bytes" where
  "submit_reply_wire c status n errors =
     be32 USBIP_RET_SUBMIT @ be32 (seqnum c) @ be32 (devid c) @ be32 (direction c) @ be32 (cmd_ep c) @
     be32 status @ be32 (of_nat n) @ be32 (load32 off_start_frame (union_bytes c)) @
     be32 (load32 off_number_of_packets (union_bytes c)) @ be32 errors @ replicate 8 0"

definition unlink_reply_wire :: "command \<Rightarrow> u32 \<Rightarrow> bytes" where
  "unlink_reply_wire c status =
     be32 USBIP_RET_UNLINK @ be32 (seqnum c) @ be32 (devid c) @ be32 (direction c) @ be32 (cmd_ep c) @
     be32 status @ replicate 24 0"

definition reply_payload_len :: "queue_reply_request \<Rightarrow> nat" where
  "reply_payload_len req =
     (if is_out (rq_cmd req) then 0 else rq_size req) +
     (if is_iso (rq_cmd req) = Inr True then rq_iso_descriptor_size req else 0)"

lemma submit_not_unlink: "is_submit c \<Longrightarrow> \<not> is_unlink c"
  by (simp add: is_submit_def is_unlink_def usbip_consts)

lemma put_ret_submit_bytes:
  "put_ret_submit r (replicate 28 0) = le_bytes 4 (rs_status r) @ le_bytes 4 (rs_actual_length r) @
     le_bytes 4 (rs_start_frame r) @ le_bytes 4 (rs_number_of_packets r) @
     le_bytes 4 (rs_error_count r) @ replicate 8 0"
  by (simp add: put_ret_submit_def store32_def)

lemma is_iso_submit: "is_submit c \<Longrightarrow> \<exists>b. is_iso c = Inr b"
  by (simp add: is_iso_def iso_packet_count_def)

lemma make_reply_submit:
  assumes "is_submit (rq_cmd req)"
    and "case rq_data req of None \<Rightarrow> True | Some d \<Rightarrow> reply_payload_len req \<le> length d"
  shows "\<exists>r. make_reply req = Inr r \<and>
    header_bytes r = submit_reply_wire (rq_cmd req) (rq_status req) (rq_size req) (rq_error_count req) \<and>
    cmd_payload r = (case rq_data req of None \<Rightarrow> [] | Some d \<Rightarrow> take (reply_payload_len req) d) \<and>
    from_big (seqnum r) = seqnum (rq_cmd req)"
proof -
  obtain b where b: "is_iso (rq_cmd req) = Inr b" using is_iso_submit [OF assms(1)] by blast
  have len: "reply_payload_len req = (if is_out (rq_cmd req) then 0 else rq_size req) +
      (if b then rq_iso_descriptor_size req else 0)"
    by (simp add: reply_payload_len_def b)
  let ?ret = "\<lparr>rs_status = to_big (rq_status req), rs_actual_length = to_big (of_nat (rq_size req)),
    rs_start_frame = to_big (load32 off_start_frame (union_bytes (rq_cmd req))),
    rs_number_of_packets = to_big (load32 off_number_of_packets (union_bytes (rq_cmd req))),
    rs_error_count = to_big (rq_error_count req)\<rparr>"
  have ret: "make_ret_submit_header (rq_cmd req) (rq_size req) (rq_status req) (rq_error_count req) = Inr ?ret"
    using assms(1) by (simp add: make_ret_submit_header_def start_frame_def iso_packet_count_def)
  define r where "r = command_init\<lparr>hdr_base := reply_header (rq_cmd req),
    union_bytes := put_ret_submit ?ret (replicate 28 0),
    cmd_payload := (case rq_data req of None \<Rightarrow> [] | Some d \<Rightarrow> take (reply_payload_len req) d)\<rparr>"
  have "make_reply req = Inr r"
  proof (cases "rq_data req")
    case None
    then show ?thesis
      using assms b ret by (simp add: make_reply_def is_submit_def r_def command_init_def union_size_def Let_def)
  next
    case (Some d)
    then have "vectorize (Some d) ((if is_out (rq_cmd req) then 0 else rq_size req) +
        (if b then rq_iso_descriptor_size req else 0)) = Inr (take (reply_payload_len req) d)"
      using assms(2) by (simp only: len [symmetric] option.case vectorize_within)
    then show ?thesis
      using assms(1) b ret Some
      by (cases b; cases "is_out (rq_cmd req)";
          simp add: make_reply_def is_submit_def r_def command_init_def union_size_def Let_def)
  qed
  moreover have "header_bytes r = submit_reply_wire (rq_cmd req) (rq_status req) (rq_size req) (rq_error_count req)"
    using assms(1)
    by (simp add: r_def header_bytes_def put_ret_submit_bytes submit_reply_wire_def reply_header_def
        le_bytes_to_big)
  moreover have "from_big (seqnum r) = seqnum (rq_cmd req)"
    by (simp add: r_def reply_header_def seqnum_def)
  ultimately show ?thesis by (auto simp: r_def)
qed

lemma make_reply_unlink:
  assumes "is_unlink (rq_cmd req)"
  shows "\<exists>r. make_reply req = Inr r \<and> header_bytes r = unlink_reply_wire (rq_cmd req) (rq_status req) \<and>
    cmd_payload r = [] \<and> from_big (seqnum r) = seqnum (rq_cmd req)"
proof -
  define r where "r = command_init\<lparr>hdr_base := reply_header (rq_cmd req),
    union_bytes := put_ret_unlink (to_big (rq_status req)) (replicate 28 0)\<rparr>"
  have "make_reply req = Inr r"
    using assms by (simp add: make_reply_def is_unlink_def make_ret_unlink_header_def r_def command_init_def
        union_size_def usbip_consts)
  moreover have "header_bytes r = unlink_reply_wire (rq_cmd req) (rq_status req)"
    using assms by (simp add: r_def header_bytes_def put_ret_unlink_def store32_def unlink_reply_wire_def
        reply_header_def le_bytes_to_big is_submit_def is_unlink_def usbip_consts)
  moreover have "from_big (seqnum r) = seqnum (rq_cmd req)" "cmd_payload r = []"
    by (simp_all add: r_def reply_header_def seqnum_def command_init_def)
  ultimately show ?thesis by blast
qed

text \<open>A reply has a header of 48 bytes that starts with RET_SUBMIT or RET_UNLINK.\<close>

definition is_reply :: "command \<Rightarrow> bool" where
  "is_reply r \<longleftrightarrow> length (union_bytes r) = union_size \<and>
     hb_command (hdr_base r) \<in> {to_big USBIP_RET_SUBMIT, to_big USBIP_RET_UNLINK}"

definition wire_reply :: "bytes \<Rightarrow> bool" where
  "wire_reply bs \<longleftrightarrow> header_size \<le> length bs \<and> take 4 bs \<in> {be32 USBIP_RET_SUBMIT, be32 USBIP_RET_UNLINK}"

lemma make_reply_Inr:
  assumes "make_reply req = Inr r"
  shows "is_reply r \<and> hdr_base r = reply_header (rq_cmd req)"
proof -
  have "length (put_ret_submit s (replicate 28 0)) = 28" "length (put_ret_unlink st (replicate 28 0)) = 28"
    for s st by (simp_all add: put_ret_submit_def put_ret_unlink_def)
  then show ?thesis
    using assms
    by (auto simp: make_reply_def is_reply_def bindR_Inr_iff Let_def reply_header_def command_init_def union_size_def
        split: if_splits option.splits)
qed

lemma is_reply_wire: "is_reply r \<Longrightarrow> wire_reply (header_bytes r @ p)"
  by (auto simp: is_reply_def wire_reply_def header_bytes_def header_size_def union_size_def le_bytes_to_big)

text \<open>What a step may change when it only answers and queues data.\<close>

definition engine_frame :: "'d engine \<Rightarrow> 'd engine \<Rightarrow> bool" where
  "engine_frame e e' \<longleftrightarrow> in_commands e' = in_commands e \<and> length (in_data e') = length (in_data e) \<and>
     commands_queue e' = commands_queue e \<and> unlinked_seqnums e' = unlinked_seqnums e \<and>
     socket_in e' = socket_in e \<and> socket_out e' = socket_out e \<and>
     (\<exists>rs. list_all is_reply rs \<and> q_items (replies_queue e') = q_items (replies_queue e) @ rs)"

lemma engine_frame_refl [simp]: "engine_frame e e"
  by (simp add: engine_frame_def)

lemma engine_frame_trans: "engine_frame e1 e2 \<Longrightarrow> engine_frame e2 e3 \<Longrightarrow> engine_frame e1 e3"
  by (fastforce simp: engine_frame_def)

lemma engine_frame_dev [simp]: "engine_frame e (e'\<lparr>dev := d\<rparr>) \<longleftrightarrow> engine_frame e e'"
  by (simp add: engine_frame_def)

lemma queue_reply_frame: "queue_reply_to_host req e = Inr e' \<Longrightarrow> engine_frame e e'"
  by (auto simp: queue_reply_to_host_def bindR_Inr_iff engine_frame_def dest!: sq.push_Inr dest: make_reply_Inr)

lemma queue_data_frame: "queue_data_for_host t e = Inr e' \<Longrightarrow> engine_frame e e'"
  by (auto simp: queue_data_for_host_def bindR_Inr_iff engine_frame_def Let_def split: option.splits)

lemma queue_reply_appends:
  "queue_reply_to_host req e = Inr e' \<Longrightarrow> \<exists>r. make_reply req = Inr r \<and>
    e' = e\<lparr>replies_queue := (replies_queue e)\<lparr>q_items := q_items (replies_queue e) @ [r]\<rparr>\<rparr>"
  by (auto simp: queue_reply_to_host_def bindR_Inr_iff q_push_def split: if_splits)

lemma queue_reply_open:
  "\<not> q_closed (replies_queue e) \<Longrightarrow> make_reply req = Inr r \<Longrightarrow> queue_reply_to_host req e =
    Inr (e\<lparr>replies_queue := (replies_queue e)\<lparr>q_items := q_items (replies_queue e) @ [r]\<rparr>\<rparr>)"
  by (simp add: queue_reply_to_host_def q_push_def)

section \<open>The invariant of the engine\<close>

text \<open>
  A command waits in the queue of its own endpoint, and is an IN submit command: so the transfer
  thread of an endpoint takes its data from the same endpoint. Only replies are queued for the host
  and written to it.
\<close>

definition waits_at :: "nat \<Rightarrow> command \<Rightarrow> bool" where
  "waits_at i c \<longleftrightarrow> unat (cmd_ep c) = i \<and> is_submit c \<and> is_in c"

definition engine_inv :: "'d engine \<Rightarrow> bool" where
  "engine_inv e \<longleftrightarrow> length (in_commands e) = max_count_in \<and> length (in_data e) = max_count_in \<and>
     om_inv (unlinked_seqnums e) \<and>
     list_all is_reply (q_items (replies_queue e)) \<and> list_all wire_reply (socket_out e) \<and>
     (\<forall>i<max_count_in. list_all (waits_at i) (q_items (in_commands e ! i)))"

lemma engine_inv_frame: "engine_inv e \<Longrightarrow> engine_frame e e' \<Longrightarrow> engine_inv e'"
  by (auto simp: engine_inv_def engine_frame_def)

lemma push_in_command_inv:
  assumes "engine_inv e" "is_submit c" "is_in c" "push_in_command c e = Inr e'"
  shows "engine_inv e'"
proof -
  let ?i = "unat (cmd_ep c)"
  obtain q where i: "?i < length (in_commands e)" and q: "q_push c (in_commands e ! ?i) = Inr q"
    and e': "e' = e\<lparr>in_commands := (in_commands e)[?i := q]\<rparr>"
    using assms(4) by (auto simp: push_in_command_def bindR_Inr_iff Let_def split: if_splits)
  have "q_items q = q_items (in_commands e ! ?i) @ [c]" using sq.push_Inr [OF q] by simp
  then show ?thesis
    using assms(1-3) i by (auto simp: e' engine_inv_def nth_list_update waits_at_def)
qed

lemma unlink_command_inv:
  assumes "engine_inv e" "unlink_command c e = Inr e'"
  shows "engine_inv e'"
proof -
  obtain n req where "queue_reply_to_host req (e\<lparr>unlinked_seqnums := fst (om_insert n () (unlinked_seqnums e))\<rparr>) = Inr e'"
    using assms(2) by (auto simp: unlink_command_def bindR_Inr_iff Let_def)
  then have "engine_frame (e\<lparr>unlinked_seqnums := fst (om_insert n () (unlinked_seqnums e))\<rparr>) e'"
    by (rule queue_reply_frame)
  moreover have "engine_inv (e\<lparr>unlinked_seqnums := fst (om_insert n () (unlinked_seqnums e))\<rparr>)"
    using assms(1) by (simp add: engine_inv_def om_inv_insert)
  ultimately show ?thesis by (rule engine_inv_frame [rotated])
qed

lemma send_data_inv:
  assumes "engine_inv e" "send_data_to_host i e = Some (Inr e')"
  shows "engine_inv e'"
proof -
  obtain cmd cq j dq req where i: "i < length (in_commands e)"
    and pull: "q_pull (in_commands e ! i) = Some (Inr (cmd, cq))"
    and rep: "queue_reply_to_host req
      (e\<lparr>in_commands := (in_commands e)[i := cq], in_data := (in_data e)[j := dq]\<rparr>) = Inr e'"
    using assms(2)
    by (auto simp: send_data_to_host_def Let_def split: option.splits sum.splits if_splits)
  have "q_items (in_commands e ! i) = cmd # q_items cq" using sq.pull_Inr [OF pull] by simp
  then have "engine_inv (e\<lparr>in_commands := (in_commands e)[i := cq], in_data := (in_data e)[j := dq]\<rparr>)"
    using assms(1) i by (auto simp: engine_inv_def nth_list_update)
  then show ?thesis using queue_reply_frame [OF rep] by (rule engine_inv_frame)
qed

lemma reply_consume_inv:
  assumes "engine_inv e" "reply_consume e = Some (Inr e')"
  shows "engine_inv e'"
  using assms by (auto simp: reply_consume_def engine_inv_def Let_def om_inv_erase is_reply_wire
      dest!: sq.pull_Inr split: option.splits sum.splits if_splits)

lemma command_produce_inv:
  assumes "engine_inv e" "command_produce e = Some (Inr e')"
  shows "engine_inv e'"
  using assms by (auto simp: command_produce_def engine_inv_def bindR_Inr_iff
      split: option.splits sum.splits)

text \<open>The contract of the four virtual functions, under which the engine keeps its invariant.\<close>

locale device_handlers =
  fixes h :: "'d handlers"
  assumes in_control_frame: "execute_in_control_command h cmd e = Inr e' \<Longrightarrow> engine_frame e e'"
    and out_control_frame: "execute_out_control_command h cmd e = Inr e' \<Longrightarrow> engine_frame e e'"
    and send_frame: "send_data_to_device h cmd e = Inr e' \<Longrightarrow> engine_frame e e'"
    and read_frame: "read_data_from_device h cmd e = Inr e' \<Longrightarrow> engine_frame e e'"
begin

lemma execute_control_frame: "execute_control_command h cmd e = Inr e' \<Longrightarrow> engine_frame e e'"
  using in_control_frame out_control_frame by (auto simp: execute_control_command_def split: if_splits)

lemma execute_ep_inv:
  assumes "engine_inv e" "is_submit cmd" "execute_ep_command h cmd e = Inr e'"
  shows "engine_inv e'"
proof (cases "is_in cmd")
  case True
  with assms(3) obtain e1 where e1: "read_data_from_device h cmd e = Inr e1" "push_in_command cmd e1 = Inr e'"
    by (auto simp: execute_ep_command_def bindR_Inr_iff)
  have "engine_inv e1" by (rule engine_inv_frame [OF assms(1) read_frame [OF e1(1)]])
  then show ?thesis by (rule push_in_command_inv [OF _ assms(2) True e1(2)])
next
  case False
  with assms(3) have "send_data_to_device h cmd e = Inr e'"
    by (auto simp: execute_ep_command_def split: if_splits)
  then show ?thesis using engine_inv_frame [OF assms(1)] send_frame by blast
qed

lemma execute_command_inv:
  assumes "engine_inv e" "execute_command h e = Some (Inr e')"
  shows "engine_inv e'"
proof -
  obtain cmd q where pull: "q_pull (commands_queue e) = Some (Inr (cmd, q))"
    using assms(2) by (auto simp: execute_command_def split: option.splits sum.splits)
  let ?e = "e\<lparr>commands_queue := q\<rparr>"
  have inv: "engine_inv ?e" using assms(1) by (simp add: engine_inv_def)
  consider "is_submit cmd" "execute_control_command h cmd ?e = Inr e'"
    | "is_submit cmd" "execute_ep_command h cmd ?e = Inr e'" | "unlink_command cmd ?e = Inr e'"
    using assms(2) pull by (auto simp: execute_command_def Let_def split: if_splits)
  then show ?thesis
  proof cases
    case 1
    then show ?thesis using engine_inv_frame [OF inv] execute_control_frame by blast
  next
    case 2
    then show ?thesis using execute_ep_inv [OF inv] by blast
  next
    case 3
    then show ?thesis using unlink_command_inv [OF inv] by blast
  qed
qed

end

end
