(* ===== verification/Engine_Properties.thy ===== *)
theory Engine_Properties
  imports Basic_Engine
begin

text \<open>
  What the engine promises to the USB/IP host: the bytes of the replies, the effect of an unlink,
  the pairing of IN commands with data, and the data a completed transfer queues.
\<close>

section \<open>Replies\<close>

text \<open>C34: The reply to a submit command goes out as the protocol wants it: RET_SUBMIT with the
  command's sequence number, device, direction and endpoint, status, length, start frame, packet
  count and error count in big endian and eight zero bytes; then the payload, which is the data for
  an IN command and only the isochronous descriptors for an OUT one.\<close>

theorem submit_reply_on_wire:
  assumes "is_submit (rq_cmd req)" "\<not> q_closed (replies_queue e)" "q_items (replies_queue e) = []"
    and "case rq_data req of None \<Rightarrow> True | Some d \<Rightarrow> reply_payload_len req \<le> length d"
    and "\<not> os_contains (unlinked_seqnums e) (seqnum (rq_cmd req))"
  shows "\<exists>e1 e2. queue_reply_to_host req e = Inr e1 \<and> reply_consume e1 = Some (Inr e2) \<and>
    q_items (replies_queue e2) = [] \<and>
    socket_out e2 = socket_out e @
      [submit_reply_wire (rq_cmd req) (rq_status req) (rq_size req) (rq_error_count req) @
       (case rq_data req of None \<Rightarrow> [] | Some d \<Rightarrow> take (reply_payload_len req) d)]"
proof -
  obtain r where r: "make_reply req = Inr r"
    "header_bytes r = submit_reply_wire (rq_cmd req) (rq_status req) (rq_size req) (rq_error_count req)"
    "cmd_payload r = (case rq_data req of None \<Rightarrow> [] | Some d \<Rightarrow> take (reply_payload_len req) d)"
    "from_big (seqnum r) = seqnum (rq_cmd req)"
    using make_reply_submit [OF assms(1,4)] by blast
  show ?thesis
    using assms(3,5) r
    by (simp add: queue_reply_open [OF assms(2) r(1)] reply_consume_def q_pull_def)
qed

definition example_in :: command where
  "example_in = command_init\<lparr>hdr_base := example_base,
     union_bytes := le_bytes 4 (0 :: u32) @ le_bytes 4 (64 :: u32) @ le_bytes 4 (0 :: u32) @
       le_bytes 4 (0 :: u32) @ le_bytes 4 (1 :: u32) @ replicate 8 0\<rparr>"

lemma example_in_fields:
  "is_submit example_in" "is_in example_in" "\<not> is_out example_in" "is_iso example_in = Inr False"
  "seqnum example_in = 7" "cmd_ep example_in = 2" "transfer_buffer_size example_in = Inr 64"
proof -
  note fields = submit_union_fields [where u = "union_bytes example_in" and flags = 0 and len = 64
      and frame = 0 and packets = 0 and interval = 1 and stp = "replicate 8 0"]
  have u: "load32 off_transfer_buffer_length (union_bytes example_in) = 64"
    "load32 off_number_of_packets (union_bytes example_in) = 0"
    using fields by (simp_all add: example_in_def)
  show "is_submit example_in" "is_in example_in" "\<not> is_out example_in" "seqnum example_in = 7"
    "cmd_ep example_in = 2"
    by (simp_all add: example_in_def is_submit_def request_def is_in_def is_out_def direction_def
        seqnum_def cmd_ep_def example_base_def usbip_consts)
  then show "is_iso example_in = Inr False" "transfer_buffer_size example_in = Inr 64"
    using u by (simp_all add: is_iso_def iso_packet_count_def transfer_buffer_size_def)
qed

definition example_engine :: "unit engine" where
  "example_engine = engine_init ()"

lemma submit_reply_on_wire_witness:
  "\<exists>e1 e2. queue_reply_to_host ((request_of example_in)\<lparr>rq_data := Some [1, 2], rq_size := 2\<rparr>) example_engine = Inr e1 \<and>
    reply_consume e1 = Some (Inr e2) \<and>
    socket_out e2 = [submit_reply_wire example_in 0 2 0 @ [1, 2]]"
  using submit_reply_on_wire [of "(request_of example_in)\<lparr>rq_data := Some [1, 2], rq_size := 2\<rparr>" example_engine]
    example_in_fields
  by (auto simp: request_of_def example_engine_def engine_init_def q_init_def reply_payload_len_def)

section \<open>Unlinking\<close>

definition reply_status :: "command \<Rightarrow> u32" where
  "reply_status r = from_big (load32 0 (union_bytes r))"

text \<open>After an unlink was executed, the next reply that carries the unlinked sequence number is
  dropped by the reply thread and nothing is written; the number is forgotten then, so it suppresses
  one reply only.\<close>

lemma unlink_suppresses_one_reply:
  assumes "om_inv (unlinked_seqnums e)" "unlink_command u e = Inr e1" "unlink_seqnum u = Inr n"
    and "q_pull (replies_queue e1) = Some (Inr (r, q))" "from_big (seqnum r) = n"
  shows "\<exists>e2. reply_consume e1 = Some (Inr e2) \<and> socket_out e2 = socket_out e \<and>
    \<not> os_contains (unlinked_seqnums e2) n \<and>
    (\<forall>m. m \<noteq> n \<longrightarrow> os_contains (unlinked_seqnums e2) m = os_contains (unlinked_seqnums e) m)"
proof -
  obtain req where "queue_reply_to_host req (e\<lparr>unlinked_seqnums := fst (om_insert n () (unlinked_seqnums e))\<rparr>) = Inr e1"
    using assms(2,3) by (auto simp: unlink_command_def bindR_Inr_iff Let_def)
  from queue_reply_frame [OF this]
  have set1: "unlinked_seqnums e1 = fst (om_insert n () (unlinked_seqnums e))" and out: "socket_out e1 = socket_out e"
    by (simp_all add: engine_frame_def)
  have "os_contains (unlinked_seqnums e1) n"
    using assms(1) by (simp add: set1 os_contains_insert)
  then show ?thesis
    using assms(1,4,5) out
    by (auto simp: reply_consume_def os_contains_erase set1 os_contains_insert)
qed

definition example_unlink :: command where
  "example_unlink = command_init\<lparr>hdr_base := example_base\<lparr>hb_command := 2, hb_seqnum := 9\<rparr>,
     union_bytes := le_bytes 4 (7 :: u32) @ replicate 24 0\<rparr>"

lemma example_unlink_fields: "is_unlink example_unlink" "unlink_seqnum example_unlink = Inr 7"
  "unat (cmd_ep example_unlink) < max_count_in"
proof -
  show u: "is_unlink example_unlink" "unat (cmd_ep example_unlink) < max_count_in"
    by (simp_all add: example_unlink_def is_unlink_def request_def cmd_ep_def example_base_def usbip_consts
        max_count_in_def)
  have "load32 0 (le_bytes 4 (7 :: u32) @ replicate 24 0) = 7"
    using load32_le [of "[]" 0 7 "replicate 24 0"] by simp
  then show "unlink_seqnum example_unlink = Inr 7"
    using u by (simp add: unlink_seqnum_def off_defs example_unlink_def)
qed

text \<open>An unlink always succeeds while the reply queue is open, and answers at once.\<close>

lemma unlink_command_open:
  assumes "is_unlink u" "unat (cmd_ep u) < max_count_in" "unlink_seqnum u = Inr n"
    and "\<not> q_closed (replies_queue e)"
  shows "\<exists>r e'. unlink_command u e = Inr e' \<and>
    q_items (replies_queue e') = q_items (replies_queue e) @ [r] \<and>
    header_bytes r = unlink_reply_wire u
      (if snd (om_insert n () (unlinked_seqnums e)) then - ECONNRESET else 0) \<and>
    unlinked_seqnums e' = fst (om_insert n () (unlinked_seqnums e)) \<and> socket_out e' = socket_out e \<and>
    in_commands e' = in_commands e \<and> in_data e' = in_data e"
proof -
  let ?st = "if snd (om_insert n () (unlinked_seqnums e)) then - ECONNRESET else 0"
  let ?req = "(request_of u)\<lparr>rq_status := ?st\<rparr>"
  obtain r where r: "make_reply ?req = Inr r" "header_bytes r = unlink_reply_wire u ?st"
    using make_reply_unlink [of ?req] assms(1) by (auto simp: request_of_def)
  show ?thesis
    using assms r
    by (simp add: unlink_command_def queue_reply_open [where e = "e\<lparr>unlinked_seqnums := _\<rparr>"])
qed

lemma unlink_suppresses_one_reply_witness:
  "\<exists>e1 e2. unlink_command example_unlink (example_engine\<lparr>replies_queue :=
       \<lparr>q_items = [command_init\<lparr>hdr_base := reply_header example_in\<rparr>], q_closed = False\<rparr>\<rparr>) = Inr e1 \<and>
    reply_consume e1 = Some (Inr e2) \<and> socket_out e2 = [] \<and> \<not> os_contains (unlinked_seqnums e2) 7"
proof -
  let ?r = "command_init\<lparr>hdr_base := reply_header example_in\<rparr>"
  let ?e = "example_engine\<lparr>replies_queue := \<lparr>q_items = [?r], q_closed = False\<rparr>\<rparr>"
  have e: "om_inv (unlinked_seqnums ?e)" "\<not> q_closed (replies_queue ?e)" "socket_out ?e = []"
    by (simp_all add: example_engine_def engine_init_def)
  obtain e1 r' where e1: "unlink_command example_unlink ?e = Inr e1" "q_items (replies_queue e1) = [?r] @ [r']"
    using unlink_command_open [OF example_unlink_fields(1,3,2) e(2)] by auto
  have "from_big (seqnum ?r) = 7"
    using example_in_fields(5) by (simp add: seqnum_def reply_header_def)
  moreover have "q_pull (replies_queue e1) = Some (Inr (?r, (replies_queue e1)\<lparr>q_items := [r']\<rparr>))"
    using e1(2) by (simp add: q_pull_def)
  ultimately have "\<exists>e2. reply_consume e1 = Some (Inr e2) \<and> socket_out e2 = socket_out ?e \<and>
      \<not> os_contains (unlinked_seqnums e2) 7"
    using unlink_suppresses_one_reply [OF e(1) e1(1) example_unlink_fields(2)] by blast
  with e1(1) e(3) show ?thesis by auto
qed

text \<open>The answer to an unlink does not depend on whether the command is still unanswered: for a
  number that is not in the set it is always -ECONNRESET, even when the reply was already written
  (\<open>socket_out\<close> is arbitrary), and the number stays in the set, where it swallows the reply of a later
  command with that number.\<close>

lemma unlink_after_reply:
  assumes "is_unlink u" "unat (cmd_ep u) < max_count_in" "unlink_seqnum u = Inr n"
    and "om_inv (unlinked_seqnums e)" "\<not> os_contains (unlinked_seqnums e) n"
    and "replies_queue e = q_init"
  shows "\<exists>e1 e2 r. unlink_command u e = Inr e1 \<and> q_items (replies_queue e1) = [r] \<and>
    header_bytes r = unlink_reply_wire u (- ECONNRESET) \<and>
    os_contains (unlinked_seqnums e1) n \<and>
    (\<forall>later. from_big (seqnum later) = n \<longrightarrow>
      reply_consume (e1\<lparr>replies_queue := \<lparr>q_items = [later], q_closed = False\<rparr>\<rparr>) = Some (Inr (e2 later)) \<and>
      socket_out (e2 later) = socket_out e)"
proof -
  have opn: "\<not> q_closed (replies_queue e)" and empty: "q_items (replies_queue e) = []"
    using assms(6) by (simp_all add: q_init_def)
  have new: "snd (om_insert n () (unlinked_seqnums e))"
    using assms(5) smap.insert_flag [OF assms(4), of n "()"]
    by (cases "om_find (unlinked_seqnums e) n") (simp_all add: os_contains_def)
  obtain r e1 where e1: "unlink_command u e = Inr e1" "q_items (replies_queue e1) = [r]"
    "header_bytes r = unlink_reply_wire u (- ECONNRESET)"
    "unlinked_seqnums e1 = fst (om_insert n () (unlinked_seqnums e))" "socket_out e1 = socket_out e"
    using unlink_command_open [OF assms(1-3) opn] new empty by auto
  have has: "os_contains (unlinked_seqnums e1) n"
    using assms(4) by (simp add: e1(4) os_contains_insert)
  define e2 where "e2 later = e1\<lparr>replies_queue := \<lparr>q_items = [], q_closed = False\<rparr>,
    unlinked_seqnums := om_erase n (unlinked_seqnums e1)\<rparr>" for later :: command
  have "reply_consume (e1\<lparr>replies_queue := \<lparr>q_items = [later], q_closed = False\<rparr>\<rparr>) = Some (Inr (e2 later))"
    if "from_big (seqnum later) = n" for later
    using that has by (simp add: reply_consume_def q_pull_def e2_def)
  moreover have "socket_out (e2 later) = socket_out e" for later by (simp add: e2_def e1(5))
  ultimately show ?thesis using e1 has by blast
qed

lemma unlink_after_reply_witness:
  "\<exists>e1 r. unlink_command example_unlink (example_engine\<lparr>socket_out := [[1]]\<rparr>) = Inr e1 \<and>
    q_items (replies_queue e1) = [r] \<and> header_bytes r = unlink_reply_wire example_unlink (- ECONNRESET)"
  using unlink_after_reply [OF example_unlink_fields(1,3,2), of "example_engine\<lparr>socket_out := [[1]]\<rparr>"]
  by (auto simp: example_engine_def engine_init_def)

section \<open>IN data\<close>

lemma send_data_open:
  assumes "engine_inv e" "i < max_count_in" "\<not> q_closed (replies_queue e)"
    and "q_items (in_commands e ! i) = c # cs" "q_items (in_data e ! i) = d # ds"
    and "transfer_buffer_size c = Inr n" "0 < n"
    and "length (td_buffer d) = m + td_iso_descriptor_size d" "m \<le> n" "m < 2 ^ 64"
    and "is_iso c = Inr (td_iso_descriptor_size d \<noteq> 0)"
  shows "\<exists>r. send_data_to_host i e = Some (Inr (e\<lparr>
      in_commands := (in_commands e)[i := (in_commands e ! i)\<lparr>q_items := cs\<rparr>],
      in_data := (in_data e)[i := (in_data e ! i)\<lparr>q_items := ds\<rparr>],
      replies_queue := (replies_queue e)\<lparr>q_items := q_items (replies_queue e) @ [r]\<rparr>\<rparr>)) \<and>
    header_bytes r = submit_reply_wire c 0 m (td_error_count d) \<and> cmd_payload r = td_buffer d"
proof -
  have lens: "i < length (in_commands e)" "i < length (in_data e)" and wait: "waits_at i c"
    using assms(1,2,4) by (auto simp: engine_inv_def)
  then have c: "unat (cmd_ep c) = i" "is_submit c" "\<not> is_out c"
    by (simp_all add: waits_at_def is_in_def is_out_def usbip_consts)
  let ?req = "\<lparr>rq_cmd = c, rq_data = Some (td_buffer d), rq_size = m, rq_status = 0,
    rq_iso_descriptor_size = td_iso_descriptor_size d, rq_error_count = td_error_count d\<rparr>"
  have len: "reply_payload_len ?req = length (td_buffer d)"
    using assms(8,11) c(3) by (simp add: reply_payload_len_def)
  obtain r where r: "make_reply ?req = Inr r" "header_bytes r = submit_reply_wire c 0 m (td_error_count d)"
    "cmd_payload r = td_buffer d"
    using make_reply_submit [of ?req] c(2) len by auto
  have sz: "size_of_int (int (length (td_buffer d)) - int (td_iso_descriptor_size d)) = m"
    using size_of_int_nonneg [of "int m"] assms(8,10) by simp
  let ?e = "e\<lparr>in_commands := (in_commands e)[i := (in_commands e ! i)\<lparr>q_items := cs\<rparr>],
    in_data := (in_data e)[i := (in_data e ! i)\<lparr>q_items := ds\<rparr>]\<rparr>"
  have "queue_reply_to_host ?req ?e = Inr (?e\<lparr>replies_queue :=
      (replies_queue e)\<lparr>q_items := q_items (replies_queue e) @ [r]\<rparr>\<rparr>)"
    using queue_reply_open [of ?e ?req r] assms(3) r(1) by simp
  then have "send_data_to_host i e = Some (Inr (?e\<lparr>replies_queue :=
      (replies_queue e)\<lparr>q_items := q_items (replies_queue e) @ [r]\<rparr>\<rparr>))"
    using lens assms(4-7,9) c(1) by (simp add: send_data_to_host_def q_pull_def sz)
  then show ?thesis using r(2,3) by auto
qed

text \<open>C31: A transfer thread answers the oldest waiting IN command of its endpoint with the oldest
  data of that endpoint, whole and unchanged (data and, for an isochronous command, the packet
  descriptors behind it), and takes both out of their queues.\<close>

theorem in_commands_answered_in_order:
  assumes "engine_inv e" "i < max_count_in" "\<not> q_closed (replies_queue e)"
    and "q_items (in_commands e ! i) = c # cs" "q_items (in_data e ! i) = d # ds"
    and "transfer_buffer_size c = Inr n" "0 < n"
    and "length (td_buffer d) = m + td_iso_descriptor_size d" "m \<le> n" "m < 2 ^ 64"
    and "is_iso c = Inr (td_iso_descriptor_size d \<noteq> 0)"
  shows "\<exists>e' r. send_data_to_host i e = Some (Inr e') \<and>
    q_items (in_commands e' ! i) = cs \<and> q_items (in_data e' ! i) = ds \<and>
    q_items (replies_queue e') = q_items (replies_queue e) @ [r] \<and>
    header_bytes r = submit_reply_wire c 0 m (td_error_count d) \<and> cmd_payload r = td_buffer d"
proof -
  have "i < length (in_commands e)" "i < length (in_data e)"
    using assms(1,2) by (simp_all add: engine_inv_def)
  then show ?thesis using send_data_open [OF assms] by auto
qed

definition loaded_engine :: "unit engine" where
  "loaded_engine = example_engine\<lparr>
     in_commands := (in_commands example_engine)[2 := \<lparr>q_items = [example_in], q_closed = False\<rparr>],
     in_data := (in_data example_engine)[2 := \<lparr>q_items = [\<lparr>td_buffer = [3, 4], td_iso_descriptor_size = 0, td_error_count = 0\<rparr>],
       q_closed = False\<rparr>]\<rparr>"

lemma loaded_engine_inv: "engine_inv loaded_engine"
  using example_in_fields
  by (auto simp: engine_inv_def loaded_engine_def example_engine_def engine_init_def max_count_in_def
      nth_list_update q_init_def waits_at_def)

lemma in_commands_answered_in_order_witness:
  "\<exists>e' r. send_data_to_host 2 loaded_engine = Some (Inr e') \<and>
    q_items (replies_queue e') = [r] \<and> header_bytes r = submit_reply_wire example_in 0 2 0 \<and> cmd_payload r = [3, 4]"
proof -
  have "q_items (in_commands loaded_engine ! 2) = example_in # []"
    "q_items (in_data loaded_engine ! 2) = \<lparr>td_buffer = [3, 4], td_iso_descriptor_size = 0, td_error_count = 0\<rparr> # []"
    "\<not> q_closed (replies_queue loaded_engine)" "q_items (replies_queue loaded_engine) = []"
    by (simp_all add: loaded_engine_def example_engine_def engine_init_def q_init_def max_count_in_def)
  from in_commands_answered_in_order [OF loaded_engine_inv _ this(3) this(1,2), of 64 2] this(4)
  show ?thesis using example_in_fields by (auto simp: max_count_in_def)
qed

section \<open>The data a completed transfer queues\<close>

lemma length_descriptor_bytes [simp]: "length (descriptor_bytes d) = 16"
  by (simp add: descriptor_bytes_def)

lemma length_descriptors_bytes: "length (concat (map descriptor_bytes ds)) = 16 * length ds"
  by (induction ds) simp_all

lemma completed_in_transfer_queued:
  assumes "engine_inv e" "wf_transfer t" "t_buffer t = Some bs" "t_num_iso_packets t = 0"
    and "t_endpoint t AND LIBUSB_ENDPOINT_DIR_MASK = LIBUSB_ENDPOINT_IN"
    and "i = unat (t_endpoint t AND LIBUSB_ENDPOINT_ADDRESS_MASK)"
    and "0 \<le> t_actual_length t" "t_actual_length t \<le> t_length t" "\<not> q_closed (in_data e ! i)"
  shows "\<exists>e'. queue_data_for_host (Some t) e = Inr e' \<and>
    q_items (in_data e' ! i) = q_items (in_data e ! i) @
      [\<lparr>td_buffer = take (nat (t_actual_length t)) bs, td_iso_descriptor_size = 0, td_error_count = 0\<rparr>] \<and>
    (\<forall>j. j \<noteq> i \<longrightarrow> in_data e' ! j = in_data e ! j) \<and> engine_frame e e'"
proof -
  have "t_endpoint t AND LIBUSB_ENDPOINT_ADDRESS_MASK \<le> LIBUSB_ENDPOINT_ADDRESS_MASK"
    by (rule word_and_le1)
  then have i: "i < length (in_data e)"
    using assms(1,6) by (simp add: word_le_nat_alt engine_inv_def max_count_in_def LIBUSB_ENDPOINT_ADDRESS_MASK_def)
  have len: "length bs = nat (t_length t)" "t_length t < 2 ^ 31"
    using assms(2,3) by (auto simp: wf_transfer_def)
  have sz: "size_of_int (t_actual_length t) = nat (t_actual_length t)"
    by (rule size_of_int_nonneg) (use assms(7,8) len in simp_all)
  have "nat (t_actual_length t) \<le> length bs" using assms(8) len by simp
  then have v: "vectorize (t_buffer t) (size_of_int (t_actual_length t)) = Inr (take (nat (t_actual_length t)) bs)"
    by (simp add: assms(3) sz vectorize_within)
  have notiso: "\<not> is_iso_transfer (Some t)" "transfer_iso_descriptor_size (Some t) = 0"
    using assms(4) by (simp_all add: is_iso_transfer_def number_of_packets_def transfer_iso_descriptor_size_def size_of_int_def)
  have data: "data_for_host t = Inr (take (nat (t_actual_length t)) bs, nat (t_actual_length t), 0)"
    using notiso v sz by (simp add: data_for_host_def)
  have small: "nat (t_actual_length t) mod 2 ^ 64 = nat (t_actual_length t)"
    using assms(8) len by (intro mod_less) (simp add: nat_less_iff)
  let ?td = "\<lparr>td_buffer = take (nat (t_actual_length t)) bs, td_iso_descriptor_size = 0, td_error_count = 0\<rparr>"
  let ?e = "e\<lparr>in_data := (in_data e)[i := (in_data e ! i)\<lparr>q_items := q_items (in_data e ! i) @ [?td]\<rparr>]\<rparr>"
  have "queue_data_for_host (Some t) e = Inr ?e"
    using assms(5,9) i small \<open>nat (t_actual_length t) \<le> length bs\<close>
    by (simp add: queue_data_for_host_def assms(6) [symmetric] data notiso(2) q_push_def)
  moreover have "engine_frame e ?e" by (simp add: engine_frame_def)
  ultimately show ?thesis using i by auto
qed

text \<open>An isochronous IN transfer whose packets all completed queues the packets' data followed by
  16 bytes of descriptor per packet; the assertions on the sizes hold.\<close>

lemma completed_iso_transfer_queued:
  assumes "engine_inv e" "wf_transfer t" "t_buffer t = Some bs" "t_iso_packet_desc t \<noteq> []"
    and "packets_ok (t_iso_packet_desc t)" "total_length (t_iso_packet_desc t) \<le> length bs"
    and "length (t_iso_packet_desc t) < 2 ^ 26"
    and "t_endpoint t AND LIBUSB_ENDPOINT_DIR_MASK = LIBUSB_ENDPOINT_IN"
    and "i = unat (t_endpoint t AND LIBUSB_ENDPOINT_ADDRESS_MASK)" "\<not> q_closed (in_data e ! i)"
  shows "\<exists>e' td. queue_data_for_host (Some t) e = Inr e' \<and>
    q_items (in_data e' ! i) = q_items (in_data e ! i) @ [td] \<and>
    take (length (td_buffer td) - td_iso_descriptor_size td) (td_buffer td) =
      packet_slices bs (t_iso_packet_desc t) 0 \<and>
    td_iso_descriptor_size td = 16 * length (t_iso_packet_desc t) \<and>
    length (td_buffer td) = length (packet_slices bs (t_iso_packet_desc t) 0) + td_iso_descriptor_size td \<and>
    td_error_count td = 0"
proof -
  let ?ps = "t_iso_packet_desc t" and ?data = "packet_slices bs (t_iso_packet_desc t) 0"
  have "t_endpoint t AND LIBUSB_ENDPOINT_ADDRESS_MASK \<le> LIBUSB_ENDPOINT_ADDRESS_MASK"
    by (rule word_and_le1)
  then have i: "i < length (in_data e)"
    using assms(1,9) by (simp add: word_le_nat_alt engine_inv_def max_count_in_def LIBUSB_ENDPOINT_ADDRESS_MASK_def)
  let ?d = "iso_descriptors_loop ?ps 0 \<lparr>data_size = 0, descriptors = [], error_count = 0\<rparr>"
  have iso: "is_iso_transfer (Some t)" using wf_transfer_sizes(4) [OF assms(2)] assms(4) by simp
  have d: "iso_descriptors (Some t) = Inr ?d" by (rule iso_descriptors_wf [OF assms(2,4)])
  have dsize: "data_size ?d = length ?data" "iso_data (Some t) = Inr ?data" "error_count ?d = 0"
    using iso_data_spec [OF assms(2-6)] d by simp_all
  have num: "t_num_iso_packets t = int (length ?ps)" using assms(2) by (simp add: wf_transfer_def)
  have isz: "transfer_iso_descriptor_size (Some t) = 16 * length ?ps"
    using size_of_int_nonneg [of "int (16 * length ?ps)"] assms(7)
    by (simp add: transfer_iso_descriptor_size_def number_of_packets_def num iso_packet_descriptor_size_def mult.commute)
  let ?db = "concat (map descriptor_bytes (descriptors ?d))"
  have db: "length ?db = 16 * length ?ps"
    by (simp only: length_descriptors_bytes) (simp add: iso_descriptors_loop_length)
  have vec: "vectorize (Some ?db) (16 * length ?ps) = Inr ?db"
    using vectorize_all [of ?db] by (simp only: db)
  have data: "data_for_host t = Inr (?data @ ?db, length ?data, 0)"
    using iso d dsize vec by (simp add: data_for_host_def isz)
  have "length ?data < 2 ^ 31"
  proof -
    have "length ?data \<le> length bs"
      using length_packet_slices [OF assms(5), of 0 bs] actual_le_total [OF assms(5)] assms(6) by simp
    then show ?thesis using buffer_wf [OF assms(2,3)] by simp
  qed
  then have small: "(length ?data + 16 * length ?ps) mod 2 ^ 64 = length ?data + 16 * length ?ps"
    using assms(7) by (intro mod_less) simp
  let ?td = "\<lparr>td_buffer = ?data @ ?db, td_iso_descriptor_size = 16 * length ?ps, td_error_count = 0\<rparr>"
  let ?e = "e\<lparr>in_data := (in_data e)[i := (in_data e ! i)\<lparr>q_items := q_items (in_data e ! i) @ [?td]\<rparr>]\<rparr>"
  have "queue_data_for_host (Some t) e = Inr ?e"
    using assms(8,10) i small db
    by (simp add: queue_data_for_host_def assms(9) [symmetric] data isz q_push_def)
  then show ?thesis using i db by (intro exI [of _ ?e] exI [of _ ?td]) simp
qed

lemma completed_iso_transfer_queued_witness:
  "\<exists>e' td. queue_data_for_host (Some (example_transfer 0x82 [1, 2, 3, 4] [example_packet 2 1 Completed, example_packet 2 2 Completed]))
      loaded_engine = Inr e' \<and> q_items (in_data e' ! 2) = q_items (in_data loaded_engine ! 2) @ [td] \<and>
    td_iso_descriptor_size td = 32 \<and> length (td_buffer td) = 35"
proof -
  let ?ps = "[example_packet 2 1 Completed, example_packet 2 2 Completed]"
  let ?t = "example_transfer 0x82 [1, 2, 3, 4] ?ps"
  have "wf_transfer ?t" "t_buffer ?t = Some [1, 2, 3, 4]" "t_iso_packet_desc ?t \<noteq> []"
    "packets_ok (t_iso_packet_desc ?t)" "total_length (t_iso_packet_desc ?t) \<le> length [1, 2, 3, 4 :: u8]"
    "length (t_iso_packet_desc ?t) < 2 ^ 26" "length (packet_slices [1, 2, 3, 4] (t_iso_packet_desc ?t) 0) = 3"
    by (simp_all add: example_transfer_def example_packet_def wf_transfer_def packets_ok_def)
  note facts = this
  have "\<not> q_closed (in_data loaded_engine ! 2)"
    by (simp add: loaded_engine_def example_engine_def engine_init_def max_count_in_def)
  with completed_iso_transfer_queued [OF loaded_engine_inv facts(1-6), of 2] facts(7) show ?thesis
    by (auto simp: example_transfer_def example_packet_def LIBUSB_ENDPOINT_DIR_MASK_def LIBUSB_ENDPOINT_IN_def
        LIBUSB_ENDPOINT_ADDRESS_MASK_def)
qed

end
