(* ===== verification/Pending_Map.thy ===== *)
theory Pending_Map
  imports Transfer_Model
begin

text \<open>
  \<open>pending_map\<close> (src/transfer.cppm lines 57-82, src/transfer_impl.cpp lines 15-166) as a
  state machine. A transfer is known by its address, the heap maps the addresses that are
  allocated to the transfers there; an address may be allocated again after it was freed. The
  log records what happens to them, the latest event first: allocations, callbacks, deletions,
  calls of libusb, and what \<open>cancel\<close> throws out of the map when it clears it.

  The mutex makes each operation atomic but two; the steps interleave arbitrarily. \<open>cancel\<close> gives up
  the lock while it waits for the map to become empty, and again before it clears the map, so it is
  three steps: the sweep, seeing the map empty (\<open>pm_waited\<close>), and clearing whatever is in it by then. \<open>submit\<close> calls libusb after it gave up the lock: its check and
  its call are two steps, and the call may come at any later time.
\<close>

section \<open>Operations\<close>

datatype 'cb pm_event =
    Allocated nat
  | Attached 'cb nat
  | Submitted nat
  | Cancel_Requested nat
  | Called 'cb nat
  | Freed nat
  | Dropped nat

record 'cb pmap =
  pm_pending :: "(nat, 'cb) omap"
  pm_canceled :: bool
  pm_waited :: bool
  pm_heap :: "nat \<Rightarrow> libusb_transfer option"
  pm_log :: "'cb pm_event list"

definition pm_init :: "'cb pmap" where
  "pm_init = \<lparr>pm_pending = [], pm_canceled = False, pm_waited = False, pm_heap = (\<lambda>_. None), pm_log = []\<rparr>"

definition log_event :: "'cb pm_event \<Rightarrow> 'cb pmap \<Rightarrow> 'cb pmap" where
  "log_event e w = w\<lparr>pm_log := e # pm_log w\<rparr>"

text \<open>\<open>give_away_transfer\<close> makes an owning pointer, whose deleter frees the buffer and the transfer.\<close>

definition give_away_transfer :: "nat \<Rightarrow> 'cb pmap \<Rightarrow> 'cb pmap res" where
  "give_away_transfer tid w =
     (case pm_heap w tid of
        None \<Rightarrow> Inl Undefined_Behaviour
      | Some t \<Rightarrow> Inr (log_event (Freed tid) (w\<lparr>pm_heap := (pm_heap w)(tid := None)\<rparr>)))"

definition pm_erase :: "nat \<Rightarrow> 'cb pmap \<Rightarrow> 'cb pmap" where
  "pm_erase tid w = w\<lparr>pm_pending := om_erase tid (pm_pending w)\<rparr>"

definition on_transfer_completed_impl :: "nat \<Rightarrow> 'cb pmap \<Rightarrow> 'cb pmap res" where
  "on_transfer_completed_impl tid w =
     (case pm_heap w tid of
        None \<Rightarrow> Inl Undefined_Behaviour
      | Some t \<Rightarrow>
          if t_status t = Timed_Out \<or> t_status t = Cancelled
          then bindR (viu_assert (om_find (pm_pending w) tid \<noteq> None)) (\<lambda>_.
               give_away_transfer tid (pm_erase tid w))
          else (case om_find (pm_pending w) tid of
                  None \<Rightarrow> Inl Assertion_Failed
                | Some cb \<Rightarrow> give_away_transfer tid (log_event (Called cb tid) (pm_erase tid w))))"

definition pm_attach :: "'cb \<Rightarrow> nat \<Rightarrow> nat option \<Rightarrow> 'cb pmap \<Rightarrow> 'cb pmap res" where
  "pm_attach cb tid user_data w =
     (case pm_heap w tid of
        None \<Rightarrow> Inl Undefined_Behaviour
      | Some t \<Rightarrow>
          (let r = om_insert tid cb (pm_pending w) in
           bindR (viu_assert (snd r)) (\<lambda>_.
           Inr (log_event (Attached cb tid)
                 (w\<lparr>pm_heap := (pm_heap w)(tid := Some (t\<lparr>t_user_data := user_data\<rparr>)),
                    pm_pending := fst r\<rparr>)))))"

text \<open>
  \<open>submit\<close>: under the lock it decides whether libusb is called; the argument \<open>res\<close> is what
  \<open>libusb_submit_transfer\<close> returns.
\<close>

definition pm_submit_check :: "nat \<Rightarrow> 'cb pmap \<Rightarrow> (bool \<times> 'cb pmap) res" where
  "pm_submit_check tid w =
     bindR (is_mock (pm_heap w tid)) (\<lambda>mock.
       if mock then Inr (False, w)
       else if pm_canceled w
       then bindR (viu_assert (om_find (pm_pending w) tid \<noteq> None)) (\<lambda>_.
            bindR (give_away_transfer tid (pm_erase tid w)) (\<lambda>w. Inr (False, w)))
       else Inr (True, w))"

definition pm_submit :: "bool \<Rightarrow> nat \<Rightarrow> 'cb pmap \<Rightarrow> 'cb pmap res" where
  "pm_submit res tid w =
     bindR (pm_submit_check tid w) (\<lambda>(call, w).
     if call then bindR (viu_assert res) (\<lambda>_. Inr (log_event (Submitted tid) w)) else Inr w)"

text \<open>The sweep of \<open>cancel\<close>: \<open>erase_if\<close> visits the map in order.\<close>

fun cancel_sweep :: "(nat, 'cb) omap \<Rightarrow> 'cb pmap \<Rightarrow> 'cb pmap res" where
  "cancel_sweep [] w = Inr w"
| "cancel_sweep ((tid, cb) # ps) w =
     bindR (is_mock (pm_heap w tid)) (\<lambda>mock.
       if mock then bindR (give_away_transfer tid (pm_erase tid w)) (cancel_sweep ps)
       else cancel_sweep ps (log_event (Cancel_Requested tid) w))"

definition cancel_begin :: "'cb pmap \<Rightarrow> 'cb pmap res" where
  "cancel_begin w = bindR (cancel_sweep (pm_pending w) w) (\<lambda>w. Inr (w\<lparr>pm_canceled := True\<rparr>))"

definition cancel_wait :: "'cb pmap \<Rightarrow> 'cb pmap option" where
  "cancel_wait w = (if pm_pending w = [] then Some (w\<lparr>pm_waited := True\<rparr>) else None)"

definition cancel_end :: "'cb pmap \<Rightarrow> 'cb pmap" where
  "cancel_end w = w\<lparr>pm_pending := [], pm_log := rev (map (Dropped \<circ> fst) (pm_pending w)) @ pm_log w\<rparr>"

text \<open>
  The steps: libusb allocates a transfer; the operations above; and a transfer in flight gets
  its status, from libusb or from a mock device.
\<close>

inductive pm_step :: "'cb pmap \<Rightarrow> 'cb pmap \<Rightarrow> bool" where
  step_alloc: "pm_heap w tid = None \<Longrightarrow>
    pm_step w (log_event (Allocated tid) (w\<lparr>pm_heap := (pm_heap w)(tid := Some t)\<rparr>))"
| step_status: "pm_heap w tid = Some t \<Longrightarrow>
    pm_step w (w\<lparr>pm_heap := (pm_heap w)(tid := Some (t\<lparr>t_status := s\<rparr>))\<rparr>)"
| step_attach: "pm_attach cb tid user_data w = Inr w' \<Longrightarrow> pm_step w w'"
| step_submit_check: "pm_submit_check tid w = Inr (call, w') \<Longrightarrow> pm_step w w'"
| step_submit_call: "pm_heap w tid \<noteq> None \<Longrightarrow> pm_step w (log_event (Submitted tid) w)"
| step_completed: "on_transfer_completed_impl tid w = Inr w' \<Longrightarrow> pm_step w w'"
| step_cancel_begin: "cancel_begin w = Inr w' \<Longrightarrow> pm_step w w'"
| step_cancel_wait: "pm_canceled w \<Longrightarrow> cancel_wait w = Some w' \<Longrightarrow> pm_step w w'"
| step_cancel_end: "pm_waited w \<Longrightarrow> pm_step w (cancel_end w)"

inductive pm_reachable :: "'cb pmap \<Rightarrow> bool" where
  reach_init: "pm_reachable pm_init"
| reach_step: "pm_reachable w \<Longrightarrow> pm_step w w' \<Longrightarrow> pm_reachable w'"

section \<open>The invariant\<close>

definition allocations :: "nat \<Rightarrow> 'cb pm_event list \<Rightarrow> nat" where
  "allocations tid l = length (filter (\<lambda>e. case e of Allocated i \<Rightarrow> i = tid | _ \<Rightarrow> False) l)"

definition frees :: "nat \<Rightarrow> 'cb pm_event list \<Rightarrow> nat" where
  "frees tid l = length (filter (\<lambda>e. case e of Freed i \<Rightarrow> i = tid | _ \<Rightarrow> False) l)"

definition attaches :: "nat \<Rightarrow> 'cb pm_event list \<Rightarrow> nat" where
  "attaches tid l = length (filter (\<lambda>e. case e of Attached cb i \<Rightarrow> i = tid | _ \<Rightarrow> False) l)"

definition calls :: "nat \<Rightarrow> 'cb pm_event list \<Rightarrow> nat" where
  "calls tid l = length (filter (\<lambda>e. case e of Called cb i \<Rightarrow> i = tid | _ \<Rightarrow> False) l)"

definition drops :: "nat \<Rightarrow> 'cb pm_event list \<Rightarrow> nat" where
  "drops tid l = length (filter (\<lambda>e. case e of Dropped i \<Rightarrow> i = tid | _ \<Rightarrow> False) l)"

text \<open>Per address: what is pending is allocated; it was freed once for every allocation but the living one;
  what was attached is still pending, was freed, or was thrown out, one of the three and once; and it
  was called back only where it was freed.\<close>

definition pm_inv_at :: "'cb pmap \<Rightarrow> nat \<Rightarrow> bool" where
  "pm_inv_at w i \<longleftrightarrow>
     (om_find (pm_pending w) i \<noteq> None \<longrightarrow> pm_heap w i \<noteq> None) \<and>
     allocations i (pm_log w) = frees i (pm_log w) + of_bool (pm_heap w i \<noteq> None) \<and>
     attaches i (pm_log w) = frees i (pm_log w) + drops i (pm_log w) + of_bool (om_find (pm_pending w) i \<noteq> None) \<and>
     calls i (pm_log w) \<le> frees i (pm_log w)"

definition pm_inv :: "'cb pmap \<Rightarrow> bool" where
  "pm_inv w \<longleftrightarrow> om_inv (pm_pending w) \<and> (\<forall>i. pm_inv_at w i)"

lemma count_simps [simp]:
  "allocations i (e # l) = of_bool (e = Allocated i) + allocations i l"
  "frees i (e # l) = of_bool (e = Freed i) + frees i l"
  "attaches i (e # l) = of_bool (\<exists>cb. e = Attached cb i) + attaches i l"
  "calls i (e # l) = of_bool (\<exists>cb. e = Called cb i) + calls i l"
  "drops i (e # l) = of_bool (e = Dropped i) + drops i l"
  by (cases e; auto simp: allocations_def frees_def attaches_def calls_def drops_def)+

lemma count_nil [simp]:
  "allocations i [] = 0" "frees i [] = 0" "attaches i [] = 0" "calls i [] = 0" "drops i [] = 0"
  by (simp_all add: allocations_def frees_def attaches_def calls_def drops_def)

lemma count_append [simp]:
  "allocations i (l @ m) = allocations i l + allocations i m" "frees i (l @ m) = frees i l + frees i m"
  "attaches i (l @ m) = attaches i l + attaches i m" "calls i (l @ m) = calls i l + calls i m"
  "drops i (l @ m) = drops i l + drops i m"
  by (simp_all add: allocations_def frees_def attaches_def calls_def drops_def)

lemma count_dropped [simp]:
  "allocations i (rev (map (Dropped \<circ> fst) m)) = 0" "frees i (rev (map (Dropped \<circ> fst) m)) = 0"
  "attaches i (rev (map (Dropped \<circ> fst) m)) = 0" "calls i (rev (map (Dropped \<circ> fst) m)) = 0"
  by (induction m) simp_all

lemma drops_map: "distinct (map fst m) \<Longrightarrow> drops i (rev (map (Dropped \<circ> fst) m)) = of_bool (om_find m i \<noteq> None)"
  by (induction m) (auto simp: om_find_None_iff image_iff)

lemma log_event_simps [simp]:
  "pm_log (log_event e w) = e # pm_log w" "pm_heap (log_event e w) = pm_heap w"
  "pm_pending (log_event e w) = pm_pending w" "pm_canceled (log_event e w) = pm_canceled w"
  "pm_waited (log_event e w) = pm_waited w"
  by (simp_all add: log_event_def)

lemma pm_erase_simps [simp]:
  "pm_log (pm_erase tid w) = pm_log w" "pm_heap (pm_erase tid w) = pm_heap w"
  "pm_pending (pm_erase tid w) = om_erase tid (pm_pending w)" "pm_canceled (pm_erase tid w) = pm_canceled w"
  "pm_waited (pm_erase tid w) = pm_waited w"
  by (simp_all add: pm_erase_def)

lemma give_away_transfer_Inr:
  "give_away_transfer tid w = Inr w' \<longleftrightarrow> pm_heap w tid \<noteq> None \<and>
     w' = log_event (Freed tid) (w\<lparr>pm_heap := (pm_heap w)(tid := None)\<rparr>)"
  by (auto simp: give_away_transfer_def split: option.splits)

text \<open>Dropping a pending transfer: erased, freed, perhaps called back before.\<close>

lemma pm_inv_drop:
  assumes "pm_inv w" "om_find (pm_pending w) tid \<noteq> None" "give_away_transfer tid (pm_erase tid w) = Inr w'"
  shows "pm_inv w'"
proof -
  have "pm_inv_at w' i" for i
  proof -
    have "pm_inv_at w i" using assms(1) by (simp add: pm_inv_def)
    then show ?thesis
      using assms(2,3)
      by (cases "i = tid") (auto simp: give_away_transfer_Inr pm_inv_at_def om_find_erase)
  qed
  then show ?thesis
    using assms by (auto simp: pm_inv_def give_away_transfer_Inr om_inv_erase)
qed

lemma pm_inv_call:
  assumes "pm_inv w" "om_find (pm_pending w) tid = Some cb"
    "give_away_transfer tid (log_event (Called cb tid) (pm_erase tid w)) = Inr w'"
  shows "pm_inv w'"
proof -
  have "pm_inv_at w' i" for i
  proof -
    have "pm_inv_at w i" using assms(1) by (simp add: pm_inv_def)
    then show ?thesis
      using assms(2,3)
      by (cases "i = tid") (auto simp: give_away_transfer_Inr pm_inv_at_def om_find_erase)
  qed
  then show ?thesis
    using assms by (auto simp: pm_inv_def give_away_transfer_Inr om_inv_erase)
qed

lemma pm_inv_attach:
  assumes "pm_inv w" "pm_attach cb tid user_data w = Inr w'"
  shows "pm_inv w'"
proof -
  obtain t where t: "pm_heap w tid = Some t" and new: "snd (om_insert tid cb (pm_pending w))"
    and w': "w' = log_event (Attached cb tid)
      (w\<lparr>pm_heap := (pm_heap w)(tid := Some (t\<lparr>t_user_data := user_data\<rparr>)),
         pm_pending := fst (om_insert tid cb (pm_pending w))\<rparr>)"
    using assms(2) by (auto simp: pm_attach_def Let_def split: option.splits)
  have om: "om_inv (pm_pending w)" using assms(1) by (simp add: pm_inv_def)
  have none: "om_find (pm_pending w) tid = None"
    using smap.insert_flag [OF om] new by blast
  have "pm_inv_at w' i" for i
  proof -
    have "pm_inv_at w i" using assms(1) by (simp add: pm_inv_def)
    then show ?thesis
      using t none
      by (cases "i = tid") (auto simp: w' pm_inv_at_def om_find_insert [OF om])
  qed
  then show ?thesis using om by (auto simp: pm_inv_def w' om_inv_insert)
qed

lemma pm_inv_frame:
  assumes "pm_inv w" "pm_pending w' = pm_pending w" "pm_log w' = pm_log w"
    and "\<And>i. pm_heap w' i = None \<longleftrightarrow> pm_heap w i = None"
  shows "pm_inv w'"
  using assms by (simp add: pm_inv_def pm_inv_at_def)

lemma pm_inv_log:
  assumes "pm_inv w" "e = Cancel_Requested tid \<or> e = Submitted tid"
  shows "pm_inv (log_event e w)"
proof -
  have "pm_inv_at (log_event e w) i" for i
  proof -
    have "pm_inv_at w i" using assms(1) by (simp add: pm_inv_def)
    then show ?thesis using assms(2) by (auto simp: pm_inv_at_def)
  qed
  then show ?thesis using assms(1) by (simp add: pm_inv_def)
qed

lemma pm_inv_submit_check:
  assumes "pm_inv w" "pm_submit_check tid w = Inr (call, w')"
  shows "pm_inv w'"
proof -
  obtain mock where mock: "is_mock (pm_heap w tid) = Inr mock"
    using assms(2) by (cases "is_mock (pm_heap w tid)") (simp_all add: pm_submit_check_def)
  consider "w' = w" | "om_find (pm_pending w) tid \<noteq> None" "give_away_transfer tid (pm_erase tid w) = Inr w'"
    using assms(2) mock by (cases mock; cases "pm_canceled w") (auto simp: pm_submit_check_def bindR_Inr_iff)
  then show ?thesis
  proof cases
    case 1
    with assms(1) show ?thesis by simp
  next
    case 2
    then show ?thesis by (rule pm_inv_drop [OF assms(1)])
  qed
qed

lemma pm_inv_submit:
  assumes "pm_inv w" "pm_submit res tid w = Inr w'"
  shows "pm_inv w'"
proof -
  obtain call w1 where w1: "pm_submit_check tid w = Inr (call, w1)"
    using assms(2) by (auto simp: pm_submit_def bindR_Inr_iff)
  have "w' = w1 \<or> w' = log_event (Submitted tid) w1"
    using assms(2) by (auto simp: pm_submit_def w1 split: if_splits)
  then show ?thesis using pm_inv_submit_check [OF assms(1) w1] pm_inv_log by blast
qed

lemma pm_inv_completed:
  assumes "pm_inv w" "on_transfer_completed_impl tid w = Inr w'"
  shows "pm_inv w'"
proof -
  obtain t where t: "pm_heap w tid = Some t"
    using assms(2) by (auto simp: on_transfer_completed_impl_def split: option.splits)
  show ?thesis
  proof (cases "t_status t = Timed_Out \<or> t_status t = Cancelled")
    case True
    with assms(2) t have "om_find (pm_pending w) tid \<noteq> None" "give_away_transfer tid (pm_erase tid w) = Inr w'"
      by (simp_all add: on_transfer_completed_impl_def bindR_Inr_iff)
    then show ?thesis by (rule pm_inv_drop [OF assms(1)])
  next
    case False
    with assms(2) t obtain cb where cb: "om_find (pm_pending w) tid = Some cb"
      and "give_away_transfer tid (log_event (Called cb tid) (pm_erase tid w)) = Inr w'"
      by (auto simp: on_transfer_completed_impl_def split: option.splits)
    then show ?thesis by (rule pm_inv_call [OF assms(1)])
  qed
qed

lemma cancel_sweep_inv:
  assumes "pm_inv w" "distinct (map fst ps)" "\<forall>p\<in>set ps. om_find (pm_pending w) (fst p) \<noteq> None"
    and "cancel_sweep ps w = Inr w'"
  shows "pm_inv w'"
  using assms
proof (induction ps arbitrary: w)
  case Nil
  then show ?case by simp
next
  case (Cons p ps)
  obtain tid cb where p: "p = (tid, cb)" by force
  have tid: "om_find (pm_pending w) tid \<noteq> None" using Cons.prems(3) by (auto simp: p)
  have new: "fst q \<noteq> tid" if "q \<in> set ps" for q using Cons.prems(2) that by (force simp: p)
  obtain mock where mock: "is_mock (pm_heap w tid) = Inr mock"
    using Cons.prems(4) by (auto simp: p bindR_Inr_iff)
  show ?case
  proof (cases mock)
    case True
    with Cons.prems(4) mock obtain w1 where w1: "give_away_transfer tid (pm_erase tid w) = Inr w1"
      and "cancel_sweep ps w1 = Inr w'" by (auto simp: p bindR_Inr_iff)
    moreover have "\<forall>q\<in>set ps. om_find (pm_pending w1) (fst q) \<noteq> None"
      using Cons.prems(3) new w1 by (auto simp: give_away_transfer_Inr om_find_erase)
    ultimately show ?thesis
      using Cons.IH [OF pm_inv_drop [OF Cons.prems(1) tid w1]] Cons.prems(2) by simp
  next
    case False
    with Cons.prems(4) mock have "cancel_sweep ps (log_event (Cancel_Requested tid) w) = Inr w'"
      by (simp add: p)
    moreover have "pm_inv (log_event (Cancel_Requested tid) w)" using pm_inv_log [OF Cons.prems(1)] by blast
    ultimately show ?thesis using Cons.IH [of "log_event (Cancel_Requested tid) w"] Cons.prems(2,3) by simp
  qed
qed

lemma pm_inv_wait:
  assumes "pm_inv w" "cancel_wait w = Some w'"
  shows "pm_inv w'"
proof -
  have "w' = w\<lparr>pm_waited := True\<rparr>" using assms(2) by (simp add: cancel_wait_def split: if_splits)
  then show ?thesis by (intro pm_inv_frame [OF assms(1)]) simp_all
qed

text \<open>Clearing keeps the invariant, but what was in the map stays allocated.\<close>

lemma pm_inv_clear: "pm_inv w \<Longrightarrow> pm_inv (cancel_end w)"
proof -
  assume "pm_inv w"
  then have "pm_inv_at w i" for i by (simp add: pm_inv_def)
  moreover have "distinct (map fst (pm_pending w))" using \<open>pm_inv w\<close> by (simp add: pm_inv_def om_inv_distinct)
  ultimately have "pm_inv_at (cancel_end w) i" for i
    unfolding pm_inv_at_def [of w i] by (auto simp: pm_inv_at_def cancel_end_def drops_map om_find_def)
  then show ?thesis by (simp add: pm_inv_def cancel_end_def om_inv_def)
qed

lemma pm_step_inv: "pm_step w w' \<Longrightarrow> pm_inv w \<Longrightarrow> pm_inv w'"
proof (induction rule: pm_step.induct)
  case (step_alloc w tid t)
  let ?w = "log_event (Allocated tid) (w\<lparr>pm_heap := (pm_heap w)(tid := Some t)\<rparr>)"
  have "pm_inv_at ?w i" for i
  proof -
    have "pm_inv_at w i" using step_alloc by (simp add: pm_inv_def)
    then show ?thesis
      using step_alloc(1) by (cases "i = tid") (auto simp: pm_inv_at_def)
  qed
  then show ?case using step_alloc(2) by (simp add: pm_inv_def)
next
  case (step_status w tid t s)
  show ?case by (rule pm_inv_frame [OF step_status(2)]) (use step_status(1) in auto)
next
  case (step_attach cb tid user_data w w')
  show ?case by (rule pm_inv_attach [OF step_attach(2) step_attach(1)])
next
  case (step_submit_check tid w call w')
  show ?case by (rule pm_inv_submit_check [OF step_submit_check(2) step_submit_check(1)])
next
  case (step_submit_call w tid)
  show ?case using pm_inv_log [OF step_submit_call(2)] by blast
next
  case (step_completed tid w w')
  show ?case by (rule pm_inv_completed [OF step_completed(2) step_completed(1)])
next
  case (step_cancel_begin w w')
  then obtain w1 where w1: "cancel_sweep (pm_pending w) w = Inr w1" "w' = w1\<lparr>pm_canceled := True\<rparr>"
    by (auto simp: cancel_begin_def bindR_Inr_iff)
  have "pm_inv w1"
    using cancel_sweep_inv [OF step_cancel_begin(2) _ _ w1(1)] step_cancel_begin(2)
    by (auto simp: pm_inv_def om_inv_distinct om_find_None_iff)
  then show ?case by (rule pm_inv_frame) (simp_all add: w1(2))
next
  case (step_cancel_wait w w')
  show ?case by (rule pm_inv_wait [OF step_cancel_wait(3,2)])
next
  case (step_cancel_end w)
  show ?case by (rule pm_inv_clear [OF step_cancel_end(2)])
qed

lemma pm_reachable_inv: "pm_reachable w \<Longrightarrow> pm_inv w"
proof (induction rule: pm_reachable.induct)
  case reach_init
  show ?case by (simp add: pm_inv_def pm_inv_at_def pm_init_def om_find_def)
next
  case (reach_step w w')
  then show ?case by (auto intro: pm_step_inv)
qed

text \<open>Only \<open>attach\<close> attaches, only libusb allocates, and only the last step of \<open>cancel\<close> throws out: the log of
  every other operation grows by other events.\<close>

definition plain :: "'cb pmap \<Rightarrow> 'cb pmap \<Rightarrow> bool" where
  "plain w w' \<longleftrightarrow> pm_waited w' = pm_waited w \<and>
     (\<forall>i. allocations i (pm_log w') = allocations i (pm_log w) \<and> attaches i (pm_log w') = attaches i (pm_log w) \<and>
       drops i (pm_log w') = drops i (pm_log w))"

lemma plain_refl [simp]: "plain w w"
  by (simp add: plain_def)

lemma plain_trans: "plain u v \<Longrightarrow> plain v w \<Longrightarrow> plain u w"
  by (simp add: plain_def)

lemma plain_completed: "on_transfer_completed_impl tid w = Inr w' \<Longrightarrow> plain w w'"
  by (auto simp: on_transfer_completed_impl_def plain_def give_away_transfer_Inr bindR_Inr_iff
      split: option.splits if_splits)

lemma plain_submit_check: "pm_submit_check tid w = Inr (call, w') \<Longrightarrow> plain w w'"
  by (auto simp: pm_submit_check_def plain_def give_away_transfer_Inr bindR_Inr_iff split: if_splits)

lemma plain_log: "e = Cancel_Requested tid \<or> e = Submitted tid \<Longrightarrow> plain w (log_event e w)"
  by (auto simp: plain_def)

lemma plain_submit:
  assumes "pm_submit res tid w = Inr w'"
  shows "plain w w'"
proof -
  obtain call w1 where w1: "pm_submit_check tid w = Inr (call, w1)"
    using assms by (auto simp: pm_submit_def bindR_Inr_iff)
  have "w' = w1 \<or> w' = log_event (Submitted tid) w1"
    using assms by (auto simp: pm_submit_def w1 split: if_splits)
  then have "plain w1 w'" using plain_log [of "Submitted tid" tid w1] by auto
  then show ?thesis by (rule plain_trans [OF plain_submit_check [OF w1]])
qed

lemma plain_cancel_sweep: "cancel_sweep ps w = Inr w' \<Longrightarrow> plain w w'"
proof (induction ps arbitrary: w)
  case (Cons p ps)
  obtain tid cb where p: "p = (tid, cb)" by force
  obtain mock where mock: "is_mock (pm_heap w tid) = Inr mock" using Cons.prems by (auto simp: p bindR_Inr_iff)
  show ?case
  proof (cases mock)
    case True
    then obtain w1 where w1: "give_away_transfer tid (pm_erase tid w) = Inr w1" "cancel_sweep ps w1 = Inr w'"
      using Cons.prems mock by (auto simp: p bindR_Inr_iff)
    have "plain w w1" using w1(1) by (auto simp: plain_def give_away_transfer_Inr)
    then show ?thesis using Cons.IH [OF w1(2)] by (rule plain_trans)
  next
    case False
    then have "cancel_sweep ps (log_event (Cancel_Requested tid) w) = Inr w'" using Cons.prems mock by (simp add: p)
    then have "plain (log_event (Cancel_Requested tid) w) w'" by (rule Cons.IH)
    then show ?thesis by (rule plain_trans [OF plain_log [OF disjI1 [OF refl]]])
  qed
qed simp

lemma plain_cancel_begin: "cancel_begin w = Inr w' \<Longrightarrow> plain w w'"
  by (auto simp: cancel_begin_def bindR_Inr_iff plain_def dest!: plain_cancel_sweep)

definition drops_late :: "'cb pmap \<Rightarrow> bool" where
  "drops_late w \<longleftrightarrow> pm_waited w \<or> (\<forall>i. drops i (pm_log w) = 0)"

lemma drops_late_plain: "plain w w' \<Longrightarrow> drops_late w \<Longrightarrow> drops_late w'"
  by (simp add: plain_def drops_late_def)

lemma drops_late_attach: "pm_attach cb tid user_data w = Inr w' \<Longrightarrow> drops_late w \<Longrightarrow> drops_late w'"
  by (auto simp: pm_attach_def Let_def drops_late_def split: option.splits)

lemma pm_step_drops_late: "pm_step w w' \<Longrightarrow> drops_late w \<Longrightarrow> drops_late w'"
proof (induction rule: pm_step.induct)
  case (step_attach cb tid user_data w w')
  then show ?case by (blast intro: drops_late_attach)
next
  case (step_submit_check tid w call w')
  then show ?case by (blast intro: drops_late_plain plain_submit_check)
next
  case (step_completed tid w w')
  then show ?case by (blast intro: drops_late_plain plain_completed)
next
  case (step_cancel_begin w w')
  then show ?case by (blast intro: drops_late_plain plain_cancel_begin)
next
  case (step_cancel_wait w w')
  then show ?case by (auto simp: drops_late_def cancel_wait_def split: if_splits)
qed (auto simp: drops_late_def cancel_end_def)

lemma pm_reachable_drops_late: "pm_reachable w \<Longrightarrow> drops_late w"
proof (induction rule: pm_reachable.induct)
  case reach_init
  show ?case by (simp add: drops_late_def pm_init_def)
next
  case (reach_step w w')
  then show ?case by (blast intro: pm_step_drops_late)
qed

section \<open>Cancelling\<close>

definition mock_at :: "'cb pmap \<Rightarrow> nat \<Rightarrow> bool" where
  "mock_at w i \<longleftrightarrow> (case pm_heap w i of None \<Rightarrow> False | Some t \<Rightarrow> t_dev_handle t = None)"

definition sweep_event :: "'cb pmap \<Rightarrow> nat \<Rightarrow> 'cb pm_event" where
  "sweep_event w i = (if mock_at w i then Freed i else Cancel_Requested i)"

lemma om_erase_filter: "om_erase k m = filter (\<lambda>e. fst e \<noteq> k) m"
  by (simp add: om_erase_def)

lemma cancel_sweep_spec:
  assumes "distinct (map fst ps)" "\<forall>p\<in>set ps. pm_heap w (fst p) \<noteq> None"
  shows "\<exists>w'. cancel_sweep ps w = Inr w' \<and> pm_canceled w' = pm_canceled w \<and>
    pm_pending w' = filter (\<lambda>e. \<not> (fst e \<in> fst ` set ps \<and> mock_at w (fst e))) (pm_pending w) \<and>
    (\<forall>i. pm_heap w' i = (if i \<in> fst ` set ps \<and> mock_at w i then None else pm_heap w i)) \<and>
    pm_log w' = rev (map (sweep_event w \<circ> fst) ps) @ pm_log w"
  using assms
proof (induction ps arbitrary: w)
  case Nil
  then show ?case by simp
next
  case (Cons p ps)
  obtain tid cb where p: "p = (tid, cb)" by force
  obtain t where t: "pm_heap w tid = Some t" using Cons.prems(2) by (auto simp: p)
  have new: "tid \<notin> fst ` set ps" and dist: "distinct (map fst ps)" using Cons.prems(1) by (auto simp: p)
  define w1 where "w1 = (if t_dev_handle t = None
     then log_event (Freed tid) ((pm_erase tid w)\<lparr>pm_heap := (pm_heap w)(tid := None)\<rparr>)
     else log_event (Cancel_Requested tid) w)"
  have step: "cancel_sweep (p # ps) w = cancel_sweep ps w1"
    by (simp add: p is_mock_def t w1_def give_away_transfer_def)
  have live: "\<forall>p\<in>set ps. pm_heap w1 (fst p) \<noteq> None"
  proof
    fix q assume q: "q \<in> set ps"
    then have "fst q \<noteq> tid" using new by force
    with q Cons.prems(2) show "pm_heap w1 (fst q) \<noteq> None" by (simp add: w1_def)
  qed
  from Cons.IH [OF dist live] obtain w' where w': "cancel_sweep ps w1 = Inr w'"
    "pm_canceled w' = pm_canceled w1"
    "pm_pending w' = filter (\<lambda>e. \<not> (fst e \<in> fst ` set ps \<and> mock_at w1 (fst e))) (pm_pending w1)"
    "\<forall>i. pm_heap w' i = (if i \<in> fst ` set ps \<and> mock_at w1 i then None else pm_heap w1 i)"
    "pm_log w' = rev (map (sweep_event w1 \<circ> fst) ps) @ pm_log w1" by blast
  have mock: "i \<noteq> tid \<Longrightarrow> mock_at w1 i = mock_at w i" for i by (simp add: mock_at_def w1_def)
  have mtid: "mock_at w tid \<longleftrightarrow> t_dev_handle t = None" by (simp add: mock_at_def t)
  have in_ps: "i \<in> fst ` set ps \<and> mock_at w1 i \<longleftrightarrow> i \<in> fst ` set ps \<and> mock_at w i" for i
    using mock new by metis
  have "pm_pending w' = filter (\<lambda>e. \<not> (fst e \<in> fst ` set (p # ps) \<and> mock_at w (fst e))) (pm_pending w)"
  proof (cases "t_dev_handle t = None")
    case True
    then have "pm_pending w1 = filter (\<lambda>e. fst e \<noteq> tid) (pm_pending w)"
      by (simp add: w1_def om_erase_filter)
    then show ?thesis unfolding w'(3) in_ps
      using True mtid by (auto simp: p intro!: filter_cong)
  next
    case False
    then have "pm_pending w1 = pm_pending w" by (auto simp: w1_def)
    then show ?thesis unfolding w'(3) in_ps
      using False mtid by (auto simp: p intro!: filter_cong)
  qed
  moreover have "\<forall>i. pm_heap w' i = (if i \<in> fst ` set (p # ps) \<and> mock_at w i then None else pm_heap w i)"
  proof
    fix i
    show "pm_heap w' i = (if i \<in> fst ` set (p # ps) \<and> mock_at w i then None else pm_heap w i)"
      using w'(4) new mock mtid by (cases "i = tid") (auto simp: p w1_def)
  qed
  moreover have "pm_log w' = rev (map (sweep_event w \<circ> fst) (p # ps)) @ pm_log w"
  proof -
    have "map (sweep_event w1 \<circ> fst) ps = map (sweep_event w \<circ> fst) ps"
      using mock new by (force simp: sweep_event_def)
    then show ?thesis unfolding w'(5) using mtid by (simp add: p w1_def sweep_event_def)
  qed
  moreover have "pm_canceled w' = pm_canceled w" using w'(2) by (simp add: w1_def)
  moreover have "cancel_sweep (p # ps) w = Inr w'" using step w'(1) by simp
  ultimately show ?case by (intro exI [of _ w'] conjI)
qed

lemma pm_inv_live: "pm_inv w \<Longrightarrow> om_find (pm_pending w) i \<noteq> None \<Longrightarrow> pm_heap w i \<noteq> None"
  by (simp add: pm_inv_def pm_inv_at_def)

lemma completed_pending:
  assumes "pm_inv w" "om_find (pm_pending w) tid \<noteq> None"
  shows "\<exists>w'. on_transfer_completed_impl tid w = Inr w' \<and> pm_pending w' = om_erase tid (pm_pending w) \<and>
    pm_heap w' = (pm_heap w)(tid := None)"
proof -
  obtain t where t: "pm_heap w tid = Some t" using pm_inv_live [OF assms] by blast
  from assms(2) t show ?thesis
    by (auto simp: on_transfer_completed_impl_def give_away_transfer_def)
qed

lemma complete_all:
  assumes "pm_inv w" "map fst (pm_pending w) = tids"
  shows "\<exists>w'. foldR on_transfer_completed_impl tids w = Inr w' \<and> pm_pending w' = [] \<and>
    (\<forall>i. pm_heap w' i = (if i \<in> set tids then None else pm_heap w i)) \<and> pm_inv w' \<and> plain w w'"
  using assms
proof (induction tids arbitrary: w)
  case Nil
  then show ?case by simp
next
  case (Cons tid tids)
  then obtain cb ps where ps: "pm_pending w = (tid, cb) # ps" and "map fst ps = tids"
    by (cases "pm_pending w") auto
  then have "om_find (pm_pending w) tid \<noteq> None" by (simp add: om_find_def)
  from completed_pending [OF Cons.prems(1) this] obtain w1
    where w1: "on_transfer_completed_impl tid w = Inr w1" "pm_pending w1 = om_erase tid (pm_pending w)"
      "pm_heap w1 = (pm_heap w)(tid := None)"
    by blast
  have "om_inv (pm_pending w)" using Cons.prems(1) by (simp add: pm_inv_def)
  then have "om_erase tid (pm_pending w) = ps"
    unfolding ps by (auto simp: om_inv_Cons om_erase_filter intro!: filter_True)
  with w1(2) have pend: "map fst (pm_pending w1) = tids" using \<open>map fst ps = tids\<close> by simp
  from Cons.IH [OF pm_inv_completed [OF Cons.prems(1) w1(1)] pend] obtain w' where
    "foldR on_transfer_completed_impl tids w1 = Inr w'" "pm_pending w' = []" "pm_inv w'" "plain w1 w'"
    "\<forall>i. pm_heap w' i = (if i \<in> set tids then None else pm_heap w1 i)" by blast
  then show ?case using w1(1,3) plain_trans [OF plain_completed [OF w1(1)]] by simp
qed

section \<open>Properties\<close>

text \<open>C32: In every interleaving of attaching, submitting, completing and cancelling, no transfer is leaked or
  freed twice, but for the ones \<open>cancel\<close> throws out (C16). Each that was attached is still in the map, or was
  freed, or was thrown out: exactly one of the three, and once, and the third only after \<open>cancel\<close> had
  seen the map empty. An address is freed once for every allocation but the living one, a transfer in the
  map is allocated, and its completion, whatever its status, takes it out and frees it, after its callback
  unless it timed out or was cancelled.\<close>

theorem transfers_freed_once:
  assumes "pm_reachable w"
  shows "attaches i (pm_log w) = frees i (pm_log w) + drops i (pm_log w) + of_bool (om_find (pm_pending w) i \<noteq> None) \<and>
    allocations i (pm_log w) = frees i (pm_log w) + of_bool (pm_heap w i \<noteq> None) \<and>
    calls i (pm_log w) \<le> frees i (pm_log w) \<and> (drops i (pm_log w) \<noteq> 0 \<longrightarrow> pm_waited w) \<and>
    (\<forall>cb. om_find (pm_pending w) i = Some cb \<longrightarrow> (\<exists>t w'. pm_heap w i = Some t \<and>
       on_transfer_completed_impl i w = Inr w' \<and> om_find (pm_pending w') i = None \<and> pm_heap w' i = None \<and>
       pm_log w' = Freed i # (if t_status t \<in> {Timed_Out, Cancelled} then [] else [Called cb i]) @ pm_log w))"
proof -
  note inv = pm_reachable_inv [OF assms]
  have "\<exists>t w'. pm_heap w i = Some t \<and> on_transfer_completed_impl i w = Inr w' \<and> om_find (pm_pending w') i = None \<and>
      pm_heap w' i = None \<and> pm_log w' = Freed i # (if t_status t \<in> {Timed_Out, Cancelled} then [] else [Called cb i]) @ pm_log w"
    if cb: "om_find (pm_pending w) i = Some cb" for cb
  proof -
    obtain t where "pm_heap w i = Some t" using pm_inv_live [OF inv, of i] cb by auto
    then show ?thesis using cb by (auto simp: on_transfer_completed_impl_def give_away_transfer_def om_find_erase)
  qed
  moreover have "pm_inv_at w i" using inv by (simp add: pm_inv_def)
  ultimately show ?thesis using pm_reachable_drops_late [OF assms] by (auto simp: pm_inv_at_def drops_late_def)
qed

definition one_transfer :: "'cb \<Rightarrow> libusb_transfer \<Rightarrow> 'cb pmap" where
  "one_transfer cb t = \<lparr>pm_pending = [(1, cb)], pm_canceled = False, pm_waited = False,
     pm_heap = (\<lambda>_. None)(1 := Some (t\<lparr>t_user_data := None\<rparr>)), pm_log = [Attached cb 1, Allocated 1]\<rparr>"

lemma one_transfer_reachable: "pm_reachable (one_transfer cb t)"
proof -
  define w where "w = log_event (Allocated 1) ((pm_init :: 'a pmap)\<lparr>pm_heap := (pm_heap (pm_init :: 'a pmap))(1 := Some t)\<rparr>)"
  have "pm_step pm_init w" unfolding w_def by (rule step_alloc) (simp add: pm_init_def)
  with reach_init have r: "pm_reachable w" by (rule reach_step)
  have "pm_attach cb 1 None w = Inr (one_transfer cb t)"
    by (simp add: pm_attach_def w_def pm_init_def one_transfer_def log_event_def)
  then have "pm_step w (one_transfer cb t)" by (rule step_attach)
  with r show ?thesis by (rule reach_step)
qed

lemma transfers_freed_once_witness:
  "\<exists>w. pm_reachable w \<and> pm_log w = [Freed 1, Called (0 :: nat) 1, Attached 0 1, Allocated 1] \<and>
    attaches 1 (pm_log w) = frees 1 (pm_log w) \<and> allocations 1 (pm_log w) = frees 1 (pm_log w)"
proof -
  let ?w = "one_transfer (0 :: nat) (example_transfer 0x81 [] [])"
  have r: "pm_reachable ?w" by (rule one_transfer_reachable)
  have "om_find (pm_pending ?w) 1 = Some 0" by (simp add: one_transfer_def om_find_def)
  then obtain w' where w': "on_transfer_completed_impl 1 ?w = Inr w'" "om_find (pm_pending w') 1 = None" "pm_heap w' 1 = None"
    "pm_log w' = [Freed 1, Called 0 1, Attached 0 1, Allocated 1]"
    using transfers_freed_once [OF r, of 1] by (auto simp: one_transfer_def example_transfer_def)
  have r': "pm_reachable w'" by (rule reach_step [OF r step_completed [OF w'(1)]])
  have "attaches 1 (pm_log w') = frees 1 (pm_log w')" "allocations 1 (pm_log w') = frees 1 (pm_log w')"
    using transfers_freed_once [OF r', of 1] w'(2-4) by simp_all
  with r' w'(4) show ?thesis by blast
qed

text \<open>The completion of a pending transfer never fails: neither the assertion that it is still
  in the map nor the access to the transfer can, whatever its status, and it leaves the map and is
  deleted.\<close>

lemma completion_never_fails:
  assumes "pm_reachable w" "om_find (pm_pending w) tid \<noteq> None"
  shows "\<exists>w'. on_transfer_completed_impl tid w = Inr w' \<and> om_find (pm_pending w') tid = None \<and>
    pm_heap w' tid = None"
  using completed_pending [OF pm_reachable_inv [OF assms(1)] assms(2)]
  by (auto simp: om_find_erase)

lemma completion_never_fails_witness:
  "\<exists>w'. on_transfer_completed_impl 1 (one_transfer (0 :: nat) (example_transfer 0x81 [] [])) = Inr w' \<and>
    pm_heap w' 1 = None"
  using completion_never_fails [OF one_transfer_reachable [of "0 :: nat" "example_transfer 0x81 [] []"], of 1]
  by (auto simp: one_transfer_def om_find_def)

lemma cancel_begin_spec:
  assumes "pm_inv w"
  shows "\<exists>w1. cancel_begin w = Inr w1 \<and> pm_canceled w1 \<and>
    pm_pending w1 = filter (\<lambda>e. \<not> mock_at w (fst e)) (pm_pending w) \<and>
    (\<forall>i. pm_heap w1 i = (if i \<in> fst ` set (pm_pending w) \<and> mock_at w i then None else pm_heap w i)) \<and>
    pm_log w1 = rev (map (sweep_event w \<circ> fst) (pm_pending w)) @ pm_log w"
proof -
  have dist: "distinct (map fst (pm_pending w))" using assms by (simp add: pm_inv_def om_inv_distinct)
  have live: "\<forall>p\<in>set (pm_pending w). pm_heap w (fst p) \<noteq> None"
    using pm_inv_live [OF assms] by (auto simp: om_find_None_iff)
  from cancel_sweep_spec [OF dist live] obtain w0 where w0: "cancel_sweep (pm_pending w) w = Inr w0"
    "pm_pending w0 = filter (\<lambda>e. \<not> (fst e \<in> fst ` set (pm_pending w) \<and> mock_at w (fst e))) (pm_pending w)"
    "\<forall>i. pm_heap w0 i = (if i \<in> fst ` set (pm_pending w) \<and> mock_at w i then None else pm_heap w i)"
    "pm_log w0 = rev (map (sweep_event w \<circ> fst) (pm_pending w)) @ pm_log w"
    by blast
  have "pm_pending w0 = filter (\<lambda>e. \<not> mock_at w (fst e)) (pm_pending w)"
    unfolding w0(2) by (rule filter_cong) auto
  then show ?thesis using w0(1,3,4) by (simp add: cancel_begin_def)
qed

text \<open>C36: \<open>cancel\<close> returns, and frees what is in flight. The sweep does not fail; it visits the map once, in
  order, frees each transfer of a mock and takes it out, and asks libusb to cancel each other, which stays.
  Once the event thread has completed those, the map is empty, which is what the wait loop waits for, and
  every transfer that was in the map has been freed exactly once since. After the sweep \<open>submit\<close> deletes a
  transfer of a real device instead of submitting it.\<close>

theorem cancel_returns:
  assumes "pm_reachable w"
  shows "\<exists>w1 w2. cancel_begin w = Inr w1 \<and> pm_canceled w1 \<and>
    pm_pending w1 = filter (\<lambda>e. \<not> mock_at w (fst e)) (pm_pending w) \<and>
    pm_log w1 = rev (map (\<lambda>e. if mock_at w (fst e) then Freed (fst e) else Cancel_Requested (fst e)) (pm_pending w)) @ pm_log w \<and>
    (\<forall>i. pm_heap w1 i = (if om_find (pm_pending w) i \<noteq> None \<and> mock_at w i then None else pm_heap w i)) \<and>
    foldR on_transfer_completed_impl (map fst (pm_pending w1)) w1 = Inr w2 \<and> pm_pending w2 = [] \<and>
    (\<forall>i. om_find (pm_pending w) i \<noteq> None \<longrightarrow> pm_heap w2 i = None \<and> frees i (pm_log w2) = Suc (frees i (pm_log w))) \<and>
    (\<forall>tid res. om_find (pm_pending w1) tid \<noteq> None \<longrightarrow>
       (\<exists>w3. pm_submit res tid w1 = Inr w3 \<and> pm_heap w3 tid = None))"
proof -
  have inv: "pm_inv w" by (rule pm_reachable_inv [OF assms])
  from cancel_begin_spec [OF inv] obtain w1 where w1: "cancel_begin w = Inr w1" "pm_canceled w1"
    "pm_pending w1 = filter (\<lambda>e. \<not> mock_at w (fst e)) (pm_pending w)"
    "\<forall>i. pm_heap w1 i = (if i \<in> fst ` set (pm_pending w) \<and> mock_at w i then None else pm_heap w i)"
    "pm_log w1 = rev (map (sweep_event w \<circ> fst) (pm_pending w)) @ pm_log w" by blast
  have inv1: "pm_inv w1" by (rule pm_step_inv [OF step_cancel_begin [OF w1(1)] inv])
  obtain w2 where w2: "foldR on_transfer_completed_impl (map fst (pm_pending w1)) w1 = Inr w2" "pm_pending w2 = []"
      "\<forall>i. pm_heap w2 i = (if i \<in> fst ` set (pm_pending w1) then None else pm_heap w1 i)" "pm_inv w2" "plain w1 w2"
    using complete_all [OF inv1 refl] by auto
  have freed: "pm_heap w2 i = None \<and> frees i (pm_log w2) = Suc (frees i (pm_log w))" if "om_find (pm_pending w) i \<noteq> None" for i
  proof -
    have "i \<in> fst ` set (pm_pending w1) \<or> mock_at w i" "i \<in> fst ` set (pm_pending w)"
      using that by (auto simp: om_find_None_iff w1(3))
    then have none: "pm_heap w2 i = None" using w1(4) w2(3) by (elim disjE) simp_all
    have "allocations i (pm_log w2) = allocations i (pm_log w)"
      using w2(5) plain_cancel_begin [OF w1(1)] by (simp add: plain_def)
    moreover have "pm_inv_at w i" "pm_inv_at w2 i" using inv w2(4) by (simp_all add: pm_inv_def)
    ultimately show ?thesis using none pm_inv_live [OF inv that] by (simp add: pm_inv_at_def)
  qed
  have "\<exists>w3. pm_submit res tid w1 = Inr w3 \<and> pm_heap w3 tid = None"
    if t: "om_find (pm_pending w1) tid \<noteq> None" for tid res
  proof -
    have "tid \<in> fst ` set (pm_pending w1)" using t by (simp add: om_find_None_iff)
    then have "\<not> mock_at w tid" "tid \<in> fst ` set (pm_pending w)" unfolding w1(3) by auto
    moreover obtain t where "pm_heap w1 tid = Some t" using pm_inv_live [OF inv1 t] by auto
    ultimately show ?thesis
      using w1(2,4) t by (auto simp: pm_submit_def pm_submit_check_def is_mock_def mock_at_def give_away_transfer_def)
  qed
  then show ?thesis using w1 w2(1,2) freed
    by (intro exI [of _ w1] exI [of _ w2]) (simp add: om_find_None_iff sweep_event_def comp_def)
qed

lemma cancel_returns_witness:
  "\<exists>w1. cancel_begin (one_transfer (0 :: nat) (example_transfer 0x81 [] [])) = Inr w1 \<and> pm_pending w1 = [] \<and>
    pm_log w1 = [Freed 1, Attached 0 1, Allocated 1] \<and> pm_heap w1 1 = None"
  using cancel_returns [OF one_transfer_reachable [of "0 :: nat" "example_transfer 0x81 [] []"]]
  by (auto simp: one_transfer_def mock_at_def example_transfer_def om_find_def)

text \<open>\<open>submit\<close> tests the cancel flag under the lock and calls libusb after it gave up the lock: a
  transfer that passed the test can be submitted after \<open>cancel\<close> has swept the map, when nobody will
  cancel it any more, and \<open>cancel\<close> then waits for a transfer nobody cancels.\<close>

lemma submitted_after_cancel:
  assumes "pm_reachable w" "om_find (pm_pending w) tid \<noteq> None" "\<not> mock_at w tid" "\<not> pm_canceled w"
  shows "\<exists>w1. pm_submit_check tid w = Inr (True, w) \<and> cancel_begin w = Inr w1 \<and> pm_canceled w1 \<and>
    om_find (pm_pending w1) tid \<noteq> None \<and> pm_reachable (log_event (Submitted tid) w1)"
proof -
  have inv: "pm_inv w" by (rule pm_reachable_inv [OF assms(1)])
  obtain t where t: "pm_heap w tid = Some t" using pm_inv_live [OF inv assms(2)] by auto
  have check: "pm_submit_check tid w = Inr (True, w)"
    using assms(3,4) t by (simp add: pm_submit_check_def is_mock_def mock_at_def)
  from cancel_begin_spec [OF inv] obtain w1 where w1: "cancel_begin w = Inr w1" "pm_canceled w1"
    "pm_pending w1 = filter (\<lambda>e. \<not> mock_at w (fst e)) (pm_pending w)"
    "\<forall>i. pm_heap w1 i = (if i \<in> fst ` set (pm_pending w) \<and> mock_at w i then None else pm_heap w i)" by blast
  have "om_find (pm_pending w1) tid \<noteq> None"
    using assms(2,3) by (auto simp: om_find_None_iff w1(3))
  moreover have "pm_heap w1 tid \<noteq> None" using t assms(3) by (simp add: w1(4))
  then have "pm_reachable (log_event (Submitted tid) w1)"
    by (intro reach_step [OF reach_step [OF assms(1) step_cancel_begin [OF w1(1)]] step_submit_call])
  ultimately show ?thesis using check w1(1,2) by blast
qed

lemma submitted_after_cancel_witness:
  "\<exists>w1. cancel_begin (one_transfer (0 :: nat) ((example_transfer 0x81 [] [])\<lparr>t_dev_handle := Some 1\<rparr>)) = Inr w1 \<and>
    pm_canceled w1 \<and> pm_reachable (log_event (Submitted 1) w1)"
  using submitted_after_cancel [OF one_transfer_reachable
      [of "0 :: nat" "(example_transfer 0x81 [] [])\<lparr>t_dev_handle := Some 1\<rparr>"], of 1]
  by (auto simp: one_transfer_def mock_at_def om_find_def)

text \<open>\<open>submit\<close> looks whether a transfer is a mock's before it looks at the flag: a transfer of a plugin that is
  attached after the sweep stays in the map, and \<open>cancel\<close> waits until the plugin has completed it.\<close>

lemma mock_delays_cancel:
  assumes "om_find (pm_pending w) tid \<noteq> None" "mock_at w tid"
  shows "pm_submit res tid w = Inr w" "cancel_wait w = None"
  using assms
  by (auto simp: pm_submit_def pm_submit_check_def is_mock_def mock_at_def cancel_wait_def om_find_def split: option.splits)

text \<open>C16: \<open>cancel\<close> can lose a transfer. It gives up the lock between seeing the map empty and clearing it,
  while the executor still runs: a transfer that is attached in between is thrown out of the map
  without being freed or cancelled. A transfer of a real device then fails the assertion of \<open>submit\<close>;
  one of a plugin goes to the plugin and fails the assertion of its completion.\<close>

theorem transfer_lost_by_cancel:
  assumes "pm_reachable w" "pm_waited w" "pm_canceled w" "pm_heap w tid = Some t" "om_find (pm_pending w) tid = None"
  shows "\<exists>w1. pm_attach cb tid user_data w = Inr w1 \<and> pm_reachable (cancel_end w1) \<and>
    pm_heap (cancel_end w1) tid \<noteq> None \<and> om_find (pm_pending (cancel_end w1)) tid = None \<and>
    (if t_dev_handle t \<noteq> None then pm_submit res tid (cancel_end w1) = Inl Assertion_Failed
     else pm_submit res tid (cancel_end w1) = Inr (cancel_end w1) \<and>
       on_transfer_completed_impl tid (cancel_end w1) = Inl Assertion_Failed)"
proof -
  have "snd (om_insert tid cb (pm_pending w))"
    using smap.insert_flag [of "pm_pending w"] pm_reachable_inv [OF assms(1)] assms(5) by (simp add: pm_inv_def)
  then obtain w1 where w1: "pm_attach cb tid user_data w = Inr w1" "pm_waited w1" "pm_canceled w1"
    "pm_heap w1 tid = Some (t\<lparr>t_user_data := user_data\<rparr>)"
    using assms(2-4) by (simp add: pm_attach_def Let_def log_event_def)
  have "pm_reachable (cancel_end w1)"
    by (rule reach_step [OF reach_step [OF assms(1) step_attach [OF w1(1)]] step_cancel_end [OF w1(2)]])
  then show ?thesis using w1
    by (auto simp: cancel_end_def om_find_def pm_submit_def pm_submit_check_def is_mock_def on_transfer_completed_impl_def viu_assert_def)
qed

definition cancelled_idle :: "libusb_transfer \<Rightarrow> nat pmap" where
  "cancelled_idle t = log_event (Allocated 1) (pm_init\<lparr>pm_canceled := True, pm_waited := True,
     pm_heap := (\<lambda>_. None)(1 := Some t)\<rparr>)"

lemma cancelled_idle_reachable: "pm_reachable (cancelled_idle t)"
proof -
  have "pm_reachable ((pm_init :: nat pmap)\<lparr>pm_canceled := True\<rparr>)"
    by (rule reach_step [OF reach_init step_cancel_begin]) (simp add: cancel_begin_def pm_init_def)
  then have "pm_reachable ((pm_init :: nat pmap)\<lparr>pm_canceled := True, pm_waited := True\<rparr>)"
    by (rule reach_step [OF _ step_cancel_wait]) (simp_all add: cancel_wait_def pm_init_def)
  from reach_step [OF this step_alloc [where tid = 1 and t = t]] show ?thesis
    by (simp add: cancelled_idle_def pm_init_def)
qed

lemma transfer_lost_by_cancel_witness:
  "\<exists>w1. pm_attach 0 1 None (cancelled_idle ((example_transfer 0x81 [] [])\<lparr>t_dev_handle := Some 1\<rparr>)) = Inr w1 \<and>
    pm_submit True 1 (cancel_end w1) = Inl Assertion_Failed"
  using transfer_lost_by_cancel [where w = "cancelled_idle ((example_transfer 0x81 [] [])\<lparr>t_dev_handle := Some 1\<rparr>)" and cb = 0 and
      tid = 1 and user_data = None and res = True, OF cancelled_idle_reachable]
  by (auto simp: cancelled_idle_def pm_init_def log_event_def om_find_def)

end
