(* ===== verification/Mock_Abi.thy ===== *)
theory Mock_Abi
  imports Transfer_Model Usbip_Command
begin

text \<open>
  The interface between the daemon and a device plugin (src/usb_mock_abi.h, usb_mock_abi.hpp).
  A plugin class has, for each event, a static handler, a member handler or none
  (\<open>plugin_type\<close>); the \<open>dispatch\<close> functions choose at compile time and stop exceptions;
  \<open>REGISTER_USB_MOCK\<close> fills the table of function pointers (\<open>mock_opaque\<close>) the daemon calls.

  The plugin object's state is \<open>'p\<close>. A transfer handler gets a control handle: the address of the
  transfer, which it may keep, and the transfer there. It returns the transfer as its calls of the
  handle left it, and whether it completed it. A handler that throws leaves the state it
  had reached.

  The \<open>Inl\<close> of a handler stands for an exception, which \<open>catch (...)\<close> stops. An assertion that fails in a
  call of the control handle ends the process instead, and a handler has no result for that: such a run is
  not in the model. The handlers of the three plugins that come with the program never get there with
  a well-formed transfer (\<open>transfer_handlers_return\<close> in Plugin_Properties).
\<close>

definition LIBUSB_SUCCESS :: int where "LIBUSB_SUCCESS = 0"
definition LIBUSB_ERROR_NO_DEVICE :: int where "LIBUSB_ERROR_NO_DEVICE = -4"
definition LIBUSB_ERROR_NOT_SUPPORTED :: int where "LIBUSB_ERROR_NOT_SUPPORTED = -12"
definition LIBUSB_ERROR_OTHER :: int where "LIBUSB_ERROR_OTHER = -99"

lemmas libusb_consts = LIBUSB_SUCCESS_def LIBUSB_ERROR_NO_DEVICE_def LIBUSB_ERROR_NOT_SUPPORTED_def
  LIBUSB_ERROR_OTHER_def

type_synonym 'p transfer_handler = "nat \<Rightarrow> libusb_transfer \<Rightarrow> 'p \<Rightarrow> unit res \<times> libusb_transfer \<times> bool \<times> 'p"
type_synonym 'p setup_handler = "control_setup \<Rightarrow> bytes \<Rightarrow> int \<Rightarrow> 'p \<Rightarrow> int res \<times> bytes \<times> 'p"
type_synonym 'p configuration_handler = "u8 \<Rightarrow> 'p \<Rightarrow> int res \<times> 'p"
type_synonym 'p interface_handler = "u8 \<Rightarrow> u8 \<Rightarrow> 'p \<Rightarrow> int res \<times> 'p"

record 'p plugin_type =
  pt_request_static :: "'p transfer_handler option"
  pt_request_member :: "'p transfer_handler option"
  pt_complete_static :: "'p transfer_handler option"
  pt_complete_member :: "'p transfer_handler option"
  pt_setup_static :: "'p setup_handler option"
  pt_setup_member :: "'p setup_handler option"
  pt_configuration_static :: "'p configuration_handler option"
  pt_configuration_member :: "'p configuration_handler option"
  pt_interface_static :: "'p interface_handler option"
  pt_interface_member :: "'p interface_handler option"

text \<open>\<open>if constexpr\<close>: the static handler is preferred.\<close>

definition pick :: "'h option \<Rightarrow> 'h option \<Rightarrow> 'h option" where
  "pick st mem = (case st of Some h \<Rightarrow> Some h | None \<Rightarrow> mem)"

definition dispatch_transfer_request ::
  "'p plugin_type \<Rightarrow> nat \<Rightarrow> libusb_transfer \<Rightarrow> 'p \<Rightarrow> libusb_transfer \<times> bool \<times> 'p" where
  "dispatch_transfer_request T ctx xfer p =
     (case pick (pt_request_static T) (pt_request_member T) of
        None \<Rightarrow> (xfer, False, p)
      | Some h \<Rightarrow> snd (h ctx xfer p))"

definition dispatch_transfer_complete ::
  "'p plugin_type \<Rightarrow> nat \<Rightarrow> libusb_transfer \<Rightarrow> 'p \<Rightarrow> libusb_transfer \<times> bool \<times> 'p" where
  "dispatch_transfer_complete T ctx xfer p =
     (case pick (pt_complete_static T) (pt_complete_member T) of
        None \<Rightarrow> (xfer, False, p)
      | Some h \<Rightarrow> snd (h ctx xfer p))"

definition caught :: "int res \<Rightarrow> int" where
  "caught r = (case r of Inl e \<Rightarrow> LIBUSB_ERROR_OTHER | Inr i \<Rightarrow> i)"

definition dispatch_control_setup ::
  "'p plugin_type \<Rightarrow> control_setup \<Rightarrow> bytes \<Rightarrow> int \<Rightarrow> 'p \<Rightarrow> int \<times> bytes \<times> 'p" where
  "dispatch_control_setup T s data result p =
     (case pick (pt_setup_static T) (pt_setup_member T) of
        None \<Rightarrow> (LIBUSB_ERROR_NOT_SUPPORTED, data, p)
      | Some h \<Rightarrow> (case h s data result p of (r, data', p') \<Rightarrow> (caught r, data', p')))"

definition dispatch_set_configuration :: "'p plugin_type \<Rightarrow> u8 \<Rightarrow> 'p \<Rightarrow> int \<times> 'p" where
  "dispatch_set_configuration T i p =
     (case pick (pt_configuration_static T) (pt_configuration_member T) of
        None \<Rightarrow> (LIBUSB_ERROR_NOT_SUPPORTED, p)
      | Some h \<Rightarrow> (case h i p of (r, p') \<Rightarrow> (caught r, p')))"

definition dispatch_set_interface :: "'p plugin_type \<Rightarrow> u8 \<Rightarrow> u8 \<Rightarrow> 'p \<Rightarrow> int \<times> 'p" where
  "dispatch_set_interface T i alt p =
     (case pick (pt_interface_static T) (pt_interface_member T) of
        None \<Rightarrow> (LIBUSB_ERROR_NOT_SUPPORTED, p)
      | Some h \<Rightarrow> (case h i alt p of (r, p') \<Rightarrow> (caught r, p')))"

text \<open>The table of function pointers; a null pointer is \<open>None\<close>.\<close>

record 'p mock_opaque =
  on_transfer_request :: "(nat \<Rightarrow> libusb_transfer \<Rightarrow> 'p \<Rightarrow> libusb_transfer \<times> bool \<times> 'p) option"
  on_transfer_complete :: "(nat \<Rightarrow> libusb_transfer \<Rightarrow> 'p \<Rightarrow> libusb_transfer \<times> bool \<times> 'p) option"
  on_control_setup :: "(control_setup \<Rightarrow> bytes \<Rightarrow> int \<Rightarrow> 'p \<Rightarrow> int \<times> bytes \<times> 'p) option"
  on_set_configuration :: "(u8 \<Rightarrow> 'p \<Rightarrow> int \<times> 'p) option"
  on_set_interface :: "(u8 \<Rightarrow> u8 \<Rightarrow> 'p \<Rightarrow> int \<times> 'p) option"

definition register_usb_mock :: "'p plugin_type \<Rightarrow> 'p mock_opaque" where
  "register_usb_mock T =
     \<lparr>on_transfer_request = Some (dispatch_transfer_request T),
      on_transfer_complete = Some (dispatch_transfer_complete T),
      on_control_setup = Some (dispatch_control_setup T),
      on_set_configuration = Some (dispatch_set_configuration T),
      on_set_interface = Some (dispatch_set_interface T)\<rparr>"

definition empty_plugin :: "'p plugin_type" where
  "empty_plugin = \<lparr>pt_request_static = None, pt_request_member = None, pt_complete_static = None,
     pt_complete_member = None, pt_setup_static = None, pt_setup_member = None,
     pt_configuration_static = None, pt_configuration_member = None,
     pt_interface_static = None, pt_interface_member = None\<rparr>"

end
