(* ===== verification/Usb_Device.thy ===== *)
theory Usb_Device
  imports Mock_Abi Pending_Map Descriptor_Tree
begin

text \<open>
  \<open>viu::usb::device\<close> and its subclass \<open>viu::usb::mock\<close> (src/usb.cppm, src/usb_impl.cpp).
  libusb is not part of the sources: its functions are the argument \<open>L\<close>, acting on a state \<open>'l\<close>
  of their own; each returns its result code with the values it stores through pointers. The
  plugin is the table of Mock_Abi with the plugin's state. Completion callbacks are values \<open>'cb\<close>;
  an operation that completes transfers returns the callbacks it has run with their transfers.
\<close>

section \<open>State\<close>

record 'l libusb =
  lu_get_configuration :: "'l \<Rightarrow> int \<times> int"
  lu_set_auto_detach :: "int \<Rightarrow> 'l \<Rightarrow> int \<times> 'l"
  lu_claim_interface :: "u8 \<Rightarrow> 'l \<Rightarrow> int \<times> 'l"
  lu_release_interface :: "u8 \<Rightarrow> 'l \<Rightarrow> int \<times> 'l"
  lu_set_configuration :: "u8 \<Rightarrow> 'l \<Rightarrow> int \<times> 'l"
  lu_set_alt_setting :: "u8 \<Rightarrow> u8 \<Rightarrow> 'l \<Rightarrow> int \<times> 'l"
  lu_control_transfer :: "control_setup \<Rightarrow> bytes \<Rightarrow> 'l \<Rightarrow> int \<times> bytes \<times> 'l"
  lu_active_config :: "'l \<Rightarrow> int \<times> libusb_config_descriptor option"
  lu_bos_descriptor :: "'l \<Rightarrow> int \<times> libusb_bos_descriptor option"
  lu_string_descriptor :: "u8 \<Rightarrow> u16 \<Rightarrow> nat \<Rightarrow> 'l \<Rightarrow> int \<times> bytes"
  lu_alloc_transfer :: "int \<Rightarrow> 'l \<Rightarrow> nat option \<times> 'l"
  lu_submit_transfer :: "libusb_transfer \<Rightarrow> 'l \<Rightarrow> int \<times> 'l"

text \<open>\<open>dv_mock_class\<close> distinguishes the subclass, whose handle is null and counts as valid.\<close>

record ('p, 'l, 'cb) device =
  dv_mock_class :: bool
  dv_handle :: "nat option"
  dv_alt_settings :: "(u8, u8) omap"
  dv_pending :: "'cb pmap"
  dv_mock_iface :: "'p mock_opaque option"
  dv_plugin :: 'p
  dv_tree :: tree
  dv_usb :: 'l

definition has_valid_handle :: "('p, 'l, 'cb) device \<Rightarrow> bool" where
  "has_valid_handle d \<longleftrightarrow> dv_mock_class d \<or> dv_handle d \<noteq> None"

definition underlying_handle :: "('p, 'l, 'cb) device \<Rightarrow> nat option res" where
  "underlying_handle d =
     (if dv_mock_class d then Inr None
      else bindR (viu_assert (dv_handle d \<noteq> None)) (\<lambda>_. Inr (dv_handle d)))"

definition device_is_mock :: "('p, 'l, 'cb) device \<Rightarrow> bool res" where
  "device_is_mock d = bindR (underlying_handle d) (\<lambda>h. Inr (h = None))"

section \<open>Interfaces and configurations of a real device\<close>

definition config_descriptor :: "'l libusb \<Rightarrow> ('p, 'l, 'cb) device \<Rightarrow> libusb_config_descriptor res" where
  "config_descriptor L d =
     bindR (underlying_handle d) (\<lambda>_.
     let (result, desc) = lu_active_config L (dv_usb d) in
     bindR (viu_assert (result = LIBUSB_SUCCESS)) (\<lambda>_.
     case desc of None \<Rightarrow> Inl Assertion_Failed | Some c \<Rightarrow> Inr c))"

definition count_interfaces :: "'l libusb \<Rightarrow> ('p, 'l, 'cb) device \<Rightarrow> u8 res" where
  "count_interfaces L d = bindR (config_descriptor L d) (\<lambda>c. Inr (cd_bNumInterfaces (lcd_desc c)))"

text \<open>
  The loops of \<open>claim_interfaces\<close> and \<open>release_interfaces\<close>. The counter is a \<open>std::uint8_t\<close> below
  the count, so 256 rounds are enough.
\<close>

fun interface_loop ::
  "(u8 \<Rightarrow> 'l \<Rightarrow> int \<times> 'l) \<Rightarrow> 'l libusb \<Rightarrow> nat \<Rightarrow> u8 \<Rightarrow> int \<Rightarrow> ('p, 'l, 'cb) device \<Rightarrow> (int \<times> ('p, 'l, 'cb) device) res" where
  "interface_loop call L 0 ifc r d = Inr (r, d)"
| "interface_loop call L (Suc n) ifc r d =
     bindR (count_interfaces L d) (\<lambda>count.
       if ifc < count then
         (let (r', l) = call ifc (dv_usb d); d' = d\<lparr>dv_usb := l\<rparr> in
          if r' \<noteq> LIBUSB_SUCCESS then Inr (r', d') else interface_loop call L n (ifc + 1) r' d')
       else Inr (r, d))"

definition claim_interfaces :: "'l libusb \<Rightarrow> ('p, 'l, 'cb) device \<Rightarrow> (int \<times> ('p, 'l, 'cb) device) res" where
  "claim_interfaces L d = interface_loop (lu_claim_interface L) L 256 0 LIBUSB_ERROR_OTHER d"

definition release_interfaces :: "'l libusb \<Rightarrow> ('p, 'l, 'cb) device \<Rightarrow> (int \<times> ('p, 'l, 'cb) device) res" where
  "release_interfaces L d = interface_loop (lu_release_interface L) L 256 0 LIBUSB_ERROR_OTHER d"

definition assert_success :: "int \<times> 'a \<Rightarrow> 'a res" where
  "assert_success r = bindR (viu_assert (fst r = LIBUSB_SUCCESS)) (\<lambda>_. Inr (snd r))"

definition plugin_set_configuration :: "u8 \<Rightarrow> ('p, 'l, 'cb) device \<Rightarrow> int \<times> ('p, 'l, 'cb) device" where
  "plugin_set_configuration index d =
     (case dv_mock_iface d of
        None \<Rightarrow> (LIBUSB_ERROR_NOT_SUPPORTED, d)
      | Some m \<Rightarrow> (case on_set_configuration m of
          None \<Rightarrow> (LIBUSB_ERROR_NOT_SUPPORTED, d)
        | Some f \<Rightarrow> (case f index (dv_plugin d) of (r, p) \<Rightarrow> (r, d\<lparr>dv_plugin := p\<rparr>))))"

definition set_configuration :: "'l libusb \<Rightarrow> u8 \<Rightarrow> ('p, 'l, 'cb) device \<Rightarrow> (int \<times> ('p, 'l, 'cb) device) res" where
  "set_configuration L index d =
     (case plugin_set_configuration index d of (result, d) \<Rightarrow>
      bindR (device_is_mock d) (\<lambda>mock.
      if mock then Inr (result, d)
      else (let (r, current_index) = lu_get_configuration L (dv_usb d) in
            bindR (viu_assert (r = LIBUSB_SUCCESS)) (\<lambda>_.
            if int (unat index) \<noteq> current_index then
              bindR (assert_success (lu_set_auto_detach L 0 (dv_usb d))) (\<lambda>l.
              bindR (release_interfaces L (d\<lparr>dv_usb := l\<rparr>)) (\<lambda>(r, d).
              bindR (viu_assert (r = LIBUSB_SUCCESS)) (\<lambda>_.
              bindR (assert_success (lu_set_configuration L index (dv_usb d))) (\<lambda>l.
              bindR (assert_success (lu_set_auto_detach L 1 l)) (\<lambda>l.
              bindR (claim_interfaces L (d\<lparr>dv_usb := l\<rparr>)) (\<lambda>(r, d).
              bindR (viu_assert (r = LIBUSB_SUCCESS)) (\<lambda>_. Inr (r, d))))))))
            else Inr (r, d)))))"

text \<open>\<open>open_cloned_libusb_device\<close>, given the result of \<open>libusb_open\<close>.\<close>

definition open_cloned :: "'l libusb \<Rightarrow> int \<Rightarrow> nat option \<Rightarrow> ('p, 'l, 'cb) device \<Rightarrow> (int \<times> ('p, 'l, 'cb) device) res" where
  "open_cloned L open_result handle d =
     (if open_result = LIBUSB_SUCCESS then
        (let d = d\<lparr>dv_handle := handle\<rparr> in
         bindR (underlying_handle d) (\<lambda>_.
         bindR (assert_success (lu_set_auto_detach L 1 (dv_usb d))) (\<lambda>l.
         claim_interfaces L (d\<lparr>dv_usb := l\<rparr>))))
      else Inr (open_result, d))"

text \<open>
  The destructor, where virtual functions are those of the base class: a mock has no handle there.
\<close>

definition device_close :: "'l libusb \<Rightarrow> ('p, 'l, 'cb) device \<Rightarrow> ('p, 'l, 'cb) device res" where
  "device_close L d =
     (if dv_handle d \<noteq> None then bindR (release_interfaces L d) (\<lambda>(r, d). Inr d) else Inr d)"

text \<open>The constructor of \<open>mock\<close>.\<close>

definition mock_construct :: "tree \<Rightarrow> 'p mock_opaque option \<Rightarrow> 'p \<Rightarrow> 'l \<Rightarrow> ('p, 'l, 'cb) device" where
  "mock_construct t xfer_instance plugin l =
     \<lparr>dv_mock_class = True, dv_handle = None, dv_alt_settings = [], dv_pending = pm_init,
      dv_mock_iface = xfer_instance, dv_plugin = plugin, dv_tree = t, dv_usb = l\<rparr>"

section \<open>Alternate settings\<close>

definition plugin_set_interface :: "u8 \<Rightarrow> u8 \<Rightarrow> ('p, 'l, 'cb) device \<Rightarrow> int \<times> ('p, 'l, 'cb) device" where
  "plugin_set_interface i alt d =
     (case dv_mock_iface d of
        None \<Rightarrow> (LIBUSB_ERROR_NOT_SUPPORTED, d)
      | Some m \<Rightarrow> (case on_set_interface m of
          None \<Rightarrow> (LIBUSB_ERROR_NOT_SUPPORTED, d)
        | Some f \<Rightarrow> (case f i alt (dv_plugin d) of (r, p) \<Rightarrow> (r, d\<lparr>dv_plugin := p\<rparr>))))"

definition device_on_set_interface ::
  "'l libusb \<Rightarrow> u8 \<Rightarrow> u8 \<Rightarrow> ('p, 'l, 'cb) device \<Rightarrow> (int \<times> ('p, 'l, 'cb) device) res" where
  "device_on_set_interface L i alt d =
     (case plugin_set_interface i alt d of (result, d) \<Rightarrow>
      bindR (device_is_mock d) (\<lambda>mock.
      if mock then Inr (result, d)
      else (case lu_set_alt_setting L i alt (dv_usb d) of (r, l) \<Rightarrow> Inr (r, d\<lparr>dv_usb := l\<rparr>))))"

definition set_interface :: "'l libusb \<Rightarrow> u8 \<Rightarrow> u8 \<Rightarrow> ('p, 'l, 'cb) device \<Rightarrow> (int \<times> ('p, 'l, 'cb) device) res" where
  "set_interface L i alt d =
     bindR (device_on_set_interface L i alt d) (\<lambda>(result, d).
     Inr (result, if result = LIBUSB_SUCCESS
                  then d\<lparr>dv_alt_settings := fst (om_insert i alt (dv_alt_settings d))\<rparr> else d))"

definition current_altsetting :: "u8 \<Rightarrow> ('p, 'l, 'cb) device \<Rightarrow> u8" where
  "current_altsetting i d =
     (if dv_alt_settings d = [] then 0
      else (case om_find (dv_alt_settings d) i of None \<Rightarrow> 0 | Some alt \<Rightarrow> alt))"

section \<open>Descriptors\<close>

definition ep_transfer_type_mask :: u8 where "ep_transfer_type_mask = 0b00000011"

definition all_endpoints :: "tree \<Rightarrow> endpoint list" where
  "all_endpoints t =
     concat (map (read_vector key_ep)
       (concat (map (read_vector key_altsetting) (read_vector key_interface (wrapped_config_desc t)))))"

text \<open>\<open>None\<close> is \<open>error::ep_get_transfer_type_failed\<close>.\<close>

definition ep_transfer_type :: "u8 \<Rightarrow> ('p, 'l, 'cb) device \<Rightarrow> u8 option" where
  "ep_transfer_type ep_addr d =
     (case filter (\<lambda>e. address e = ep_addr) (all_endpoints (dv_tree d)) of
        [] \<Rightarrow> None
      | e # _ \<Rightarrow> Some (attributes e AND ep_transfer_type_mask))"

definition pack_device_descriptor :: "('p, 'l, 'cb) device \<Rightarrow> bytes" where
  "pack_device_descriptor d =
     packer_pack_config (wrapped_config_desc (dv_tree d)) (packer_pack_device (device_desc (dv_tree d)) [])"

definition pack_config_descriptor :: "u8 \<Rightarrow> ('p, 'l, 'cb) device \<Rightarrow> bytes res" where
  "pack_config_descriptor index d =
     bindR (viu_assert (has_valid_handle d)) (\<lambda>_.
     bindR (viu_assert (index < dd_bNumConfigurations (device_desc (dv_tree d)))) (\<lambda>_.
     Inr (packer_pack_config (wrapped_config_desc (dv_tree d)) [])))"

definition pack_bos_descriptor :: "('p, 'l, 'cb) device \<Rightarrow> bytes res" where
  "pack_bos_descriptor d =
     bindR (viu_assert (has_valid_handle d)) (\<lambda>_. Inr (packer_pack_bos (wrapped_bos_desc (dv_tree d)) []))"

text \<open>\<open>vector::at\<close> throws outside the vector.\<close>

definition vector_at :: "'a list \<Rightarrow> nat \<Rightarrow> 'a res" where
  "vector_at xs i = (if i < length xs then Inr (xs ! i) else Inl Out_Of_Range)"

definition pack_string_descriptor :: "u16 \<Rightarrow> u8 \<Rightarrow> ('p, 'l, 'cb) device \<Rightarrow> bytes res" where
  "pack_string_descriptor language_id index d =
     bindR (viu_assert (has_valid_handle d)) (\<lambda>_.
     case om_find (string_descs (dv_tree d)) language_id of
       None \<Rightarrow> Inr []
     | Some desc_vector \<Rightarrow>
         if unat index > length desc_vector then Inr []
         else bindR (vector_at desc_vector (if index = 0 then 0 else unat index - 1)) (\<lambda>s.
              Inr (to_packing_type s [])))"

definition pack_report_descriptor :: "('p, 'l, 'cb) device \<Rightarrow> bytes" where
  "pack_report_descriptor d = to_packing_type (report_desc (dv_tree d)) []"

definition is_self_powered :: "('p, 'l, 'cb) device \<Rightarrow> bool" where
  "is_self_powered d = config_is_self_powered (wrapped_config_desc (dv_tree d))"

definition speed :: "('p, 'l, 'cb) device \<Rightarrow> u16" where
  "speed d = dd_bcdUSB (device_desc (dv_tree d))"

section \<open>The strings of a real device\<close>

definition resize :: "nat \<Rightarrow> bytes \<Rightarrow> bytes" where
  "resize n bs = take n bs @ replicate (n - length bs) 0"

text \<open>\<open>None\<close> is \<open>error::no_string_descriptor\<close>. The buffer has 256 bytes.\<close>

definition string_descriptor_u8 :: "'l libusb \<Rightarrow> u16 \<Rightarrow> u8 \<Rightarrow> ('p, 'l, 'cb) device \<Rightarrow> bytes option res" where
  "string_descriptor_u8 L language_id index d =
     bindR (viu_assert (has_valid_handle d)) (\<lambda>_.
     bindR (underlying_handle d) (\<lambda>_.
     let (r, buffer) = lu_string_descriptor L index language_id 256 (dv_usb d) in
     Inr (if r \<le> 0 then None else Some (resize (nat r) buffer))))"

fun pairs_u16 :: "bytes \<Rightarrow> u16 list" where
  "pairs_u16 (a # b # bs) = word_of_nat (from_le [a, b]) # pairs_u16 bs"
| "pairs_u16 bs = []"

definition string_descriptor_u16 :: "'l libusb \<Rightarrow> u16 \<Rightarrow> u8 \<Rightarrow> ('p, 'l, 'cb) device \<Rightarrow> u16 list option res" where
  "string_descriptor_u16 L language_id index d =
     bindR (viu_assert (has_valid_handle d)) (\<lambda>_.
     bindR (underlying_handle d) (\<lambda>_.
     let (r, buffer) = lu_string_descriptor L index language_id 256 (dv_usb d) in
     Inr (if r \<le> 0 then None else Some (pairs_u16 (resize (2 * (nat r div 2)) buffer)))))"

definition size_of_string :: "bytes option \<Rightarrow> int" where
  "size_of_string s = (case s of None \<Rightarrow> 0 | Some bs \<Rightarrow>
     if length bs < 2 then 0 else uint (hd bs) - 2)"

text \<open>Indices 1 to 254, until a string is missing or empty.\<close>

fun strings_of_language ::
  "'l libusb \<Rightarrow> u16 \<Rightarrow> nat \<Rightarrow> u8 \<Rightarrow> bytes list \<Rightarrow> ('p, 'l, 'cb) device \<Rightarrow> bytes list res" where
  "strings_of_language L lang 0 i strings d = Inr strings"
| "strings_of_language L lang (Suc n) i strings d =
     (if i < 255 then
        bindR (string_descriptor_u8 L lang i d) (\<lambda>s.
        if size_of_string s \<noteq> 0 then strings_of_language L lang n (i + 1) (strings @ [the s]) d
        else Inr strings)
      else Inr strings)"

fun insert_strings :: "'l libusb \<Rightarrow> u16 list \<Rightarrow> string_descriptor_map \<Rightarrow> ('p, 'l, 'cb) device \<Rightarrow> string_descriptor_map res" where
  "insert_strings L [] m d = Inr m"
| "insert_strings L (lang # langs) m d =
     bindR (strings_of_language L lang 255 1 [] d) (\<lambda>strings.
     insert_strings L langs (if strings \<noteq> [] then fst (om_insert lang strings m) else m) d)"

definition string_descriptors :: "'l libusb \<Rightarrow> ('p, 'l, 'cb) device \<Rightarrow> string_descriptor_map res" where
  "string_descriptors L d =
     bindR (string_descriptor_u8 L 0 0 d) (\<lambda>supported.
     case supported of None \<Rightarrow> Inr []
     | Some langs_desc \<Rightarrow>
         bindR (string_descriptor_u16 L 0 0 d) (\<lambda>lang_ids.
         case lang_ids of None \<Rightarrow> Inl Assertion_Failed
         | Some ids \<Rightarrow>
             bindR (viu_assert (length ids > 1)) (\<lambda>_.
             insert_strings L (drop 1 ids) (fst (om_insert 0 [langs_desc] [])) d)))"

definition bos_descriptor_of :: "'l libusb \<Rightarrow> ('p, 'l, 'cb) device \<Rightarrow> (int + libusb_bos_descriptor option) res" where
  "bos_descriptor_of L d =
     bindR (underlying_handle d) (\<lambda>_.
     let (r, b) = lu_bos_descriptor L (dv_usb d) in
     Inr (if r \<noteq> LIBUSB_SUCCESS then Inl r else Inr b))"

definition report_setup :: control_setup where
  "report_setup = \<lparr>bmRequestType = 0x81, bRequest = 6, wValue = 0x2200, wIndex = 0, wLength = 4096\<rparr>"

text \<open>\<open>None\<close> is \<open>error::no_report_descriptor\<close>.\<close>

definition report_descriptor_of :: "'l libusb \<Rightarrow> ('p, 'l, 'cb) device \<Rightarrow> (bytes option \<times> ('p, 'l, 'cb) device) res" where
  "report_descriptor_of L d =
     bindR (viu_assert (has_valid_handle d)) (\<lambda>_.
     bindR (underlying_handle d) (\<lambda>_.
     case lu_control_transfer L report_setup (replicate 4096 0) (dv_usb d) of (n, buffer, l) \<Rightarrow>
       if n < 0 then Inr (None, d\<lparr>dv_usb := l\<rparr>)
       else bindR (viu_assert (n < 4096)) (\<lambda>_. Inr (Some (resize (nat n) buffer), d\<lparr>dv_usb := l\<rparr>))))"

text \<open>
  The constructor: the list of devices with their descriptors is libusb's; \<open>open\<close> is the result of
  \<open>libusb_open\<close> on the matched device. A failure ends in \<open>Runtime_Error\<close>.
\<close>

definition matching_devices :: "u32 \<Rightarrow> u32 \<Rightarrow> (nat \<times> device_descriptor) list \<Rightarrow> (nat \<times> device_descriptor) list" where
  "matching_devices vid pid devs =
     filter (\<lambda>(_, desc). vid = ucast (dd_idVendor desc) \<and> pid = ucast (dd_idProduct desc)) devs"

definition create_failed :: "int \<Rightarrow> exn" where
  "create_failed r = Runtime_Error (make_string [Text ''Failed to create usb device:'', Arith r])"

definition device_construct ::
  "'l libusb \<Rightarrow> u32 \<Rightarrow> u32 \<Rightarrow> (nat \<times> device_descriptor) list \<Rightarrow> (nat \<Rightarrow> int \<times> nat option) \<Rightarrow>
   ('p, 'l, 'cb) device \<Rightarrow> ('p, 'l, 'cb) device res" where
  "device_construct L vid pid devs open_device d =
     (if devs = [] then Inl (create_failed LIBUSB_ERROR_NO_DEVICE)
      else (case matching_devices vid pid devs of
        [(dev, desc)] \<Rightarrow>
          (case open_device dev of (r, h) \<Rightarrow>
           bindR (open_cloned L r h d) (\<lambda>(r, d).
           if r \<noteq> LIBUSB_SUCCESS then Inl (create_failed r)
           else bindR (config_descriptor L d) (\<lambda>c.
                bindR (string_descriptors L d) (\<lambda>strings.
                bindR (bos_descriptor_of L d) (\<lambda>b.
                bindR (report_descriptor_of L d) (\<lambda>(report, d).
                bindR (tree_construct desc (Some c) strings (case b of Inl _ \<Rightarrow> None | Inr x \<Rightarrow> x)
                  (case report of None \<Rightarrow> [] | Some rep \<Rightarrow> rep)) (\<lambda>t.
                Inr (d\<lparr>dv_tree := t\<rparr>))))))))
      | _ \<Rightarrow> Inl Assertion_Failed))"

section \<open>Control transfers\<close>

text \<open>
  \<open>submit_control_setup\<close>: a real device gets the transfer, then the plugin sees the result so far
  and may replace it. The result is the data, or the (negative) libusb error.
\<close>

definition control_on_usb ::
  "'l libusb \<Rightarrow> bool \<Rightarrow> control_setup \<Rightarrow> bytes \<Rightarrow> ('p, 'l, 'cb) device \<Rightarrow> int \<times> bytes \<times> ('p, 'l, 'cb) device" where
  "control_on_usb L mock setup_packet setup_data d =
     (if mock then (LIBUSB_ERROR_NOT_SUPPORTED, setup_data, d)
      else (case lu_control_transfer L setup_packet setup_data (dv_usb d) of
              (r, bs, l) \<Rightarrow> (r, bs, d\<lparr>dv_usb := l\<rparr>)))"

definition control_on_plugin ::
  "control_setup \<Rightarrow> int \<Rightarrow> bytes \<Rightarrow> ('p, 'l, 'cb) device \<Rightarrow> int \<times> bytes \<times> ('p, 'l, 'cb) device" where
  "control_on_plugin setup_packet result setup_data d =
     (case dv_mock_iface d of
        None \<Rightarrow> (result, setup_data, d)
      | Some m \<Rightarrow> (case on_control_setup m of
          None \<Rightarrow> (result, setup_data, d)
        | Some f \<Rightarrow> (case f setup_packet setup_data result (dv_plugin d) of
            (r, bs, p) \<Rightarrow> (r, bs, d\<lparr>dv_plugin := p\<rparr>))))"

definition submit_control_setup ::
  "'l libusb \<Rightarrow> control_setup \<Rightarrow> bytes \<Rightarrow> ('p, 'l, 'cb) device \<Rightarrow> ((int + bytes) \<times> ('p, 'l, 'cb) device) res" where
  "submit_control_setup L setup_packet data d =
     bindR (viu_assert (data \<noteq> [] \<longrightarrow> length data = unat (wLength setup_packet))) (\<lambda>_.
     bindR (device_is_mock d) (\<lambda>mock.
     case control_on_usb L mock setup_packet (resize (unat (wLength setup_packet)) data) d of
       (result, setup_data, d) \<Rightarrow>
     case control_on_plugin setup_packet result setup_data d of
       (result, setup_data, d) \<Rightarrow>
     Inr (if result \<ge> 0 then Inr (resize (nat result) setup_data) else Inl result, d)))"

section \<open>Bulk, interrupt and isochronous transfers\<close>

record xfer_iso =
  xi_packet_count :: int
  xi_descriptors :: bytes

record 'cb xfer_info =
  xf_ep_address :: u8
  xf_buffer :: bytes
  xf_callback :: 'cb
  xf_iso :: "xfer_iso option"

datatype fill_kind = Fill_Bulk | Fill_Interrupt | Fill_Iso

definition TRANSFER_TYPE_CONTROL :: u8 where "TRANSFER_TYPE_CONTROL = 0"
definition TRANSFER_TYPE_ISOCHRONOUS :: u8 where "TRANSFER_TYPE_ISOCHRONOUS = 1"
definition TRANSFER_TYPE_BULK :: u8 where "TRANSFER_TYPE_BULK = 2"
definition TRANSFER_TYPE_INTERRUPT :: u8 where "TRANSFER_TYPE_INTERRUPT = 3"

definition int_of_size :: "nat \<Rightarrow> int" where
  "int_of_size n = sint (of_nat n :: u32)"

text \<open>A new transfer; \<open>libusb_alloc_transfer\<close> zeroes it.\<close>

definition filled :: "u8 \<Rightarrow> nat option \<Rightarrow> 'cb xfer_info \<Rightarrow> int \<Rightarrow> iso_packet list \<Rightarrow> libusb_transfer" where
  "filled ty handle info packet_count packets =
     \<lparr>t_dev_handle = handle, t_endpoint = xf_ep_address info, t_type = ty, t_status = Completed,
      t_length = int_of_size (length (xf_buffer info)), t_actual_length = 0,
      t_buffer = Some (xf_buffer info), t_num_iso_packets = packet_count,
      t_iso_packet_desc = packets, t_user_data = None\<rparr>"

definition fill_bulk :: "'cb xfer_info \<Rightarrow> nat option \<Rightarrow> libusb_transfer" where
  "fill_bulk info handle = filled TRANSFER_TYPE_BULK handle info 0 []"

definition fill_interrupt :: "'cb xfer_info \<Rightarrow> nat option \<Rightarrow> libusb_transfer" where
  "fill_interrupt info handle = filled TRANSFER_TYPE_INTERRUPT handle info 0 []"

definition iso_count :: "'cb xfer_info \<Rightarrow> int" where
  "iso_count info = (case xf_iso info of None \<Rightarrow> 1 | Some i \<Rightarrow> xi_packet_count i)"

text \<open>
  Every packet gets the length \<open>transfer_size / packet_count\<close>; the descriptors the host sent
  along (\<open>xi_descriptors\<close>) are not used. Division by zero is undefined.
\<close>

definition fill_iso :: "'cb xfer_info \<Rightarrow> nat option \<Rightarrow> libusb_transfer res" where
  "fill_iso info handle =
     (let n = iso_count info in
      if n = 0 then Inl Undefined_Behaviour
      else (let packet_size = of_nat (length (xf_buffer info) div size_of_int n) :: u32
            in Inr (filled TRANSFER_TYPE_ISOCHRONOUS handle info n
                 (replicate (nat n) \<lparr>ip_length = packet_size, ip_actual_length = 0, ip_status = Completed\<rparr>))))"

definition fill_transfer :: "fill_kind \<Rightarrow> 'cb xfer_info \<Rightarrow> nat option \<Rightarrow> libusb_transfer res" where
  "fill_transfer k info handle = (case k of
     Fill_Bulk \<Rightarrow> Inr (fill_bulk info handle)
   | Fill_Interrupt \<Rightarrow> Inr (fill_interrupt info handle)
   | Fill_Iso \<Rightarrow> fill_iso info handle)"

text \<open>
  \<open>on_transfer_completed\<close>: the plugin sees the transfer first, then the map runs the callback and
  deletes it. The result lists the callback that ran.
\<close>

definition put_transfer :: "nat \<Rightarrow> libusb_transfer \<Rightarrow> ('p, 'l, 'cb) device \<Rightarrow> ('p, 'l, 'cb) device" where
  "put_transfer tid t d = d\<lparr>dv_pending := (dv_pending d)\<lparr>pm_heap := (pm_heap (dv_pending d))(tid := Some t)\<rparr>\<rparr>"

definition device_on_transfer_completed ::
  "nat \<Rightarrow> ('p, 'l, 'cb) device \<Rightarrow> (('cb \<times> libusb_transfer) list \<times> ('p, 'l, 'cb) device) res" where
  "device_on_transfer_completed tid d =
     (case pm_heap (dv_pending d) tid of
        None \<Rightarrow> Inl Undefined_Behaviour
      | Some t \<Rightarrow>
          (let (t, d) = (case dv_mock_iface d of
                 None \<Rightarrow> (t, d)
               | Some m \<Rightarrow> (case on_transfer_complete m of
                   None \<Rightarrow> (t, d)
                 | Some f \<Rightarrow> (case f tid t (dv_plugin d) of
                     (t', _, p) \<Rightarrow> (t', put_transfer tid t' (d\<lparr>dv_plugin := p\<rparr>)))));
               called = (if t_status t = Timed_Out \<or> t_status t = Cancelled then []
                         else (case om_find (pm_pending (dv_pending d)) tid of None \<Rightarrow> [] | Some cb \<Rightarrow> [(cb, t)]))
           in bindR (on_transfer_completed_impl tid (dv_pending d)) (\<lambda>w. Inr (called, d\<lparr>dv_pending := w\<rparr>))))"

text \<open>\<open>control::complete\<close>, called by a mock plugin.\<close>

definition control_complete ::
  "nat \<Rightarrow> ('p, 'l, 'cb) device \<Rightarrow> (('cb \<times> libusb_transfer) list \<times> ('p, 'l, 'cb) device) res" where
  "control_complete tid d =
     bindR (is_mock (pm_heap (dv_pending d) tid)) (\<lambda>mock.
     bindR (viu_assert mock) (\<lambda>_.
     device_on_transfer_completed tid
       (put_transfer tid ((the (pm_heap (dv_pending d) tid))\<lparr>t_status := Completed\<rparr>) d)))"

text \<open>
  \<open>submit_transfer_impl\<close>: allocate and fill, attach to the map, show the request to the plugin,
  which may complete it, and submit it to a real device.
\<close>

definition allocate :: "'l libusb \<Rightarrow> fill_kind \<Rightarrow> 'cb xfer_info \<Rightarrow> ('p, 'l, 'cb) device \<Rightarrow>
    (nat \<times> ('p, 'l, 'cb) device) res" where
  "allocate L k info d =
     bindR (underlying_handle d) (\<lambda>handle.
     case lu_alloc_transfer L (if k = Fill_Iso then iso_count info else 0) (dv_usb d) of (a, l) \<Rightarrow>
     (case a of
        None \<Rightarrow> Inl Assertion_Failed
      | Some tid \<Rightarrow>
          bindR (fill_transfer k info handle) (\<lambda>t.
          Inr (tid, d\<lparr>dv_usb := l, dv_pending := log_event (Allocated tid)
            ((dv_pending d)\<lparr>pm_heap := (pm_heap (dv_pending d))(tid := Some t)\<rparr>)\<rparr>))))"

definition show_request :: "nat \<Rightarrow> ('p, 'l, 'cb) device \<Rightarrow> (('cb \<times> libusb_transfer) list \<times> ('p, 'l, 'cb) device) res" where
  "show_request tid d =
     (case dv_mock_iface d of
        None \<Rightarrow> Inr ([], d)
      | Some m \<Rightarrow> (case on_transfer_request m of
          None \<Rightarrow> Inr ([], d)
        | Some f \<Rightarrow>
            (case pm_heap (dv_pending d) tid of
               None \<Rightarrow> Inl Undefined_Behaviour
             | Some t \<Rightarrow>
                 (case f tid t (dv_plugin d) of (t', completed, p) \<Rightarrow>
                  (let d' = put_transfer tid t' (d\<lparr>dv_plugin := p\<rparr>) in
                   if completed then control_complete tid d' else Inr ([], d'))))))"

definition submit_transfer_impl ::
  "'l libusb \<Rightarrow> fill_kind \<Rightarrow> 'cb xfer_info \<Rightarrow> ('p, 'l, 'cb) device \<Rightarrow>
   (('cb \<times> libusb_transfer) list \<times> ('p, 'l, 'cb) device) res" where
  "submit_transfer_impl L k info d =
     bindR (allocate L k info d) (\<lambda>(tid, d).
     bindR (pm_attach (xf_callback info) tid (Some 1) (dv_pending d)) (\<lambda>w.
     bindR (show_request tid (d\<lparr>dv_pending := w\<rparr>)) (\<lambda>(called, d).
     bindR (device_is_mock d) (\<lambda>mock.
     if mock then Inr (called, d)
     else (case pm_heap (dv_pending d) tid of
             None \<Rightarrow> Inl Undefined_Behaviour
           | Some t \<Rightarrow>
               (case (if pm_canceled (dv_pending d) then (LIBUSB_SUCCESS, dv_usb d)
                      else lu_submit_transfer L t (dv_usb d)) of (r, l) \<Rightarrow>
                bindR (pm_submit (r = LIBUSB_SUCCESS) tid (dv_pending d)) (\<lambda>w.
                Inr (called, d\<lparr>dv_usb := l, dv_pending := w\<rparr>))))))))"

section \<open>The plugin's view of a transfer\<close>

text \<open>\<open>transfer_control_read\<close>: the size a plugin asks for, 0 meaning all.\<close>

definition plugin_read_size :: "u32 \<Rightarrow> int \<Rightarrow> u32" where
  "plugin_read_size sz control_sz =
     (if sz = 0 then word_of_int control_sz else word_of_int (min control_sz (sint sz)))"

definition transfer_control_read :: "u32 \<Rightarrow> libusb_transfer option \<Rightarrow> (bytes \<times> libusb_transfer option) res" where
  "transfer_control_read sz xfer =
     bindR (control_size xfer) (\<lambda>n. control_read (Some (plugin_read_size sz n)) xfer)"

definition transfer_control_fill :: "u8 ptr \<Rightarrow> nat \<Rightarrow> libusb_transfer option \<Rightarrow> libusb_transfer option res" where
  "transfer_control_fill data sz xfer = bindR (vectorize data sz) (\<lambda>vec. control_fill vec xfer)"

definition transfer_control_read_iso :: "nat \<Rightarrow> libusb_transfer option \<Rightarrow> iso_packet list res" where
  "transfer_control_read_iso out_count xfer =
     bindR (iso_packet_descriptor_count xfer) (\<lambda>n.
     if n > 0 then bindR (read_iso_packet_descriptors xfer) (\<lambda>ds. Inr (take out_count ds)) else Inr [])"

definition transfer_control_fill_iso :: "iso_packet ptr \<Rightarrow> nat \<Rightarrow> libusb_transfer option \<Rightarrow> libusb_transfer option res" where
  "transfer_control_fill_iso data sz xfer =
     bindR (vectorize data sz) (\<lambda>vec. fill_iso_packet_descriptors vec xfer)"

end
