(* ===== verification/Proxy_Model.thy ===== *)
theory Proxy_Model
  imports Usb_Device Basic_Engine
begin

text \<open>
  \<open>viu::device::proxy\<close> (src/usb_device_proxy_impl.cpp): the engine's virtual functions on a
  \<open>usb::device\<close>. The engine's field \<open>dev\<close> is that device; its completion callbacks, lambdas in the
  code, are the values of \<open>callback\<close> with what they capture.

  A callback only touches the queues of the engine. The device returns the callbacks that ran, and
  \<open>run_callbacks\<close> runs them when the device's operation is over.
\<close>

section \<open>Callbacks\<close>

datatype callback = In_Cb | Out_Cb command | In_Iso_Cb | Out_Iso_Cb command

type_synonym ('p, 'l) proxy = "('p, 'l, callback) device engine"

definition on_out_iso_transfer_complete :: "command \<Rightarrow> libusb_transfer \<Rightarrow> 'd engine \<Rightarrow> 'd engine res" where
  "on_out_iso_transfer_complete cmd t e =
     bindR (iso_descriptors (Some t)) (\<lambda>d.
     queue_reply_to_host
       \<lparr>rq_cmd = cmd, rq_data = Some (concat (map descriptor_bytes (descriptors d))), rq_size = data_size d,
        rq_status = 0, rq_iso_descriptor_size = transfer_iso_descriptor_size (Some t),
        rq_error_count = of_nat (error_count d)\<rparr> e)"

definition on_in_iso_transfer_complete :: "libusb_transfer \<Rightarrow> 'd engine \<Rightarrow> 'd engine res" where
  "on_in_iso_transfer_complete t e =
     bindR (viu_assert (is_iso_transfer (Some t))) (\<lambda>_. queue_data_for_host (Some t) e)"

definition on_in_transfer_complete :: "libusb_transfer \<Rightarrow> 'd engine \<Rightarrow> 'd engine res" where
  "on_in_transfer_complete t e =
     bindR (viu_assert (t_status t = Completed)) (\<lambda>_.
     bindR (viu_assert (t_actual_length t > 0)) (\<lambda>_. queue_data_for_host (Some t) e))"

definition on_out_transfer_complete :: "command \<Rightarrow> libusb_transfer \<Rightarrow> 'd engine \<Rightarrow> 'd engine res" where
  "on_out_transfer_complete cmd t e =
     bindR (viu_assert (t_actual_length t = t_length t)) (\<lambda>_.
     queue_reply_to_host ((request_of cmd)\<lparr>rq_size := size_of_int (t_actual_length t)\<rparr>) e)"

definition run_callback :: "callback \<times> libusb_transfer \<Rightarrow> 'd engine \<Rightarrow> 'd engine res" where
  "run_callback c e = (case c of (cb, t) \<Rightarrow> (case cb of
     In_Cb \<Rightarrow> on_in_transfer_complete t e
   | Out_Cb cmd \<Rightarrow> on_out_transfer_complete cmd t e
   | In_Iso_Cb \<Rightarrow> on_in_iso_transfer_complete t e
   | Out_Iso_Cb cmd \<Rightarrow> on_out_iso_transfer_complete cmd t e))"

definition run_callbacks :: "(callback \<times> libusb_transfer) list \<Rightarrow> 'd engine \<Rightarrow> 'd engine res" where
  "run_callbacks = foldR run_callback"

text \<open>An operation of the device, inside the engine.\<close>

definition on_dev :: "('d \<Rightarrow> ('r \<times> 'd) res) \<Rightarrow> ('r \<Rightarrow> 'd engine \<Rightarrow> 'd engine res) \<Rightarrow> 'd engine \<Rightarrow> 'd engine res" where
  "on_dev f g e = bindR (f (dev e)) (\<lambda>(r, d). g r (e\<lparr>dev := d\<rparr>))"

section \<open>Preparing a transfer\<close>

text \<open>
  The size of the OUT buffer is computed in \<open>std::size_t\<close>; \<open>vector::resize\<close> throws above
  \<open>max_size\<close>, which is \<open>2\<^sup>6\<^sup>3 - 1\<close> for bytes.
\<close>

definition prepare_buffer :: "command \<Rightarrow> bytes res" where
  "prepare_buffer cmd =
     (if is_out cmd then
        bindR (is_iso cmd) (\<lambda>i.
        if i then bindR (iso_descriptor_size cmd) (\<lambda>n.
               let k = unat (of_nat (length (cmd_payload cmd)) - n) in
               if k < 2 ^ 63 then Inr (resize k (cmd_payload cmd)) else Inl Length_Error)
        else Inr (cmd_payload cmd))
      else bindR (transfer_buffer_size cmd) (\<lambda>n. Inr (replicate n 0)))"

definition prepare_iso_descriptors_buffer :: "command \<Rightarrow> bytes res" where
  "prepare_iso_descriptors_buffer cmd =
     bindR (is_iso cmd) (\<lambda>i.
     bindR (viu_assert i) (\<lambda>_.
     if is_out cmd then
       bindR (iso_descriptor_size cmd) (\<lambda>n.
       bindR (viu_assert (length (cmd_payload cmd) > unat n)) (\<lambda>_.
       Inr (drop (length (cmd_payload cmd) - unat n) (cmd_payload cmd))))
     else Inr []))"

definition prepare_transfer :: "command \<Rightarrow> callback xfer_info res" where
  "prepare_transfer cmd =
     bindR (prepare_buffer cmd) (\<lambda>buffer.
     bindR (is_iso cmd) (\<lambda>i.
     if i then
       bindR (iso_packet_count cmd) (\<lambda>n.
       bindR (prepare_iso_descriptors_buffer cmd) (\<lambda>ds.
       Inr \<lparr>xf_ep_address = ep_address cmd, xf_buffer = buffer,
            xf_callback = (if is_in cmd then In_Iso_Cb else Out_Iso_Cb cmd),
            xf_iso = Some \<lparr>xi_packet_count = sint n, xi_descriptors = ds\<rparr>\<rparr>))
     else Inr \<lparr>xf_ep_address = ep_address cmd, xf_buffer = buffer,
               xf_callback = (if is_in cmd then In_Cb else Out_Cb cmd), xf_iso = None\<rparr>))"

definition submit_kind_transfer :: "'l libusb \<Rightarrow> fill_kind \<Rightarrow> command \<Rightarrow> ('p, 'l) proxy \<Rightarrow> ('p, 'l) proxy res" where
  "submit_kind_transfer L k cmd e =
     bindR (prepare_transfer cmd) (\<lambda>info.
     on_dev (submit_transfer_impl L k info) run_callbacks e)"

definition submit_transfer :: "'l libusb \<Rightarrow> command \<Rightarrow> ('p, 'l) proxy \<Rightarrow> ('p, 'l) proxy res" where
  "submit_transfer L cmd e =
     (case ep_transfer_type (ep_address cmd) (dev e) of
        None \<Rightarrow> Inl Assertion_Failed
      | Some ty \<Rightarrow>
          if ty = TRANSFER_TYPE_CONTROL then Inl Assertion_Failed
          else if ty = TRANSFER_TYPE_ISOCHRONOUS then submit_kind_transfer L Fill_Iso cmd e
          else if ty = TRANSFER_TYPE_BULK then submit_kind_transfer L Fill_Bulk cmd e
          else if ty = TRANSFER_TYPE_INTERRUPT then submit_kind_transfer L Fill_Interrupt cmd e
          else Inl Assertion_Failed)"

definition proxy_read_data_from_device :: "'l libusb \<Rightarrow> command \<Rightarrow> ('p, 'l) proxy \<Rightarrow> ('p, 'l) proxy res" where
  "proxy_read_data_from_device L cmd e =
     bindR (viu_assert (unat (cmd_ep cmd) < max_count_in)) (\<lambda>_.
     bindR (viu_assert (is_in cmd)) (\<lambda>_. submit_transfer L cmd e))"

definition proxy_send_data_to_device :: "'l libusb \<Rightarrow> command \<Rightarrow> ('p, 'l) proxy \<Rightarrow> ('p, 'l) proxy res" where
  "proxy_send_data_to_device L cmd e =
     bindR (viu_assert (unat (cmd_ep cmd) < max_count_out)) (\<lambda>_.
     bindR (viu_assert (is_out cmd)) (\<lambda>_. submit_transfer L cmd e))"

section \<open>Control commands\<close>

definition DT_DEVICE :: u8 where "DT_DEVICE = 0x01"
definition DT_CONFIG :: u8 where "DT_CONFIG = 0x02"
definition DT_STRING :: u8 where "DT_STRING = 0x03"
definition DT_BOS :: u8 where "DT_BOS = 0x0f"
definition DT_REPORT :: u8 where "DT_REPORT = 0x22"

definition REQUEST_GET_STATUS :: u8 where "REQUEST_GET_STATUS = 0x00"
definition REQUEST_GET_DESCRIPTOR :: u8 where "REQUEST_GET_DESCRIPTOR = 0x06"
definition REQUEST_SET_CONFIGURATION :: u8 where "REQUEST_SET_CONFIGURATION = 0x09"
definition REQUEST_GET_INTERFACE :: u8 where "REQUEST_GET_INTERFACE = 0x0a"
definition REQUEST_SET_INTERFACE :: u8 where "REQUEST_SET_INTERFACE = 0x0b"
definition SET_ISOCH_DELAY :: u8 where "SET_ISOCH_DELAY = 0x31"

definition REQUEST_TYPE_STANDARD :: u8 where "REQUEST_TYPE_STANDARD = 0"
definition RECIPIENT_DEVICE :: u8 where "RECIPIENT_DEVICE = 0"
definition RECIPIENT_INTERFACE :: u8 where "RECIPIENT_INTERFACE = 1"

lemmas proxy_consts = DT_DEVICE_def DT_CONFIG_def DT_STRING_def DT_BOS_def DT_REPORT_def
  REQUEST_GET_STATUS_def REQUEST_GET_DESCRIPTOR_def REQUEST_SET_CONFIGURATION_def
  REQUEST_GET_INTERFACE_def REQUEST_SET_INTERFACE_def SET_ISOCH_DELAY_def
  REQUEST_TYPE_STANDARD_def RECIPIENT_DEVICE_def RECIPIENT_INTERFACE_def

text \<open>
  The data of a \<open>std::expected\<close> from \<open>submit_control_setup\<close> and its reply: the IN handlers send the
  data, the OUT handlers \<open>wLength\<close> without data.
\<close>

definition reply_in_control :: "command \<Rightarrow> int + bytes \<Rightarrow> 'd engine \<Rightarrow> 'd engine res" where
  "reply_in_control cmd data =
     queue_reply_to_host (case data of
       Inr bs \<Rightarrow> (request_of cmd)\<lparr>rq_data := Some bs, rq_size := length bs\<rparr>
     | Inl r \<Rightarrow> (request_of cmd)\<lparr>rq_status := word_of_int r\<rparr>)"

definition reply_out_control :: "command \<Rightarrow> int + bytes \<Rightarrow> 'd engine \<Rightarrow> 'd engine res" where
  "reply_out_control cmd data =
     queue_reply_to_host ((request_of cmd)\<lparr>rq_size := unat (wLength (control_setup cmd)),
       rq_status := (case data of Inr _ \<Rightarrow> 0 | Inl r \<Rightarrow> word_of_int r)\<rparr>)"

definition submit_in_control :: "'l libusb \<Rightarrow> command \<Rightarrow> ('p, 'l) proxy \<Rightarrow> ('p, 'l) proxy res" where
  "submit_in_control L cmd = on_dev (submit_control_setup L (control_setup cmd) []) (reply_in_control cmd)"

definition submit_out_control :: "'l libusb \<Rightarrow> command \<Rightarrow> ('p, 'l) proxy \<Rightarrow> ('p, 'l) proxy res" where
  "submit_out_control L cmd =
     on_dev (submit_control_setup L (control_setup cmd) (cmd_payload cmd)) (reply_out_control cmd)"

definition reply_descriptor :: "command \<Rightarrow> bytes \<Rightarrow> 'd engine \<Rightarrow> 'd engine res" where
  "reply_descriptor cmd descriptor_data =
     queue_reply_to_host ((request_of cmd)\<lparr>rq_data := Some descriptor_data,
       rq_size := min (length descriptor_data) (unat (wLength (control_setup cmd))),
       rq_status := (if descriptor_data = [] then 1 else 0)\<rparr>)"

definition descriptor :: "'l libusb \<Rightarrow> command \<Rightarrow> ('p, 'l) proxy \<Rightarrow> ('p, 'l) proxy res" where
  "descriptor L cmd e =
     (let setup_packet = control_setup cmd;
          descriptor_type = type_from_value (wValue setup_packet);
          descriptor_index = index_from_value (wValue setup_packet)
      in if descriptor_type = DT_DEVICE then
           reply_descriptor cmd (pack_device_descriptor (dev e)) e
         else if descriptor_type = DT_CONFIG then
           bindR (pack_config_descriptor descriptor_index (dev e)) (\<lambda>bs. reply_descriptor cmd bs e)
         else if descriptor_type = DT_STRING then
           bindR (pack_string_descriptor (wIndex setup_packet) descriptor_index (dev e)) (\<lambda>bs. reply_descriptor cmd bs e)
         else if descriptor_type = DT_BOS then
           bindR (pack_bos_descriptor (dev e)) (\<lambda>bs. reply_descriptor cmd bs e)
         else if descriptor_type = DT_REPORT then
           reply_descriptor cmd (pack_report_descriptor (dev e)) e
         else on_dev (submit_control_setup L setup_packet []) (\<lambda>data. case data of
                Inl r \<Rightarrow> reply_in_control cmd (Inl r)
              | Inr bs \<Rightarrow> reply_descriptor cmd (to_packing_type bs [])) e)"

definition execute_std_in_device_control_command :: "'l libusb \<Rightarrow> command \<Rightarrow> ('p, 'l) proxy \<Rightarrow> ('p, 'l) proxy res" where
  "execute_std_in_device_control_command L cmd e =
     (let request = bRequest (control_setup cmd) in
      if request = REQUEST_GET_STATUS then
        queue_reply_to_host ((request_of cmd)\<lparr>rq_data := Some (le_bytes 2 ((if is_self_powered (dev e) then 1 else 0) :: u16)),
          rq_size := 2\<rparr>) e
      else if request = REQUEST_GET_DESCRIPTOR then descriptor L cmd e
      else submit_in_control L cmd e)"

definition execute_std_in_interface_control_command :: "'l libusb \<Rightarrow> command \<Rightarrow> ('p, 'l) proxy \<Rightarrow> ('p, 'l) proxy res" where
  "execute_std_in_interface_control_command L cmd e =
     (if bRequest (control_setup cmd) = REQUEST_GET_DESCRIPTOR then descriptor L cmd e
      else submit_in_control L cmd e)"

definition proxy_execute_in_control_command :: "'l libusb \<Rightarrow> command \<Rightarrow> ('p, 'l) proxy \<Rightarrow> ('p, 'l) proxy res" where
  "proxy_execute_in_control_command L cmd e =
     (if request_type cmd \<noteq> REQUEST_TYPE_STANDARD then submit_in_control L cmd e
      else if recipient cmd = RECIPIENT_DEVICE then execute_std_in_device_control_command L cmd e
      else if recipient cmd = RECIPIENT_INTERFACE then execute_std_in_interface_control_command L cmd e
      else submit_in_control L cmd e)"

definition proxy_set_configuration :: "'l libusb \<Rightarrow> command \<Rightarrow> ('p, 'l) proxy \<Rightarrow> ('p, 'l) proxy res" where
  "proxy_set_configuration L cmd =
     on_dev (set_configuration L (config_index cmd)) (\<lambda>result e.
       bindR (viu_assert (result = LIBUSB_SUCCESS)) (\<lambda>_.
       bindR (transfer_buffer_size cmd) (\<lambda>n.
       queue_reply_to_host ((request_of cmd)\<lparr>rq_size := n\<rparr>) e)))"

definition proxy_interface :: "command \<Rightarrow> ('p, 'l) proxy \<Rightarrow> ('p, 'l) proxy res" where
  "proxy_interface cmd e =
     queue_reply_to_host ((request_of cmd)\<lparr>
       rq_data := Some [current_altsetting (integral_at 0 (wIndex (control_setup cmd))) (dev e)], rq_size := 1\<rparr>) e"

definition execute_std_out_device_control_command :: "'l libusb \<Rightarrow> command \<Rightarrow> ('p, 'l) proxy \<Rightarrow> ('p, 'l) proxy res" where
  "execute_std_out_device_control_command L cmd e =
     (let request = bRequest (control_setup cmd) in
      if request = REQUEST_SET_CONFIGURATION then proxy_set_configuration L cmd e
      else if request = SET_ISOCH_DELAY then queue_reply_to_host (request_of cmd) e
      else submit_out_control L cmd e)"

definition execute_std_out_interface_control_command :: "'l libusb \<Rightarrow> command \<Rightarrow> ('p, 'l) proxy \<Rightarrow> ('p, 'l) proxy res" where
  "execute_std_out_interface_control_command L cmd e =
     (let setup_packet = control_setup cmd; request = bRequest setup_packet in
      if request = REQUEST_GET_INTERFACE then proxy_interface cmd e
      else if request = REQUEST_SET_INTERFACE then
        on_dev (set_interface L (integral_at 0 (wIndex setup_packet)) (integral_at 0 (wValue setup_packet)))
          (\<lambda>result e. bindR (viu_assert (result = LIBUSB_SUCCESS)) (\<lambda>_.
            queue_reply_to_host ((request_of cmd)\<lparr>rq_size := unat (wLength setup_packet)\<rparr>) e)) e
      else submit_out_control L cmd e)"

definition proxy_execute_out_control_command :: "'l libusb \<Rightarrow> command \<Rightarrow> ('p, 'l) proxy \<Rightarrow> ('p, 'l) proxy res" where
  "proxy_execute_out_control_command L cmd e =
     (if request_type cmd \<noteq> REQUEST_TYPE_STANDARD then submit_out_control L cmd e
      else if recipient cmd = RECIPIENT_DEVICE then execute_std_out_device_control_command L cmd e
      else if recipient cmd = RECIPIENT_INTERFACE then execute_std_out_interface_control_command L cmd e
      else submit_out_control L cmd e)"

definition proxy_handlers :: "'l libusb \<Rightarrow> ('p, 'l, callback) device handlers" where
  "proxy_handlers L =
     \<lparr>execute_in_control_command = proxy_execute_in_control_command L,
      execute_out_control_command = proxy_execute_out_control_command L,
      send_data_to_device = proxy_send_data_to_device L,
      read_data_from_device = proxy_read_data_from_device L\<rparr>"

section \<open>The other threads\<close>

text \<open>
  libusb completes a transfer it was given: it has stored the status, the lengths and the received
  bytes (\<open>t\<close>) and calls \<open>on_transfer_completed\<close>. A plugin completes a transfer through the control
  handle it was shown.
\<close>

definition libusb_completes :: "nat \<Rightarrow> libusb_transfer \<Rightarrow> ('p, 'l) proxy \<Rightarrow> ('p, 'l) proxy res" where
  "libusb_completes tid t e = on_dev (\<lambda>d. device_on_transfer_completed tid (put_transfer tid t d)) run_callbacks e"

definition plugin_completes :: "nat \<Rightarrow> libusb_transfer \<Rightarrow> ('p, 'l) proxy \<Rightarrow> ('p, 'l) proxy res" where
  "plugin_completes tid t e = on_dev (\<lambda>d. control_complete tid (put_transfer tid t d)) run_callbacks e"

text \<open>\<open>cancel_transfers\<close>, called when the proxy is destroyed, in its three steps.\<close>

definition proxy_cancel_begin :: "('p, 'l) proxy \<Rightarrow> ('p, 'l) proxy res" where
  "proxy_cancel_begin e = on_dev (\<lambda>d. bindR (cancel_begin (dv_pending d)) (\<lambda>w. Inr ((), d\<lparr>dv_pending := w\<rparr>))) (\<lambda>_. Inr) e"

definition proxy_cancel_wait :: "('p, 'l) proxy \<Rightarrow> ('p, 'l) proxy option" where
  "proxy_cancel_wait e = map_option (\<lambda>w. e\<lparr>dev := (dev e)\<lparr>dv_pending := w\<rparr>\<rparr>) (cancel_wait (dv_pending (dev e)))"

definition proxy_cancel_end :: "('p, 'l) proxy \<Rightarrow> ('p, 'l) proxy" where
  "proxy_cancel_end e = e\<lparr>dev := (dev e)\<lparr>dv_pending := cancel_end (dv_pending (dev e))\<rparr>\<rparr>"

end
