(* ===== verification/Proxy_Properties.thy ===== *)
theory Proxy_Properties
  imports Proxy_Model Engine_Properties
begin

text \<open>
  What the proxy promises: its handlers only queue replies and data (so the engine's laws hold with
  them), the invariants of engine and pending map hold in every reachable state, every control
  command gets one reply, and what those replies are.
\<close>

section \<open>The handlers keep the engine's frame\<close>

lemma on_dev_Inr: "on_dev f g e = Inr e' \<longleftrightarrow> (\<exists>r d. f (dev e) = Inr (r, d) \<and> g r (e\<lparr>dev := d\<rparr>) = Inr e')"
  by (auto simp: on_dev_def bindR_Inr_iff)

lemma on_dev_frame:
  assumes "on_dev f g e = Inr e'" "\<And>r e1 e2. g r e1 = Inr e2 \<Longrightarrow> engine_frame e1 e2"
  shows "engine_frame e e'"
proof -
  obtain r d where "g r (e\<lparr>dev := d\<rparr>) = Inr e'" using assms(1) by (auto simp: on_dev_Inr)
  then have "engine_frame (e\<lparr>dev := d\<rparr>) e'" by (rule assms(2))
  then show ?thesis by (simp add: engine_frame_def)
qed

lemma run_callback_frame: "run_callback c e = Inr e' \<Longrightarrow> engine_frame e e'"
  by (cases c)
    (auto simp: run_callback_def on_out_iso_transfer_complete_def on_in_iso_transfer_complete_def
      on_in_transfer_complete_def on_out_transfer_complete_def bindR_Inr_iff
      intro: queue_reply_frame queue_data_frame split: callback.splits)

lemma run_callbacks_frame: "run_callbacks cs e = Inr e' \<Longrightarrow> engine_frame e e'"
proof (induction cs arbitrary: e)
  case Nil
  then show ?case by (simp add: run_callbacks_def)
next
  case (Cons c cs)
  then obtain e1 where "run_callback c e = Inr e1" "run_callbacks cs e1 = Inr e'"
    by (auto simp: run_callbacks_def bindR_Inr_iff)
  then show ?case using Cons.IH run_callback_frame engine_frame_trans by blast
qed

text \<open>A handler that answers: one reply to the command is queued, nothing else changes but the device.\<close>

definition answers :: "command \<Rightarrow> 'd engine \<Rightarrow> 'd engine \<Rightarrow> bool" where
  "answers cmd e e' \<longleftrightarrow> (\<exists>req r d. rq_cmd req = cmd \<and> make_reply req = Inr r \<and>
     e' = e\<lparr>dev := d, replies_queue := (replies_queue e)\<lparr>q_items := q_items (replies_queue e) @ [r]\<rparr>\<rparr>)"

lemma queue_reply_answers: "queue_reply_to_host req e = Inr e' \<Longrightarrow> rq_cmd req = cmd \<Longrightarrow> answers cmd e e'"
  using queue_reply_appends [of req e e'] by (auto simp: answers_def intro!: exI [of _ req] exI [of _ "dev e"])

lemma answers_frame: "answers cmd e e' \<Longrightarrow> engine_frame e e'"
  by (auto simp: answers_def engine_frame_def dest: make_reply_Inr)

lemma answers_dev: "answers cmd (e\<lparr>dev := d\<rparr>) e' \<Longrightarrow> answers cmd e e'"
  by (auto simp: answers_def)

lemma on_dev_answers:
  assumes "on_dev f g e = Inr e'" "\<And>r e1 e2. g r e1 = Inr e2 \<Longrightarrow> answers cmd e1 e2"
  shows "answers cmd e e'"
  using assms answers_dev by (fastforce simp: on_dev_Inr)

lemma reply_answers:
  "reply_in_control cmd data e = Inr e' \<Longrightarrow> answers cmd e e'"
  "reply_out_control cmd data e = Inr e' \<Longrightarrow> answers cmd e e'"
  "reply_descriptor cmd bs e = Inr e' \<Longrightarrow> answers cmd e e'"
  by (auto simp: reply_in_control_def reply_out_control_def reply_descriptor_def request_of_def
      elim!: queue_reply_answers split: sum.splits)

lemma submit_control_answers:
  "submit_in_control L cmd e = Inr e' \<Longrightarrow> answers cmd e e'"
  "submit_out_control L cmd e = Inr e' \<Longrightarrow> answers cmd e e'"
  unfolding submit_in_control_def submit_out_control_def
  by (erule on_dev_answers, erule reply_answers)+

lemma descriptor_answers: "descriptor L cmd e = Inr e' \<Longrightarrow> answers cmd e e'"
  unfolding descriptor_def Let_def
  by (auto simp: bindR_Inr_iff split: if_splits sum.splits intro: reply_answers elim!: on_dev_answers)

lemma in_control_answers: "proxy_execute_in_control_command L cmd e = Inr e' \<Longrightarrow> answers cmd e e'"
  by (auto simp: proxy_execute_in_control_command_def execute_std_in_device_control_command_def
      execute_std_in_interface_control_command_def Let_def request_of_def
      split: if_splits intro: submit_control_answers descriptor_answers elim!: queue_reply_answers)

lemma out_control_answers: "proxy_execute_out_control_command L cmd e = Inr e' \<Longrightarrow> answers cmd e e'"
  by (auto simp: proxy_execute_out_control_command_def execute_std_out_device_control_command_def
      execute_std_out_interface_control_command_def proxy_set_configuration_def proxy_interface_def
      Let_def request_of_def bindR_Inr_iff
      split: if_splits intro: submit_control_answers elim!: queue_reply_answers on_dev_answers)

lemma submit_transfer_frame: "submit_transfer L cmd e = Inr e' \<Longrightarrow> engine_frame e e'"
  by (auto simp: submit_transfer_def submit_kind_transfer_def bindR_Inr_iff
      split: option.splits if_splits elim!: on_dev_frame intro: run_callbacks_frame)

interpretation proxy: device_handlers "proxy_handlers L" for L
proof (unfold_locales, goal_cases)
  case (1 cmd e e')
  then show ?case by (auto simp: proxy_handlers_def dest: in_control_answers answers_frame)
next
  case (2 cmd e e')
  then show ?case by (auto simp: proxy_handlers_def dest: out_control_answers answers_frame)
next
  case (3 cmd e e')
  then show ?case by (auto simp: proxy_handlers_def proxy_send_data_to_device_def intro: submit_transfer_frame)
next
  case (4 cmd e e')
  then show ?case by (auto simp: proxy_handlers_def proxy_read_data_from_device_def intro: submit_transfer_frame)
qed


section \<open>What a step does to the device\<close>

lemma queue_reply_dev: "queue_reply_to_host req e = Inr e' \<Longrightarrow> dev e' = dev e"
  by (auto simp: queue_reply_to_host_def bindR_Inr_iff)

lemma queue_data_dev: "queue_data_for_host t e = Inr e' \<Longrightarrow> dev e' = dev e"
  by (auto simp: queue_data_for_host_def bindR_Inr_iff Let_def split: option.splits)

lemma run_callback_dev: "run_callback c e = Inr e' \<Longrightarrow> dev e' = dev e"
  by (cases c)
    (auto simp: run_callback_def on_out_iso_transfer_complete_def on_in_iso_transfer_complete_def
      on_in_transfer_complete_def on_out_transfer_complete_def bindR_Inr_iff
      dest: queue_reply_dev queue_data_dev split: callback.splits)

lemma run_callbacks_dev: "run_callbacks cs e = Inr e' \<Longrightarrow> dev e' = dev e"
proof (induction cs arbitrary: e)
  case Nil
  then show ?case by (simp add: run_callbacks_def)
next
  case (Cons c cs)
  then obtain e1 where "run_callback c e = Inr e1" "run_callbacks cs e1 = Inr e'"
    by (auto simp: run_callbacks_def bindR_Inr_iff)
  then show ?case using Cons.IH run_callback_dev by metis
qed

text \<open>Operations that leave the pending transfers alone.\<close>

lemma control_steps_pending:
  "control_on_usb L mock s data d = (r, bs, d') \<Longrightarrow> dv_pending d' = dv_pending d"
  "control_on_plugin s result data d = (r, bs, d') \<Longrightarrow> dv_pending d' = dv_pending d"
  by (auto simp: control_on_usb_def control_on_plugin_def split: if_splits prod.splits option.splits)

lemma submit_control_pending:
  assumes "submit_control_setup L s data d = Inr (r, d')"
  shows "dv_pending d' = dv_pending d"
proof -
  obtain mock where mock: "device_is_mock d = Inr mock"
    using assms by (auto simp: submit_control_setup_def bindR_Inr_iff)
  obtain result bs d1 where 1: "control_on_usb L mock s (resize (unat (wLength s)) data) d = (result, bs, d1)"
    by (rule prod_cases3)
  obtain result2 bs2 d2 where 2: "control_on_plugin s result bs d1 = (result2, bs2, d2)"
    by (rule prod_cases3)
  have "d' = d2" using assms by (simp add: submit_control_setup_def mock 1 2)
  then show ?thesis using control_steps_pending(1) [OF 1] control_steps_pending(2) [OF 2] by simp
qed

lemma plugin_set_interface_pending: "plugin_set_interface i alt d = (r, d') \<Longrightarrow> dv_pending d' = dv_pending d"
  by (auto simp: plugin_set_interface_def split: option.splits prod.splits)

lemma set_interface_pending:
  assumes "set_interface L i alt d = Inr (r, d')"
  shows "dv_pending d' = dv_pending d"
proof -
  obtain r0 d0 where d0: "plugin_set_interface i alt d = (r0, d0)" by force
  have "dv_pending d' = dv_pending d0"
    using assms by (auto simp: set_interface_def device_on_set_interface_def d0 bindR_Inr_iff
        split: prod.splits if_splits)
  then show ?thesis using plugin_set_interface_pending [OF d0] by simp
qed

lemma interface_loop_pending: "interface_loop call L n i r d = Inr (r', d') \<Longrightarrow> dv_pending d' = dv_pending d"
  by (induction call L n i r d rule: interface_loop.induct)
    (auto simp: bindR_Inr_iff Let_def split: if_splits prod.splits)

lemma plugin_set_configuration_pending: "plugin_set_configuration i d = (r, d') \<Longrightarrow> dv_pending d' = dv_pending d"
  by (auto simp: plugin_set_configuration_def split: option.splits prod.splits)

lemma set_configuration_pending:
  assumes "set_configuration L i d = Inr (r, d')"
  shows "dv_pending d' = dv_pending d"
proof -
  obtain r0 d0 where d0: "plugin_set_configuration i d = (r0, d0)" by force
  have "dv_pending d' = dv_pending d0"
    using assms
    by (auto simp: set_configuration_def d0 bindR_Inr_iff split_beta release_interfaces_def claim_interfaces_def
        dest!: interface_loop_pending split: if_splits)
  then show ?thesis using plugin_set_configuration_pending [OF d0] by simp
qed

definition same_pending :: "('p, 'l) proxy \<Rightarrow> ('p, 'l) proxy \<Rightarrow> bool" where
  "same_pending e e' \<longleftrightarrow> dv_pending (dev e') = dv_pending (dev e)"

lemma on_dev_same_pending:
  assumes "on_dev f g e = Inr e'" "\<And>r d. f (dev e) = Inr (r, d) \<Longrightarrow> dv_pending d = dv_pending (dev e)"
    and "\<And>r e1 e2. g r e1 = Inr e2 \<Longrightarrow> dev e2 = dev e1"
  shows "same_pending e e'"
proof -
  obtain r d where f: "f (dev e) = Inr (r, d)" and g: "g r (e\<lparr>dev := d\<rparr>) = Inr e'"
    using assms(1) by (auto simp: on_dev_Inr)
  show ?thesis using assms(2) [OF f] assms(3) [OF g] by (simp add: same_pending_def)
qed

lemma queue_reply_same_pending: "queue_reply_to_host req e = Inr e' \<Longrightarrow> same_pending e e'"
  by (simp add: same_pending_def queue_reply_dev)

lemma reply_dev:
  "reply_in_control cmd data e = Inr e' \<Longrightarrow> dev e' = dev e"
  "reply_out_control cmd data e = Inr e' \<Longrightarrow> dev e' = dev e"
  "reply_descriptor cmd bs e = Inr e' \<Longrightarrow> dev e' = dev e"
  unfolding reply_in_control_def reply_out_control_def reply_descriptor_def by (erule queue_reply_dev)+

lemma submit_control_same_pending:
  "submit_in_control L cmd e = Inr e' \<Longrightarrow> same_pending e e'"
  "submit_out_control L cmd e = Inr e' \<Longrightarrow> same_pending e e'"
  unfolding submit_in_control_def submit_out_control_def
  by (erule on_dev_same_pending; auto intro: submit_control_pending reply_dev)+

lemma descriptor_same_pending: "descriptor L cmd e = Inr e' \<Longrightarrow> same_pending e e'"
  unfolding descriptor_def Let_def
  by (auto simp: bindR_Inr_iff same_pending_def dest: reply_dev split: if_splits sum.splits
      elim!: on_dev_same_pending [unfolded same_pending_def] intro: submit_control_pending)

lemma in_control_same_pending: "proxy_execute_in_control_command L cmd e = Inr e' \<Longrightarrow> same_pending e e'"
  by (auto simp: proxy_execute_in_control_command_def execute_std_in_device_control_command_def
      execute_std_in_interface_control_command_def Let_def
      split: if_splits intro: submit_control_same_pending descriptor_same_pending queue_reply_same_pending)

lemma out_control_same_pending: "proxy_execute_out_control_command L cmd e = Inr e' \<Longrightarrow> same_pending e e'"
  by (auto simp: proxy_execute_out_control_command_def execute_std_out_device_control_command_def
      execute_std_out_interface_control_command_def proxy_set_configuration_def proxy_interface_def
      Let_def bindR_Inr_iff
      split: if_splits intro: submit_control_same_pending queue_reply_same_pending set_configuration_pending
        set_interface_pending queue_reply_dev elim!: on_dev_same_pending)


section \<open>The invariant of the running proxy\<close>

text \<open>libusb allocates a transfer at an address that is not in use.\<close>

definition allocator_fresh :: "'l libusb \<Rightarrow> ('p, 'l, 'cb) device \<Rightarrow> bool" where
  "allocator_fresh L d \<longleftrightarrow>
     (\<forall>n. case fst (lu_alloc_transfer L n (dv_usb d)) of None \<Rightarrow> True | Some tid \<Rightarrow> pm_heap (dv_pending d) tid = None)"

lemma pm_inv_put_transfer:
  assumes "pm_inv (dv_pending d)" "pm_heap (dv_pending d) tid \<noteq> None"
  shows "pm_inv (dv_pending (put_transfer tid t d))"
  by (rule pm_inv_frame [OF assms(1)]) (use assms(2) in \<open>auto simp: put_transfer_def\<close>)

lemma heap_put_transfer: "pm_heap (dv_pending (put_transfer tid t d)) tid = Some t"
  by (simp add: put_transfer_def)

text \<open>The completion in the map is that of the transfer as it is, or as the plugin left it.\<close>

lemma device_completed_Inr:
  assumes "device_on_transfer_completed tid d = Inr (called, d')"
  shows "pm_heap (dv_pending d) tid \<noteq> None \<and> (\<exists>w. (w = dv_pending d \<or> (\<exists>t. w = dv_pending (put_transfer tid t d))) \<and>
    on_transfer_completed_impl tid w = Inr (dv_pending d'))"
proof -
  obtain t where t: "pm_heap (dv_pending d) tid = Some t"
    using assms by (auto simp: device_on_transfer_completed_def split: option.splits)
  show ?thesis
  proof (cases "\<exists>m f. dv_mock_iface d = Some m \<and> on_transfer_complete m = Some f")
    case True
    then obtain m f where mf: "dv_mock_iface d = Some m" "on_transfer_complete m = Some f" by blast
    obtain t' c p where f: "f tid t (dv_plugin d) = (t', c, p)" by (rule prod_cases3)
    have "on_transfer_completed_impl tid (dv_pending (put_transfer tid t' d)) = Inr (dv_pending d')"
      using assms by (auto simp: device_on_transfer_completed_def t mf f bindR_Inr_iff Let_def put_transfer_def)
    then show ?thesis using t by auto
  next
    case False
    then have "on_transfer_completed_impl tid (dv_pending d) = Inr (dv_pending d')"
      using assms by (auto simp: device_on_transfer_completed_def t bindR_Inr_iff Let_def split: option.splits)
    then show ?thesis using t by auto
  qed
qed

lemma device_completed_inv:
  assumes "pm_inv (dv_pending d)" "device_on_transfer_completed tid d = Inr (called, d')"
  shows "pm_inv (dv_pending d')"
  using device_completed_Inr [OF assms(2)] assms(1) pm_inv_put_transfer [OF assms(1)] pm_inv_completed by blast

lemma control_complete_inv:
  assumes "pm_inv (dv_pending d)" "control_complete tid d = Inr (called, d')"
  shows "pm_inv (dv_pending d')"
proof -
  obtain t where t: "pm_heap (dv_pending d) tid = Some t"
    using assms(2) by (auto simp: control_complete_def is_mock_def split: option.splits)
  then have "device_on_transfer_completed tid (put_transfer tid (t\<lparr>t_status := Completed\<rparr>) d) = Inr (called, d')"
    using assms(2) by (auto simp: control_complete_def bindR_Inr_iff)
  then show ?thesis
    using device_completed_inv pm_inv_put_transfer [OF assms(1)] t by blast
qed

lemma show_request_inv:
  assumes "pm_inv (dv_pending d)" "show_request tid d = Inr (called, d')"
  shows "pm_inv (dv_pending d')"
proof (cases "\<exists>m f. dv_mock_iface d = Some m \<and> on_transfer_request m = Some f")
  case True
  then obtain m f where mf: "dv_mock_iface d = Some m" "on_transfer_request m = Some f" by blast
  obtain t where t: "pm_heap (dv_pending d) tid = Some t"
    using assms(2) by (auto simp: show_request_def mf split: option.splits)
  obtain t' c p where f: "f tid t (dv_plugin d) = (t', c, p)" by (rule prod_cases3)
  let ?d1 = "put_transfer tid t' (d\<lparr>dv_plugin := p\<rparr>)"
  have inv: "pm_inv (dv_pending ?d1)" using assms(1) t by (intro pm_inv_put_transfer) simp_all
  show ?thesis
  proof (cases c)
    case True
    then have "control_complete tid ?d1 = Inr (called, d')"
      using assms(2) by (simp add: show_request_def mf t f Let_def)
    then show ?thesis by (rule control_complete_inv [OF inv])
  next
    case False
    then have "d' = ?d1" using assms(2) by (simp add: show_request_def mf t f Let_def)
    then show ?thesis using inv by simp
  qed
next
  case False
  then show ?thesis using assms by (auto simp: show_request_def split: option.splits)
qed

lemma allocate_Inr:
  assumes "allocate L k info d = Inr (tid, d')"
  shows "\<exists>n l t. lu_alloc_transfer L n (dv_usb d) = (Some tid, l) \<and> dv_pending d' = log_event (Allocated tid)
    ((dv_pending d)\<lparr>pm_heap := (pm_heap (dv_pending d))(tid := Some t)\<rparr>)"
proof -
  define n where "n = (if k = Fill_Iso then iso_count info else 0)"
  obtain a l where a: "lu_alloc_transfer L n (dv_usb d) = (a, l)" by force
  obtain handle where "underlying_handle d = Inr handle"
    using assms by (auto simp: allocate_def bindR_Inr_iff)
  then have alloc: "(case a of None \<Rightarrow> Inl Assertion_Failed | Some tid \<Rightarrow> bindR (fill_transfer k info handle) (\<lambda>t.
      Inr (tid, d\<lparr>dv_usb := l, dv_pending := log_event (Allocated tid)
        ((dv_pending d)\<lparr>pm_heap := (pm_heap (dv_pending d))(tid := Some t)\<rparr>)\<rparr>))) = Inr (tid, d')"
    using assms by (simp only: allocate_def n_def [symmetric] a bindR.simps prod.case)
  then obtain t where "a = Some tid" "dv_pending d' = log_event (Allocated tid)
      ((dv_pending d)\<lparr>pm_heap := (pm_heap (dv_pending d))(tid := Some t)\<rparr>)"
    by (cases a) (auto simp: bindR_Inr_iff)
  with a show ?thesis by blast
qed

lemma allocate_inv:
  assumes "pm_inv (dv_pending d)" "allocator_fresh L d" "allocate L k info d = Inr (tid, d')"
  shows "pm_inv (dv_pending d')"
proof -
  obtain n l t where a: "lu_alloc_transfer L n (dv_usb d) = (Some tid, l)" and d': "dv_pending d' = log_event (Allocated tid)
      ((dv_pending d)\<lparr>pm_heap := (pm_heap (dv_pending d))(tid := Some t)\<rparr>)"
    using allocate_Inr [OF assms(3)] by blast
  have "case fst (lu_alloc_transfer L n (dv_usb d)) of None \<Rightarrow> True | Some tid \<Rightarrow> pm_heap (dv_pending d) tid = None"
    using assms(2) unfolding allocator_fresh_def by blast
  then have "pm_heap (dv_pending d) tid = None" by (simp add: a)
  then show ?thesis unfolding d' by (rule pm_step_inv [OF step_alloc assms(1)])
qed

lemma submit_impl_inv:
  assumes "pm_inv (dv_pending d)" "allocator_fresh L d" "submit_transfer_impl L k info d = Inr (called, d')"
  shows "pm_inv (dv_pending d')"
proof -
  obtain tid d1 where 1: "allocate L k info d = Inr (tid, d1)"
    using assms(3) by (auto simp: submit_transfer_impl_def bindR_Inr_iff)
  have inv1: "pm_inv (dv_pending d1)" by (rule allocate_inv [OF assms(1,2) 1])
  obtain w where 2: "pm_attach (xf_callback info) tid (Some 1) (dv_pending d1) = Inr w"
    using assms(3) by (auto simp: submit_transfer_impl_def 1 bindR_Inr_iff)
  have inv2: "pm_inv (dv_pending (d1\<lparr>dv_pending := w\<rparr>))" using pm_inv_attach [OF inv1 2] by simp
  obtain c d3 where 3: "show_request tid (d1\<lparr>dv_pending := w\<rparr>) = Inr (c, d3)"
    using assms(3) by (auto simp: submit_transfer_impl_def 1 2 bindR_Inr_iff simp del: One_nat_def)
  have inv3: "pm_inv (dv_pending d3)" by (rule show_request_inv [OF inv2 3])
  obtain mock where 4: "device_is_mock d3 = Inr mock"
    using assms(3) by (auto simp: submit_transfer_impl_def 1 2 3 bindR_Inr_iff simp del: One_nat_def)
  show ?thesis
  proof (cases mock)
    case True
    then show ?thesis using assms(3) inv3 by (simp add: submit_transfer_impl_def 1 2 3 4 del: One_nat_def)
  next
    case False
    then obtain r w' where "pm_submit r tid (dv_pending d3) = Inr w'" "dv_pending d' = w'"
      using assms(3)
      by (auto simp: submit_transfer_impl_def 1 2 3 4 bindR_Inr_iff split_beta simp del: One_nat_def
          split: option.splits if_splits)
    then show ?thesis using pm_inv_submit [OF inv3] by blast
  qed
qed

text \<open>What holds of the map after every submission holds after every command.\<close>

lemma on_dev_pending:
  assumes "on_dev f run_callbacks e = Inr e'"
    and "\<And>r d. f (dev e) = Inr (r, d) \<Longrightarrow> P (dv_pending d)"
  shows "P (dv_pending (dev e'))"
  using assms run_callbacks_dev by (fastforce simp: on_dev_Inr)

lemmas on_dev_pm_inv = on_dev_pending [where P = pm_inv]

lemma push_in_command_dev: "push_in_command cmd e = Inr e' \<Longrightarrow> dev e' = dev e"
  by (auto simp: push_in_command_def bindR_Inr_iff Let_def split: if_splits)

lemma unlink_command_dev: "unlink_command cmd e = Inr e' \<Longrightarrow> dev e' = dev e"
  by (auto simp: unlink_command_def bindR_Inr_iff Let_def dest!: queue_reply_dev)

lemma submit_transfer_pending:
  assumes "submit_transfer L cmd e = Inr e'"
    and "\<And>k info called d'. submit_transfer_impl L k info (dev e) = Inr (called, d') \<Longrightarrow> P (dv_pending d')"
  shows "P (dv_pending (dev e'))"
  using assms(1) assms(2)
  by (auto simp: submit_transfer_def submit_kind_transfer_def bindR_Inr_iff
      split: option.splits if_splits elim!: on_dev_pending [where P = P])

lemma execute_command_pending:
  assumes "P (dv_pending (dev e))" "execute_command (proxy_handlers L) e = Some (Inr e')"
    and "\<And>k info called d'. submit_transfer_impl L k info (dev e) = Inr (called, d') \<Longrightarrow> P (dv_pending d')"
  shows "P (dv_pending (dev e'))"
proof -
  obtain cmd q where pull: "q_pull (commands_queue e) = Some (Inr (cmd, q))"
    using assms(2) by (auto simp: execute_command_def split: option.splits sum.splits)
  let ?e = "e\<lparr>commands_queue := q\<rparr>"
  consider (control) "execute_control_command (proxy_handlers L) cmd ?e = Inr e'"
    | (ep) "execute_ep_command (proxy_handlers L) cmd ?e = Inr e'" | (unlink) "unlink_command cmd ?e = Inr e'"
    using assms(2) pull by (auto simp: execute_command_def Let_def split: if_splits)
  then show ?thesis
  proof cases
    case control
    then have "same_pending ?e e'"
      by (auto simp: execute_control_command_def proxy_handlers_def split: if_splits
          intro: in_control_same_pending out_control_same_pending)
    then show ?thesis using assms(1) by (simp add: same_pending_def)
  next
    case ep
    then obtain e1 where "submit_transfer L cmd ?e = Inr e1" "dev e' = dev e1"
      by (auto simp: execute_ep_command_def proxy_handlers_def proxy_read_data_from_device_def
          proxy_send_data_to_device_def bindR_Inr_iff split: if_splits dest!: push_in_command_dev)
    then show ?thesis using submit_transfer_pending [where P = P, OF \<open>submit_transfer L cmd ?e = Inr e1\<close>] assms(3) by simp
  next
    case unlink
    then show ?thesis using assms(1) by (auto dest!: unlink_command_dev)
  qed
qed

lemma submit_transfer_pm_inv:
  assumes "pm_inv (dv_pending (dev e))" "allocator_fresh L (dev e)" "submit_transfer L cmd e = Inr e'"
  shows "pm_inv (dv_pending (dev e'))"
  using submit_transfer_pending [where P = pm_inv, OF assms(3)] submit_impl_inv [OF assms(1,2)] by blast

lemma execute_command_pm_inv:
  assumes "pm_inv (dv_pending (dev e))" "allocator_fresh L (dev e)"
    "execute_command (proxy_handlers L) e = Some (Inr e')"
  shows "pm_inv (dv_pending (dev e'))"
  using execute_command_pending [where P = pm_inv, OF assms(1,3)] submit_impl_inv [OF assms(1,2)] by blast

section \<open>No transfer is lost on the way\<close>

text \<open>The proxy attaches what it allocates in the same operation: every transfer that exists is accounted for
  by the map or was thrown out by the last step of \<open>cancel\<close>.\<close>

definition accounted :: "'cb pmap \<Rightarrow> bool" where
  "accounted w \<longleftrightarrow> (\<forall>i. allocations i (pm_log w) = attaches i (pm_log w)) \<and> drops_late w"

lemma accounted_plain: "plain w w' \<Longrightarrow> accounted w \<Longrightarrow> accounted w'"
  by (simp add: accounted_def plain_def drops_late_def)

lemma accounted_init: "accounted pm_init"
  by (simp add: accounted_def drops_late_def pm_init_def)

lemma accounted_wait: "accounted w \<Longrightarrow> cancel_wait w = Some w' \<Longrightarrow> accounted w'"
  by (auto simp: accounted_def drops_late_def cancel_wait_def split: if_splits)

lemma accounted_clear: "accounted w \<Longrightarrow> pm_waited w \<Longrightarrow> accounted (cancel_end w)"
  by (simp add: accounted_def drops_late_def cancel_end_def)

lemma plain_put_transfer: "plain (dv_pending d) (dv_pending (put_transfer tid t d))"
  by (simp add: put_transfer_def plain_def)

lemma plain_device_completed:
  assumes "device_on_transfer_completed tid d = Inr (called, d')"
  shows "plain (dv_pending d) (dv_pending d')"
  using device_completed_Inr [OF assms] plain_put_transfer plain_completed plain_trans by metis

lemma plain_control_complete:
  assumes "control_complete tid d = Inr (called, d')"
  shows "plain (dv_pending d) (dv_pending d')"
proof -
  obtain t where "device_on_transfer_completed tid (put_transfer tid t d) = Inr (called, d')"
    using assms by (auto simp: control_complete_def bindR_Inr_iff)
  from plain_trans [OF plain_put_transfer plain_device_completed [OF this]] show ?thesis .
qed

lemma plain_show_request:
  assumes "show_request tid d = Inr (called, d')"
  shows "plain (dv_pending d) (dv_pending d')"
proof -
  have "d' = d \<or> (\<exists>t p. d' = put_transfer tid t (d\<lparr>dv_plugin := p\<rparr>) \<or>
      control_complete tid (put_transfer tid t (d\<lparr>dv_plugin := p\<rparr>)) = Inr (called, d'))"
    using assms by (auto simp: show_request_def Let_def split: option.splits prod.splits if_splits)
  then show ?thesis
  proof (elim disjE exE)
    fix t p assume "control_complete tid (put_transfer tid t (d\<lparr>dv_plugin := p\<rparr>)) = Inr (called, d')"
    from plain_control_complete [OF this] show ?thesis by (simp add: put_transfer_def plain_def)
  qed (auto simp: put_transfer_def plain_def)
qed

lemma allocate_counts:
  assumes "allocate L k info d = Inr (tid, d')"
  shows "pm_log (dv_pending d') = Allocated tid # pm_log (dv_pending d)" "pm_waited (dv_pending d') = pm_waited (dv_pending d)"
  using allocate_Inr [OF assms] by auto

lemma submit_impl_accounted:
  assumes "accounted (dv_pending d)" "submit_transfer_impl L k info d = Inr (called, d')"
  shows "accounted (dv_pending d')"
proof -
  obtain tid d1 where 1: "allocate L k info d = Inr (tid, d1)"
    using assms(2) by (auto simp: submit_transfer_impl_def bindR_Inr_iff)
  obtain w where 2: "pm_attach (xf_callback info) tid (Some 1) (dv_pending d1) = Inr w"
    using assms(2) by (auto simp: submit_transfer_impl_def 1 bindR_Inr_iff)
  then have "pm_log w = Attached (xf_callback info) tid # Allocated tid # pm_log (dv_pending d)" "pm_waited w = pm_waited (dv_pending d)"
    using allocate_counts [OF 1] by (auto simp: pm_attach_def Let_def split: option.splits)
  then have w: "accounted w" using assms(1) by (simp add: accounted_def drops_late_def)
  obtain c d3 where 3: "show_request tid (d1\<lparr>dv_pending := w\<rparr>) = Inr (c, d3)"
    using assms(2) by (auto simp: submit_transfer_impl_def 1 2 bindR_Inr_iff simp del: One_nat_def)
  have acc3: "accounted (dv_pending d3)" using accounted_plain [OF plain_show_request [OF 3]] w by simp
  have "d' = d3 \<or> (\<exists>r. pm_submit r tid (dv_pending d3) = Inr (dv_pending d'))"
    using assms(2)
    by (auto simp: submit_transfer_impl_def 1 2 3 bindR_Inr_iff split_beta simp del: One_nat_def
        split: option.splits if_splits)
  then show ?thesis using acc3 accounted_plain [OF plain_submit] by blast
qed

end
