(* ===== verification/Proxy_System.thy ===== *)
theory Proxy_System
  imports Proxy_Properties Tree_Properties
begin

text \<open>
  The proxy as a system of threads: the socket reader, the executor of commands, the reply thread,
  a transfer thread per endpoint, libusb's events, the plugin's completions and the destructor.
  Every thread body is one step; \<open>proxy_step\<close> lets them interleave.
\<close>

section \<open>Steps\<close>

inductive proxy_step :: "'l libusb \<Rightarrow> ('p, 'l) proxy \<Rightarrow> ('p, 'l) proxy \<Rightarrow> bool" for L :: "'l libusb" where
  step_receive: "proxy_step L e (e\<lparr>socket_in := socket_in e @ bs\<rparr>)"
| step_produce: "command_produce e = Some (Inr e') \<Longrightarrow> proxy_step L e e'"
| step_execute: "allocator_fresh L (dev e) \<Longrightarrow> execute_command (proxy_handlers L) e = Some (Inr e') \<Longrightarrow>
    proxy_step L e e'"
| step_reply: "reply_consume e = Some (Inr e') \<Longrightarrow> proxy_step L e e'"
| step_send: "send_data_to_host i e = Some (Inr e') \<Longrightarrow> proxy_step L e e'"
| step_usb_completes: "pm_heap (dv_pending (dev e)) tid \<noteq> None \<Longrightarrow> libusb_completes tid t e = Inr e' \<Longrightarrow>
    proxy_step L e e'"
| step_plugin_completes: "pm_heap (dv_pending (dev e)) tid \<noteq> None \<Longrightarrow> plugin_completes tid t e = Inr e' \<Longrightarrow>
    proxy_step L e e'"
| step_cancel: "proxy_cancel_begin e = Inr e' \<Longrightarrow> proxy_step L e e'"
| step_waited: "pm_canceled (dv_pending (dev e)) \<Longrightarrow> proxy_cancel_wait e = Some e' \<Longrightarrow> proxy_step L e e'"
| step_clear: "pm_waited (dv_pending (dev e)) \<Longrightarrow> proxy_step L e (proxy_cancel_end e)"
| step_close: "proxy_step L e (close_queues e)"

inductive proxy_reachable :: "'l libusb \<Rightarrow> ('p, 'l) proxy \<Rightarrow> bool" for L :: "'l libusb" where
  proxy_start: "dv_pending d = pm_init \<Longrightarrow> proxy_reachable L (engine_init d)"
| proxy_next: "proxy_reachable L e \<Longrightarrow> proxy_step L e e' \<Longrightarrow> proxy_reachable L e'"

section \<open>Invariants\<close>

lemma engine_inv_dev [simp]: "engine_inv (e\<lparr>dev := d\<rparr>) \<longleftrightarrow> engine_inv e"
  by (simp add: engine_inv_def)

lemma engine_inv_init: "engine_inv (engine_init d)"
  by (simp add: engine_inv_def engine_init_def q_init_def max_count_in_def)

lemma engine_inv_close: "engine_inv e \<Longrightarrow> engine_inv (close_queues e)"
  by (simp add: engine_inv_def close_queues_def q_close_def max_count_in_def)

lemma step_dev:
  "command_produce e = Some (Inr e') \<Longrightarrow> dev e' = dev e"
  "reply_consume e = Some (Inr e') \<Longrightarrow> dev e' = dev e"
  by (auto simp: command_produce_def reply_consume_def bindR_Inr_iff Let_def
      split: option.splits sum.splits if_splits)

lemma send_data_dev: "send_data_to_host i e = Some (Inr e') \<Longrightarrow> dev e' = dev e"
  by (auto simp: send_data_to_host_def Let_def split: option.splits sum.splits if_splits dest!: queue_reply_dev)

lemma completes_inv:
  assumes "engine_inv e" "pm_inv (dv_pending (dev e))" "pm_heap (dv_pending (dev e)) tid \<noteq> None"
    and "libusb_completes tid t e = Inr e' \<or> plugin_completes tid t e = Inr e'"
  shows "engine_inv e' \<and> pm_inv (dv_pending (dev e'))"
proof -
  have put: "pm_inv (dv_pending (put_transfer tid t (dev e)))"
    by (rule pm_inv_put_transfer [OF assms(2,3)])
  have "engine_frame e e'"
    using assms(4) unfolding libusb_completes_def plugin_completes_def
    by (auto elim!: on_dev_frame intro: run_callbacks_frame)
  moreover have "pm_inv (dv_pending (dev e'))"
    using assms(4) device_completed_inv [OF put] control_complete_inv [OF put]
    unfolding libusb_completes_def plugin_completes_def by (auto elim!: on_dev_pm_inv)
  ultimately show ?thesis using engine_inv_frame [OF assms(1)] by simp
qed

lemma proxy_cancel_inv:
  assumes "engine_inv e" "pm_inv (dv_pending (dev e))" "proxy_cancel_begin e = Inr e'"
  shows "engine_inv e' \<and> pm_inv (dv_pending (dev e'))"
  using assms pm_step_inv [OF step_cancel_begin assms(2)]
  by (auto simp: proxy_cancel_begin_def on_dev_Inr bindR_Inr_iff)

lemma proxy_cancel_rest_inv:
  assumes "engine_inv e" "pm_inv (dv_pending (dev e))"
  shows "proxy_cancel_wait e = Some e' \<Longrightarrow> engine_inv e' \<and> pm_inv (dv_pending (dev e'))"
    and "engine_inv (proxy_cancel_end e) \<and> pm_inv (dv_pending (dev (proxy_cancel_end e)))"
  using assms pm_inv_wait [OF assms(2)] pm_inv_clear [OF assms(2)]
  by (auto simp: proxy_cancel_wait_def proxy_cancel_end_def)

lemma proxy_step_inv:
  assumes "proxy_step L e e'" "engine_inv e" "pm_inv (dv_pending (dev e))"
  shows "engine_inv e' \<and> pm_inv (dv_pending (dev e'))"
  using assms
proof cases
  case (step_receive bs)
  then show ?thesis using assms(2,3) by (simp add: engine_inv_def)
next
  case step_produce
  then show ?thesis using assms(2,3) command_produce_inv step_dev(1) by metis
next
  case step_execute
  then show ?thesis
    using proxy.execute_command_inv [OF assms(2)] execute_command_pm_inv [OF assms(3)] by blast
next
  case step_reply
  then show ?thesis using assms(2,3) reply_consume_inv step_dev(2) by metis
next
  case (step_send i)
  then show ?thesis using assms(2,3) send_data_inv send_data_dev by metis
next
  case (step_usb_completes tid t)
  then show ?thesis using completes_inv [OF assms(2,3)] by blast
next
  case (step_plugin_completes tid t)
  then show ?thesis using completes_inv [OF assms(2,3)] by blast
next
  case step_cancel
  then show ?thesis by (rule proxy_cancel_inv [OF assms(2,3)])
next
  case step_waited
  then show ?thesis using proxy_cancel_rest_inv(1) [OF assms(2,3)] by blast
next
  case step_clear
  then show ?thesis using proxy_cancel_rest_inv(2) [OF assms(2,3)] by blast
next
  case step_close
  then show ?thesis using assms(2,3) engine_inv_close by (auto simp: close_queues_def)
qed

lemma pm_inv_init: "pm_inv pm_init"
  using pm_reachable_inv [OF reach_init] .

lemma completes_plain:
  "libusb_completes tid t e = Inr e' \<Longrightarrow> plain (dv_pending (dev e)) (dv_pending (dev e'))"
  "plugin_completes tid t e = Inr e' \<Longrightarrow> plain (dv_pending (dev e)) (dv_pending (dev e'))"
  unfolding libusb_completes_def plugin_completes_def
  by (erule on_dev_pending [where P = "plain (dv_pending (dev e))"];
      blast intro: plain_trans [OF plain_put_transfer] plain_device_completed plain_control_complete)+

lemma proxy_step_accounted:
  assumes "proxy_step L e e'" "accounted (dv_pending (dev e))"
  shows "accounted (dv_pending (dev e'))"
  using assms
proof cases
  case step_execute
  then show ?thesis
    using execute_command_pending [where P = accounted, OF assms(2)] submit_impl_accounted [OF assms(2)] by blast
next
  case (step_usb_completes tid t)
  then show ?thesis using accounted_plain [OF completes_plain(1) assms(2)] by blast
next
  case (step_plugin_completes tid t)
  then show ?thesis using accounted_plain [OF completes_plain(2) assms(2)] by blast
next
  case step_cancel
  then show ?thesis using accounted_plain [OF plain_cancel_begin assms(2)]
    by (auto simp: proxy_cancel_begin_def on_dev_Inr bindR_Inr_iff)
next
  case step_waited
  then show ?thesis using accounted_wait [OF assms(2)] by (auto simp: proxy_cancel_wait_def)
next
  case step_clear
  then show ?thesis using accounted_clear [OF assms(2)] by (simp add: proxy_cancel_end_def)
qed (use assms(2) in \<open>auto dest: step_dev send_data_dev simp: close_queues_def\<close>)

lemma proxy_reachable_inv:
  assumes "proxy_reachable L e"
  shows "engine_inv e \<and> pm_inv (dv_pending (dev e)) \<and> accounted (dv_pending (dev e))"
  using assms
proof induction
  case (proxy_start d)
  then show ?case
    using pm_inv_init accounted_init by (simp add: engine_inv_init) (simp add: engine_init_def)
next
  case (proxy_next e e')
  then show ?case using proxy_step_inv proxy_step_accounted by blast
qed

definition example_device :: "tree \<Rightarrow> (unit, unit, callback) device" where
  "example_device t = \<lparr>dv_mock_class = True, dv_handle = None, dv_alt_settings = [], dv_pending = pm_init,
     dv_mock_iface = Some (register_usb_mock empty_plugin), dv_plugin = (), dv_tree = t, dv_usb = ()\<rparr>"

definition example_libusb :: "unit libusb" where
  "example_libusb = \<lparr>lu_get_configuration = (\<lambda>l. (0, 1)), lu_set_auto_detach = (\<lambda>b l. (0, l)),
     lu_claim_interface = (\<lambda>i l. (0, l)), lu_release_interface = (\<lambda>i l. (0, l)),
     lu_set_configuration = (\<lambda>i l. (0, l)), lu_set_alt_setting = (\<lambda>i a l. (0, l)),
     lu_control_transfer = (\<lambda>s bs l. (0, bs, l)), lu_active_config = (\<lambda>l. (0, Some example_config)),
     lu_bos_descriptor = (\<lambda>l. (0, None)), lu_string_descriptor = (\<lambda>i lang n l. (0, [])),
     lu_alloc_transfer = (\<lambda>n l. (Some 5, l)), lu_submit_transfer = (\<lambda>t l. (0, l))\<rparr>"

section \<open>Control commands\<close>

lemma answers_reply:
  assumes "answers cmd e e'"
  shows "\<exists>r. q_items (replies_queue e') = q_items (replies_queue e) @ [r] \<and> is_reply r \<and>
    hdr_base r = reply_header cmd \<and> in_commands e' = in_commands e \<and> in_data e' = in_data e"
proof -
  obtain req r d where req: "rq_cmd req = cmd" "make_reply req = Inr r"
    and e': "e' = e\<lparr>dev := d, replies_queue := (replies_queue e)\<lparr>q_items := q_items (replies_queue e) @ [r]\<rparr>\<rparr>"
    using assms by (auto simp: answers_def)
  from make_reply_Inr [OF req(2)] show ?thesis by (simp add: e' req(1))
qed

text \<open>C24: Whatever the control command, and whatever the device or the plugin answers, an execution that
  returns has queued exactly one reply, a RET_SUBMIT with the command's sequence number, and has
  touched neither the IN commands, nor the data, nor the pending transfers.\<close>

theorem control_command_answered_once:
  assumes "is_submit cmd" "execute_control_command (proxy_handlers L) cmd e = Inr e'"
  shows "\<exists>r. q_items (replies_queue e') = q_items (replies_queue e) @ [r] \<and>
    from_big (seqnum r) = seqnum cmd \<and> take 4 (header_bytes r) = be32 USBIP_RET_SUBMIT \<and>
    in_commands e' = in_commands e \<and> in_data e' = in_data e \<and> dv_pending (dev e') = dv_pending (dev e)"
proof -
  have ans: "answers cmd e e'" and pend: "same_pending e e'"
    using assms(2)
    by (auto simp: execute_control_command_def proxy_handlers_def split: if_splits
        intro: in_control_answers out_control_answers in_control_same_pending out_control_same_pending)
  from answers_reply [OF ans] obtain r where
    "q_items (replies_queue e') = q_items (replies_queue e) @ [r]" "hdr_base r = reply_header cmd"
    "in_commands e' = in_commands e" "in_data e' = in_data e" by blast
  with pend assms(1) show ?thesis
    by (simp add: same_pending_def reply_header_def seqnum_def header_bytes_def le_bytes_to_big)
qed

definition example_control :: "u32 \<Rightarrow> bytes \<Rightarrow> command" where
  "example_control dir stp = command_init\<lparr>
     hdr_base := example_base\<lparr>hb_direction := dir, hb_ep := 0\<rparr>,
     union_bytes := le_bytes 4 (0 :: u32) @ le_bytes 4 (0 :: u32) @ le_bytes 4 (0 :: u32) @
       le_bytes 4 (0 :: u32) @ le_bytes 4 (0 :: u32) @ stp\<rparr>"

lemma example_control_fields:
  "is_submit (example_control dir stp)" "direction (example_control dir stp) = dir"
  "seqnum (example_control dir stp) = 7" "is_iso (example_control dir stp) = Inr False"
  "setup_bytes (example_control dir stp) = take 8 stp" "cmd_payload (example_control dir stp) = []"
proof -
  note fields = submit_union_fields [where u = "union_bytes (example_control dir stp)" and flags = 0 and len = 0
      and frame = 0 and packets = 0 and interval = 0 and stp = stp]
  have u: "load32 off_number_of_packets (union_bytes (example_control dir stp)) = 0"
    "drop off_setup (union_bytes (example_control dir stp)) = stp"
    using fields by (simp_all add: example_control_def)
  show s: "is_submit (example_control dir stp)" "direction (example_control dir stp) = dir"
    "seqnum (example_control dir stp) = 7" "cmd_payload (example_control dir stp) = []"
    by (simp_all add: example_control_def is_submit_def request_def direction_def seqnum_def
        example_base_def usbip_consts command_init_def)
  show "setup_bytes (example_control dir stp) = take 8 stp" by (simp add: setup_bytes_def u)
  show "is_iso (example_control dir stp) = Inr False"
    using s(1) by (simp add: is_iso_def iso_packet_count_def u)
qed

lemma type_from_value_high: "type_from_value v = ucast (drop_bit 8 v)"
  by (simp only: type_from_value_def at_u8_u16_high)

lemma index_from_value_low: "index_from_value v = ucast v"
  by (simp only: index_from_value_def at_u8_u16_low)

lemma example_control_setup:
  "control_setup (example_control dir [a, b, c, d, e, f, g, h]) =
     \<lparr>bmRequestType = a, bRequest = b, wValue = from_little (word_of_nat (from_le [c, d])),
      wIndex = from_little (word_of_nat (from_le [e, f])), wLength = from_little (word_of_nat (from_le [g, h]))\<rparr>"
  by (simp add: control_setup_def example_control_fields load_little_u16_def)

lemma make_reply_fits:
  assumes "is_submit (rq_cmd req)"
    and "case rq_data req of None \<Rightarrow> True | Some d \<Rightarrow> reply_payload_len req \<le> length d"
    and "\<not> q_closed (replies_queue e)"
  shows "\<exists>r. queue_reply_to_host req e = Inr (e\<lparr>replies_queue := (replies_queue e)\<lparr>q_items := q_items (replies_queue e) @ [r]\<rparr>\<rparr>) \<and>
    header_bytes r = submit_reply_wire (rq_cmd req) (rq_status req) (rq_size req) (rq_error_count req) \<and>
    cmd_payload r = (case rq_data req of None \<Rightarrow> [] | Some d \<Rightarrow> take (reply_payload_len req) d)"
  using make_reply_submit [OF assms(1,2)] queue_reply_open [OF assms(3)] by blast

lemma reply_descriptor_open:
  assumes "is_submit cmd" "is_in cmd" "is_iso cmd = Inr False" "\<not> q_closed (replies_queue e)" "bs \<noteq> []"
  shows "\<exists>r. reply_descriptor cmd bs e =
      Inr (e\<lparr>replies_queue := (replies_queue e)\<lparr>q_items := q_items (replies_queue e) @ [r]\<rparr>\<rparr>) \<and>
    header_bytes r = submit_reply_wire cmd 0 (min (length bs) (unat (wLength (control_setup cmd)))) 0 \<and>
    cmd_payload r = take (unat (wLength (control_setup cmd))) bs"
proof -
  let ?req = "(request_of cmd)\<lparr>rq_data := Some bs,
    rq_size := min (length bs) (unat (wLength (control_setup cmd))), rq_status := 0\<rparr>"
  have "\<not> is_out cmd" using assms(2) by (simp add: is_in_def is_out_def usbip_consts)
  then have len: "reply_payload_len ?req = min (length bs) (unat (wLength (control_setup cmd)))"
    by (simp add: reply_payload_len_def request_of_def assms(3))
  show ?thesis
    using make_reply_fits [of ?req e] assms(1,4,5) len
    by (auto simp: reply_descriptor_def request_of_def min_def)
qed

definition standard_request :: "command \<Rightarrow> u8 \<Rightarrow> bool" where
  "standard_request cmd b \<longleftrightarrow> is_submit cmd \<and> is_in cmd \<and> is_iso cmd = Inr False \<and>
     request_type cmd = REQUEST_TYPE_STANDARD \<and> recipient cmd = RECIPIENT_DEVICE \<and>
     bRequest (control_setup cmd) = b"

lemma get_descriptor_in:
  assumes "standard_request cmd REQUEST_GET_DESCRIPTOR"
  shows "execute_control_command (proxy_handlers L) cmd e = descriptor L cmd e"
  using assms
  by (simp add: standard_request_def execute_control_command_def proxy_handlers_def
      proxy_execute_in_control_command_def execute_std_in_device_control_command_def proxy_consts)

lemma descriptor_kinds:
  "type_from_value (wValue (control_setup cmd)) = DT_DEVICE \<Longrightarrow>
    descriptor L cmd e = reply_descriptor cmd (pack_device_descriptor (dev e)) e"
  "type_from_value (wValue (control_setup cmd)) = DT_CONFIG \<Longrightarrow> descriptor L cmd e =
    bindR (pack_config_descriptor (index_from_value (wValue (control_setup cmd))) (dev e)) (\<lambda>bs. reply_descriptor cmd bs e)"
  "type_from_value (wValue (control_setup cmd)) = DT_STRING \<Longrightarrow> descriptor L cmd e =
    bindR (pack_string_descriptor (wIndex (control_setup cmd)) (index_from_value (wValue (control_setup cmd))) (dev e))
      (\<lambda>bs. reply_descriptor cmd bs e)"
  by (simp_all add: descriptor_def Let_def proxy_consts)

lemma config_pack_long: "9 \<le> length (config_pack c)"
  by (simp add: config_pack_def descriptor_pack_def length_pack_described config_members_def)

text \<open>C33: GET_DESCRIPTOR for a configuration of a device whose tree was built from the device's
  descriptors is answered with status 0 and the first \<open>wLength\<close> bytes of the configuration, packed
  straight from libusb's structures, and announces as many bytes.\<close>

theorem configuration_descriptor_served:
  assumes "standard_request cmd REQUEST_GET_DESCRIPTOR"
    and "type_from_value (wValue (control_setup cmd)) = DT_CONFIG"
    and "tree_construct desc (Some c) strings bos report = Inr (dv_tree (dev e))"
    and "index_from_value (wValue (control_setup cmd)) < dd_bNumConfigurations desc"
    and "has_valid_handle (dev e)" "\<not> q_closed (replies_queue e)"
  shows "\<exists>r bs. execute_control_command (proxy_handlers L) cmd e =
      Inr (e\<lparr>replies_queue := (replies_queue e)\<lparr>q_items := q_items (replies_queue e) @ [r]\<rparr>\<rparr>) \<and>
    packer_pack_libusb_config c [] = Inr bs \<and>
    cmd_payload r = take (unat (wLength (control_setup cmd))) bs \<and>
    header_bytes r = submit_reply_wire cmd 0 (min (length bs) (unat (wLength (control_setup cmd)))) 0"
proof -
  let ?bs = "config_pack (wrapped_config_desc (dv_tree (dev e)))"
  have build: "build_config (Some c) config_init = Inr (wrapped_config_desc (dv_tree (dev e)))"
    and desc: "device_desc (dv_tree (dev e)) = desc"
    using assms(3) by (auto simp: tree_construct_def bindR_Inr_iff dest: sym)
  have "?bs \<noteq> []" using config_pack_long [of "wrapped_config_desc (dv_tree (dev e))"] by auto
  moreover have "descriptor L cmd e = reply_descriptor cmd ?bs e"
    using assms(4,5) desc
    by (simp add: descriptor_kinds(2) [OF assms(2)] pack_config_descriptor_def packer_pack_config_def)
  moreover have "packer_pack_libusb_config c [] = Inr ?bs"
    using packer_config_build [OF build, of "[]"] by (simp add: packer_pack_config_def)
  ultimately show ?thesis
    using assms(1,6) reply_descriptor_open [of cmd e ?bs]
    by (auto simp: get_descriptor_in [OF assms(1)] standard_request_def)
qed

lemma standard_request_example:
  "standard_request (example_control 1 [0x80, b, c, d, e, f, g, h]) b"
  by (simp add: standard_request_def example_control_fields is_in_def request_type_def recipient_def
      example_control_setup proxy_consts usbip_consts)

lemma example_get_device:
  "\<exists>r. execute_control_command (proxy_handlers L) (example_control 1 [0x80, 6, 0, 1, 0, 0, 18, 0]) e = Inr r"
  if "\<not> q_closed (replies_queue e)"
proof -
  let ?cmd = "example_control 1 [0x80, 6, 0, 1, 0, 0, 18, 0]"
  have std: "standard_request ?cmd REQUEST_GET_DESCRIPTOR"
    unfolding REQUEST_GET_DESCRIPTOR_def by (rule standard_request_example)
  have "type_from_value (wValue (control_setup ?cmd)) = DT_DEVICE"
    by (simp add: example_control_setup type_from_value_high from_little_def proxy_consts)
  then have d: "descriptor L ?cmd e = reply_descriptor ?cmd (pack_device_descriptor (dev e)) e"
    by (rule descriptor_kinds)
  have "pack_device_descriptor (dev e) \<noteq> []"
    using config_pack_long [of "wrapped_config_desc (dv_tree (dev e))"]
    by (auto simp: pack_device_descriptor_def packer_pack_config_def)
  then show ?thesis
    using reply_descriptor_open [of ?cmd e, OF _ _ _ that]
    by (auto simp: get_descriptor_in [OF std] d is_in_def usbip_consts example_control_fields)
qed

lemma control_command_answered_once_witness:
  "\<exists>e' r. execute_control_command (proxy_handlers example_libusb) (example_control 1 [0x80, 6, 0, 1, 0, 0, 18, 0])
      (engine_init (example_device tree_init)) = Inr e' \<and> q_items (replies_queue e') = [r] \<and>
    from_big (seqnum r) = 7"
proof -
  let ?cmd = "example_control 1 [0x80, 6, 0, 1, 0, 0, 18, 0]" and ?e = "engine_init (example_device tree_init)"
  have "\<not> q_closed (replies_queue ?e)" and empty: "q_items (replies_queue ?e) = []"
    by (simp_all add: engine_init_def q_init_def)
  then obtain e' where e': "execute_control_command (proxy_handlers example_libusb) ?cmd ?e = Inr e'"
    using example_get_device by blast
  from control_command_answered_once [OF example_control_fields(1) e'] e' empty show ?thesis
    by (auto simp: example_control_fields)
qed


lemma configuration_descriptor_served_witness:
  "\<exists>t r bs. execute_control_command (proxy_handlers example_libusb) (example_control 1 [0x80, 6, 0, 2, 0, 0, 9, 0])
      (engine_init (example_device t)) = Inr ((engine_init (example_device t))\<lparr>replies_queue := \<lparr>q_items = [r], q_closed = False\<rparr>\<rparr>) \<and>
    packer_pack_libusb_config example_config [] = Inr bs \<and> cmd_payload r = take 9 bs"
proof -
  let ?cmd = "example_control 1 [0x80, 6, 0, 2, 0, 0, 9, 0]"
  have std: "standard_request ?cmd REQUEST_GET_DESCRIPTOR"
    unfolding REQUEST_GET_DESCRIPTOR_def by (rule standard_request_example)
  have ty: "type_from_value (wValue (control_setup ?cmd)) = DT_CONFIG"
    and idx: "index_from_value (wValue (control_setup ?cmd)) = 0" and len: "wLength (control_setup ?cmd) = 9"
    by (simp_all add: example_control_setup type_from_value_high index_from_value_low
        from_little_def proxy_consts)
  obtain t where t: "tree_construct (zero_device\<lparr>dd_bNumConfigurations := 1\<rparr>) (Some example_config) [] None [] = Inr t"
    using example_config_builds by (auto simp: tree_construct_def build_bos_def)
  let ?e = "engine_init (example_device t)"
  have e: "dv_tree (dev ?e) = t" "has_valid_handle (dev ?e)" "replies_queue ?e = q_init" "\<not> q_closed (replies_queue ?e)"
    by (simp_all add: engine_init_def example_device_def has_valid_handle_def q_init_def)
  have "tree_construct (zero_device\<lparr>dd_bNumConfigurations := 1\<rparr>) (Some example_config) [] None [] = Inr (dv_tree (dev ?e))"
    by (simp only: t e(1))
  from configuration_descriptor_served [OF std ty this _ e(2,4), of example_libusb] idx len show ?thesis
    by (auto simp: e(3) q_init_def)
qed

text \<open>GET_DESCRIPTOR for the device answers the device descriptor with the whole packed
  configuration behind it: a host that asks for more than the 18 bytes of the device descriptor gets
  the first bytes of the configuration, and the reply announces them.\<close>

lemma device_descriptor_served:
  assumes "standard_request cmd REQUEST_GET_DESCRIPTOR"
    and "type_from_value (wValue (control_setup cmd)) = DT_DEVICE" "\<not> q_closed (replies_queue e)"
  shows "\<exists>r. execute_control_command (proxy_handlers L) cmd e =
      Inr (e\<lparr>replies_queue := (replies_queue e)\<lparr>q_items := q_items (replies_queue e) @ [r]\<rparr>\<rparr>) \<and>
    take 18 (cmd_payload r) = take (unat (wLength (control_setup cmd))) (packer_pack_device (device_desc (dv_tree (dev e))) []) \<and>
    drop 18 (cmd_payload r) = take (unat (wLength (control_setup cmd)) - 18) (config_pack (wrapped_config_desc (dv_tree (dev e)))) \<and>
    header_bytes r = submit_reply_wire cmd 0
      (min (18 + length (config_pack (wrapped_config_desc (dv_tree (dev e))))) (unat (wLength (control_setup cmd)))) 0"
proof -
  let ?d = "packer_pack_device (device_desc (dv_tree (dev e))) []"
    and ?c = "config_pack (wrapped_config_desc (dv_tree (dev e)))" and ?n = "unat (wLength (control_setup cmd))"
  have pack: "pack_device_descriptor (dev e) = ?d @ ?c"
    by (simp add: pack_device_descriptor_def packer_pack_config_def)
  have len: "length ?d = 18"
    by (simp add: packer_pack_device_def length_pack_described device_members_def)
  have halves: "take 18 (take ?n (?d @ ?c)) = take ?n ?d" "drop 18 (take ?n (?d @ ?c)) = take (?n - 18) ?c"
    using len by (simp_all add: drop_take min_def)
  have "?d @ ?c \<noteq> []" using len by (metis append_is_Nil_conv list.size(3) zero_neq_numeral)
  then obtain r where "reply_descriptor cmd (?d @ ?c) e =
      Inr (e\<lparr>replies_queue := (replies_queue e)\<lparr>q_items := q_items (replies_queue e) @ [r]\<rparr>\<rparr>)"
    "header_bytes r = submit_reply_wire cmd 0 (min (length (?d @ ?c)) ?n) 0" "cmd_payload r = take ?n (?d @ ?c)"
    using reply_descriptor_open [of cmd e "?d @ ?c"] assms(1,3) by (auto simp: standard_request_def)
  with halves len show ?thesis
    by (auto simp: get_descriptor_in [OF assms(1)] descriptor_kinds(1) [OF assms(2)] pack)
qed

lemma device_descriptor_served_witness:
  "\<exists>r. execute_control_command (proxy_handlers example_libusb) (example_control 1 [0x80, 6, 0, 1, 0, 0, 64, 0])
      (engine_init (example_device tree_init)) = Inr ((engine_init (example_device tree_init))\<lparr>replies_queue := \<lparr>q_items = [r], q_closed = False\<rparr>\<rparr>) \<and>
    length (cmd_payload r) > 18"
proof -
  let ?cmd = "example_control 1 [0x80, 6, 0, 1, 0, 0, 64, 0]" and ?e = "engine_init (example_device tree_init)"
  have std: "standard_request ?cmd REQUEST_GET_DESCRIPTOR"
    unfolding REQUEST_GET_DESCRIPTOR_def by (rule standard_request_example)
  have ty: "type_from_value (wValue (control_setup ?cmd)) = DT_DEVICE" and len: "wLength (control_setup ?cmd) = 64"
    by (simp_all add: example_control_setup type_from_value_high from_little_def proxy_consts)
  have e: "replies_queue ?e = q_init" "\<not> q_closed (replies_queue ?e)"
    by (simp_all add: engine_init_def q_init_def)
  obtain r where r: "execute_control_command (proxy_handlers example_libusb) ?cmd ?e =
      Inr (?e\<lparr>replies_queue := (replies_queue ?e)\<lparr>q_items := q_items (replies_queue ?e) @ [r]\<rparr>\<rparr>)"
    "drop 18 (cmd_payload r) = take (unat (wLength (control_setup ?cmd)) - 18) (config_pack (wrapped_config_desc (dv_tree (dev ?e))))"
    using device_descriptor_served [OF std ty e(2), of example_libusb] by blast
  have "drop 18 (cmd_payload r) \<noteq> []"
    using config_pack_long [of "wrapped_config_desc (dv_tree (dev ?e))"] by (auto simp: r(2) len)
  then have "length (cmd_payload r) > 18" by (simp add: not_le)
  with r(1) show ?thesis by (auto simp: e(1) q_init_def)
qed


section \<open>A whole IN transfer\<close>

text \<open>A plugin that answers every IN transfer at once with the same bytes.\<close>

definition answering_handler :: "bytes \<Rightarrow> unit transfer_handler" where
  "answering_handler bs ctx t p =
     (case control_fill bs (Some t) of
        Inr (Some t') \<Rightarrow> (Inr (), t', True, p)
      | Inr None \<Rightarrow> (Inr (), t, False, p)
      | Inl x \<Rightarrow> (Inl x, t, False, p))"

definition answering_plugin :: "bytes \<Rightarrow> unit plugin_type" where
  "answering_plugin bs = empty_plugin\<lparr>pt_request_member := Some (answering_handler bs)\<rparr>"

definition served_by :: "bytes \<Rightarrow> (unit, 'l, 'cb) device \<Rightarrow> bool" where
  "served_by bs d \<longleftrightarrow> dv_mock_class d \<and> dv_mock_iface d = Some (register_usb_mock (answering_plugin bs))"

text \<open>The transfer the plugin was shown, as its callback sees it.\<close>

definition answered_transfer :: "bytes \<Rightarrow> u8 \<Rightarrow> 'cb xfer_info \<Rightarrow> libusb_transfer" where
  "answered_transfer bs ty info =
     (filled ty None info 0 [])\<lparr>t_user_data := Some 1,
        t_buffer := Some (bs @ drop (length bs) (xf_buffer info)), t_actual_length := int (length bs)\<rparr>"

lemma filled_wf:
  assumes "length (xf_buffer info) < 2 ^ 31"
  shows "wf_transfer ((filled ty h info 0 [])\<lparr>t_user_data := u\<rparr>)"
    and "t_length (filled ty h info 0 []) = int (length (xf_buffer info))"
proof -
  show "t_length (filled ty h info 0 []) = int (length (xf_buffer info))"
    using assms by (simp add: filled_def int_of_size_def sint_small unat_u32_of_nat)
  then show "wf_transfer ((filled ty h info 0 [])\<lparr>t_user_data := u\<rparr>)"
    using assms by (simp add: wf_transfer_def filled_def)
qed


lemma transfer_buffer_size_small: "transfer_buffer_size c = Inr n \<Longrightarrow> n < 2 ^ 31"
  using sint_less [of "load32 off_transfer_buffer_length (union_bytes c)"]
  by (auto simp: transfer_buffer_size_def bindR_Inr_iff)

lemma ep_address_in:
  assumes "is_in c" "unat (cmd_ep c) < max_count_in"
  shows "ep_address c AND LIBUSB_ENDPOINT_DIR_MASK = LIBUSB_ENDPOINT_IN"
    "unat (ep_address c AND LIBUSB_ENDPOINT_ADDRESS_MASK) = unat (cmd_ep c)"
    "ep_address c AND direction_mask = 0x80"
proof -
  obtain k where k: "k < 16" "cmd_ep c = of_nat k"
    using assms(2) by (intro that [of "unat (cmd_ep c)"]) (simp_all add: max_count_in_def)
  have "k = 0 \<or> k = 1 \<or> k = 2 \<or> k = 3 \<or> k = 4 \<or> k = 5 \<or> k = 6 \<or> k = 7 \<or> k = 8 \<or> k = 9 \<or> k = 10 \<or>
      k = 11 \<or> k = 12 \<or> k = 13 \<or> k = 14 \<or> k = 15" using k(1) by presburger
  then show "ep_address c AND LIBUSB_ENDPOINT_DIR_MASK = LIBUSB_ENDPOINT_IN"
    "unat (ep_address c AND LIBUSB_ENDPOINT_ADDRESS_MASK) = unat (cmd_ep c)"
    "ep_address c AND direction_mask = 0x80"
    using assms(1)
    by (elim disjE; simp add: ep_address_def k(2) LIBUSB_ENDPOINT_DIR_MASK_def LIBUSB_ENDPOINT_IN_def
        LIBUSB_ENDPOINT_ADDRESS_MASK_def direction_mask_def)+
qed

definition fill_type :: "fill_kind \<Rightarrow> u8" where
  "fill_type k = (case k of Fill_Bulk \<Rightarrow> TRANSFER_TYPE_BULK | Fill_Interrupt \<Rightarrow> TRANSFER_TYPE_INTERRUPT
     | Fill_Iso \<Rightarrow> TRANSFER_TYPE_ISOCHRONOUS)"

lemma answering_request:
  fixes info :: "'cb xfer_info"
  assumes "xf_ep_address info AND direction_mask = 0x80" "length (xf_buffer info) < 2 ^ 31"
    and "length bs \<le> length (xf_buffer info)"
  shows "dispatch_transfer_request (answering_plugin bs) ctx ((filled ty None info 0 [])\<lparr>t_user_data := Some 1\<rparr>) p =
    (answered_transfer bs ty info, True, p)"
proof -
  let ?t = "(filled ty None info 0 [])\<lparr>t_user_data := Some 1\<rparr>"
  have "control_fill bs (Some ?t) = Inr (Some (answered_transfer bs ty info))"
    using control_fill_wf [OF filled_wf(1) [OF assms(2), where ty = ty and h = None and u = "Some 1"], where data = bs] assms filled_wf(2) [OF assms(2)]
    by (simp add: answered_transfer_def filled_def del: One_nat_def)
  then show ?thesis
    by (simp add: dispatch_transfer_request_def answering_plugin_def empty_plugin_def pick_def answering_handler_def
        del: One_nat_def)
qed

lemma answering_complete:
  assumes "dv_mock_iface d = Some (register_usb_mock (answering_plugin bs))"
    and "pm_heap (dv_pending d) tid = Some t" "t_dev_handle t = None"
    and "om_find (pm_pending (dv_pending d)) tid = Some cb"
  shows "\<exists>d'. control_complete tid d = Inr ([(cb, t\<lparr>t_status := Completed\<rparr>)], d') \<and>
    pm_heap (dv_pending d') = (pm_heap (dv_pending d))(tid := None) \<and>
    om_find (pm_pending (dv_pending d')) = (om_find (pm_pending (dv_pending d)))(tid := None) \<and>
    dv_mock_class d' = dv_mock_class d"
proof -
  let ?m = "register_usb_mock (answering_plugin bs)" and ?t = "t\<lparr>t_status := Completed\<rparr>"
  let ?d1 = "put_transfer tid ?t d"
  have complete: "on_transfer_complete ?m = Some (\<lambda>ctx t p. (t, False, p))"
    by (simp add: register_usb_mock_def answering_plugin_def empty_plugin_def dispatch_transfer_complete_def pick_def fun_eq_iff)
  have 1: "control_complete tid d = device_on_transfer_completed tid ?d1"
    using assms(2,3) by (simp add: control_complete_def is_mock_def)
  have d1: "pm_heap (dv_pending ?d1) tid = Some ?t" "dv_mock_iface ?d1 = Some ?m"
    "pm_pending (dv_pending ?d1) = pm_pending (dv_pending d)" "dv_mock_class ?d1 = dv_mock_class d"
    "pm_heap (dv_pending ?d1) = (pm_heap (dv_pending d))(tid := Some ?t)"
    using assms(1) by (simp_all add: put_transfer_def)
  show ?thesis
    using assms(4)
    by (simp add: 1 device_on_transfer_completed_def assms(1) complete put_transfer_def on_transfer_completed_impl_def
        give_away_transfer_def om_find_erase Let_def)
qed

lemma mock_submit_answered:
  fixes d :: "(unit, 'l, 'cb) device"
  assumes "served_by bs d" "k \<noteq> Fill_Iso" "pm_inv (dv_pending d)" "allocator_fresh L d"
    and "fst (lu_alloc_transfer L 0 (dv_usb d)) = Some tid"
    and "xf_ep_address info AND direction_mask = 0x80" "length (xf_buffer info) < 2 ^ 31"
    and "length bs \<le> length (xf_buffer info)"
  shows "\<exists>d'. submit_transfer_impl L k info d =
      Inr ([(xf_callback info, answered_transfer bs (fill_type k) info)], d') \<and>
    pm_heap (dv_pending d') = pm_heap (dv_pending d) \<and>
    om_find (pm_pending (dv_pending d')) = om_find (pm_pending (dv_pending d))"
proof -
  obtain l where l: "lu_alloc_transfer L 0 (dv_usb d) = (Some tid, l)"
    using assms(5) by (cases "lu_alloc_transfer L 0 (dv_usb d)") simp
  have "case fst (lu_alloc_transfer L 0 (dv_usb d)) of None \<Rightarrow> True | Some tid \<Rightarrow> pm_heap (dv_pending d) tid = None"
    using assms(4) unfolding allocator_fresh_def by blast
  then have free: "pm_heap (dv_pending d) tid = None" by (simp add: assms(5))
  have om: "om_inv (pm_pending (dv_pending d))" using assms(3) by (simp add: pm_inv_def)
  have absent: "om_find (pm_pending (dv_pending d)) tid = None"
    using assms(3) free unfolding pm_inv_def pm_inv_at_def by (metis not_None_eq)
  have new: "snd (om_insert tid (xf_callback info) (pm_pending (dv_pending d)))"
    using smap.insert_flag [OF om] absent by blast
  let ?t = "(filled (fill_type k) None info 0 []) :: libusb_transfer"
  have fill: "fill_transfer k info None = Inr ?t"
    using assms(2) by (cases k) (simp_all add: fill_transfer_def fill_bulk_def fill_interrupt_def fill_type_def)
  let ?w1 = "log_event (Allocated tid) ((dv_pending d)\<lparr>pm_heap := (pm_heap (dv_pending d))(tid := Some ?t)\<rparr>)"
  let ?d1 = "d\<lparr>dv_usb := l, dv_pending := ?w1\<rparr>"
  have 1: "allocate L k info d = Inr (tid, ?d1)"
    using assms(1,2) l fill by (simp add: allocate_def underlying_handle_def served_by_def)
  let ?w2 = "log_event (Attached (xf_callback info) tid) (?w1\<lparr>pm_heap := (pm_heap ?w1)(tid := Some (?t\<lparr>t_user_data := Some 1\<rparr>)),
      pm_pending := fst (om_insert tid (xf_callback info) (pm_pending (dv_pending d)))\<rparr>)"
  have 2: "pm_attach (xf_callback info) tid (Some 1) ?w1 = Inr ?w2"
    using new by (simp add: pm_attach_def Let_def)
  let ?d2 = "?d1\<lparr>dv_pending := ?w2\<rparr>"
  let ?a = "answered_transfer bs (fill_type k) info"
  let ?d3 = "put_transfer tid ?a (?d2\<lparr>dv_plugin := dv_plugin d\<rparr>)"
  let ?m = "register_usb_mock (answering_plugin bs)"
  have m: "dv_mock_iface d = Some ?m" "dv_mock_class d" using assms(1) by (simp_all add: served_by_def)
  have 3: "show_request tid ?d2 = control_complete tid ?d3"
    using m by (simp add: show_request_def register_usb_mock_def answering_request [OF assms(6-8)] Let_def del: One_nat_def)
  have "\<exists>d'. control_complete tid ?d3 = Inr ([(xf_callback info, ?a\<lparr>t_status := Completed\<rparr>)], d') \<and>
      pm_heap (dv_pending d') = (pm_heap (dv_pending ?d3))(tid := None) \<and>
      om_find (pm_pending (dv_pending d')) = (om_find (pm_pending (dv_pending ?d3)))(tid := None) \<and>
      dv_mock_class d' = dv_mock_class ?d3"
    by (rule answering_complete)
      (use m absent in \<open>simp_all add: put_transfer_def om_find_insert [OF om] answered_transfer_def filled_def\<close>)
  moreover have "?a\<lparr>t_status := Completed\<rparr> = ?a" by (simp add: answered_transfer_def filled_def)
  moreover have "(pm_heap (dv_pending ?d3))(tid := None) = pm_heap (dv_pending d)"
    "(om_find (pm_pending (dv_pending ?d3)))(tid := None) = om_find (pm_pending (dv_pending d))"
    "dv_mock_class ?d3"
    using free absent m by (auto simp: put_transfer_def om_find_insert [OF om] fun_eq_iff)
  ultimately obtain d' where d': "show_request tid ?d2 = Inr ([(xf_callback info, ?a)], d')"
    "pm_heap (dv_pending d') = pm_heap (dv_pending d)"
    "om_find (pm_pending (dv_pending d')) = om_find (pm_pending (dv_pending d))" "dv_mock_class d'"
    unfolding 3 by auto
  have "submit_transfer_impl L k info d = Inr ([(xf_callback info, ?a)], d')"
    using d'(1,4) 
    by (simp add: submit_transfer_impl_def 1 2 device_is_mock_def underlying_handle_def del: One_nat_def)
  with d'(2,3) show ?thesis by blast
qed

lemma queue_data_replies: "queue_data_for_host t e = Inr e' \<Longrightarrow> replies_queue e' = replies_queue e"
  by (auto simp: queue_data_for_host_def bindR_Inr_iff Let_def split: option.splits)

lemma submit_transfer_answered:
  assumes "served_by bs (dev e)" "engine_inv e" "pm_inv (dv_pending (dev e))" "allocator_fresh L (dev e)"
    and "fst (lu_alloc_transfer L 0 (dv_usb (dev e))) = Some tid"
    and "is_submit c" "is_in c" "unat (cmd_ep c) < max_count_in" "is_iso c = Inr False"
    and "transfer_buffer_size c = Inr n" "bs \<noteq> []" "length bs \<le> n"
    and "ep_transfer_type (ep_address c) (dev e) \<in> {Some TRANSFER_TYPE_BULK, Some TRANSFER_TYPE_INTERRUPT}"
    and "\<not> q_closed (in_data e ! unat (cmd_ep c))"
  shows "\<exists>e'. submit_transfer L c e = Inr e' \<and> engine_frame e e' \<and> replies_queue e' = replies_queue e \<and>
    q_items (in_data e' ! unat (cmd_ep c)) = q_items (in_data e ! unat (cmd_ep c)) @
      [\<lparr>td_buffer = bs, td_iso_descriptor_size = 0, td_error_count = 0\<rparr>] \<and>
    pm_heap (dv_pending (dev e')) = pm_heap (dv_pending (dev e)) \<and>
    om_find (pm_pending (dv_pending (dev e'))) = om_find (pm_pending (dv_pending (dev e)))"
proof -
  let ?info = "\<lparr>xf_ep_address = ep_address c, xf_buffer = replicate n 0, xf_callback = In_Cb, xf_iso = None\<rparr>"
  have "\<not> is_out c" using assms(7) by (simp add: is_in_def is_out_def usbip_consts)
  then have prep: "prepare_transfer c = Inr ?info"
    using assms(7,9,10) by (simp add: prepare_transfer_def prepare_buffer_def)
  obtain k where k: "k \<noteq> Fill_Iso" "submit_transfer L c e = submit_kind_transfer L k c e"
    using assms(13) that [of Fill_Bulk] that [of Fill_Interrupt]
    by (auto simp: submit_transfer_def TRANSFER_TYPE_BULK_def TRANSFER_TYPE_INTERRUPT_def
        TRANSFER_TYPE_CONTROL_def TRANSFER_TYPE_ISOCHRONOUS_def)
  have n: "n < 2 ^ 31" by (rule transfer_buffer_size_small [OF assms(10)])
  let ?t = "answered_transfer bs (fill_type k) ?info"
  obtain d' where d': "submit_transfer_impl L k ?info (dev e) = Inr ([(In_Cb, ?t)], d')"
    "pm_heap (dv_pending d') = pm_heap (dv_pending (dev e))"
    "om_find (pm_pending (dv_pending d')) = om_find (pm_pending (dv_pending (dev e)))"
    using mock_submit_answered [OF assms(1) k(1) assms(3-5), of ?info] ep_address_in(3) [OF assms(7,8)] n assms(12)
    by auto
  have wf: "wf_transfer ?t" "t_buffer ?t = Some (bs @ drop (length bs) (replicate n 0))" "t_num_iso_packets ?t = 0"
    "t_endpoint ?t = ep_address c" "t_actual_length ?t = int (length bs)" "t_length ?t = int n" "t_status ?t = Completed"
    using filled_wf [of ?info] n assms(12)
    by (auto simp: answered_transfer_def wf_transfer_def filled_def)
  let ?e = "e\<lparr>dev := d'\<rparr>"
  obtain e' where e': "queue_data_for_host (Some ?t) ?e = Inr e'" "engine_frame ?e e'"
    "q_items (in_data e' ! unat (cmd_ep c)) = q_items (in_data ?e ! unat (cmd_ep c)) @
      [\<lparr>td_buffer = bs, td_iso_descriptor_size = 0, td_error_count = 0\<rparr>]"
    using completed_in_transfer_queued [of ?e ?t _ "unat (cmd_ep c)"] assms(2,12,14) wf ep_address_in [OF assms(7,8)]
    by auto
  have "run_callbacks [(In_Cb, ?t)] ?e = Inr e'"
    using e'(1) wf(5,7) assms(11)
    by (simp add: run_callbacks_def run_callback_def on_in_transfer_complete_def)
  then have "submit_transfer L c e = Inr e'"
    by (simp add: k(2) submit_kind_transfer_def prep on_dev_def d'(1))
  moreover have "dev e' = d'" "replies_queue e' = replies_queue e"
    using queue_data_dev [OF e'(1)] queue_data_replies [OF e'(1)] by simp_all
  ultimately show ?thesis using e'(2,3) d'(2,3) by (auto simp: engine_frame_def)
qed

text \<open>C2: A bulk or interrupt IN command on a plugin that answers with the bytes \<open>bs\<close> ends, after the
  executor and the endpoint's transfer thread have run once each, in one reply: RET_SUBMIT, status 0,
  length and payload exactly \<open>bs\<close>. The transfer is freed and no longer pending.\<close>

theorem mock_in_transfer_answered:
  assumes "engine_inv e" "pm_inv (dv_pending (dev e))" "allocator_fresh L (dev e)"
    and "fst (lu_alloc_transfer L 0 (dv_usb (dev e))) = Some tid" "served_by bs (dev e)"
    and "q_items (commands_queue e) = c # cs" "is_submit c" "is_in c" "is_iso c = Inr False"
    and "0 < unat (cmd_ep c)" "unat (cmd_ep c) < max_count_in"
    and "transfer_buffer_size c = Inr n" "bs \<noteq> []" "length bs \<le> n"
    and "ep_transfer_type (ep_address c) (dev e) \<in> {Some TRANSFER_TYPE_BULK, Some TRANSFER_TYPE_INTERRUPT}"
    and "in_commands e ! unat (cmd_ep c) = q_init" "in_data e ! unat (cmd_ep c) = q_init" "\<not> q_closed (replies_queue e)"
  shows "\<exists>e1 e2 r. execute_command (proxy_handlers L) e = Some (Inr e1) \<and>
    send_data_to_host (unat (cmd_ep c)) e1 = Some (Inr e2) \<and>
    q_items (replies_queue e2) = q_items (replies_queue e) @ [r] \<and>
    header_bytes r = submit_reply_wire c 0 (length bs) 0 \<and> cmd_payload r = bs \<and>
    pm_heap (dv_pending (dev e2)) = pm_heap (dv_pending (dev e)) \<and>
    om_find (pm_pending (dv_pending (dev e2))) = om_find (pm_pending (dv_pending (dev e)))"
proof -
  let ?i = "unat (cmd_ep c)" and ?e0 = "e\<lparr>commands_queue := (commands_queue e)\<lparr>q_items := cs\<rparr>\<rparr>"
  have inv0: "engine_inv ?e0" using assms(1) by (simp add: engine_inv_def)
  obtain e0' where s: "submit_transfer L c ?e0 = Inr e0'" "engine_frame ?e0 e0'" "replies_queue e0' = replies_queue e"
    "q_items (in_data e0' ! ?i) = [\<lparr>td_buffer = bs, td_iso_descriptor_size = 0, td_error_count = 0\<rparr>]"
    "pm_heap (dv_pending (dev e0')) = pm_heap (dv_pending (dev e))"
    "om_find (pm_pending (dv_pending (dev e0'))) = om_find (pm_pending (dv_pending (dev e)))"
    using submit_transfer_answered [of bs ?e0 L tid c n] assms inv0 by (auto simp: q_init_def)
  have inv0': "engine_inv e0'" by (rule engine_inv_frame [OF inv0 s(2)])
  have lens: "?i < length (in_commands e)" using assms(1,11) by (simp add: engine_inv_def)
  have cmds: "in_commands e0' = in_commands e" using s(2) by (simp add: engine_frame_def)
  let ?e1 = "e0'\<lparr>in_commands := (in_commands e)[?i := q_init\<lparr>q_items := [c]\<rparr>]\<rparr>"
  have push: "push_in_command c e0' = Inr ?e1"
    using lens assms(16) by (simp add: push_in_command_def cmds q_push_def q_init_def)
  have exec: "execute_command (proxy_handlers L) e = Some (Inr ?e1)"
    using assms(6-8,10,11) s(1) push
    by (simp add: execute_command_def q_pull_def execute_ep_command_def proxy_handlers_def
        proxy_read_data_from_device_def unat_gt_0)
  have inv1: "engine_inv ?e1"
    by (rule push_in_command_inv [OF inv0' assms(7,8) push])
  have "0 < length bs" using assms(13) by simp
  then have n: "length bs < 2 ^ 64" "0 < n"
    using transfer_buffer_size_small [OF assms(12)] assms(14) by (simp, linarith)
  obtain r where r: "send_data_to_host ?i ?e1 = Some (Inr (?e1\<lparr>
      in_commands := (in_commands ?e1)[?i := (in_commands ?e1 ! ?i)\<lparr>q_items := []\<rparr>],
      in_data := (in_data ?e1)[?i := (in_data ?e1 ! ?i)\<lparr>q_items := []\<rparr>],
      replies_queue := (replies_queue ?e1)\<lparr>q_items := q_items (replies_queue ?e1) @ [r]\<rparr>\<rparr>))"
    "header_bytes r = submit_reply_wire c 0 (length bs) 0" "cmd_payload r = bs"
    using send_data_open [OF inv1 assms(11), where c = c and cs = "[]" and ds = "[]" and n = n and m = "length bs"
        and d = "\<lparr>td_buffer = bs, td_iso_descriptor_size = 0, td_error_count = 0\<rparr>"]
      s(3,4) lens assms(9,12,14,18) n
    by auto
  show ?thesis
    by (rule exI, rule exI, rule exI [of _ r], rule conjI, rule exec, rule conjI, rule r(1)) (simp add: r(2,3) s(3,5,6))
qed


lemma example_tree_endpoints:
  assumes "tree_construct desc (Some example_config) strings bos report = Inr t"
  shows "map (\<lambda>e. (address e, attributes e)) (all_endpoints t) = [(0x81, 3)]"
  using assms
  by (auto simp: tree_construct_def bindR_Inr_iff all_endpoints_def example_config_def build_config_def
      build_interface_def build_interface_descriptor_def build_endpoint_def example_altsetting_def example_endpoint_def
      vector_of_extra_def vectorize_def size_of_int_def read_vector_def fill_vector_def wrap_def fill_extra_def
      init_class_defs descriptor_init_def plugin_init_def read_fill_same address_def attributes_def)

definition example_in_1 :: command where
  "example_in_1 = example_in\<lparr>hdr_base := example_base\<lparr>hb_ep := 1\<rparr>\<rparr>"

lemma example_in_1_fields:
  "is_submit example_in_1" "is_in example_in_1" "is_iso example_in_1 = Inr False"
  "cmd_ep example_in_1 = 1" "transfer_buffer_size example_in_1 = Inr 64" "ep_address example_in_1 = 0x81"
proof -
  show s: "is_submit example_in_1" "is_in example_in_1" "cmd_ep example_in_1 = 1"
    by (simp_all add: example_in_1_def is_submit_def request_def is_in_def direction_def cmd_ep_def
        example_base_def usbip_consts)
  have u: "union_bytes example_in_1 = union_bytes example_in" by (simp add: example_in_1_def)
  show "is_iso example_in_1 = Inr False" "transfer_buffer_size example_in_1 = Inr 64"
    using example_in_fields(1,4,7) s(1)
    by (simp_all add: is_iso_def iso_packet_count_def transfer_buffer_size_def u bindR_Inr_iff)
  show "ep_address example_in_1 = 0x81"
    using s by (simp add: ep_address_def LIBUSB_ENDPOINT_IN_def)
qed

lemma mock_in_transfer_answered_witness:
  "\<exists>(d :: (unit, unit, callback) device) e1 e2 r. execute_command (proxy_handlers example_libusb)
      ((engine_init d)\<lparr>commands_queue := \<lparr>q_items = [example_in_1], q_closed = False\<rparr>\<rparr>) = Some (Inr e1) \<and>
    send_data_to_host 1 e1 = Some (Inr e2) \<and> q_items (replies_queue e2) = [r] \<and>
    header_bytes r = submit_reply_wire example_in_1 0 3 0 \<and> cmd_payload r = [1, 2, 3]"
proof -
  obtain t where t: "tree_construct zero_device (Some example_config) [] None [] = Inr t"
    using example_config_builds by (auto simp: tree_construct_def build_bos_def)
  define d where "d = (example_device t)\<lparr>dv_mock_iface := Some (register_usb_mock (answering_plugin [1, 2, 3]))\<rparr>"
  let ?e = "(engine_init d)\<lparr>commands_queue := \<lparr>q_items = [example_in_1], q_closed = False\<rparr>\<rparr>"
  have "map (\<lambda>e. (address e, attributes e)) (all_endpoints t) = [(0x81, 3)]"
    by (rule example_tree_endpoints [OF t])
  then obtain ep where ep: "all_endpoints t = [ep]" "address ep = 0x81" "attributes ep = 3"
    by (auto simp: map_eq_Cons_conv)
  have ty: "ep_transfer_type (ep_address example_in_1) (dev ?e) \<in> {Some TRANSFER_TYPE_BULK, Some TRANSFER_TYPE_INTERRUPT}"
    by (simp add: ep_transfer_type_def engine_init_def d_def example_device_def ep example_in_1_fields
        ep_transfer_type_mask_def TRANSFER_TYPE_INTERRUPT_def)
  have e: "engine_inv ?e" "pm_inv (dv_pending (dev ?e))" "allocator_fresh example_libusb (dev ?e)"
    "fst (lu_alloc_transfer example_libusb 0 (dv_usb (dev ?e))) = Some 5" "served_by [1, 2, 3] (dev ?e)"
    "q_items (commands_queue ?e) = [example_in_1]" "\<not> q_closed (replies_queue ?e)"
    "in_commands ?e ! unat (cmd_ep example_in_1) = q_init" "in_data ?e ! unat (cmd_ep example_in_1) = q_init"
    "q_items (replies_queue ?e) = []"
    using engine_inv_init [of d] pm_inv_init
    by (simp_all add: engine_inv_def engine_init_def d_def example_device_def allocator_fresh_def pm_init_def
        example_libusb_def served_by_def q_init_def max_count_in_def example_in_1_fields)
  have ep: "0 < unat (cmd_ep example_in_1)" "unat (cmd_ep example_in_1) < max_count_in" "unat (cmd_ep example_in_1) = 1"
    "[1, 2, 3 :: u8] \<noteq> []" "length [1, 2, 3 :: u8] \<le> 64" "length [1, 2, 3 :: u8] = 3"
    by (simp_all add: example_in_1_fields max_count_in_def)
  note mock_in_transfer_answered [OF e(1-6) example_in_1_fields(1-3) ep(1,2) example_in_1_fields(5) ep(4,5) ty e(8,9,7)]
  then show ?thesis unfolding e(10) ep(3,6) append_Nil by blast
qed

end
