(* ===== verification/Device_Properties.thy ===== *)
theory Device_Properties
  imports Usb_Device
begin

text \<open>
  What the device promises to the proxy: the loops over interfaces and strings against their
  closed forms, the alternate settings, the string descriptors, the isochronous packets, and the
  control transfers a plugin sees.
\<close>

section \<open>Interfaces\<close>

definition real_device :: "('p, 'l, 'cb) device \<Rightarrow> bool" where
  "real_device d \<longleftrightarrow> \<not> dv_mock_class d \<and> dv_handle d \<noteq> None"

lemma real_device_usb [simp]: "real_device (d\<lparr>dv_usb := l\<rparr>) \<longleftrightarrow> real_device d"
  by (simp add: real_device_def)

lemma real_device_simps [simp]:
  "real_device d \<Longrightarrow> underlying_handle d = Inr (dv_handle d)"
  "real_device d \<Longrightarrow> device_is_mock d = Inr False"
  "real_device d \<Longrightarrow> has_valid_handle d"
  by (auto simp: real_device_def underlying_handle_def device_is_mock_def has_valid_handle_def)

lemma count_interfaces_real:
  assumes "real_device d" "\<And>l. lu_active_config L l = (LIBUSB_SUCCESS, Some c)"
  shows "count_interfaces L d = Inr (cd_bNumInterfaces (lcd_desc c))"
  using assms by (simp add: count_interfaces_def config_descriptor_def)

lemma word_succ_less: "i < c \<Longrightarrow> unat (i + 1 :: u8) = Suc (unat i)"
proof -
  assume "i < c"
  then have "unat i < unat c" by (simp add: word_less_nat_alt)
  moreover have "unat c < 256" using unsigned_less [of c, where 'a = nat] by simp
  ultimately show ?thesis by (simp add: unat_word_ariths(1))
qed

text \<open>The interfaces from \<open>i\<close> on, in order.\<close>

lemma interface_loop_all:
  assumes "\<And>j l. fst (call j l) = LIBUSB_SUCCESS" "\<And>l. lu_active_config L l = (LIBUSB_SUCCESS, Some c)"
    and "real_device d" "unat (cd_bNumInterfaces (lcd_desc c)) \<le> unat i + n"
  shows "interface_loop call L n i r d =
    Inr (if i < cd_bNumInterfaces (lcd_desc c) then LIBUSB_SUCCESS else r,
      d\<lparr>dv_usb := fold (\<lambda>j l. snd (call (of_nat j) l)) [unat i..<unat (cd_bNumInterfaces (lcd_desc c))] (dv_usb d)\<rparr>)"
  using assms(3,4)
proof (induction n arbitrary: i r d)
  case 0
  then have "\<not> i < cd_bNumInterfaces (lcd_desc c)" by (simp add: word_less_nat_alt)
  then show ?case using 0 by (simp add: word_less_nat_alt)
next
  case (Suc n)
  let ?count = "cd_bNumInterfaces (lcd_desc c)"
  note count = count_interfaces_real [OF Suc.prems(1) assms(2)]
  show ?case
  proof (cases "i < ?count")
    case True
    obtain l where l: "call i (dv_usb d) = (LIBUSB_SUCCESS, l)"
      using assms(1) by (metis prod.collapse)
    have i: "unat (i + 1) = Suc (unat i)" by (rule word_succ_less [OF True])
    have less: "unat i < unat ?count" using True by (simp add: word_less_nat_alt)
    have "interface_loop call L (Suc n) i r d = interface_loop call L n (i + 1) LIBUSB_SUCCESS (d\<lparr>dv_usb := l\<rparr>)"
      using True l by (simp add: count)
    also have "\<dots> = Inr (LIBUSB_SUCCESS, d\<lparr>dv_usb := fold (\<lambda>j l. snd (call (of_nat j) l)) [Suc (unat i)..<unat ?count] l\<rparr>)"
      using Suc.IH [of "d\<lparr>dv_usb := l\<rparr>" "i + 1" LIBUSB_SUCCESS] Suc.prems i by simp
    also have "[unat i..<unat ?count] = unat i # [Suc (unat i)..<unat ?count]"
      using less by (simp add: upt_conv_Cons)
    ultimately show ?thesis using True l by simp
  next
    case False
    then show ?thesis by (simp add: count word_less_nat_alt)
  qed
qed

lemma interface_fuel: "unat (n :: u8) \<le> unat (0 :: u8) + 256"
  using unsigned_less [of n, where 'a = nat] by simp

text \<open>When libusb claims every interface it is asked for, \<open>claim_interfaces\<close> has claimed exactly the
  interfaces 0 to \<open>bNumInterfaces - 1\<close>, each once and in order, and reports success; for a
  configuration without interfaces it reports LIBUSB_ERROR_OTHER and has claimed none.\<close>

lemma claims_every_interface:
  assumes "\<And>j l. fst (lu_claim_interface L j l) = LIBUSB_SUCCESS"
    and "\<And>l. lu_active_config L l = (LIBUSB_SUCCESS, Some c)" "real_device d"
  shows "claim_interfaces L d =
    Inr (if cd_bNumInterfaces (lcd_desc c) = 0 then LIBUSB_ERROR_OTHER else LIBUSB_SUCCESS,
      d\<lparr>dv_usb := fold (\<lambda>j l. snd (lu_claim_interface L (of_nat j) l))
        [0..<unat (cd_bNumInterfaces (lcd_desc c))] (dv_usb d)\<rparr>)"
  unfolding claim_interfaces_def
  using interface_loop_all [where call = "lu_claim_interface L" and i = 0 and n = 256 and r = LIBUSB_ERROR_OTHER,
      OF assms interface_fuel]
  by (auto simp: word_gt_0)


definition counting_usb :: "u8 \<Rightarrow> (u8 list) libusb" where
  "counting_usb n = \<lparr>lu_get_configuration = (\<lambda>l. (0, 1)), lu_set_auto_detach = (\<lambda>b l. (0, l)),
     lu_claim_interface = (\<lambda>i l. (0, l @ [i])), lu_release_interface = (\<lambda>i l. (0, l)),
     lu_set_configuration = (\<lambda>i l. (0, l)), lu_set_alt_setting = (\<lambda>i a l. (0, l)),
     lu_control_transfer = (\<lambda>s bs l. (int (length bs), bs, l)),
     lu_active_config = (\<lambda>l. (0, Some \<lparr>lcd_desc = zero_config\<lparr>cd_bNumInterfaces := n\<rparr>, lcd_interface = None,
        lcd_extra = None, lcd_extra_length = 0\<rparr>)),
     lu_bos_descriptor = (\<lambda>l. (0, None)),
     lu_string_descriptor = (\<lambda>i lang k l. if i \<le> 2 then (4, [4, 3, i, 0]) else (-1, [])),
     lu_alloc_transfer = (\<lambda>k l. (Some 5, l)), lu_submit_transfer = (\<lambda>t l. (0, l))\<rparr>"

definition example_real :: "'p mock_opaque option \<Rightarrow> 'p \<Rightarrow> ('p, u8 list, nat) device" where
  "example_real m p = \<lparr>dv_mock_class = False, dv_handle = Some 1, dv_alt_settings = [], dv_pending = pm_init,
     dv_mock_iface = m, dv_plugin = p, dv_tree = tree_init, dv_usb = []\<rparr>"

lemma example_real_device: "real_device (example_real m p)"
  by (simp add: real_device_def example_real_def)

lemma claims_every_interface_witness:
  "claim_interfaces (counting_usb 2) (example_real None ()) =
     Inr (LIBUSB_SUCCESS, (example_real None ())\<lparr>dv_usb := [0, 1]\<rparr>)"
  using claims_every_interface [OF _ _ example_real_device, of "counting_usb 2" _ None "()"]
  by (simp add: counting_usb_def LIBUSB_SUCCESS_def example_real_def upt_rec)

text \<open>The destructor asks libusb for the active configuration to learn how many interfaces to release.
  When that fails, as it does for a device that was unplugged, its assertion ends the process; otherwise
  every interface was asked for or one release failed, and neither is reported to the caller.\<close>

lemma close_asserts_configuration:
  assumes "dv_handle d \<noteq> None" "\<not> dv_mock_class d" "fst (lu_active_config L (dv_usb d)) \<noteq> LIBUSB_SUCCESS"
  shows "device_close L d = Inl Assertion_Failed"
proof -
  have "interface_loop call L (Suc n) i r d = Inl Assertion_Failed" for call n i r
    using assms by (auto simp: count_interfaces_def config_descriptor_def underlying_handle_def viu_assert_def
        split: prod.splits)
  from this [where n = 255] have "release_interfaces L d = Inl Assertion_Failed"
    by (simp add: release_interfaces_def)
  with assms(1) show ?thesis by (simp add: device_close_def)
qed

lemma close_releases_every_interface:
  assumes "\<And>j l. fst (lu_release_interface L j l) = LIBUSB_SUCCESS"
    and "\<And>l. lu_active_config L l = (LIBUSB_SUCCESS, Some c)" "real_device d"
  shows "device_close L d = Inr (d\<lparr>dv_usb := fold (\<lambda>j l. snd (lu_release_interface L (of_nat j) l))
    [0..<unat (cd_bNumInterfaces (lcd_desc c))] (dv_usb d)\<rparr>)"
  using interface_loop_all [where call = "lu_release_interface L" and i = 0 and n = 256 and r = LIBUSB_ERROR_OTHER,
      OF assms interface_fuel] assms(3)
  by (auto simp: device_close_def release_interfaces_def real_device_def)

section \<open>Alternate settings\<close>

text \<open>SET_INTERFACE reports success for every setting the device accepts, but the setting of an
  interface is only remembered the first time: after two successful SET_INTERFACE the current setting
  is the one of the first, whatever the second asked for.\<close>

lemma first_altsetting_kept:
  assumes "om_inv (dv_alt_settings d)" "om_find (dv_alt_settings d) i = None"
    and "set_interface L i a d = Inr (LIBUSB_SUCCESS, d1)" "set_interface L i b d1 = Inr (LIBUSB_SUCCESS, d2)"
  shows "current_altsetting i d1 = a \<and> current_altsetting i d2 = a"
proof -
  have set: "dv_alt_settings d' = fst (om_insert i alt (dv_alt_settings x))"
    if s: "set_interface L i alt x = Inr (LIBUSB_SUCCESS, d')" for alt x d'
  proof -
    obtain r0 x0 where x0: "plugin_set_interface i alt x = (r0, x0)" by force
    have "dv_alt_settings x0 = dv_alt_settings x"
      using x0 by (auto simp: plugin_set_interface_def split: option.splits prod.splits)
    then show ?thesis
      using s by (auto simp: set_interface_def device_on_set_interface_def x0 bindR_Inr_iff
          split: prod.splits if_splits)
  qed
  have 1: "dv_alt_settings d1 = fst (om_insert i a (dv_alt_settings d))" by (rule set [OF assms(3)])
  have 2: "dv_alt_settings d2 = fst (om_insert i b (dv_alt_settings d1))" by (rule set [OF assms(4)])
  have f1: "om_find (dv_alt_settings d1) i = Some a"
    using smap.find_insert_new [OF assms(1,2)] by (simp add: 1)
  have "om_inv (dv_alt_settings d1)" using assms(1) by (simp add: 1 om_inv_insert)
  then have f2: "om_find (dv_alt_settings d2) i = Some a"
    using smap.find_insert_old [OF _ f1] f1 by (simp add: 2)
  have "dv_alt_settings d1 \<noteq> []" "dv_alt_settings d2 \<noteq> []" using f1 f2 by (auto simp: om_find_def)
  then show ?thesis using f1 f2 by (simp add: current_altsetting_def)
qed

lemma first_altsetting_kept_witness:
  "\<exists>d2. set_interface (counting_usb 1) 0 2 ((example_real None ())\<lparr>dv_alt_settings := [(0, 1)]\<rparr>) = Inr (LIBUSB_SUCCESS, d2) \<and>
    current_altsetting 0 d2 = 1"
proof -
  let ?d1 = "(example_real None ())\<lparr>dv_alt_settings := [(0, 1)]\<rparr>"
  have 1: "set_interface (counting_usb 1) 0 1 (example_real None ()) = Inr (LIBUSB_SUCCESS, ?d1)"
    and 2: "\<exists>d2. set_interface (counting_usb 1) 0 2 ?d1 = Inr (LIBUSB_SUCCESS, d2)"
    by (simp_all add: set_interface_def device_on_set_interface_def plugin_set_interface_def device_is_mock_def
        underlying_handle_def counting_usb_def example_real_def LIBUSB_SUCCESS_def)
  from 2 obtain d2 where 3: "set_interface (counting_usb 1) 0 2 ?d1 = Inr (LIBUSB_SUCCESS, d2)" by blast
  have "current_altsetting 0 ?d1 = 1 \<and> current_altsetting 0 d2 = 1"
    by (rule first_altsetting_kept [OF _ _ 1 3]) (simp_all add: example_real_def om_inv_def om_find_def)
  with 3 show ?thesis by blast
qed

section \<open>Strings\<close>

text \<open>What a request for a string descriptor is answered with, for every language and index: nothing
  for an unknown language or an index past the strings, the first string for the indices 0 and 1, the
  string at its place otherwise; and for index 0 of a language without strings, \<open>vector::at\<close> throws.\<close>

lemma string_descriptor_by_index:
  assumes "has_valid_handle d"
  shows "pack_string_descriptor lang i d =
    (case om_find (string_descs (dv_tree d)) lang of
       None \<Rightarrow> Inr []
     | Some [] \<Rightarrow> if i = 0 then Inl Out_Of_Range else Inr []
     | Some (s # ss) \<Rightarrow> if i \<le> 1 then Inr s else if unat i \<le> length (s # ss) then Inr (ss ! (unat i - 2)) else Inr [])"
proof (cases "om_find (string_descs (dv_tree d)) lang")
  case None
  then show ?thesis using assms by (simp add: pack_string_descriptor_def)
next
  case (Some v)
  show ?thesis
  proof (cases v)
    case Nil
    then show ?thesis
      using assms Some by (simp add: pack_string_descriptor_def vector_at_def unat_gt_0)
  next
    case (Cons s ss)
    have small: "i \<le> 1 \<longleftrightarrow> unat i = 0 \<or> unat i = 1" by (auto simp: word_le_nat_alt)
    have zero: "i = 0 \<longleftrightarrow> unat i = 0" by (simp add: unat_eq_0)
    show ?thesis
      using assms Some Cons
      by (cases "unat i"; cases "unat i - 1")
        (auto simp: pack_string_descriptor_def vector_at_def to_packing_type_def small zero nth_Cons')
  qed
qed


lemma string_descriptor_by_index_witness:
  "pack_string_descriptor 0x409 2 ((example_real None ())\<lparr>dv_tree := tree_init\<lparr>string_descs := [(0x409, [[2, 3], [4, 3, 65, 0]])]\<rparr>\<rparr>) =
    Inr [4, 3, 65, 0]"
  using string_descriptor_by_index [of "(example_real None ())\<lparr>dv_tree := tree_init\<lparr>string_descs := [(0x409, [[2, 3], [4, 3, 65, 0]])]\<rparr>\<rparr>" "0x409" 2]
  by (simp add: has_valid_handle_def example_real_def om_find_def tree_init_def word_le_nat_alt)

definition device_string :: "'l libusb \<Rightarrow> u16 \<Rightarrow> u8 \<Rightarrow> ('p, 'l, 'cb) device \<Rightarrow> bytes option" where
  "device_string L lang i d =
     (let (r, buffer) = lu_string_descriptor L i lang 256 (dv_usb d) in
      if r \<le> 0 then None else Some (resize (nat r) buffer))"

lemma string_descriptor_real:
  "real_device d \<Longrightarrow> string_descriptor_u8 L lang i d = Inr (device_string L lang i d)"
  by (simp add: string_descriptor_u8_def device_string_def split_beta)

lemma strings_loop:
  assumes "real_device d" "unat i \<le> 255" "255 \<le> unat i + n"
  shows "strings_of_language L lang n i strings d =
    Inr (strings @ map the (takeWhile (\<lambda>s. size_of_string s \<noteq> 0) (map (\<lambda>j. device_string L lang (of_nat j) d) [unat i..<255])))"
  using assms(2,3)
proof (induction n arbitrary: i strings)
  case 0
  then show ?case by simp
next
  case (Suc n)
  show ?case
  proof (cases "i < 255")
    case True
    have less: "unat i < 255" using True by (simp add: word_less_nat_alt)
    have i: "unat (i + 1) = Suc (unat i)" by (rule word_succ_less [OF True])
    have upt: "[unat i..<255] = unat i # [Suc (unat i)..<255]" using less by (simp add: upt_conv_Cons)
    show ?thesis
      using True Suc.IH [of "i + 1"] Suc.prems less
      by (simp add: upt i string_descriptor_real [OF assms(1)])
  next
    case False
    then have "unat i = 255" using Suc.prems(1) by (simp add: word_less_nat_alt)
    then show ?thesis using False by simp
  qed
qed

text \<open>The strings of a language are read from index 1 upwards until the first that is missing or
  empty, and at most to index 254: the loop ends, and its result is exactly that prefix.\<close>

lemma strings_until_first_missing:
  assumes "real_device d"
  shows "strings_of_language L lang 255 1 [] d =
    Inr (map the (takeWhile (\<lambda>s. size_of_string s \<noteq> 0) (map (\<lambda>j. device_string L lang (of_nat j) d) [1..<255])))"
  using strings_loop [OF assms, of 1 255 L lang "[]"] by simp

lemma strings_until_first_missing_witness:
  "strings_of_language (counting_usb 1) 0x409 255 1 [] (example_real None ()) = Inr [[4, 3, 1, 0], [4, 3, 2, 0]]"
proof -
  have upt: "[1..<255] = [1, 2, 3] @ [4..<255]" by (simp add: upt_rec)
  show ?thesis
    unfolding strings_until_first_missing [OF example_real_device] upt map_append
    by (simp add: device_string_def counting_usb_def resize_def size_of_string_def example_real_def)
qed

section \<open>Control transfers and plugins\<close>

text \<open>For a real device with a registered plugin whose class has no handler for control requests,
  every control transfer is executed on the device, and its result is then replaced: the host always
  gets LIBUSB_ERROR_NOT_SUPPORTED.\<close>

lemma plugin_without_setup_handler:
  assumes "real_device d" "dv_mock_iface d = Some (register_usb_mock T)"
    and "pt_setup_static T = None" "pt_setup_member T = None"
    and "data \<noteq> [] \<longrightarrow> length data = unat (wLength s)"
  shows "submit_control_setup L s data d =
    Inr (Inl LIBUSB_ERROR_NOT_SUPPORTED,
      d\<lparr>dv_usb := snd (snd (lu_control_transfer L s (resize (unat (wLength s)) data) (dv_usb d)))\<rparr>)"
proof -
  have "\<not> 0 \<le> LIBUSB_ERROR_NOT_SUPPORTED" by (simp add: libusb_consts)
  then show ?thesis
    using assms
    by (simp add: submit_control_setup_def control_on_usb_def control_on_plugin_def register_usb_mock_def
        dispatch_control_setup_def pick_def split_beta)
qed

lemma plugin_without_setup_handler_witness:
  "submit_control_setup (counting_usb 1) report_setup [] (example_real (Some (register_usb_mock empty_plugin)) ()) =
     Inr (Inl LIBUSB_ERROR_NOT_SUPPORTED, example_real (Some (register_usb_mock empty_plugin)) ())"
  using plugin_without_setup_handler [OF example_real_device, of _ "()" empty_plugin "[]" report_setup "counting_usb 1"]
  by (simp add: example_real_def empty_plugin_def counting_usb_def)

section \<open>Isochronous transfers\<close>

text \<open>C40: An isochronous transfer with a positive number of packets is well-formed: each of the packets
  gets the same length, and together they fit in the buffer, as \<open>iso_data\<close> and \<open>fill\<close> rely on. With
  no packets the code divides by zero. The descriptors sent by the host have no influence.\<close>

theorem iso_transfer_fits:
  assumes "length (xf_buffer info) < 2 ^ 31" "0 \<le> iso_count info" "iso_count info < 2 ^ 31"
  shows "if iso_count info = 0 then fill_iso info h = Inl Undefined_Behaviour
    else \<exists>t. fill_iso info h = Inr t \<and> wf_transfer t \<and> t_buffer t = Some (xf_buffer info) \<and>
      length (t_iso_packet_desc t) = nat (iso_count info) \<and>
      (\<forall>p \<in> set (t_iso_packet_desc t). unat (ip_length p) = length (xf_buffer info) div nat (iso_count info)) \<and>
      total_length (t_iso_packet_desc t) \<le> length (xf_buffer info)"
proof (cases "iso_count info = 0")
  case True
  then show ?thesis by (simp add: fill_iso_def)
next
  case False
  let ?n = "nat (iso_count info)" and ?len = "length (xf_buffer info)"
  have n: "size_of_int (iso_count info) = ?n"
    by (rule size_of_int_nonneg) (use assms in simp_all)
  have size: "unat (of_nat (?len div ?n) :: u32) = ?len div ?n"
    by (rule unat_u32_of_nat, rule le_less_trans [OF div_le_dividend]) (use assms(1) in simp)
  define p where "p = \<lparr>ip_length = of_nat (?len div ?n) :: u32, ip_actual_length = 0, ip_status = Completed\<rparr>"
  have fill: "fill_iso info h = Inr (filled TRANSFER_TYPE_ISOCHRONOUS h info (iso_count info) (replicate ?n p))"
    using False by (simp add: fill_iso_def Let_def n p_def)
  have "wf_transfer (filled TRANSFER_TYPE_ISOCHRONOUS h info (iso_count info) (replicate ?n p))"
    using assms by (simp add: wf_transfer_def filled_def int_of_size_def sint_small unat_u32_of_nat)
  moreover have "total_length (replicate k p) = k * (?len div ?n)" for k
    by (induction k) (simp_all add: p_def size)
  ultimately show ?thesis
    using False by (simp add: fill filled_def p_def size)
qed

lemma iso_transfer_fits_witness:
  "\<exists>t. fill_iso \<lparr>xf_ep_address = 0x82, xf_buffer = [1, 2, 3, 4, 5], xf_callback = (),
      xf_iso = Some \<lparr>xi_packet_count = 2, xi_descriptors = []\<rparr>\<rparr> None = Inr t \<and>
    total_length (t_iso_packet_desc t) \<le> 5"
  using iso_transfer_fits [of "\<lparr>xf_ep_address = 0x82, xf_buffer = [1, 2, 3, 4, 5], xf_callback = (),
      xf_iso = Some \<lparr>xi_packet_count = 2, xi_descriptors = []\<rparr>\<rparr>" None]
  by (auto simp: iso_count_def)

end
