(* ===== verification/Vhci_Driver.thy ===== *)
theory Vhci_Driver
  imports Format_Model
begin

text \<open>
  \<open>viu::vhci::driver\<close> (src/vhci.cppm, src/vhci_impl.cpp): the kernel's virtual host
  controller seen through sysfs. What systemd's \<open>sd_device\<close> answers is the record \<open>sysfs\<close>; the
  parser of the status lines is the argument \<open>phrase_parse\<close> (Vhci_Grammar has the one of the code), which
  returns whether it succeeded, the rest of the input and the lines. Writes to sysfs are logged.
\<close>

section \<open>Data\<close>

datatype usb_device_speed = USB_SPEED_UNKNOWN | USB_SPEED_LOW | USB_SPEED_FULL | USB_SPEED_HIGH
  | USB_SPEED_WIRELESS | USB_SPEED_SUPER | USB_SPEED_SUPER_PLUS

definition speed_value :: "usb_device_speed \<Rightarrow> u32" where
  "speed_value s = (case s of USB_SPEED_UNKNOWN \<Rightarrow> 0 | USB_SPEED_LOW \<Rightarrow> 1 | USB_SPEED_FULL \<Rightarrow> 2
     | USB_SPEED_HIGH \<Rightarrow> 3 | USB_SPEED_WIRELESS \<Rightarrow> 4 | USB_SPEED_SUPER \<Rightarrow> 5 | USB_SPEED_SUPER_PLUS \<Rightarrow> 6)"

datatype hub_speed = HUB_SPEED_HIGH | HUB_SPEED_SUPER

definition VDEV_ST_NULL :: u32 where "VDEV_ST_NULL = 4"

record virtual_device =
  vd_hub :: hub_speed
  vd_port :: u8
  vd_status :: u32
  vd_devid :: u32
  vd_busnum :: u8
  vd_devnum :: u8

text \<open>\<open>devices_.resize\<close> makes zeroed elements.\<close>

definition virtual_device_init :: virtual_device where
  "virtual_device_init = \<lparr>vd_hub = HUB_SPEED_HIGH, vd_port = 0, vd_status = 0, vd_devid = 0,
     vd_busnum = 0, vd_devnum = 0\<rparr>"

record vhci_hcd_status =
  hs_hub :: string
  hs_port :: int
  hs_sta :: int
  hs_spd :: int
  hs_dev :: int
  hs_sockfd :: int
  hs_local_busid :: string

type_synonym status_parser = "string \<Rightarrow> bool \<times> string \<times> vhci_hcd_status list"

record sysfs =
  sy_attribute :: "string \<Rightarrow> string option"
  sy_syspath :: "string option"
  sy_has_platform :: bool
  sy_platform_entries :: "string list"

record driver =
  devices :: "virtual_device list"
  number_of_controllers :: int
  sysfs_writes :: "(string \<times> string) list"

section \<open>Speeds\<close>

definition to_speed_enum :: "u16 \<Rightarrow> usb_device_speed res" where
  "to_speed_enum bcd_version =
     (if bcd_version \<in> {0x0100, 0x0101, 0x0110} then Inr USB_SPEED_FULL
      else if bcd_version \<in> {0x0200, 0x0201, 0x0210} then Inr USB_SPEED_HIGH
      else if bcd_version = 0x0300 then Inr USB_SPEED_SUPER
      else if bcd_version \<in> {0x0310, 0x0320} then Inr USB_SPEED_SUPER_PLUS
      else Inl (Runtime_Error (''Unsupported bcd usb version: '' @ show_hex (unat bcd_version))))"

definition hub_of_speed :: "usb_device_speed \<Rightarrow> hub_speed" where
  "hub_of_speed speed =
     (if speed = USB_SPEED_SUPER \<or> speed = USB_SPEED_SUPER_PLUS then HUB_SPEED_SUPER else HUB_SPEED_HIGH)"

section \<open>The status of the ports\<close>

text \<open>The first line is the heading; the parser has to consume the rest.\<close>

definition drop_first_line :: "string \<Rightarrow> string" where
  "drop_first_line s = (if CHR 0x0A \<in> set s then drop 1 (dropWhile (\<lambda>c. c \<noteq> CHR 0x0A) s) else s)"

definition client_parse_status :: "status_parser \<Rightarrow> string \<Rightarrow> vhci_hcd_status list option" where
  "client_parse_status phrase_parse status_string =
     (case phrase_parse (drop_first_line status_string) of (succeeded, rest, result) \<Rightarrow>
      if succeeded \<and> rest = [] then Some result else None)"

definition update_virtual_device :: "vhci_hcd_status \<Rightarrow> virtual_device \<Rightarrow> virtual_device" where
  "update_virtual_device status vd =
     vd\<lparr>vd_hub := (if hs_hub status = ''hs'' then HUB_SPEED_HIGH else HUB_SPEED_SUPER),
        vd_port := word_of_int (hs_port status), vd_status := word_of_int (hs_sta status),
        vd_devid := word_of_int (hs_dev status), vd_busnum := word_of_int (hs_dev status div 2 ^ 16),
        vd_devnum := word_of_int (hs_dev status mod 2 ^ 16)\<rparr>"

text \<open>\<open>devices_.at\<close> takes a \<open>std::size_t\<close>: a negative port is a huge index.\<close>

definition apply_status :: "vhci_hcd_status \<Rightarrow> virtual_device list \<Rightarrow> virtual_device list res" where
  "apply_status status devs =
     (let i = nat (hs_port status mod 2 ^ 64) in
      if i < length devs then Inr (devs[i := update_virtual_device status (devs ! i)]) else Inl Out_Of_Range)"

definition parse_status :: "status_parser \<Rightarrow> string \<Rightarrow> driver \<Rightarrow> driver res" where
  "parse_status phrase_parse val w =
     (case client_parse_status phrase_parse val of
        None \<Rightarrow> Inr w
      | Some result \<Rightarrow> bindR (foldR apply_status result (devices w)) (\<lambda>devs. Inr (w\<lparr>devices := devs\<rparr>)))"

definition status_attribute :: "nat \<Rightarrow> string" where
  "status_attribute i = (if i > 0 then ''status.'' @ to_string (Arith (int i)) else ''status'')"

text \<open>The result is 0 or -1; \<open>parse_status\<close> always returns 0.\<close>

fun refresh_loop :: "status_parser \<Rightarrow> sysfs \<Rightarrow> nat list \<Rightarrow> driver \<Rightarrow> (int \<times> driver) res" where
  "refresh_loop phrase_parse S [] w = Inr (0, w)"
| "refresh_loop phrase_parse S (i # is) w =
     (case sy_attribute S (status_attribute i) of
        None \<Rightarrow> Inr (-1, w)
      | Some val \<Rightarrow> bindR (parse_status phrase_parse val w) (refresh_loop phrase_parse S is))"

definition refresh_status :: "status_parser \<Rightarrow> sysfs \<Rightarrow> driver \<Rightarrow> (int \<times> driver) res" where
  "refresh_status phrase_parse S w = refresh_loop phrase_parse S [0..<nat (number_of_controllers w)] w"

section \<open>Opening\<close>

text \<open>\<open>std::stoi\<close> is the argument: \<open>None\<close> for the two exceptions the code catches.\<close>

definition get_number_of_ports :: "(string \<Rightarrow> int option) \<Rightarrow> sysfs \<Rightarrow> int" where
  "get_number_of_ports stoi S =
     (case sy_attribute S ''nports'' of
        None \<Rightarrow> 0
      | Some s \<Rightarrow> (case stoi s of None \<Rightarrow> 0 | Some n \<Rightarrow> n))"

text \<open>\<open>path::stem\<close>: up to the last dot, unless it is the first character.\<close>

definition stem :: "string \<Rightarrow> string" where
  "stem name =
     (let pre = rev (drop 1 (dropWhile (\<lambda>c. c \<noteq> CHR ''.'') (rev name)))
      in if CHR ''.'' \<notin> set name \<or> pre = [] then name else pre)"

definition count_controllers :: "sysfs \<Rightarrow> int res" where
  "count_controllers S =
     (if \<not> sy_has_platform S then Inr 0
      else Inr (int (length (filter (\<lambda>entry. stem entry = ''vhci_hcd'') (sy_platform_entries S)))))"

text \<open>The number of ports converts to \<open>std::size_t\<close>; \<open>resize\<close> throws beyond \<open>max_size\<close>.\<close>

definition open_driver :: "status_parser \<Rightarrow> (string \<Rightarrow> int option) \<Rightarrow> sysfs option \<Rightarrow> driver \<Rightarrow> (int \<times> driver) res" where
  "open_driver phrase_parse stoi device w =
     (case device of
        None \<Rightarrow> Inr (-1, w)
      | Some S \<Rightarrow>
          (let n = get_number_of_ports stoi S in
           if n < 0 then Inl Length_Error
           else bindR (viu_assert (n \<noteq> 0)) (\<lambda>_.
                bindR (count_controllers S) (\<lambda>controllers.
                let w = w\<lparr>devices := replicate (nat n) virtual_device_init, number_of_controllers := controllers\<rparr>
                in if controllers \<le> 0 then Inr (-1, w) else refresh_status phrase_parse S w))))"

definition driver_init :: driver where
  "driver_init = \<lparr>devices = [], number_of_controllers = 0, sysfs_writes = []\<rparr>"

definition driver_construct :: "status_parser \<Rightarrow> (string \<Rightarrow> int option) \<Rightarrow> sysfs option \<Rightarrow> driver res" where
  "driver_construct phrase_parse stoi device =
     bindR (open_driver phrase_parse stoi device driver_init) (\<lambda>(r, w).
     bindR (viu_assert (r = 0)) (\<lambda>_. Inr w))"

section \<open>Attaching\<close>

text \<open>\<open>None\<close> is \<open>error::no_free_port\<close>.\<close>

definition get_free_port :: "usb_device_speed \<Rightarrow> driver \<Rightarrow> u8 option" where
  "get_free_port speed w =
     map_option vd_port (find (\<lambda>d. vd_hub d = hub_of_speed speed \<and> vd_status d = VDEV_ST_NULL) (devices w))"

definition write_sysfs_attribute :: "string \<Rightarrow> string \<Rightarrow> driver \<Rightarrow> driver" where
  "write_sysfs_attribute attr_path attribute_value w =
     w\<lparr>sysfs_writes := sysfs_writes w @ [(attr_path, attribute_value)]\<rparr>"

definition attach_device :: "sysfs \<Rightarrow> u8 \<Rightarrow> int \<Rightarrow> u32 \<Rightarrow> u32 \<Rightarrow> driver \<Rightarrow> int \<times> driver" where
  "attach_device S port sockfd device_id speed w =
     (case sy_syspath S of
        None \<Rightarrow> (-1, w)
      | Some path \<Rightarrow>
          (0, write_sysfs_attribute (path @ ''/attach'')
                (make_string [Arith (uint port), Arith sockfd, Arith (uint device_id),
                   Arith (uint (min (speed_value USB_SPEED_SUPER) speed))]) w))"

text \<open>
  One round of \<open>attach\<close>: it either ends (\<open>Some\<close>) or the loop goes on. \<open>errno\<close> is what the last
  failing system call left there.
\<close>

definition EBUSY :: int where "EBUSY = 16"

definition attach_round :: "sysfs \<Rightarrow> int \<Rightarrow> int \<Rightarrow> u32 \<Rightarrow> u8 \<Rightarrow> driver \<Rightarrow> driver res + driver" where
  "attach_round S errno fd speed device_id w =
     (case to_speed_enum (ucast speed) of
        Inl x \<Rightarrow> Inl (Inl x)
      | Inr speed_enum \<Rightarrow>
          (case get_free_port speed_enum w of
             None \<Rightarrow> Inl (Inl Assertion_Failed)
           | Some port \<Rightarrow>
               (case attach_device S port fd (ucast device_id) (speed_value speed_enum) w of (usbip_result, w) \<Rightarrow>
                if usbip_result < 0
                then (if errno = EBUSY then Inr w else Inl (Inl Assertion_Failed))
                else Inl (Inr w))))"

partial_function (option) attach ::
  "sysfs \<Rightarrow> int \<Rightarrow> int \<Rightarrow> u32 \<Rightarrow> u8 \<Rightarrow> driver \<Rightarrow> driver res option" where
  "attach S errno fd speed device_id w =
     (case attach_round S errno fd speed device_id w of
        Inl r \<Rightarrow> Some r
      | Inr w' \<Rightarrow> attach S errno fd speed device_id w')"

end
