(* ===== verification/Vhci_Grammar.thy ===== *)
theory Vhci_Grammar
  imports Vhci_Driver
begin

text \<open>
  The grammar of the status lines (\<open>client::parser\<close> in src/vhci_impl.cpp) as Boost.Spirit runs it: a
  sequence is tried once, each repetition takes all it can, and only between lines is white space
  skipped. It is an instance of the parser that the driver of Vhci_Driver is given.
\<close>

section \<open>The grammar\<close>

text \<open>\<open>char_\<close> is the one of the ASCII encoding, which has 128 characters.\<close>

definition word_char :: "char \<Rightarrow> bool" where
  "word_char c \<longleftrightarrow> (of_char c :: nat) < 128 \<and> c \<noteq> CHR '' '' \<and> c \<noteq> CHR 0x0A"

definition p_string :: group where
  "p_string = m_some word_char"

definition p_separator :: group where
  "p_separator = m_some (\<lambda>c. c = CHR '' '')"

text \<open>\<open>int_\<close>: an optional sign and decimal digits; a value that is no \<open>int\<close> does not match.\<close>

definition p_int :: "string \<Rightarrow> (int \<times> string) option" where
  "p_int s =
     (let negative = (s \<noteq> [] \<and> hd s = CHR ''-'');
          t = (if s \<noteq> [] \<and> (hd s = CHR ''-'' \<or> hd s = CHR ''+'') then tl s else s)
      in Option.bind (m_some is_digit t) (\<lambda>(digits, rest).
         let n = int (fst (read_nat 0 digits)); v = (if negative then - n else n)
         in if - (2 ^ 31) \<le> v \<and> v < 2 ^ 31 then Some (v, rest) else None))"

definition p_column :: "string \<Rightarrow> (int \<times> string) option" where
  "p_column s = Option.bind (p_int s) (\<lambda>(v, s). Option.bind (p_separator s) (\<lambda>(_, s). Some (v, s)))"

definition p_line :: "string \<Rightarrow> (vhci_hcd_status \<times> string) option" where
  "p_line s =
     Option.bind (p_string s) (\<lambda>(hub, s).
     Option.bind (p_separator s) (\<lambda>(_, s).
     Option.bind (p_column s) (\<lambda>(port, s).
     Option.bind (p_column s) (\<lambda>(sta, s).
     Option.bind (p_column s) (\<lambda>(spd, s).
     Option.bind (p_column s) (\<lambda>(dev, s).
     Option.bind (p_column s) (\<lambda>(sockfd, s).
     Option.bind (p_string s) (\<lambda>(local_busid, s).
     Some (\<lparr>hs_hub = hub, hs_port = port, hs_sta = sta, hs_spd = spd, hs_dev = dev, hs_sockfd = sockfd,
       hs_local_busid = local_busid\<rparr>, dropWhile (\<lambda>c. c = CHR 0x0A) s)))))))))"

lemma m_some_shorter: "m_some P s = Some (a, r) \<Longrightarrow> length r < length s"
proof -
  assume a: "m_some P s = Some (a, r)"
  then have "takeWhile P s \<noteq> []" "length r = length s - length (takeWhile P s)" by (auto simp: m_some_def Let_def split: if_splits)
  moreover have "length (takeWhile P s) \<le> length s" by (rule length_takeWhile_le)
  moreover have "0 < length (takeWhile P s)" using calculation(1) by simp
  ultimately show ?thesis by linarith
qed

lemma p_column_shorter: "p_column s = Some (v, r) \<Longrightarrow> length r < length s"
proof -
  assume "p_column s = Some (v, r)"
  then obtain r1 a where i: "p_int s = Some (v, r1)" and "p_separator r1 = Some (a, r)"
    by (auto simp: p_column_def bind_eq_Some_conv)
  then have "length r < length r1" by (simp add: p_separator_def m_some_shorter)
  moreover have "length r1 < length s"
    using i by (auto simp: p_int_def Let_def bind_eq_Some_conv split: if_splits dest!: m_some_shorter)
  ultimately show ?thesis by simp
qed

lemma p_line_shorter: "p_line s = Some (x, r) \<Longrightarrow> length r < length s"
proof -
  assume "p_line s = Some (x, r)"
  then obtain hub s1 a s2 p1 s3 p2 s4 p3 s5 p4 s6 p5 s7 b s8 where
    "p_string s = Some (hub, s1)" "p_separator s1 = Some (a, s2)" "p_column s2 = Some (p1, s3)"
    "p_column s3 = Some (p2, s4)" "p_column s4 = Some (p3, s5)" "p_column s5 = Some (p4, s6)"
    "p_column s6 = Some (p5, s7)" "p_string s7 = Some (b, s8)" and r: "r = dropWhile (\<lambda>c. c = CHR 0x0A) s8"
    by (auto simp: p_line_def bind_eq_Some_conv)
  then have "length s8 < length s"
    unfolding p_string_def p_separator_def
    using m_some_shorter p_column_shorter by (meson less_trans)
  then show ?thesis unfolding r using length_dropWhile_le [of "\<lambda>c. c = CHR 0x0A" s8] by linarith
qed

function status_lines :: "string \<Rightarrow> vhci_hcd_status list \<times> string" where
  "status_lines s =
     (let s = dropWhile is_space s in
      case p_line s of
        None \<Rightarrow> ([], s)
      | Some (x, r) \<Rightarrow> (case status_lines r of (xs, r') \<Rightarrow> (x # xs, r')))"
  by auto

termination
proof (relation "measure length")
  fix s x p y z
  assume "x = dropWhile is_space s" "p_line x = Some p" "(y, z) = p"
  then have "length z < length (dropWhile is_space s)" using p_line_shorter [of "dropWhile is_space s" y z] by simp
  then show "(z, s) \<in> measure length" using length_dropWhile_le [of is_space s] by simp
qed simp

declare status_lines.simps [simp del]

text \<open>\<open>phrase_parse\<close> with the rule: at least one line, and white space skipped at the end.\<close>

definition vhci_hcd_status_parser :: status_parser where
  "vhci_hcd_status_parser s =
     (case status_lines s of (xs, rest) \<Rightarrow> (xs \<noteq> [], dropWhile is_space rest, xs))"

section \<open>The lines of the kernel\<close>

text \<open>
  What the kernel's vhci driver writes for a port (\<open>port_show_vhci\<close>): the numbers are padded with
  zeros, all decimal but the device identifier, which is hexadecimal.
\<close>

record kernel_port =
  kp_hub :: string
  kp_port :: nat
  kp_status :: nat
  kp_speed :: nat
  kp_devid :: nat
  kp_sockfd :: nat
  kp_busid :: string

definition zero_padded :: "nat \<Rightarrow> string \<Rightarrow> string" where
  "zero_padded n t = replicate (n - length t) (CHR ''0'') @ t"

definition devid_text :: "kernel_port \<Rightarrow> string" where
  "devid_text k = zero_padded 8 (show_hex (kp_devid k))"

definition kernel_line :: "kernel_port \<Rightarrow> string" where
  "kernel_line k = kp_hub k @ CHR '' '' # CHR '' '' # zero_padded 4 (show_nat (kp_port k)) @ CHR '' '' #
     zero_padded 3 (show_nat (kp_status k)) @ CHR '' '' # zero_padded 3 (show_nat (kp_speed k)) @ CHR '' '' #
     devid_text k @ CHR '' '' # zero_padded 6 (show_nat (kp_sockfd k)) @ CHR '' '' # kp_busid k @ [CHR 0x0A]"

definition kernel_port_ok :: "kernel_port \<Rightarrow> bool" where
  "kernel_port_ok k \<longleftrightarrow> (kp_hub k = ''hs'' \<or> kp_hub k = ''ss'') \<and> kp_port k < 2 ^ 31 \<and> kp_status k < 2 ^ 31 \<and>
     kp_speed k < 2 ^ 31 \<and> kp_devid k < 2 ^ 32 \<and> kp_sockfd k < 2 ^ 31 \<and> kp_busid k \<noteq> [] \<and>
     (\<forall>c\<in>set (kp_busid k). word_char c)"

text \<open>Whether the hexadecimal device identifier happens to have decimal digits only.\<close>

definition decimal_devid :: "kernel_port \<Rightarrow> bool" where
  "decimal_devid k \<longleftrightarrow> (\<forall>c\<in>set (show_hex (kp_devid k)). is_digit c)"

definition read_port :: "kernel_port \<Rightarrow> vhci_hcd_status" where
  "read_port k = \<lparr>hs_hub = kp_hub k, hs_port = int (kp_port k), hs_sta = int (kp_status k), hs_spd = int (kp_speed k),
     hs_dev = int (fst (read_nat 0 (show_hex (kp_devid k)))), hs_sockfd = int (kp_sockfd k), hs_local_busid = kp_busid k\<rparr>"

lemma read_nat_zeros: "read_nat 0 (replicate k (CHR ''0'') @ t) = read_nat 0 t"
  by (induction k) (simp_all add: is_digit_def)

lemma zero_padded_digits: "\<forall>c\<in>set t. is_digit c \<Longrightarrow> \<forall>c\<in>set (zero_padded n t). is_digit c"
  by (auto simp: zero_padded_def is_digit_def)

lemma read_nat_bound: "\<forall>c\<in>set ds. is_digit c \<Longrightarrow> fst (read_nat acc ds) < (acc + 1) * 10 ^ length ds"
proof (induction ds arbitrary: acc)
  case (Cons c ds)
  let ?acc = "10 * acc + (of_char c - 48)"
  have "fst (read_nat ?acc ds) < (?acc + 1) * 10 ^ length ds" using Cons by simp
  also have "\<dots> \<le> ((acc + 1) * 10) * 10 ^ length ds"
  proof (rule mult_le_mono1)
    have "of_char c \<le> (57 :: nat)" using Cons.prems by (simp add: is_digit_def)
    from diff_le_mono [OF this, of 48] have "of_char c - 48 \<le> (9 :: nat)" by simp
    then show "?acc + 1 \<le> (acc + 1) * 10" by (simp only: distrib_right)
  qed
  finally show ?case using Cons.prems by (simp add: algebra_simps)
qed simp

lemma length_show_hex: "n < 16 ^ k \<Longrightarrow> 0 < k \<Longrightarrow> length (show_hex n) \<le> k"
proof (induction k arbitrary: n)
  case (Suc k)
  show ?case
  proof (cases "n < 16")
    case True
    then show ?thesis by (subst show_hex.simps) (simp add: Let_def)
  next
    case False
    with Suc.prems have "n div 16 < 16 ^ k" "0 < k" by (auto intro: gr0I)
    then have "length (show_hex (n div 16)) \<le> k" by (rule Suc.IH)
    then show ?thesis using False by (subst show_hex.simps) (simp add: Let_def)
  qed
qed simp

lemma p_int_digits:
  assumes "ds \<noteq> []" "\<forall>c\<in>set ds. is_digit c" "fst (read_nat 0 ds) < 2 ^ 31" "s \<noteq> []" "\<not> is_digit (hd s)"
  shows "p_int (ds @ s) = Some (int (fst (read_nat 0 ds)), s)"
proof -
  have "is_digit (hd ds)" using assms(1,2) by simp
  then have "hd ds \<noteq> CHR ''-''" "hd ds \<noteq> CHR ''+''" by (auto simp: is_digit_def)
  then show ?thesis
    using assms m_some_append [of ds is_digit s] by (simp add: p_int_def Let_def)
qed

lemma p_separator_one: "s \<noteq> [] \<Longrightarrow> hd s \<noteq> CHR '' '' \<Longrightarrow> p_separator (CHR '' '' # s) = Some ('' '', s)"
  using m_some_append [of "'' ''" "\<lambda>c. c = CHR '' ''" s] by (simp add: p_separator_def)

lemma p_column_digits:
  assumes "\<forall>c\<in>set t. is_digit c" "t \<noteq> []" "fst (read_nat 0 t) < 2 ^ 31" "s \<noteq> []" "hd s \<noteq> CHR '' ''"
  shows "p_column (zero_padded n t @ CHR '' '' # s) = Some (int (fst (read_nat 0 t)), s)"
proof -
  have "zero_padded n t \<noteq> []" "fst (read_nat 0 (zero_padded n t)) = fst (read_nat 0 t)"
    using assms(2) by (simp_all add: zero_padded_def read_nat_zeros)
  then have "p_int (zero_padded n t @ CHR '' '' # s) = Some (int (fst (read_nat 0 t)), CHR '' '' # s)"
    using p_int_digits [OF _ zero_padded_digits [OF assms(1)], of n "CHR '' '' # s"] assms(3)
    by (simp add: is_digit_def)
  then show ?thesis using p_separator_one [OF assms(4,5)] by (simp add: p_column_def)
qed

lemma p_column_number:
  assumes "n < 2 ^ 31" "s \<noteq> []" "hd s \<noteq> CHR '' ''"
  shows "p_column (zero_padded w (show_nat n) @ CHR '' '' # s) = Some (int n, s)"
  using p_column_digits [OF show_nat_digits show_nat_nonempty _ assms(2,3), of n w] assms(1)
  by (simp add: read_show_nat)

text \<open>A hexadecimal letter ends the number, and no separator follows.\<close>

lemma p_column_letter:
  assumes "\<forall>c\<in>set t. hex_digit c \<noteq> None" "\<not> (\<forall>c\<in>set t. is_digit c)"
  shows "p_column (t @ s) = None"
proof -
  obtain a c b where t: "t = a @ c # b" "\<forall>c\<in>set a. is_digit c" "\<not> is_digit c"
    using assms(2) split_list_first_prop [of t "\<lambda>c. \<not> is_digit c"] by auto
  then have c: "hex_digit c \<noteq> None" using assms(1) by simp
  then have other: "c \<noteq> CHR ''-''" "c \<noteq> CHR ''+''" "c \<noteq> CHR '' ''" by (auto simp: hex_digit_def)
  have sep: "p_separator (c # r) = None" for r
    using other by (simp add: p_separator_def m_some_def)
  show ?thesis
  proof (cases "a = []")
    case True
    then show ?thesis using t other by (simp add: p_column_def p_int_def m_some_def)
  next
    case False
    then have "is_digit (hd a)" using t(2) by simp
    then have "hd a \<noteq> CHR ''-''" "hd a \<noteq> CHR ''+''" by (auto simp: is_digit_def)
    then show ?thesis
      using False t m_some_append [of a is_digit "c # b @ s"] sep by (simp add: p_column_def p_int_def Let_def)
  qed
qed

lemma zero_padded_head: "t \<noteq> [] \<Longrightarrow> \<forall>c\<in>set t. c \<noteq> CHR '' '' \<Longrightarrow> zero_padded n t @ s \<noteq> [] \<and> hd (zero_padded n t @ s) \<noteq> CHR '' ''"
  by (cases "n - length t") (simp_all add: zero_padded_def)

lemma no_space_text:
  "\<forall>c\<in>set (show_nat n). c \<noteq> CHR '' ''" "\<forall>c\<in>set (show_hex n). c \<noteq> CHR '' ''"
  using show_nat_digits [of n] hex_digit_show [of n] by (auto simp: is_digit_def hex_digit_def)

lemma kernel_port_words:
  assumes "kernel_port_ok k"
  shows "p_string (kp_hub k @ CHR '' '' # s) = Some (kp_hub k, CHR '' '' # s)"
    "p_string (kp_busid k @ CHR 0x0A # s) = Some (kp_busid k, CHR 0x0A # s)"
    "kp_busid k @ s \<noteq> []" "hd (kp_busid k @ s) \<noteq> CHR '' ''"
proof -
  have "kp_hub k = ''hs'' \<or> kp_hub k = ''ss''" using assms unfolding kernel_port_ok_def by blast
  then have hub: "kp_hub k \<noteq> []" "\<forall>c\<in>set (kp_hub k). word_char c"
    by (elim disjE; simp add: word_char_def)+
  have bus: "kp_busid k \<noteq> []" "\<forall>c\<in>set (kp_busid k). word_char c"
    using assms unfolding kernel_port_ok_def by blast+
  show "p_string (kp_hub k @ CHR '' '' # s) = Some (kp_hub k, CHR '' '' # s)"
    unfolding p_string_def by (rule m_some_append [OF hub]) (simp_all add: word_char_def)
  show "p_string (kp_busid k @ CHR 0x0A # s) = Some (kp_busid k, CHR 0x0A # s)"
    unfolding p_string_def by (rule m_some_append [OF bus]) (simp_all add: word_char_def)
  have "word_char (hd (kp_busid k))" using bus by simp
  then have "hd (kp_busid k) \<noteq> CHR '' ''" by (simp add: word_char_def)
  then show "kp_busid k @ s \<noteq> []" "hd (kp_busid k @ s) \<noteq> CHR '' ''"
    using bus(1) by simp_all
qed

lemma p_column_devid:
  assumes "kp_devid k < 2 ^ 32" "s \<noteq> []" "hd s \<noteq> CHR '' ''"
  shows "p_column (devid_text k @ CHR '' '' # s) = (if decimal_devid k then Some (hs_dev (read_port k), s) else None)"
proof (cases "decimal_devid k")
  case True
  then have digits: "\<forall>c\<in>set (show_hex (kp_devid k)). is_digit c" by (simp add: decimal_devid_def)
  have "kp_devid k < 16 ^ 8" using assms(1) by simp
  then have "length (show_hex (kp_devid k)) \<le> 8" by (rule length_show_hex) simp
  then have "(10::nat) ^ length (show_hex (kp_devid k)) \<le> 10 ^ 8" by (intro power_increasing) simp_all
  then have "fst (read_nat 0 (show_hex (kp_devid k))) < 2 ^ 31"
    using read_nat_bound [OF digits, of 0] by simp
  then show ?thesis
    using True p_column_digits [OF digits show_hex_nonempty _ assms(2,3), of 8] by (simp add: devid_text_def read_port_def)
next
  case False
  have "\<forall>c\<in>set (devid_text k). hex_digit c \<noteq> None"
  proof
    fix c
    assume "c \<in> set (devid_text k)"
    then have "c = CHR ''0'' \<or> c \<in> set (show_hex (kp_devid k))" by (auto simp: devid_text_def zero_padded_def)
    moreover have "hex_digit (CHR ''0'') \<noteq> None" by (simp add: hex_digit_def)
    ultimately show "hex_digit c \<noteq> None" using hex_digit_show by blast
  qed
  moreover have "\<not> (\<forall>c\<in>set (devid_text k). is_digit c)"
    using False by (auto simp: decimal_devid_def devid_text_def zero_padded_def)
  ultimately show ?thesis using False p_column_letter by simp
qed

lemma zero_padded_number:
  "zero_padded w (show_nat n) @ s \<noteq> []" "hd (zero_padded w (show_nat n) @ s) \<noteq> CHR '' ''"
  using zero_padded_head [OF show_nat_nonempty no_space_text(1)] by blast+

lemma devid_head: "devid_text k @ s \<noteq> []" "hd (devid_text k @ s) \<noteq> CHR '' ''"
  using zero_padded_head [OF show_hex_nonempty no_space_text(2)] unfolding devid_text_def by blast+

lemma p_separator_two:
  "p_separator (CHR '' '' # CHR '' '' # zero_padded w (show_nat n) @ s) = Some (''  '', zero_padded w (show_nat n) @ s)"
  using m_some_append [of "''  ''" "\<lambda>c. c = CHR '' ''" "zero_padded w (show_nat n) @ s"] zero_padded_number
  by (simp add: p_separator_def)

lemma p_line_kernel:
  assumes "kernel_port_ok k" "rest = [] \<or> hd rest \<noteq> CHR 0x0A"
  shows "p_line (kernel_line k @ rest) = (if decimal_devid k then Some (read_port k, rest) else None)"
proof -
  let ?tail = "zero_padded 6 (show_nat (kp_sockfd k)) @ CHR '' '' # kp_busid k @ CHR 0x0A # rest"
  let ?dev = "devid_text k @ CHR '' '' # ?tail"
  let ?spd = "zero_padded 3 (show_nat (kp_speed k)) @ CHR '' '' # ?dev"
  let ?sta = "zero_padded 3 (show_nat (kp_status k)) @ CHR '' '' # ?spd"
  let ?port = "zero_padded 4 (show_nat (kp_port k)) @ CHR '' '' # ?sta"
  have ok: "kp_port k < 2 ^ 31" "kp_status k < 2 ^ 31" "kp_speed k < 2 ^ 31" "kp_devid k < 2 ^ 32" "kp_sockfd k < 2 ^ 31"
    using assms(1) unfolding kernel_port_ok_def by blast+
  have columns: "p_column ?port = Some (int (kp_port k), ?sta)" "p_column ?sta = Some (int (kp_status k), ?spd)"
    "p_column ?spd = Some (int (kp_speed k), ?dev)"
    "p_column ?tail = Some (int (kp_sockfd k), kp_busid k @ CHR 0x0A # rest)"
    by (rule p_column_number, fact ok, fact zero_padded_number, fact zero_padded_number)
      (rule p_column_number, fact ok, fact zero_padded_number, fact zero_padded_number,
       rule p_column_number, fact ok, fact devid_head, fact devid_head,
       rule p_column_number, fact ok, rule kernel_port_words(3) [OF assms(1)], rule kernel_port_words(4) [OF assms(1)])
  have devcol: "p_column ?dev = (if decimal_devid k then Some (hs_dev (read_port k), ?tail) else None)"
    by (rule p_column_devid [OF ok(4) zero_padded_number])
  have line: "kernel_line k @ rest = kp_hub k @ CHR '' '' # CHR '' '' # ?port"
    by (simp add: kernel_line_def)
  have after: "dropWhile (\<lambda>c. c = CHR 0x0A) (CHR 0x0A # rest) = rest"
    using assms(2) by (cases rest) simp_all
  show ?thesis
    unfolding p_line_def line
    by (cases "decimal_devid k")
      (simp_all only: kernel_port_words(1,2) [OF assms(1)] p_separator_two columns devcol after Option.bind.simps
        case_prod_conv if_True if_False, simp_all only: read_port_def vhci_hcd_status.select_convs)
qed

lemma kernel_line_head: "kernel_port_ok k \<Longrightarrow> kernel_line k \<noteq> [] \<and> \<not> is_space (hd (kernel_line k))"
  by (auto simp: kernel_port_ok_def kernel_line_def is_space_def)

lemma kernel_lines_head:
  assumes "\<forall>k\<in>set ks. kernel_port_ok k"
  shows "dropWhile is_space (concat (map kernel_line ks)) = concat (map kernel_line ks)"
    "concat (map kernel_line ks) = [] \<or> hd (concat (map kernel_line ks)) \<noteq> CHR 0x0A"
    "ks \<noteq> [] \<longleftrightarrow> concat (map kernel_line ks) \<noteq> []"
proof -
  have "concat (map kernel_line ks) = [] \<and> ks = [] \<or>
      (\<exists>c cs. concat (map kernel_line ks) = c # cs \<and> \<not> is_space c \<and> ks \<noteq> [])"
  proof (cases ks)
    case (Cons k l)
    then have "kernel_line k \<noteq> []" "\<not> is_space (hd (kernel_line k))" using assms kernel_line_head by auto
    then show ?thesis using Cons by (cases "kernel_line k") auto
  qed simp
  then have cases: "concat (map kernel_line ks) = [] \<and> ks = [] \<or> concat (map kernel_line ks) \<noteq> [] \<and> ks \<noteq> [] \<and>
      \<not> is_space (hd (concat (map kernel_line ks)))" by fastforce
  let ?lines = "concat (map kernel_line ks)"
  have drop: "t = [] \<or> \<not> is_space (hd t) \<Longrightarrow> dropWhile is_space t = t" for t by (cases t) simp_all
  show "dropWhile is_space ?lines = ?lines" using cases by (intro drop) blast
  have "is_space (CHR 0x0A)" by (simp add: is_space_def)
  then show "?lines = [] \<or> hd ?lines \<noteq> CHR 0x0A" using cases by metis
  show "ks \<noteq> [] \<longleftrightarrow> ?lines \<noteq> []" using cases by blast
qed

lemma p_line_Nil: "p_line [] = None"
  by (simp add: p_line_def p_string_def m_some_def)

lemma status_lines_kernel:
  "\<forall>k\<in>set ks. kernel_port_ok k \<Longrightarrow> status_lines (concat (map kernel_line ks)) =
    (map read_port (takeWhile decimal_devid ks), concat (map kernel_line (dropWhile decimal_devid ks)))"
proof (induction ks)
  case Nil
  then show ?case by (simp add: status_lines.simps [of "[]"] p_line_Nil)
next
  case (Cons k ks)
  have ok: "kernel_port_ok k" "\<forall>k\<in>set ks. kernel_port_ok k" using Cons.prems by simp_all
  have "p_line (concat (map kernel_line (k # ks))) =
      (if decimal_devid k then Some (read_port k, concat (map kernel_line ks)) else None)"
    using p_line_kernel [OF ok(1) kernel_lines_head(2) [OF ok(2)]] by simp
  then show ?case
    using Cons.IH [OF ok(2)] kernel_lines_head(1) [OF Cons.prems]
    by (subst status_lines.simps) (simp add: Let_def)
qed

lemma status_parser_kernel:
  assumes "\<forall>k\<in>set ks. kernel_port_ok k"
  shows "vhci_hcd_status_parser (concat (map kernel_line ks)) =
    (takeWhile decimal_devid ks \<noteq> [], concat (map kernel_line (dropWhile decimal_devid ks)),
     map read_port (takeWhile decimal_devid ks))"
proof -
  have "\<forall>k\<in>set (dropWhile decimal_devid ks). kernel_port_ok k" using assms set_dropWhileD by metis
  then show ?thesis
    using kernel_lines_head(1) by (simp add: vhci_hcd_status_parser_def status_lines_kernel [OF assms])
qed

end
