(* ===== verification/Vhci_Properties.thy ===== *)
theory Vhci_Properties
  imports Vhci_Grammar
begin

text \<open>
  Attaching to the virtual host controller: the port handed out was reported free, the line written
  to sysfs, when the loop of \<open>attach\<close> ends, and what the driver makes of a status in the kernel's format.
\<close>

section \<open>Ports\<close>

text \<open>A status line the parser read from one of the status attributes.\<close>

definition status_line :: "status_parser \<Rightarrow> sysfs \<Rightarrow> vhci_hcd_status \<Rightarrow> bool" where
  "status_line phrase_parse S s \<longleftrightarrow>
     (\<exists>i val ls. sy_attribute S (status_attribute i) = Some val \<and>
        client_parse_status phrase_parse val = Some ls \<and> s \<in> set ls)"

definition device_reported :: "status_parser \<Rightarrow> sysfs \<Rightarrow> nat \<Rightarrow> virtual_device \<Rightarrow> bool" where
  "device_reported phrase_parse S i d \<longleftrightarrow> d = virtual_device_init \<or>
     (\<exists>s. status_line phrase_parse S s \<and> nat (hs_port s mod 2 ^ 64) = i \<and> d = update_virtual_device s virtual_device_init)"

definition devices_reported :: "status_parser \<Rightarrow> sysfs \<Rightarrow> virtual_device list \<Rightarrow> bool" where
  "devices_reported phrase_parse S ds \<longleftrightarrow> (\<forall>i<length ds. device_reported phrase_parse S i (ds ! i))"

lemma update_virtual_device_all: "update_virtual_device s d = update_virtual_device s d'"
  by (simp add: update_virtual_device_def)

lemma apply_status_reported:
  assumes "devices_reported pp S ds" "status_line pp S s" "apply_status s ds = Inr ds'"
  shows "devices_reported pp S ds' \<and> length ds' = length ds"
proof -
  let ?i = "nat (hs_port s mod 2 ^ 64)"
  have ds': "ds' = ds[?i := update_virtual_device s (ds ! ?i)]" "?i < length ds"
    using assms(3) by (auto simp: apply_status_def Let_def split: if_splits)
  have "device_reported pp S ?i (update_virtual_device s (ds ! ?i))"
    using assms(2) update_virtual_device_all by (auto simp: device_reported_def)
  then show ?thesis
    using assms(1) ds'(2) by (simp add: ds'(1) devices_reported_def nth_list_update)
qed

lemma apply_all_reported:
  assumes "devices_reported pp S ds" "\<forall>s\<in>set ls. status_line pp S s" "foldR apply_status ls ds = Inr ds'"
  shows "devices_reported pp S ds' \<and> length ds' = length ds"
  using assms
proof (induction ls arbitrary: ds)
  case Nil
  then show ?case by simp
next
  case (Cons s ls)
  obtain ds1 where ds1: "apply_status s ds = Inr ds1" "foldR apply_status ls ds1 = Inr ds'"
    using Cons.prems(3) by (auto simp: bindR_Inr_iff)
  then show ?case
    using apply_status_reported [OF Cons.prems(1) _ ds1(1)] Cons.IH [OF _ _ ds1(2)] Cons.prems(2) by simp
qed

lemma refresh_reported:
  assumes "devices_reported pp S (devices w)" "refresh_loop pp S is w = Inr (r, w')"
  shows "devices_reported pp S (devices w') \<and> length (devices w') = length (devices w)"
  using assms
proof (induction "is" arbitrary: w)
  case Nil
  then show ?case by simp
next
  case (Cons i "is")
  show ?case
  proof (cases "sy_attribute S (status_attribute i)")
    case None
    then show ?thesis using Cons.prems by simp
  next
    case (Some val)
    then obtain w1 where w1: "parse_status pp val w = Inr w1" "refresh_loop pp S is w1 = Inr (r, w')"
      using Cons.prems(2) by (auto simp: bindR_Inr_iff)
    have "devices_reported pp S (devices w1) \<and> length (devices w1) = length (devices w)"
    proof (cases "client_parse_status pp val")
      case None
      then show ?thesis using w1(1) Cons.prems(1) by (simp add: parse_status_def)
    next
      case parsed: (Some ls)
      then have "\<forall>s\<in>set ls. status_line pp S s" using Some by (auto simp: status_line_def)
      moreover obtain ds where "foldR apply_status ls (devices w) = Inr ds" "devices w1 = ds"
        using w1(1) parsed by (auto simp: parse_status_def bindR_Inr_iff)
      ultimately show ?thesis using apply_all_reported [OF Cons.prems(1)] by simp
    qed
    then show ?thesis using Cons.IH [OF _ w1(2)] by simp
  qed
qed

lemma driver_construct_reported:
  assumes "driver_construct pp stoi (Some S) = Inr w"
  shows "devices_reported pp S (devices w)"
proof -
  obtain r where r: "open_driver pp stoi (Some S) driver_init = Inr (r, w)"
    using assms by (auto simp: driver_construct_def bindR_Inr_iff)
  let ?n = "get_number_of_ports stoi S"
  obtain k where count: "count_controllers S = Inr k"
    using r by (auto simp: open_driver_def bindR_Inr_iff Let_def split: if_splits)
  let ?w = "driver_init\<lparr>devices := replicate (nat ?n) virtual_device_init, number_of_controllers := k\<rparr>"
  have k: "(if k \<le> 0 then Inr (-1, ?w) else refresh_status pp S ?w) = Inr (r, w)"
    using r by (simp add: open_driver_def count Let_def split: if_splits)
  have "devices_reported pp S (replicate m virtual_device_init)" for m
    by (simp add: devices_reported_def device_reported_def)
  then show ?thesis
    using k refresh_reported [of pp S ?w] by (auto simp: refresh_status_def split: if_splits)
qed

text \<open>The port the driver hands out for a speed is one the kernel reported: some status line, of a hub
  of that speed, has its number and the status VDEV_ST_NULL. In particular a port of which no line
  was parsed is never handed out.\<close>

lemma free_port_reported_free:
  assumes "driver_construct pp stoi (Some S) = Inr w" "get_free_port speed w = Some port"
  shows "\<exists>s. status_line pp S s \<and> word_of_int (hs_port s) = port \<and> word_of_int (hs_sta s) = VDEV_ST_NULL \<and>
    (hs_hub s = ''hs'' \<longleftrightarrow> hub_of_speed speed = HUB_SPEED_HIGH)"
proof -
  obtain d where "find (\<lambda>d. vd_hub d = hub_of_speed speed \<and> vd_status d = VDEV_ST_NULL) (devices w) = Some d"
    "vd_port d = port"
    using assms(2) by (auto simp: get_free_port_def)
  then obtain i where d: "i < length (devices w)" "vd_hub d = hub_of_speed speed" "vd_status d = VDEV_ST_NULL"
    "vd_port d = port" and di: "d = devices w ! i"
    unfolding find_Some_iff by blast
  have "device_reported pp S i d"
    using driver_construct_reported [OF assms(1)] d(1) by (simp add: devices_reported_def di)
  moreover have "d \<noteq> virtual_device_init" using d(3) by (auto simp: virtual_device_init_def VDEV_ST_NULL_def)
  ultimately show ?thesis
    using d(2-4) unfolding device_reported_def
    by (elim disjE exE conjE) (force simp: update_virtual_device_def split: if_splits)+
qed

definition example_status :: "string \<Rightarrow> int \<Rightarrow> int \<Rightarrow> vhci_hcd_status" where
  "example_status hub port sta = \<lparr>hs_hub = hub, hs_port = port, hs_sta = sta, hs_spd = 0, hs_dev = 0,
     hs_sockfd = 0, hs_local_busid = ''0-0''\<rparr>"

definition example_parser :: status_parser where
  "example_parser text = (True, [], [example_status ''hs'' 0 6, example_status ''hs'' 1 4, example_status ''ss'' 2 4])"

definition example_sysfs :: sysfs where
  "example_sysfs = \<lparr>sy_attribute = (\<lambda>a. if a = ''nports'' then Some ''3'' else if a = ''status'' then Some ''x'' else None),
     sy_syspath = Some ''/sys/devices/platform/vhci_hcd.0'', sy_has_platform = True,
     sy_platform_entries = [''vhci_hcd.0'', ''power'']\<rparr>"

definition example_driver :: driver where
  "example_driver = \<lparr>devices = map (\<lambda>s. update_virtual_device s virtual_device_init)
       [example_status ''hs'' 0 6, example_status ''hs'' 1 4, example_status ''ss'' 2 4],
     number_of_controllers = 1, sysfs_writes = []\<rparr>"

lemma example_driver_constructed:
  "driver_construct example_parser (\<lambda>s. Some 3) (Some example_sysfs) = Inr example_driver"
  by (simp add: driver_construct_def open_driver_def get_number_of_ports_def example_sysfs_def count_controllers_def
      stem_def refresh_status_def status_attribute_def parse_status_def client_parse_status_def example_parser_def
      apply_status_def example_status_def example_driver_def driver_init_def numeral_3_eq_3
      update_virtual_device_all [of _ "update_virtual_device _ _" virtual_device_init])

lemma free_port_reported_free_witness:
  "\<exists>s. status_line example_parser example_sysfs s \<and> word_of_int (hs_port s) = (2 :: u8) \<and> hs_hub s \<noteq> ''hs''"
  using free_port_reported_free [OF example_driver_constructed, of USB_SPEED_SUPER 2]
  by (auto simp: get_free_port_def example_driver_def example_status_def update_virtual_device_def
      hub_of_speed_def VDEV_ST_NULL_def)

section \<open>Attaching\<close>

lemma attach_device_simps:
  "sy_syspath S = None \<Longrightarrow> attach_device S port fd i speed w = (-1, w)"
  "sy_syspath S = Some path \<Longrightarrow> fst (attach_device S port fd i speed w) = 0"
  by (simp_all add: attach_device_def)

definition attach_spins :: "sysfs \<Rightarrow> int \<Rightarrow> u32 \<Rightarrow> driver \<Rightarrow> bool" where
  "attach_spins S errno speed w \<longleftrightarrow> sy_syspath S = None \<and> errno = EBUSY \<and>
     (\<exists>s port. to_speed_enum (ucast speed) = Inr s \<and> get_free_port s w = Some port)"

lemma attach_round_spins: "attach_spins S errno speed w \<Longrightarrow> attach_round S errno fd speed i w = Inr w"
  by (auto simp: attach_spins_def attach_round_def attach_device_def)

lemma attach_round_ends: "\<not> attach_spins S errno speed w \<Longrightarrow> \<exists>r. attach_round S errno fd speed i w = Inl r"
  by (auto simp: attach_spins_def attach_round_def attach_device_def split: sum.splits option.splits)

lemma attach_spins_None:
  assumes "attach S errno fd speed i w = Some r"
  shows "\<not> attach_spins S errno speed w"
proof (rule attach.raw_induct [OF _ assms, where P = "\<lambda>S errno fd speed i w r. \<not> attach_spins S errno speed w"])
  fix f :: "sysfs \<Rightarrow> int \<Rightarrow> int \<Rightarrow> u32 \<Rightarrow> u8 \<Rightarrow> driver \<Rightarrow> driver res option"
    and S errno fd speed i w r
  assume IH: "\<And>S errno fd speed i w r. f S errno fd speed i w = Some r \<Longrightarrow> \<not> attach_spins S errno speed w"
    and step: "(case attach_round S errno fd speed i w of Inl r \<Rightarrow> Some r | Inr w' \<Rightarrow> f S errno fd speed i w') = Some r"
  show "\<not> attach_spins S errno speed w"
  proof
    assume spins: "attach_spins S errno speed w"
    then have "f S errno fd speed i w = Some r" using step by (simp add: attach_round_spins)
    from IH [OF this] spins show False by simp
  qed
qed

text \<open>C38: \<open>attach\<close> returns (or fails an assertion or throws) unless the controller has no sysfs path while
  \<open>errno\<close> is EBUSY and the device's speed and a free port are fine: in exactly that case it loops
  for ever, since nothing in the loop changes what it tests.\<close>

theorem attach_diverges_iff:
  "attach S errno fd speed i w = None \<longleftrightarrow>
    sy_syspath S = None \<and> errno = EBUSY \<and>
    (\<exists>s port. to_speed_enum (ucast speed) = Inr s \<and> get_free_port s w = Some port)"
proof -
  have "attach S errno fd speed i w = None \<longleftrightarrow> attach_spins S errno speed w"
  proof
    assume "attach_spins S errno speed w"
    then show "attach S errno fd speed i w = None"
      using attach_spins_None by (cases "attach S errno fd speed i w") blast+
  next
    assume none: "attach S errno fd speed i w = None"
    show "attach_spins S errno speed w"
    proof (rule ccontr)
      assume "\<not> attach_spins S errno speed w"
      then obtain r where "attach_round S errno fd speed i w = Inl r" using attach_round_ends by blast
      then show False using none by (simp add: attach.simps [of S])
    qed
  qed
  then show ?thesis by (simp add: attach_spins_def)
qed

text \<open>For a device of a supported speed, with a free port and a sysfs path, \<open>attach\<close> writes one line
  to the controller's \<open>attach\<close> file: port, socket, device number and speed, the latter at most
  USB_SPEED_SUPER.\<close>

lemma attach_writes_port:
  assumes "to_speed_enum (ucast speed) = Inr s" "get_free_port s w = Some port" "sy_syspath S = Some path"
  shows "attach S errno fd speed i w = Some (Inr (w\<lparr>sysfs_writes := sysfs_writes w @
    [(path @ ''/attach'', make_string [Arith (uint port), Arith fd, Arith (uint i),
       Arith (min 5 (uint (speed_value s)))])]\<rparr>))"
proof -
  have "uint (min (speed_value USB_SPEED_SUPER) (speed_value s)) = min 5 (uint (speed_value s))"
    by (cases s) (simp_all add: speed_value_def min_def word_le_def)
  moreover have "uint (ucast i :: u32) = uint i" using unsigned_less [of i, where 'a = int]
    by (simp add: unsigned_ucast_eq take_bit_int_eq_self)
  ultimately show ?thesis
    using assms by (simp add: attach.simps [of S] attach_round_def attach_device_def write_sysfs_attribute_def)
qed

lemma attach_writes_port_witness:
  "attach example_sysfs 0 7 0x0210 1 example_driver = Some (Inr (example_driver\<lparr>sysfs_writes :=
     [(''/sys/devices/platform/vhci_hcd.0/attach'', make_string [Arith 1, Arith 7, Arith 1, Arith 3])]\<rparr>))"
  using attach_writes_port [of "0x0210" USB_SPEED_HIGH example_driver 1 example_sysfs
      "''/sys/devices/platform/vhci_hcd.0''" 0 7 1]
  by (simp add: to_speed_enum_def get_free_port_def example_driver_def example_status_def update_virtual_device_def
      hub_of_speed_def VDEV_ST_NULL_def example_sysfs_def speed_value_def)

section \<open>What the kernel reports\<close>

lemma client_parse_kernel:
  assumes "\<forall>k\<in>set ks. kernel_port_ok k" "ks \<noteq> []" "CHR 0x0A \<notin> set header"
  shows "client_parse_status vhci_hcd_status_parser (header @ CHR 0x0A # concat (map kernel_line ks)) =
    (if \<forall>k\<in>set ks. decimal_devid k then Some (map read_port ks) else None)"
proof -
  have "dropWhile (\<lambda>c. c \<noteq> CHR 0x0A) (header @ CHR 0x0A # t) = CHR 0x0A # t" for t
    using assms(3) by (induction header) auto
  then have drop: "drop_first_line (header @ CHR 0x0A # t) = t" for t by (simp add: drop_first_line_def)
  show ?thesis
  proof (cases "\<forall>k\<in>set ks. decimal_devid k")
    case True
    then have "takeWhile decimal_devid ks = ks" "dropWhile decimal_devid ks = []"
      using takeWhile_eq_all_conv dropWhile_eq_Nil_conv by blast+
    from status_parser_kernel [OF assms(1), unfolded this]
    have "vhci_hcd_status_parser (concat (map kernel_line ks)) = (True, [], map read_port ks)"
      using assms(2) by simp
    then show ?thesis using True by (simp add: client_parse_status_def drop)
  next
    case False
    then have "dropWhile decimal_devid ks \<noteq> []" by (metis dropWhile_eq_Nil_conv)
    moreover have "\<forall>k\<in>set (dropWhile decimal_devid ks). kernel_port_ok k"
      using assms(1) set_dropWhileD by metis
    ultimately have "concat (map kernel_line (dropWhile decimal_devid ks)) \<noteq> []"
      using kernel_lines_head(3) by blast
    then show ?thesis using False
      by (simp only: client_parse_status_def drop status_parser_kernel [OF assms(1)] case_prod_conv simp_thms if_False)
  qed
qed

lemma apply_kernel_ports:
  assumes "\<forall>k\<in>set ks. kernel_port_ok k" "map kp_port ks = [length pre..<length pre + length ks]"
  shows "foldR apply_status (map read_port ks) (pre @ replicate (length ks) virtual_device_init) =
    Inr (pre @ map (\<lambda>k. update_virtual_device (read_port k) virtual_device_init) ks)"
  using assms
proof (induction ks arbitrary: pre)
  case (Cons k ks)
  let ?d = "update_virtual_device (read_port k) virtual_device_init"
  have ports: "kp_port k = length pre" "map kp_port ks = [length (pre @ [?d])..<length (pre @ [?d]) + length ks]"
    using Cons.prems by (simp_all add: upt_rec split: if_splits)
  have "kp_port k < 2 ^ 31" using Cons.prems(1) by (simp add: kernel_port_ok_def)
  then have "int (kp_port k) mod 2 ^ 64 = int (kp_port k)" by simp
  then have index: "nat (hs_port (read_port k) mod 2 ^ 64) = length pre"
    using ports(1) by (simp add: read_port_def)
  have "apply_status (read_port k) (pre @ replicate (length (k # ks)) virtual_device_init) =
      Inr ((pre @ [?d]) @ replicate (length ks) virtual_device_init)"
    unfolding apply_status_def index by simp
  then show ?case using Cons.IH [OF _ ports(2)] Cons.prems(1) by simp
qed simp

lemma kernel_driver_construct:
  assumes "\<forall>k\<in>set ks. kernel_port_ok k" "ks \<noteq> []" "CHR 0x0A \<notin> set header"
    and "sy_attribute S ''status'' = Some (header @ CHR 0x0A # concat (map kernel_line ks))"
    and "get_number_of_ports stoi S = int (length ks)" "count_controllers S = Inr 1"
    and "map kp_port ks = [0..<length ks]"
  shows "driver_construct vhci_hcd_status_parser stoi (Some S) = Inr (driver_init\<lparr>number_of_controllers := 1,
    devices := (if \<forall>k\<in>set ks. decimal_devid k
      then map (\<lambda>k. update_virtual_device (read_port k) virtual_device_init) ks
      else replicate (length ks) virtual_device_init)\<rparr>)"
  using assms(2,4-6) client_parse_kernel [OF assms(1-3)] apply_kernel_ports [of ks "[]"] assms(1,7)
  by (simp add: driver_construct_def open_driver_def refresh_status_def status_attribute_def parse_status_def
      driver_init_def)

lemma no_port_read:
  assumes "to_speed_enum (ucast speed) = Inr speed_enum" "devices w = replicate n virtual_device_init"
  shows "attach S errno fd speed i w = Some (Inl Assertion_Failed)"
proof -
  have "get_free_port speed_enum w = None"
    by (auto simp: get_free_port_def assms(2) find_None_iff virtual_device_init_def VDEV_ST_NULL_def)
  then show ?thesis using assms(1) by (simp add: attach.simps [of S] attach_round_def)
qed

text \<open>C39: What the driver makes of a status in the kernel's format: if the device identifiers happen to
  have decimal digits only it knows every port, with the identifier read as a decimal number. As soon as
  one identifier has a hexadecimal letter, as that of the device with number 10 has, no line counts, so
  no port is ever free and attaching a device fails its assertion, which ends the program.\<close>

theorem kernel_status_read:
  assumes "\<forall>k\<in>set ks. kernel_port_ok k" "ks \<noteq> []" "CHR 0x0A \<notin> set header"
    and "sy_attribute S ''status'' = Some (header @ CHR 0x0A # concat (map kernel_line ks))"
    and "get_number_of_ports stoi S = int (length ks)" "count_controllers S = Inr 1"
    and "map kp_port ks = [0..<length ks]"
  shows "\<exists>w. driver_construct vhci_hcd_status_parser stoi (Some S) = Inr w \<and>
    (if \<forall>k\<in>set ks. decimal_devid k
     then devices w = map (\<lambda>k. update_virtual_device (read_port k) virtual_device_init) ks
     else \<forall>errno fd speed i. (\<exists>s. to_speed_enum (ucast speed) = Inr s) \<longrightarrow>
       attach S errno fd speed i w = Some (Inl Assertion_Failed))"
proof -
  have w: "driver_construct vhci_hcd_status_parser stoi (Some S) = Inr (driver_init\<lparr>number_of_controllers := 1,
    devices := (if \<forall>k\<in>set ks. decimal_devid k
      then map (\<lambda>k. update_virtual_device (read_port k) virtual_device_init) ks
      else replicate (length ks) virtual_device_init)\<rparr>)"
    by (rule kernel_driver_construct) fact+
  show ?thesis
  proof (cases "\<forall>k\<in>set ks. decimal_devid k")
    case True
    then show ?thesis using w by simp
  next
    case False
    then show ?thesis using w no_port_read by (simp only: if_False) force
  qed
qed

definition example_port :: "nat \<Rightarrow> nat \<Rightarrow> nat \<Rightarrow> kernel_port" where
  "example_port n status devid = \<lparr>kp_hub = ''hs'', kp_port = n, kp_status = status, kp_speed = 0, kp_devid = devid,
     kp_sockfd = 0, kp_busid = ''0-0''\<rparr>"

definition kernel_sysfs :: "kernel_port list \<Rightarrow> sysfs" where
  "kernel_sysfs ks = \<lparr>sy_attribute = (\<lambda>a. if a = ''nports'' then Some (show_nat (length ks))
       else if a = ''status'' then Some (''hub port sta'' @ CHR 0x0A # concat (map kernel_line ks)) else None),
     sy_syspath = Some ''/sys/devices/platform/vhci_hcd.0'', sy_has_platform = True,
     sy_platform_entries = [''vhci_hcd.0'', ''power'']\<rparr>"

text \<open>The tenth device takes the first port of two, the second is free: it is not found.\<close>

lemma kernel_status_read_witness:
  "\<exists>w. driver_construct vhci_hcd_status_parser (\<lambda>s. Some 2) (Some (kernel_sysfs [example_port 0 6 10, example_port 1 4 0])) = Inr w \<and>
    attach (kernel_sysfs [example_port 0 6 10, example_port 1 4 0]) 0 7 0x0200 11 w = Some (Inl Assertion_Failed)"
proof -
  let ?ks = "[example_port 0 6 10, example_port 1 4 0]"
  have letter: "\<not> (\<forall>k\<in>set ?ks. decimal_devid k)"
    by (simp add: example_port_def decimal_devid_def show_hex.simps is_digit_def)
  have "\<exists>w. driver_construct vhci_hcd_status_parser (\<lambda>s. Some 2) (Some (kernel_sysfs ?ks)) = Inr w \<and>
    (if \<forall>k\<in>set ?ks. decimal_devid k
     then devices w = map (\<lambda>k. update_virtual_device (read_port k) virtual_device_init) ?ks
     else \<forall>errno fd speed i. (\<exists>s. to_speed_enum (ucast speed) = Inr s) \<longrightarrow>
       attach (kernel_sysfs ?ks) errno fd speed i w = Some (Inl Assertion_Failed))"
  proof (rule kernel_status_read)
    show "\<forall>k\<in>set ?ks. kernel_port_ok k" by (simp add: example_port_def kernel_port_ok_def word_char_def)
    show "get_number_of_ports (\<lambda>s. Some 2) (kernel_sysfs ?ks) = int (length ?ks)"
      by (simp add: get_number_of_ports_def kernel_sysfs_def)
    show "count_controllers (kernel_sysfs ?ks) = Inr 1"
      by (simp add: count_controllers_def kernel_sysfs_def stem_def)
    show "sy_attribute (kernel_sysfs ?ks) ''status'' = Some (''hub port sta'' @ CHR 0x0A # concat (map kernel_line ?ks))"
      by (simp add: kernel_sysfs_def)
    show "map kp_port ?ks = [0..<length ?ks]" by (simp add: example_port_def upt_rec)
  qed simp_all
  moreover have "to_speed_enum (ucast (0x0200 :: u32)) = Inr USB_SPEED_HIGH" by (simp add: to_speed_enum_def)
  ultimately show ?thesis using letter by (simp only: if_False) blast
qed

end
