(* ===== verification/Json_Model.thy ===== *)
theory Json_Model
  imports Descriptor_Tree
begin

text \<open>
  The JSON form of a device configuration (src/json/json.cppm, src/json/json_impl.cpp): the
  parser walks the values of a document and writes the text that \<open>streamer::in\<close> reads.

  \<open>boost::json::parse\<close> is not part of the sources: it is the parameter \<open>boost_parse\<close> of
  \<open>json_parse\<close>, and what it returns is a value of the datatype \<open>json\<close>, with the kinds that
  boost distinguishes. An object is the list of its members, whose keys boost keeps distinct.
  A member that is not there, or a value of another kind, makes \<open>at\<close> and \<open>as_array\<close> throw
  (\<open>json_error\<close>, a \<open>runtime_error\<close>).

  The text is written as the walk goes, so that an exception leaves what was written before
  it: a step is the text it appends and the result it ends with (\<open>emit\<close>).
\<close>

section \<open>JSON values\<close>

datatype json =
    JNull
  | JBool bool
  | JInt64 int
  | JUInt64 nat
  | JDouble
  | JString string
  | JArray "json list"
  | JObject "(string \<times> json) list"

type_synonym jobject = "(string \<times> json) list"

definition json_error :: exn where
  "json_error = Runtime_Error ''json''"

definition contains_key :: "jobject \<Rightarrow> string \<Rightarrow> bool" where
  "contains_key jobj key \<longleftrightarrow> map_of jobj key \<noteq> None"

definition obj_at :: "jobject \<Rightarrow> string \<Rightarrow> json res" where
  "obj_at jobj key = (case map_of jobj key of None \<Rightarrow> Inl json_error | Some v \<Rightarrow> Inr v)"

fun as_object :: "json \<Rightarrow> jobject res" where
  "as_object (JObject ms) = Inr ms"
| "as_object v = Inl json_error"

fun as_array :: "json \<Rightarrow> json list res" where
  "as_array (JArray vs) = Inr vs"
| "as_array v = Inl json_error"

fun as_string :: "json \<Rightarrow> string res" where
  "as_string (JString s) = Inr s"
| "as_string v = Inl json_error"

fun is_array :: "json \<Rightarrow> bool" where
  "is_array (JArray vs) = True"
| "is_array v = False"

definition value_at :: "json \<Rightarrow> string \<Rightarrow> json res" where
  "value_at v key = bindR (as_object v) (\<lambda>ms. obj_at ms key)"

definition obj_at_object :: "jobject \<Rightarrow> string \<Rightarrow> jobject res" where
  "obj_at_object jobj key = bindR (obj_at jobj key) as_object"

definition obj_at_array :: "jobject \<Rightarrow> string \<Rightarrow> json list res" where
  "obj_at_array jobj key = bindR (obj_at jobj key) as_array"

section \<open>Numbers\<close>

text \<open>
  \<open>std::stoul(s, nullptr, 0)\<close>: leading blanks and a sign are skipped, \<open>0x\<close> followed by a
  hexadecimal digit starts base 16, another leading \<open>0\<close> base 8, a digit base 10; what follows
  the digits is ignored. No digits throw \<open>std::invalid_argument\<close>, a magnitude that does not
  fit 64 bits \<open>std::out_of_range\<close>; a minus sign negates modulo \<open>2 ^ 64\<close>.
\<close>

fun read_octal :: "nat \<Rightarrow> string \<Rightarrow> nat" where
  "read_octal acc [] = acc"
| "read_octal acc (c # cs) =
     (let n = of_char c :: nat
      in if 48 \<le> n \<and> n \<le> 55 then read_octal (8 * acc + (n - 48)) cs else acc)"

fun stoul_magnitude :: "string \<Rightarrow> nat option" where
  "stoul_magnitude [] = None"
| "stoul_magnitude (c # cs) =
     (if c = CHR ''0'' then
        (case cs of
           x # d # ds \<Rightarrow>
             if (x = CHR ''x'' \<or> x = CHR ''X'') \<and> hex_digit d \<noteq> None
             then Some (fst (read_hex 0 (d # ds))) else Some (read_octal 0 cs)
         | _ \<Rightarrow> Some (read_octal 0 cs))
      else if is_digit c then Some (fst (read_nat 0 (c # cs)))
      else None)"

definition stoul0 :: "string \<Rightarrow> nat res" where
  "stoul0 s =
     (let t = dropWhile is_space s;
          negative = (t \<noteq> [] \<and> hd t = CHR ''-'');
          digits = (if t \<noteq> [] \<and> (hd t = CHR ''-'' \<or> hd t = CHR ''+'') then tl t else t)
      in case stoul_magnitude digits of
           None \<Rightarrow> Inl Invalid_Argument
         | Some v \<Rightarrow>
             if 2 ^ 64 \<le> v then Inl Out_Of_Range
             else Inr (if negative then (2 ^ 64 - v) mod 2 ^ 64 else v))"

fun read_u32_value :: "json \<Rightarrow> u32 res" where
  "read_u32_value (JInt64 i) = Inr (word_of_int i)"
| "read_u32_value (JString s) = bindR (stoul0 s) (\<lambda>n. Inr (of_nat n))"
| "read_u32_value v = Inl (Runtime_Error ''Expected int or hex string'')"

definition read_u32_key :: "jobject \<Rightarrow> string \<Rightarrow> u32 res" where
  "read_u32_key jobj key =
     (case map_of jobj key of Some v \<Rightarrow> read_u32_value v | None \<Rightarrow> Inr 0)"

section \<open>Writing\<close>

type_synonym 'a emit = "string \<times> 'a res"

definition liftE :: "'a res \<Rightarrow> 'a emit" where
  "liftE r = ([], r)"

definition bindE :: "'a emit \<Rightarrow> ('a \<Rightarrow> 'b emit) \<Rightarrow> 'b emit" where
  "bindE m f = (case snd m of Inl e \<Rightarrow> (fst m, Inl e)
                            | Inr x \<Rightarrow> (fst m @ fst (f x), snd (f x)))"

lemma bindE_lift [simp]: "bindE (liftE (Inr x)) f = f x"
  by (simp add: bindE_def liftE_def)

primrec seqE :: "unit emit list \<Rightarrow> unit emit" where
  "seqE [] = liftE (Inr ())"
| "seqE (m # ms) = bindE m (\<lambda>_. seqE ms)"

definition mapE :: "('a \<Rightarrow> unit emit) \<Rightarrow> 'a list \<Rightarrow> unit emit" where
  "mapE f xs = seqE (map f xs)"

definition write_num :: "u32 \<Rightarrow> unit emit" where
  "write_num v = (show_nat (unat v) @ '' '', Inr ())"

definition write_read :: "json \<Rightarrow> unit emit" where
  "write_read v = bindE (liftE (read_u32_value v)) write_num"

definition write_key :: "jobject \<Rightarrow> string \<Rightarrow> unit emit" where
  "write_key jobj key = bindE (liftE (read_u32_key jobj key)) write_num"

definition write_size :: "'a list \<Rightarrow> unit emit" where
  "write_size xs = write_num (of_nat (length xs))"

definition write_da :: "json list \<Rightarrow> unit emit" where
  "write_da a = mapE write_read a"

section \<open>The parser\<close>

definition companion_key :: string where "companion_key = ''Endpoint Companion''"
definition extra_key :: string where "extra_key = ''daExtra''"

definition write_companion :: "jobject \<Rightarrow> unit emit" where
  "write_companion jobj =
     bindE (liftE (obj_at_object jobj companion_key)) (\<lambda>ec.
     seqE [write_key ec ''bLength'', write_key ec ''bDescriptorType'', write_key ec ''bMaxBurst'',
       write_key ec ''bmAttributes'',
       bindE (liftE (read_u32_key ec ''wBytesPerInterval'')) (\<lambda>v.
         let wBytes = ucast v :: u16
         in seqE [write_num (ucast wBytes AND 0xFF), write_num (drop_bit 8 (ucast wBytes) AND 0xFF)])])"

definition json_build_extra :: "jobject \<Rightarrow> unit emit" where
  "json_build_extra jobj =
     bindE (liftE (if contains_key jobj extra_key
       then bindR (obj_at_array jobj extra_key) (\<lambda>extra. Inr (of_nat (length extra))) else Inr 0)) (\<lambda>size.
     let total_bytes = (if contains_key jobj companion_key then 6 else 0) + size :: u32
     in if total_bytes \<noteq> 0 then
          seqE [write_num total_bytes,
            if contains_key jobj companion_key then write_companion jobj else seqE [],
            if contains_key jobj extra_key
              then bindE (liftE (obj_at_array jobj extra_key)) write_da else seqE []]
        else write_num 0)"

definition json_build_endpoint :: "jobject \<Rightarrow> unit emit" where
  "json_build_endpoint ep =
     bindE (liftE (obj_at_object ep ''Endpoint Descriptor'')) (\<lambda>d.
     seqE [write_key d ''bLength'', write_key d ''bDescriptorType'', write_key d ''bEndpointAddress'',
       write_key d ''bmAttributes'', write_key d ''wMaxPacketSize'', write_key d ''bInterval'',
       write_key d ''bRefresh'', write_key d ''bSynchAddress'',
       json_build_extra ep])"

definition json_build_interface :: "jobject \<Rightarrow> unit emit" where
  "json_build_interface iface =
     bindE (liftE (obj_at_object iface ''Interface Descriptor'')) (\<lambda>iface_desc.
     seqE [write_key iface_desc ''bLength'', write_key iface_desc ''bDescriptorType'',
       write_key iface_desc ''bInterfaceNumber'', write_key iface_desc ''bAlternateSetting'',
       write_key iface_desc ''bNumEndpoints'', write_key iface_desc ''bInterfaceClass'',
       write_key iface_desc ''bInterfaceSubClass'', write_key iface_desc ''bInterfaceProtocol'',
       write_key iface_desc ''iInterface'',
       bindE (liftE (obj_at_array iface_desc ''aofEndpoints'')) (\<lambda>eps.
         seqE [write_size eps,
           mapE (\<lambda>ep. bindE (liftE (as_object ep)) json_build_endpoint) eps]),
       json_build_extra iface_desc])"

definition json_build_altsetting :: "json \<Rightarrow> unit emit" where
  "json_build_altsetting alt =
     bindE (liftE (bindR (value_at alt ''aofInterfaces'') as_array)) (\<lambda>ifs.
     seqE [write_size ifs,
       mapE (\<lambda>iface. bindE (liftE (as_object iface)) json_build_interface) ifs])"

definition json_build_configuration :: "jobject \<Rightarrow> unit emit" where
  "json_build_configuration cfg =
     bindE (liftE (obj_at_object cfg ''Configuration Descriptor'')) (\<lambda>config_desc.
     seqE [write_key config_desc ''bLength'', write_key config_desc ''bDescriptorType'',
       write_key config_desc ''wTotalLength'', write_key config_desc ''bNumInterfaces'',
       write_key config_desc ''bConfigurationValue'', write_key config_desc ''iConfiguration'',
       write_key config_desc ''bmAttributes'', write_key config_desc ''MaxPower'',
       bindE (liftE (obj_at_array config_desc ''aofAltsettings'')) (\<lambda>alts.
         seqE [write_size alts, mapE json_build_altsetting alts]),
       json_build_extra cfg])"

definition json_build_string :: "json \<Rightarrow> unit emit" where
  "json_build_string s =
     bindE (liftE (bindR (value_at s ''StringDescriptor'') as_object)) (\<lambda>string_desc.
     seqE [write_key string_desc ''bLength'', write_key string_desc ''bLength'',
       write_key string_desc ''bDescriptorType'',
       bindE (liftE (obj_at string_desc ''string'')) (\<lambda>str.
         if is_array str then bindE (liftE (as_array str)) (mapE write_read)
         else bindE (liftE (as_string str))
           (mapE (\<lambda>c. seqE [write_num (of_nat (of_char c)), write_num 0])))])"

definition json_build_language :: "json \<Rightarrow> unit emit" where
  "json_build_language lang =
     bindE (liftE (value_at lang ''wLanguageId'')) (\<lambda>lang_id.
     seqE [if is_array lang_id then bindE (liftE (as_array lang_id)) write_da else write_read lang_id,
       bindE (liftE (bindR (value_at lang ''aofStrings'') as_array)) (\<lambda>strings.
         seqE [write_size strings, mapE json_build_string strings])])"

definition json_build_string_descriptors :: "jobject \<Rightarrow> unit emit" where
  "json_build_string_descriptors dev =
     bindE (liftE (obj_at_array dev ''aofStringDescriptors'')) (\<lambda>langs.
     seqE [write_size langs, mapE json_build_language langs])"

text \<open>The bytes \<open>(v >> 8 * i) & 0xFF\<close> for \<open>i\<close> below \<open>n\<close>.\<close>

definition write_bytes :: "nat \<Rightarrow> u32 \<Rightarrow> unit emit" where
  "write_bytes n v = mapE (\<lambda>i. write_num (drop_bit (8 * i) v AND 0xFF)) [0..<n]"

definition json_build_dev_cap_data :: "jobject \<Rightarrow> u32 \<Rightarrow> unit emit" where
  "json_build_dev_cap_data c dev_cap_type =
     (if dev_cap_type = 2 \<and> contains_key c ''USB 2.0 Extension'' then
        bindE (liftE (obj_at_object c ''USB 2.0 Extension'')) (\<lambda>usb2_ext.
        bindE (liftE (read_u32_key usb2_ext ''bmAttributes'')) (\<lambda>bm_attr.
        seqE [write_num 4, write_bytes 4 bm_attr]))
      else if dev_cap_type = 3 \<and> contains_key c ''SuperSpeed USB'' then
        bindE (liftE (obj_at_object c ''SuperSpeed USB'')) (\<lambda>ss_usb.
        bindE (liftE (read_u32_key ss_usb ''bmAttributes'')) (\<lambda>bm_attr.
        bindE (liftE (read_u32_key ss_usb ''wSpeedSupported'')) (\<lambda>w_speed.
        bindE (liftE (read_u32_key ss_usb ''bFunctionalitySupport'')) (\<lambda>b_func.
        bindE (liftE (read_u32_key ss_usb ''bU1DevExitLat'')) (\<lambda>b_u1_lat.
        bindE (liftE (read_u32_key ss_usb ''bU2DevExitLat'')) (\<lambda>w_u2_lat.
        seqE [write_num 7, write_bytes 1 bm_attr, write_bytes 2 w_speed, write_bytes 1 b_func,
          write_bytes 1 b_u1_lat, write_bytes 2 w_u2_lat]))))))
      else if contains_key c ''daDevCapability'' then
        bindE (liftE (obj_at_array c ''daDevCapability'')) (\<lambda>d. seqE [write_size d, write_da d])
      else write_num 0)"

definition json_build_dev_cap :: "json \<Rightarrow> unit emit" where
  "json_build_dev_cap cap =
     bindE (liftE (as_object cap)) (\<lambda>c.
     seqE [write_key c ''bLength'', write_key c ''bDescriptorType'',
       bindE (liftE (read_u32_key c ''bDevCapabilityType'')) (\<lambda>dev_cap_type.
         seqE [write_num dev_cap_type, json_build_dev_cap_data c dev_cap_type])])"

definition json_build_bos :: "jobject \<Rightarrow> unit emit" where
  "json_build_bos bos =
     seqE [write_key bos ''bLength'', write_key bos ''bDescriptorType'', write_key bos ''wTotalLength'',
       write_key bos ''bNumDeviceCaps'',
       bindE (liftE (obj_at_array bos ''aofDeviceCaps'')) (\<lambda>caps.
         seqE [write_size caps, mapE json_build_dev_cap caps])]"

text \<open>\<open>as_array()[0]\<close> does not check its index: on an empty array it is undefined behaviour.\<close>

definition first_element :: "json list \<Rightarrow> json res" where
  "first_element vs = (case vs of [] \<Rightarrow> Inl Undefined_Behaviour | v # _ \<Rightarrow> Inr v)"

definition json_build_descriptor :: "(string \<Rightarrow> json res) \<Rightarrow> string \<Rightarrow> unit emit" where
  "json_build_descriptor boost_parse data =
     bindE (liftE (boost_parse data)) (\<lambda>root.
     bindE (liftE (bindR (bindR (bindR (value_at root ''aofDevices'') as_array) first_element) as_object)) (\<lambda>dev.
     bindE (liftE (obj_at_object dev ''Device Descriptor'')) (\<lambda>dd.
     seqE [write_key dd ''bLength'', write_key dd ''bDescriptorType'', write_key dd ''bcdUSB'',
       write_key dd ''bDeviceClass'', write_key dd ''bDeviceSubClass'', write_key dd ''bDeviceProtocol'',
       write_key dd ''bMaxPacketSize0'', write_key dd ''idVendor'', write_key dd ''idProduct'',
       write_key dd ''bcdDevice'', write_key dd ''iManufacturer'', write_key dd ''iProduct'',
       write_key dd ''iSerial'', write_key dd ''bNumConfigurations'',
       bindE (liftE (obj_at_array dd ''aofConfigurations''))
         (mapE (\<lambda>cfg. bindE (liftE (as_object cfg)) json_build_configuration)),
       json_build_string_descriptors dev,
       bindE (liftE (obj_at_array dev ''daReportDescriptor'')) (\<lambda>report.
         seqE [write_size report, write_da report]),
       bindE (liftE (obj_at_object dev ''BOS Descriptor'')) json_build_bos])))"

definition json_parse :: "(string \<Rightarrow> json res) \<Rightarrow> string \<Rightarrow> string emit" where
  "json_parse boost_parse data =
     bindE (json_build_descriptor boost_parse data) (\<lambda>_.
     liftE (Inr (fst (json_build_descriptor boost_parse data))))"

text \<open>
  \<open>in::from_json\<close>: a file that does not open reads as the empty string, an exception is
  printed and swallowed, and the stream holds what was written.
\<close>

definition from_json :: "(string \<Rightarrow> json res) \<Rightarrow> string option \<Rightarrow> string res" where
  "from_json boost_parse file =
     (case json_parse boost_parse (case file of None \<Rightarrow> [] | Some data \<Rightarrow> data) of
        (text, result) \<Rightarrow> if result = Inl Undefined_Behaviour then Inl Undefined_Behaviour else Inr text)"

end
