(* ===== verification/Json_Properties.thy ===== *)
theory Json_Properties
  imports Json_Model Tree_Properties
begin

text \<open>
  What the JSON parser guarantees. \<open>tree_json\<close> is the document that describes a device
  configuration, the way the schemas under src/json/schema lay it out: numbers in either of the
  two forms the schema allows (the locale \<open>json_number\<close>), companion and capability objects
  where the bytes have their layout, text where a string descriptor holds characters. The
  parser turns it into exactly the text that \<open>tree::save\<close> writes.
\<close>

section \<open>What a walk writes\<close>

definition emits :: "unit emit \<Rightarrow> string \<Rightarrow> bool" where
  "emits m w \<longleftrightarrow> m = (w, Inr ())"

lemma emits_Nil: "emits (seqE []) []"
  by (simp add: emits_def liftE_def)

lemma emits_Cons: "emits m w \<Longrightarrow> emits (seqE ms) ws \<Longrightarrow> emits (seqE (m # ms)) (w @ ws)"
  by (simp add: emits_def bindE_def)

lemma emits_lift: "emits (f x) w \<Longrightarrow> emits (bindE (liftE (Inr x)) f) w"
  by (simp add: emits_def bindE_def liftE_def)

lemma emits_map:
  "(\<And>x. x \<in> set xs \<Longrightarrow> emits (f x) (g x)) \<Longrightarrow> emits (mapE f xs) (concat (map g xs))"
  unfolding mapE_def by (induction xs) (simp_all add: emits_Nil emits_Cons del: seqE.simps)

lemma emits_num: "unat v = n \<Longrightarrow> emits (write_num v) (show_nat n @ '' '')"
  by (simp add: emits_def write_num_def)

lemma emits_size: "length xs < 2 ^ 32 \<Longrightarrow> emits (write_size xs) (out_size (length xs))"
  unfolding write_size_def out_size_def by (rule emits_num) (rule unat_u32_of_nat)

lemma emits_byte: "emits (write_num (ucast (b :: u8))) (out_u8 b)"
proof -
  have "unat b < 2 ^ 32" using unsigned_less [of b, where 'a=nat] by simp
  then show ?thesis unfolding out_u8_def
    by (intro emits_num) (simp add: unsigned_ucast_eq take_bit_nat_eq_self)
qed

lemma byte_of_number: "drop_bit n (v :: u32) AND 0xFF = ucast (ucast (drop_bit n v) :: u8)"
proof -
  have "drop_bit n v AND 0xFF = take_bit 8 (drop_bit n v)"
    by (simp add: take_bit_eq_mask mask_eq_exp_minus_1)
  also have "\<dots> = ucast (ucast (drop_bit n v) :: u8)"
    by (rule bit_word_eqI) (auto simp: bit_simps)
  finally show ?thesis .
qed

lemma emits_bytes: "emits (write_bytes n v) (concat (map out_u8 (le_bytes n v)))"
proof -
  have "le_bytes n v = map (\<lambda>i. ucast (drop_bit (8 * i) v)) [0..<n]"
    by (rule nth_equalityI) (simp_all add: le_bytes_nth)
  then have "concat (map out_u8 (le_bytes n v)) =
      concat (map (\<lambda>i. out_u8 (ucast (drop_bit (8 * i) v))) [0..<n])" by (simp add: comp_def)
  then show ?thesis
    unfolding write_bytes_def by (simp only:) (rule emits_map, simp only: byte_of_number emits_byte)
qed

lemma emits_le:
  assumes "length bs = n" "n \<le> 4"
  shows "emits (write_bytes n (of_nat (from_le bs))) (concat (map out_u8 bs))"
  using emits_bytes [of n "of_nat (from_le bs)"] assms by (simp add: le_bytes_of_from_le)

lemma emits_two: "emits (write_bytes 2 (of_nat (from_le [x, y]))) (out_u8 x @ out_u8 y)"
  using emits_le [of "[x, y]" 2] by simp

lemma ucast_small:
  assumes "n < 2 ^ 16"
  shows "ucast (ucast (of_nat n :: u32) :: u16) = (of_nat n :: u32)"
proof (rule word_unat_eq_iff [THEN iffD2])
  have "n < 2 ^ 32" by (rule less_trans [OF assms]) simp
  with assms show "unat (ucast (ucast (of_nat n :: u32) :: u16) :: u32) = unat (of_nat n :: u32)"
    by (simp add: unsigned_ucast_eq unsigned_of_nat take_bit_nat_eq_self)
qed

section \<open>The document of a configuration\<close>

type_synonym number_form = "nat \<Rightarrow> json"

definition byte_json :: "number_form \<Rightarrow> u8 \<Rightarrow> json" where
  "byte_json num b = num (unat b)"

definition half_json :: "number_form \<Rightarrow> u16 \<Rightarrow> json" where
  "half_json num b = num (unat b)"

definition bytes_json :: "number_form \<Rightarrow> bytes \<Rightarrow> json" where
  "bytes_json num bs = JArray (map (byte_json num) bs)"

definition has_companion :: "bytes \<Rightarrow> bool" where
  "has_companion e \<longleftrightarrow> 6 \<le> length e \<and> e ! 0 = 6 \<and> e ! 1 = 48"

definition companion_json :: "number_form \<Rightarrow> bytes \<Rightarrow> json" where
  "companion_json num e = JObject
     [(''bLength'', byte_json num (e ! 0)), (''bDescriptorType'', byte_json num (e ! 1)),
      (''bMaxBurst'', byte_json num (e ! 2)), (''bmAttributes'', byte_json num (e ! 3)),
      (''wBytesPerInterval'', num (from_le [e ! 4, e ! 5]))]"

definition endpoint_extra_json :: "number_form \<Rightarrow> bytes \<Rightarrow> jobject" where
  "endpoint_extra_json num e =
     (if has_companion e
      then [(companion_key, companion_json num e), (extra_key, bytes_json num (drop 6 e))]
      else [(extra_key, bytes_json num e)])"

definition endpoint_json :: "number_form \<Rightarrow> endpoint \<Rightarrow> json" where
  "endpoint_json num ep = (let d = wrapped_value ep in JObject
     ((''Endpoint Descriptor'', JObject
        [(''bLength'', byte_json num (ed_bLength d)),
         (''bDescriptorType'', byte_json num (ed_bDescriptorType d)),
         (''bEndpointAddress'', byte_json num (ed_bEndpointAddress d)),
         (''bmAttributes'', byte_json num (ed_bmAttributes d)),
         (''wMaxPacketSize'', half_json num (ed_wMaxPacketSize d)),
         (''bInterval'', byte_json num (ed_bInterval d)),
         (''bRefresh'', byte_json num (ed_bRefresh d)),
         (''bSynchAddress'', byte_json num (ed_bSynchAddress d))]) #
      endpoint_extra_json num (extra_vector ep)))"

definition interface_json :: "number_form \<Rightarrow> iface \<Rightarrow> json" where
  "interface_json num i = (let d = wrapped_value i in JObject
     [(''Interface Descriptor'', JObject
        [(''bLength'', byte_json num (id_bLength d)),
         (''bDescriptorType'', byte_json num (id_bDescriptorType d)),
         (''bInterfaceNumber'', byte_json num (id_bInterfaceNumber d)),
         (''bAlternateSetting'', byte_json num (id_bAlternateSetting d)),
         (''bNumEndpoints'', byte_json num (id_bNumEndpoints d)),
         (''bInterfaceClass'', byte_json num (id_bInterfaceClass d)),
         (''bInterfaceSubClass'', byte_json num (id_bInterfaceSubClass d)),
         (''bInterfaceProtocol'', byte_json num (id_bInterfaceProtocol d)),
         (''iInterface'', byte_json num (id_iInterface d)),
         (''aofEndpoints'', JArray (map (endpoint_json num) (read_vector key_ep i))),
         (extra_key, bytes_json num (extra_vector i))])])"

definition altsetting_json :: "number_form \<Rightarrow> usb_interface \<Rightarrow> json" where
  "altsetting_json num u = JObject
     [(''aofInterfaces'', JArray (map (interface_json num) (read_vector key_altsetting u)))]"

definition config_json :: "number_form \<Rightarrow> config \<Rightarrow> json" where
  "config_json num c = (let d = wrapped_value c in JObject
     [(''Configuration Descriptor'', JObject
        [(''bLength'', byte_json num (cd_bLength d)),
         (''bDescriptorType'', byte_json num (cd_bDescriptorType d)),
         (''wTotalLength'', half_json num (cd_wTotalLength d)),
         (''bNumInterfaces'', byte_json num (cd_bNumInterfaces d)),
         (''bConfigurationValue'', byte_json num (cd_bConfigurationValue d)),
         (''iConfiguration'', byte_json num (cd_iConfiguration d)),
         (''bmAttributes'', byte_json num (cd_bmAttributes d)),
         (''MaxPower'', byte_json num (cd_MaxPower d)),
         (''aofAltsettings'', JArray (map (altsetting_json num) (read_vector key_interface c)))]),
      (extra_key, bytes_json num (extra_vector c))])"

fun character_text :: "bytes \<Rightarrow> string option" where
  "character_text [] = Some []"
| "character_text [b] = None"
| "character_text (b # z # bs) =
     (if z = 0 then map_option (Cons (char_of (unat b))) (character_text bs) else None)"

definition string_json :: "number_form \<Rightarrow> bytes \<Rightarrow> json" where
  "string_json num v = JObject [(''StringDescriptor'', JObject
     [(''bLength'', byte_json num (v ! 0)), (''bDescriptorType'', byte_json num (v ! 1)),
      (''string'', case character_text (drop 2 v) of Some s \<Rightarrow> JString s
                   | None \<Rightarrow> bytes_json num (drop 2 v))])]"

definition language_json :: "number_form \<Rightarrow> u16 \<times> bytes list \<Rightarrow> json" where
  "language_json num e = JObject
     [(''wLanguageId'', half_json num (fst e)),
      (''aofStrings'', JArray (map (string_json num) (snd e)))]"

definition capability_json :: "number_form \<Rightarrow> bos_dev_capability \<Rightarrow> json" where
  "capability_json num c =
     (let d = wrapped_value c; data = read_vector key_dev_capability_data c in JObject
     [(''bLength'', byte_json num (dc_bLength d)),
      (''bDescriptorType'', byte_json num (dc_bDescriptorType d)),
      (''bDevCapabilityType'', byte_json num (dc_bDevCapabilityType d)),
      if dc_bDevCapabilityType d = 2 \<and> length data = 4
      then (''USB 2.0 Extension'', JObject [(''bmAttributes'', num (from_le data))])
      else if dc_bDevCapabilityType d = 3 \<and> length data = 7
      then (''SuperSpeed USB'', JObject
        [(''bmAttributes'', byte_json num (data ! 0)),
         (''wSpeedSupported'', num (from_le [data ! 1, data ! 2])),
         (''bFunctionalitySupport'', byte_json num (data ! 3)),
         (''bU1DevExitLat'', byte_json num (data ! 4)),
         (''bU2DevExitLat'', num (from_le [data ! 5, data ! 6]))])
      else (''daDevCapability'', bytes_json num data)])"

definition bos_json :: "number_form \<Rightarrow> bos \<Rightarrow> json" where
  "bos_json num b = (let d = wrapped_value b in JObject
     [(''bLength'', byte_json num (bd_bLength d)),
      (''bDescriptorType'', byte_json num (bd_bDescriptorType d)),
      (''wTotalLength'', half_json num (bd_wTotalLength d)),
      (''bNumDeviceCaps'', byte_json num (bd_bNumDeviceCaps d)),
      (''aofDeviceCaps'', JArray (map (capability_json num) (read_vector key_dev_capability b)))])"

definition device_json :: "number_form \<Rightarrow> device_descriptor \<Rightarrow> config \<Rightarrow> json" where
  "device_json num d c = JObject
     [(''bLength'', byte_json num (dd_bLength d)),
      (''bDescriptorType'', byte_json num (dd_bDescriptorType d)),
      (''bcdUSB'', half_json num (dd_bcdUSB d)),
      (''bDeviceClass'', byte_json num (dd_bDeviceClass d)),
      (''bDeviceSubClass'', byte_json num (dd_bDeviceSubClass d)),
      (''bDeviceProtocol'', byte_json num (dd_bDeviceProtocol d)),
      (''bMaxPacketSize0'', byte_json num (dd_bMaxPacketSize0 d)),
      (''idVendor'', half_json num (dd_idVendor d)),
      (''idProduct'', half_json num (dd_idProduct d)),
      (''bcdDevice'', half_json num (dd_bcdDevice d)),
      (''iManufacturer'', byte_json num (dd_iManufacturer d)),
      (''iProduct'', byte_json num (dd_iProduct d)),
      (''iSerial'', byte_json num (dd_iSerialNumber d)),
      (''bNumConfigurations'', byte_json num (dd_bNumConfigurations d)),
      (''aofConfigurations'', JArray [config_json num c])]"

definition tree_json :: "number_form \<Rightarrow> tree \<Rightarrow> json" where
  "tree_json num t = JObject [(''aofDevices'', JArray [JObject
     [(''Device Descriptor'', device_json num (device_desc t) (wrapped_config_desc t)),
      (''aofStringDescriptors'', JArray (map (language_json num) (string_descs t))),
      (''daReportDescriptor'', bytes_json num (report_desc t)),
      (''BOS Descriptor'', bos_json num (wrapped_bos_desc t))]])]"

text \<open>
  The trees a document can describe: the parser counts in 32 bits, and it writes \<open>bLength\<close> as
  the number of bytes of a string descriptor, so a string descriptor must say its own length.
\<close>

definition fits_descriptor :: "('v \<Rightarrow> bool) \<Rightarrow> ('w, 'v) basic_descriptor \<Rightarrow> bool" where
  "fits_descriptor fits_e d \<longleftrightarrow> length (extra_vector d) < 2 ^ 32 \<and>
     list_all (\<lambda>p. length (me_vec p) < 2 ^ 32 \<and> list_all fits_e (me_vec p)) (vectors d)"

definition string_has_length :: "bytes \<Rightarrow> bool" where
  "string_has_length v \<longleftrightarrow> 2 \<le> length v \<and> unat (v ! 0) = length v"

definition json_fits :: "tree \<Rightarrow> bool" where
  "json_fits t \<longleftrightarrow>
     fits_descriptor (fits_descriptor (fits_descriptor (fits_descriptor (\<lambda>_. True))))
       (wrapped_config_desc t) \<and>
     fits_descriptor (fits_descriptor (\<lambda>_. True)) (wrapped_bos_desc t) \<and>
     length (report_desc t) < 2 ^ 32 \<and> length (string_descs t) < 2 ^ 32 \<and>
     list_all (\<lambda>e. length (snd e) < 2 ^ 32 \<and> list_all string_has_length (snd e)) (string_descs t)"

text \<open>A descriptor with one vector, written and sized through \<open>read_vector\<close>.\<close>

lemma one_vector:
  assumes "wf_descriptor wr ex w0 [key] ok d"
  shows "descriptor_stream_out wr ex ms e_out d =
      (if wr = With_Wrapped then stream_out_described ms (wrapped_value d) else []) @
      out_vector e_out (read_vector key d) @ (if ex = With_Extra then stream_out_extra d else [])"
    and "\<forall>x\<in>set (read_vector key d). ok x"
    and "fits_descriptor fits_e d \<Longrightarrow> length (read_vector key d) < 2 ^ 32 \<and>
      (\<forall>x\<in>set (read_vector key d). fits_e x) \<and> length (extra_vector d) < 2 ^ 32"
proof -
  from assms have "plugin_shape (vectors d) = [((), key)]" by (simp add: wf_descriptor_def)
  then obtain vs where v: "vectors d = one_entry key vs" by (rule one_entry_shape)
  show "descriptor_stream_out wr ex ms e_out d =
      (if wr = With_Wrapped then stream_out_described ms (wrapped_value d) else []) @
      out_vector e_out (read_vector key d) @ (if ex = With_Extra then stream_out_extra d else [])"
    by (simp add: descriptor_stream_out_def for_each_out_def v out_vector_def read_vector_def)
  show "\<forall>x\<in>set (read_vector key d). ok x"
    using assms by (simp add: wf_descriptor_def v read_vector_def list_all_iff)
  show "fits_descriptor fits_e d \<Longrightarrow> length (read_vector key d) < 2 ^ 32 \<and>
      (\<forall>x\<in>set (read_vector key d). fits_e x) \<and> length (extra_vector d) < 2 ^ 32"
    by (simp add: fits_descriptor_def v read_vector_def list_all_iff)
qed

text \<open>The characters of a string descriptor and the bytes they stand for.\<close>

lemma character_text_bytes:
  "character_text data = Some s \<Longrightarrow> data = concat (map (\<lambda>c. [of_nat (of_char c), 0]) s)"
proof (induction data arbitrary: s rule: character_text.induct)
  case (3 b z bs)
  then obtain s' where "character_text bs = Some s'" "z = 0" "s = char_of (unat b) # s'"
    by (auto split: if_splits)
  moreover have "(of_nat (of_char (char_of (unat b)) :: nat) :: u8) = b"
    using unsigned_less [of b, where 'a=nat] by simp
  ultimately show ?case using 3 by simp
qed simp_all

lemma emits_character:
  "emits (seqE [write_num (of_nat (of_char c)), write_num 0]) (concat (map out_u8 [of_nat (of_char c), 0]))"
proof -
  have lt: "of_char c < (256 :: nat)"
    by (metis of_char_mod_256 mod_less_divisor zero_less_numeral)
  then have "unat (of_nat (of_char c) :: u32) = unat (of_nat (of_char c) :: u8)"
    by (simp only: unsigned_of_nat) (simp add: take_bit_nat_eq_self less_trans [OF lt])
  then have "emits (seqE [write_num (of_nat (of_char c)), write_num 0])
      (out_u8 (of_nat (of_char c)) @ out_u8 0 @ [])"
    unfolding out_u8_def by (intro emits_Cons emits_Nil emits_num) simp_all
  then show ?thesis by simp
qed

section \<open>The parser on the document\<close>

text \<open>The contract between a way of writing numbers and the parser.\<close>

locale json_number =
  fixes num :: number_form
  assumes read_num: "n < 2 ^ 32 \<Longrightarrow> read_u32_value (num n) = Inr (of_nat n)"
begin

lemma emits_read: "n < 2 ^ 32 \<Longrightarrow> emits (write_read (num n)) (show_nat n @ '' '')"
  unfolding write_read_def by (simp add: read_num emits_lift emits_num unat_u32_of_nat)

lemma read_byte: "read_u32_value (byte_json num b) = Inr (ucast b)"
  using unsigned_less [of b, where 'a=nat] by (simp add: byte_json_def read_num)

lemma emits_read_byte: "emits (write_read (byte_json num b)) (out_u8 b)"
  using unsigned_less [of b, where 'a=nat] by (simp add: byte_json_def out_u8_def emits_read)

lemma emits_read_half: "emits (write_read (half_json num b)) (out_u16 b)"
  using unsigned_less [of b, where 'a=nat] by (simp add: half_json_def out_u16_def emits_read)

lemma key_read: "map_of ms key = Some v \<Longrightarrow> write_key ms key = write_read v"
  by (simp add: write_key_def write_read_def read_u32_key_def)

lemma emits_key_byte: "map_of ms key = Some (byte_json num b) \<Longrightarrow> emits (write_key ms key) (out_u8 b)"
  by (simp add: key_read emits_read_byte)

lemma emits_key_half: "map_of ms key = Some (half_json num b) \<Longrightarrow> emits (write_key ms key) (out_u16 b)"
  by (simp add: key_read emits_read_half)

lemma emits_da: "emits (mapE write_read (map (byte_json num) bs)) (concat (map out_u8 bs))"
  unfolding mapE_def map_map comp_def
  using emits_map [of bs "\<lambda>b. write_read (byte_json num b)" out_u8] emits_read_byte
  by (simp add: mapE_def)

lemma emits_array:
  assumes "obj_at_array ms key = Inr (map f xs)" "length xs < 2 ^ 32"
    and "\<And>x. x \<in> set xs \<Longrightarrow> emits (g (f x)) (w x)"
  shows "emits (bindE (liftE (obj_at_array ms key)) (\<lambda>vs. seqE [write_size vs, mapE g vs]))
    (out_vector w xs)"
proof -
  have "emits (mapE g (map f xs)) (concat (map w xs))"
    using emits_map [of xs "\<lambda>x. g (f x)" w] assms(3) by (simp add: mapE_def comp_def)
  then have "emits (seqE [write_size (map f xs), mapE g (map f xs)])
      (out_size (length xs) @ concat (map w xs) @ [])"
    using assms(2) emits_size [of "map f xs"] by (intro emits_Cons emits_Nil) simp_all
  then show ?thesis unfolding assms(1) out_vector_def by (intro emits_lift) simp
qed

lemma obj_at_bytes:
  "map_of ms key = Some (bytes_json num bs) \<Longrightarrow> obj_at_array ms key = Inr (map (byte_json num) bs)"
  by (simp add: obj_at_array_def obj_at_def bytes_json_def)

lemma emits_extra_plain:
  assumes "map_of ms companion_key = None" "map_of ms extra_key = Some (bytes_json num e)"
    and "length e < 2 ^ 32"
  shows "emits (json_build_extra ms) (out_size (length e) @ concat (map out_u8 e))"
proof (cases "e = []")
  case True
  then show ?thesis using assms obj_at_bytes [OF assms(2)] emits_num [of 0 0]
    by (simp add: json_build_extra_def contains_key_def emits_lift out_size_def)
next
  case False
  have size: "unat (of_nat (length e) :: u32) = length e" using assms(3) by (rule unat_u32_of_nat)
  with False have "(of_nat (length e) :: u32) \<noteq> 0" by (metis length_0_conv unat_0)
  moreover have "emits (seqE [write_num (of_nat (length e)), seqE [],
      bindE (liftE (obj_at_array ms extra_key)) write_da])
      ((show_nat (length e) @ '' '') @ [] @ concat (map out_u8 e) @ [])"
    unfolding obj_at_bytes [OF assms(2)] write_da_def
    by (intro emits_Cons emits_Nil emits_num emits_lift emits_da size)
  ultimately show ?thesis using assms(1,2) obj_at_bytes [OF assms(2)]
    unfolding json_build_extra_def by (simp add: contains_key_def emits_lift out_size_def del: seqE.simps)
qed

lemma emits_companion:
  assumes "map_of ms companion_key = Some (companion_json num [a, b, c, d, x, y])"
  shows "emits (write_companion ms) (concat (map out_u8 [a, b, c, d, x, y]))"
proof -
  let ?v = "of_nat (from_le [x, y]) :: u32"
  let ?ec = "[(''bLength'', byte_json num a), (''bDescriptorType'', byte_json num b),
     (''bMaxBurst'', byte_json num c), (''bmAttributes'', byte_json num d),
     (''wBytesPerInterval'', num (from_le [x, y]))]"
  have ec: "obj_at_object ms companion_key = Inr ?ec"
    using assms by (simp add: obj_at_object_def obj_at_def companion_json_def)
  have lt: "from_le [x, y] < 2 ^ 16" using from_le_less [of "[x, y]"] by simp
  then have "read_u32_value (num (from_le [x, y])) = Inr ?v"
    by (intro read_num) (rule less_trans, assumption, simp)
  then have rd: "read_u32_key ?ec ''wBytesPerInterval'' = Inr ?v" by (simp add: read_u32_key_def)
  have w: "emits (seqE [write_num (ucast (ucast ?v :: u16) AND 0xFF),
      write_num (drop_bit 8 (ucast (ucast ?v :: u16)) AND 0xFF)]) (out_u8 x @ out_u8 y)"
    unfolding ucast_small [OF lt] using emits_two [of x y]
    by (simp add: write_bytes_def mapE_def upt_rec del: from_le.simps seqE.simps)
  have "emits (seqE [write_key ?ec ''bLength'', write_key ?ec ''bDescriptorType'',
      write_key ?ec ''bMaxBurst'', write_key ?ec ''bmAttributes'',
      bindE (liftE (Inr ?v)) (\<lambda>v.
        let wBytes = ucast v :: u16
        in seqE [write_num (ucast wBytes AND 0xFF), write_num (drop_bit 8 (ucast wBytes) AND 0xFF)])])
      (out_u8 a @ out_u8 b @ out_u8 c @ out_u8 d @ (out_u8 x @ out_u8 y) @ [])"
    unfolding Let_def by (intro w emits_Cons emits_Nil emits_key_byte emits_lift) simp_all
  then show ?thesis unfolding write_companion_def ec rd [symmetric]
    by (intro emits_lift) simp
qed

lemma emits_extra_companion:
  assumes "map_of ms companion_key = Some (companion_json num [a, b, c, d, x, y])"
    and "map_of ms extra_key = Some (bytes_json num e)" "length e + 6 < 2 ^ 32"
  shows "emits (json_build_extra ms)
    (out_size (length ([a, b, c, d, x, y] @ e)) @ concat (map out_u8 ([a, b, c, d, x, y] @ e)))"
proof -
  have "(6 :: u32) + of_nat (length e) = of_nat (6 + length e)" by simp
  moreover have size: "unat (of_nat (6 + length e) :: u32) = 6 + length e"
    using assms(3) by (intro unat_u32_of_nat) simp
  moreover have "(of_nat (6 + length e) :: u32) \<noteq> 0" using size by (metis add_is_0 unat_0 zero_neq_numeral)
  moreover have "emits (seqE [write_num (of_nat (6 + length e)), write_companion ms,
      bindE (liftE (obj_at_array ms extra_key)) write_da])
      ((show_nat (6 + length e) @ '' '') @ concat (map out_u8 [a, b, c, d, x, y]) @
       concat (map out_u8 e) @ [])"
    unfolding obj_at_bytes [OF assms(2)] write_da_def
    by (intro emits_Cons emits_Nil emits_num emits_companion emits_lift emits_da size assms(1))
  moreover have len: "length ([a, b, c, d, x, y] @ e) = 6 + length e" by simp
  ultimately show ?thesis using assms(1,2) obj_at_bytes [OF assms(2)]
    unfolding json_build_extra_def len
    by (simp add: contains_key_def emits_lift out_size_def Let_def del: seqE.simps of_nat_add)
qed

lemma emits_endpoint_extra:
  assumes "map_of ms companion_key = map_of (endpoint_extra_json num e) companion_key"
    and "map_of ms extra_key = map_of (endpoint_extra_json num e) extra_key" "length e < 2 ^ 32"
  shows "emits (json_build_extra ms) (out_size (length e) @ concat (map out_u8 e))"
proof (cases "has_companion e")
  case True
  then obtain a b c d x y f where e: "e = [a, b, c, d, x, y] @ f"
    by (auto simp: has_companion_def numeral_eq_Suc Suc_le_length_iff)
  have "companion_json num e = companion_json num [a, b, c, d, x, y]"
    by (simp add: companion_json_def e)
  with True assms emits_extra_companion [of ms a b c d x y f] show ?thesis
    by (simp add: e endpoint_extra_json_def companion_key_def extra_key_def)
next
  case False
  with assms show ?thesis
    by (intro emits_extra_plain) (simp_all add: endpoint_extra_json_def companion_key_def extra_key_def)
qed

lemma emits_endpoint:
  assumes "wf_endpoint ep" "fits_descriptor (\<lambda>_. True) ep"
  shows "emits (bindE (liftE (as_object (endpoint_json num ep))) json_build_endpoint) (endpoint_out ep)"
proof -
  obtain ms where ms: "endpoint_json num ep = JObject ms" by (simp add: endpoint_json_def Let_def)
  obtain d where d: "obj_at_object ms ''Endpoint Descriptor'' = Inr d"
    and keys: "map_of d ''bLength'' = Some (byte_json num (ed_bLength (wrapped_value ep)))"
      "map_of d ''bDescriptorType'' = Some (byte_json num (ed_bDescriptorType (wrapped_value ep)))"
      "map_of d ''bEndpointAddress'' = Some (byte_json num (ed_bEndpointAddress (wrapped_value ep)))"
      "map_of d ''bmAttributes'' = Some (byte_json num (ed_bmAttributes (wrapped_value ep)))"
      "map_of d ''wMaxPacketSize'' = Some (half_json num (ed_wMaxPacketSize (wrapped_value ep)))"
      "map_of d ''bInterval'' = Some (byte_json num (ed_bInterval (wrapped_value ep)))"
      "map_of d ''bRefresh'' = Some (byte_json num (ed_bRefresh (wrapped_value ep)))"
      "map_of d ''bSynchAddress'' = Some (byte_json num (ed_bSynchAddress (wrapped_value ep)))"
    using ms by (auto simp: endpoint_json_def Let_def obj_at_object_def obj_at_def)
  have x: "emits (json_build_extra ms) (stream_out_extra ep)"
    unfolding stream_out_extra_def using ms assms(2)
    by (intro emits_endpoint_extra)
      (auto simp: endpoint_json_def Let_def companion_key_def extra_key_def fits_descriptor_def)
  have "vectors ep = []" using assms(1)
    by (simp add: wf_endpoint_def wf_descriptor_def plugin_shape_def)
  then have out: "endpoint_out ep = stream_out_described endpoint_members (wrapped_value ep) @ stream_out_extra ep"
    by (simp add: endpoint_out_def descriptor_stream_out_def for_each_out_def)
  let ?w = "wrapped_value ep"
  have "emits (json_build_endpoint ms) (out_u8 (ed_bLength ?w) @ out_u8 (ed_bDescriptorType ?w) @
      out_u8 (ed_bEndpointAddress ?w) @ out_u8 (ed_bmAttributes ?w) @ out_u16 (ed_wMaxPacketSize ?w) @
      out_u8 (ed_bInterval ?w) @ out_u8 (ed_bRefresh ?w) @ out_u8 (ed_bSynchAddress ?w) @
      stream_out_extra ep @ [])"
    unfolding json_build_endpoint_def d
    by (intro emits_lift x emits_Cons emits_Nil; (intro emits_key_byte emits_key_half; rule keys))
  then show ?thesis unfolding ms out as_object.simps
    by (intro emits_lift) (simp add: stream_out_described_def member_list_defs)
qed

lemma emits_interface:
  assumes "wf_iface i" "fits_descriptor (fits_descriptor (\<lambda>_. True)) i"
  shows "emits (bindE (liftE (as_object (interface_json num i))) json_build_interface) (iface_out i)"
proof -
  let ?w = "wrapped_value i"
  obtain ms d where ms: "interface_json num i = JObject ms"
    and d: "obj_at_object ms ''Interface Descriptor'' = Inr d"
    and keys: "map_of d ''bLength'' = Some (byte_json num (id_bLength ?w))"
      "map_of d ''bDescriptorType'' = Some (byte_json num (id_bDescriptorType ?w))"
      "map_of d ''bInterfaceNumber'' = Some (byte_json num (id_bInterfaceNumber ?w))"
      "map_of d ''bAlternateSetting'' = Some (byte_json num (id_bAlternateSetting ?w))"
      "map_of d ''bNumEndpoints'' = Some (byte_json num (id_bNumEndpoints ?w))"
      "map_of d ''bInterfaceClass'' = Some (byte_json num (id_bInterfaceClass ?w))"
      "map_of d ''bInterfaceSubClass'' = Some (byte_json num (id_bInterfaceSubClass ?w))"
      "map_of d ''bInterfaceProtocol'' = Some (byte_json num (id_bInterfaceProtocol ?w))"
      "map_of d ''iInterface'' = Some (byte_json num (id_iInterface ?w))"
    and eps: "obj_at_array d ''aofEndpoints'' = Inr (map (endpoint_json num) (read_vector key_ep i))"
    and x: "map_of d companion_key = None" "map_of d extra_key = Some (bytes_json num (extra_vector i))"
    by (simp add: interface_json_def Let_def obj_at_object_def obj_at_array_def obj_at_def
        companion_key_def extra_key_def)
  note one = one_vector [OF assms(1) [unfolded wf_iface_def]]
  have fit: "length (read_vector key_ep i) < 2 ^ 32" "length (extra_vector i) < 2 ^ 32"
    "\<forall>ep\<in>set (read_vector key_ep i). fits_descriptor (\<lambda>_. True) ep"
    using one(3) [OF assms(2)] by simp_all
  have x': "emits (json_build_extra d) (stream_out_extra i)"
    unfolding stream_out_extra_def by (rule emits_extra_plain [OF x fit(2)])
  have v: "emits (bindE (liftE (obj_at_array d ''aofEndpoints'')) (\<lambda>vs. seqE [write_size vs,
      mapE (\<lambda>ep. bindE (liftE (as_object ep)) json_build_endpoint) vs]))
      (out_vector endpoint_out (read_vector key_ep i))"
    by (rule emits_array [OF eps fit(1)]) (use one(2) fit(3) emits_endpoint in blast)
  have "emits (json_build_interface ms) (out_u8 (id_bLength ?w) @ out_u8 (id_bDescriptorType ?w) @
      out_u8 (id_bInterfaceNumber ?w) @ out_u8 (id_bAlternateSetting ?w) @ out_u8 (id_bNumEndpoints ?w) @
      out_u8 (id_bInterfaceClass ?w) @ out_u8 (id_bInterfaceSubClass ?w) @
      out_u8 (id_bInterfaceProtocol ?w) @ out_u8 (id_iInterface ?w) @
      out_vector endpoint_out (read_vector key_ep i) @ stream_out_extra i @ [])"
    unfolding json_build_interface_def d
    by (intro emits_lift [where x = d] x' v emits_Cons emits_Nil; (intro emits_key_byte; rule keys))
  then show ?thesis unfolding ms as_object.simps iface_out_def one(1)
    by (intro emits_lift) (simp add: stream_out_described_def interface_members_def)
qed

lemma emits_altsetting:
  assumes "wf_usb_interface u" "fits_descriptor (fits_descriptor (fits_descriptor (\<lambda>_. True))) u"
  shows "emits (json_build_altsetting (altsetting_json num u)) (usb_interface_out u)"
proof -
  let ?is = "read_vector key_altsetting u"
  note one = one_vector [OF assms(1) [unfolded wf_usb_interface_def]]
  have fit: "length ?is < 2 ^ 32" "\<forall>i\<in>set ?is. fits_descriptor (fits_descriptor (\<lambda>_. True)) i"
    using one(3) [OF assms(2)] by simp_all
  let ?o = "[(''aofInterfaces'', JArray (map (interface_json num) ?is))]"
  have arr: "obj_at_array ?o ''aofInterfaces'' = Inr (map (interface_json num) ?is)"
    by (simp add: obj_at_array_def obj_at_def)
  have "emits (bindE (liftE (obj_at_array ?o ''aofInterfaces'')) (\<lambda>vs. seqE [write_size vs,
      mapE (\<lambda>i. bindE (liftE (as_object i)) json_build_interface) vs])) (out_vector iface_out ?is)"
    by (rule emits_array [OF arr fit(1)]) (use one(2) fit(2) emits_interface in blast)
  then show ?thesis unfolding usb_interface_out_def one(1)
    by (simp add: json_build_altsetting_def altsetting_json_def value_at_def obj_at_array_def)
qed

lemma emits_config:
  assumes "wf_config c"
    "fits_descriptor (fits_descriptor (fits_descriptor (fits_descriptor (\<lambda>_. True)))) c"
  shows "emits (bindE (liftE (as_object (config_json num c))) json_build_configuration) (config_out c)"
proof -
  let ?w = "wrapped_value c"
  let ?as = "read_vector key_interface c"
  obtain ms d where ms: "config_json num c = JObject ms"
    and d: "obj_at_object ms ''Configuration Descriptor'' = Inr d"
    and keys: "map_of d ''bLength'' = Some (byte_json num (cd_bLength ?w))"
      "map_of d ''bDescriptorType'' = Some (byte_json num (cd_bDescriptorType ?w))"
      "map_of d ''wTotalLength'' = Some (half_json num (cd_wTotalLength ?w))"
      "map_of d ''bNumInterfaces'' = Some (byte_json num (cd_bNumInterfaces ?w))"
      "map_of d ''bConfigurationValue'' = Some (byte_json num (cd_bConfigurationValue ?w))"
      "map_of d ''iConfiguration'' = Some (byte_json num (cd_iConfiguration ?w))"
      "map_of d ''bmAttributes'' = Some (byte_json num (cd_bmAttributes ?w))"
      "map_of d ''MaxPower'' = Some (byte_json num (cd_MaxPower ?w))"
    and alts: "obj_at_array d ''aofAltsettings'' = Inr (map (altsetting_json num) ?as)"
    and x: "map_of ms companion_key = None" "map_of ms extra_key = Some (bytes_json num (extra_vector c))"
    by (simp add: config_json_def Let_def obj_at_object_def obj_at_array_def obj_at_def
        companion_key_def extra_key_def)
  note one = one_vector [OF assms(1) [unfolded wf_config_def]]
  have fit: "length ?as < 2 ^ 32" "length (extra_vector c) < 2 ^ 32"
    "\<forall>u\<in>set ?as. fits_descriptor (fits_descriptor (fits_descriptor (\<lambda>_. True))) u"
    using one(3) [OF assms(2)] by simp_all
  have x': "emits (json_build_extra ms) (stream_out_extra c)"
    unfolding stream_out_extra_def by (rule emits_extra_plain [OF x fit(2)])
  have v: "emits (bindE (liftE (obj_at_array d ''aofAltsettings''))
      (\<lambda>vs. seqE [write_size vs, mapE json_build_altsetting vs])) (out_vector usb_interface_out ?as)"
    by (rule emits_array [OF alts fit(1)]) (use one(2) fit(3) emits_altsetting in blast)
  have "emits (json_build_configuration ms) (out_u8 (cd_bLength ?w) @ out_u8 (cd_bDescriptorType ?w) @
      out_u16 (cd_wTotalLength ?w) @ out_u8 (cd_bNumInterfaces ?w) @ out_u8 (cd_bConfigurationValue ?w) @
      out_u8 (cd_iConfiguration ?w) @ out_u8 (cd_bmAttributes ?w) @ out_u8 (cd_MaxPower ?w) @
      out_vector usb_interface_out ?as @ stream_out_extra c @ [])"
    unfolding json_build_configuration_def d
    by (intro emits_lift [where x = d] x' v emits_Cons emits_Nil;
        (intro emits_key_byte emits_key_half; rule keys))
  then show ?thesis unfolding ms as_object.simps config_out_def one(1)
    by (intro emits_lift) (simp add: stream_out_described_def config_members_def)
qed

lemma emits_string:
  assumes "string_has_length v"
  shows "emits (json_build_string (string_json num v)) (out_vector out_u8 v)"
proof -
  obtain l ty data where v: "v = l # ty # data"
    using assms by (auto simp: string_has_length_def numeral_2_eq_2 Suc_le_length_iff)
  have l: "out_u8 l = out_size (length v)"
    using assms by (simp add: string_has_length_def v out_u8_def out_size_def)
  have data: "drop 2 v = data" by (simp add: v)
  let ?text = "case character_text data of Some s \<Rightarrow> JString s | None \<Rightarrow> bytes_json num data"
  let ?d = "[(''bLength'', byte_json num l), (''bDescriptorType'', byte_json num ty), (''string'', ?text)]"
  have d: "bindR (value_at (string_json num v) ''StringDescriptor'') as_object = Inr ?d"
    unfolding string_json_def data by (simp add: v value_at_def obj_at_def)
  have str: "obj_at ?d ''string'' = Inr ?text" by (simp add: obj_at_def)
  have body: "emits (if is_array ?text then bindE (liftE (as_array ?text)) (mapE write_read)
      else bindE (liftE (as_string ?text)) (mapE (\<lambda>c. seqE [write_num (of_nat (of_char c)), write_num 0])))
      (concat (map out_u8 data))"
  proof (cases "character_text data")
    case None
    then show ?thesis using emits_da [of data] by (simp add: bytes_json_def emits_lift)
  next
    case (Some s)
    have "emits (mapE (\<lambda>c. seqE [write_num (of_nat (of_char c)), write_num 0]) s)
        (concat (map (\<lambda>c. concat (map out_u8 [of_nat (of_char c), 0])) s))"
      by (rule emits_map) (rule emits_character)
    also have "concat (map (\<lambda>c. concat (map out_u8 [of_nat (of_char c), 0])) s) = concat (map out_u8 data)"
      unfolding character_text_bytes [OF Some] by (induction s) simp_all
    finally show ?thesis using Some by (simp add: emits_lift del: seqE.simps)
  qed
  have "emits (json_build_string (string_json num v))
      (out_u8 l @ out_u8 l @ out_u8 ty @ concat (map out_u8 data) @ [])"
    unfolding json_build_string_def d
    by (intro emits_lift [where x = ?d] emits_Cons emits_Nil)
      (simp_all only: str, (intro emits_key_byte emits_lift body; simp)+)
  moreover have "out_vector out_u8 v = out_u8 l @ out_u8 l @ out_u8 ty @ concat (map out_u8 data)"
    unfolding out_vector_def l [symmetric] by (simp add: v)
  ultimately show ?thesis by simp
qed

lemma emits_language:
  assumes "length (snd e) < 2 ^ 32" "\<forall>v\<in>set (snd e). string_has_length v"
  shows "emits (json_build_language (language_json num e)) (out_u16 (fst e) @ out_vector (out_vector out_u8) (snd e))"
proof -
  let ?o = "[(''wLanguageId'', half_json num (fst e)), (''aofStrings'', JArray (map (string_json num) (snd e)))]"
  have arr: "obj_at_array ?o ''aofStrings'' = Inr (map (string_json num) (snd e))"
    by (simp add: obj_at_array_def obj_at_def)
  have lang: "value_at (language_json num e) ''wLanguageId'' = Inr (half_json num (fst e))"
    and strs: "bindR (value_at (language_json num e) ''aofStrings'') as_array = obj_at_array ?o ''aofStrings''"
    by (simp_all add: language_json_def value_at_def obj_at_def obj_at_array_def)
  have "\<not> is_array (half_json num b)" for b
    using read_num [of "unat b"] unsigned_less [of b, where 'a=nat]
    by (cases "num (unat b)") (simp_all add: half_json_def)
  then have "emits (json_build_language (language_json num e))
      (out_u16 (fst e) @ out_vector (out_vector out_u8) (snd e) @ [])"
    unfolding json_build_language_def lang strs using assms(2)
    by (intro emits_lift [where x = "half_json num (fst e)"] emits_Cons emits_Nil emits_array [OF arr assms(1)])
      (simp_all add: emits_read_half emits_string)
  then show ?thesis by simp
qed

lemma emits_capability_data:
  assumes data: "length data < 2 ^ 32"
    and ext: "ty = 2 \<and> length data = 4 \<Longrightarrow>
      map_of ms ''USB 2.0 Extension'' = Some (JObject [(''bmAttributes'', num (from_le data))])"
    and ss: "ty = 3 \<and> length data = 7 \<Longrightarrow> map_of ms ''SuperSpeed USB'' = Some (JObject
        [(''bmAttributes'', byte_json num (data ! 0)),
         (''wSpeedSupported'', num (from_le [data ! 1, data ! 2])),
         (''bFunctionalitySupport'', byte_json num (data ! 3)),
         (''bU1DevExitLat'', byte_json num (data ! 4)),
         (''bU2DevExitLat'', num (from_le [data ! 5, data ! 6]))])"
    and da: "\<not> (ty = 2 \<and> length data = 4) \<and> \<not> (ty = 3 \<and> length data = 7) \<Longrightarrow>
      map_of ms ''USB 2.0 Extension'' = None \<and> map_of ms ''SuperSpeed USB'' = None \<and>
      map_of ms ''daDevCapability'' = Some (bytes_json num data)"
  shows "emits (json_build_dev_cap_data ms (ucast (ty :: u8))) (out_vector out_u8 data)"
proof -
  consider (ext) "ty = 2" "length data = 4" | (ss) "ty = 3" "length data = 7"
    | (da) "\<not> (ty = 2 \<and> length data = 4)" "\<not> (ty = 3 \<and> length data = 7)" by blast
  then show ?thesis
  proof cases
    case ext
    have "from_le data < 2 ^ 32" using from_le_less [of data] ext by simp
    then have rd: "read_u32_key [(''bmAttributes'', num (from_le data))] ''bmAttributes'' =
        Inr (of_nat (from_le data))" by (simp add: read_u32_key_def read_num)
    have "emits (seqE [write_num 4, write_bytes 4 (of_nat (from_le data))])
        ((show_nat 4 @ '' '') @ concat (map out_u8 data) @ [])"
      by (intro emits_Cons emits_Nil emits_num emits_le ext) simp_all
    with assms(2) ext rd show ?thesis
      by (simp add: json_build_dev_cap_data_def contains_key_def obj_at_object_def obj_at_def
          emits_lift out_vector_def out_size_def del: seqE.simps)
  next
    case ss
    then obtain a b c d e f g where d: "data = [a, b, c, d, e, f, g]"
      by (auto simp: numeral_eq_Suc length_Suc_conv)
    have lt: "from_le [x, y] < 2 ^ 32" for x y using from_le_less [of "[x, y]"] by simp
    let ?o = "[(''bmAttributes'', byte_json num a), (''wSpeedSupported'', num (from_le [b, c])),
         (''bFunctionalitySupport'', byte_json num d), (''bU1DevExitLat'', byte_json num e),
         (''bU2DevExitLat'', num (from_le [f, g]))]"
    have rd: "read_u32_key ?o ''bmAttributes'' = Inr (ucast a)"
      "read_u32_key ?o ''wSpeedSupported'' = Inr (of_nat (from_le [b, c]))"
      "read_u32_key ?o ''bFunctionalitySupport'' = Inr (ucast d)"
      "read_u32_key ?o ''bU1DevExitLat'' = Inr (ucast e)"
      "read_u32_key ?o ''bU2DevExitLat'' = Inr (of_nat (from_le [f, g]))"
      by (simp_all add: read_u32_key_def read_num [OF lt] read_byte del: from_le.simps)
    have one: "emits (write_bytes 1 (ucast x)) (out_u8 x)" for x
      using emits_bytes [of 1 "ucast x :: u32"] by (simp add: ucast_up_ucast_id is_up)
    have "emits (seqE [write_num 7, write_bytes 1 (ucast a), write_bytes 2 (of_nat (from_le [b, c])),
          write_bytes 1 (ucast d), write_bytes 1 (ucast e), write_bytes 2 (of_nat (from_le [f, g]))])
        ((show_nat 7 @ '' '') @ out_u8 a @ (out_u8 b @ out_u8 c) @ out_u8 d @ out_u8 e @ (out_u8 f @ out_u8 g) @ [])"
      by (intro emits_Cons emits_Nil emits_num emits_two one) simp_all
    moreover have "out_vector out_u8 data = (show_nat 7 @ '' '') @ out_u8 a @ (out_u8 b @ out_u8 c) @
        out_u8 d @ out_u8 e @ (out_u8 f @ out_u8 g) @ []"
      by (simp add: d out_vector_def out_size_def numeral_eq_Suc)
    moreover have "map_of ms ''SuperSpeed USB'' = Some (JObject ?o)" using assms(3) ss by (simp add: d)
    ultimately show ?thesis using ss rd
      by (simp only:) (simp add: json_build_dev_cap_data_def contains_key_def obj_at_object_def
          obj_at_def del: seqE.simps from_le.simps)
  next
    case da
    then have "json_build_dev_cap_data ms (ucast ty) =
        bindE (liftE (obj_at_array ms ''daDevCapability'')) (\<lambda>d. seqE [write_size d, mapE write_read d])"
      using assms(4) by (simp add: json_build_dev_cap_data_def contains_key_def write_da_def)
    then show ?thesis using assms(4) da data obj_at_bytes [of ms "''daDevCapability''" data]
      by (simp only:) (intro emits_array [of _ _ "byte_json num"], simp_all add: emits_read_byte)
  qed
qed

lemma emits_capability:
  assumes "wf_dev_capability c" "fits_descriptor (\<lambda>_. True) c"
  shows "emits (json_build_dev_cap (capability_json num c)) (dev_capability_out c)"
proof -
  let ?w = "wrapped_value c"
  let ?data = "read_vector key_dev_capability_data c"
  note one = one_vector [OF assms(1) [unfolded wf_dev_capability_def]]
  have fit: "length ?data < 2 ^ 32" using one(3) [OF assms(2)] by simp
  obtain ms where ms: "capability_json num c = JObject ms" by (simp add: capability_json_def Let_def)
  have keys: "map_of ms ''bLength'' = Some (byte_json num (dc_bLength ?w))"
    "map_of ms ''bDescriptorType'' = Some (byte_json num (dc_bDescriptorType ?w))"
    using ms by (auto simp: capability_json_def Let_def)
  have ty: "map_of ms ''bDevCapabilityType'' = Some (byte_json num (dc_bDevCapabilityType ?w))"
    using ms by (auto simp: capability_json_def Let_def)
  then have rd: "read_u32_key ms ''bDevCapabilityType'' = Inr (ucast (dc_bDevCapabilityType ?w))"
    by (simp add: read_u32_key_def read_byte)
  have data: "emits (json_build_dev_cap_data ms (ucast (dc_bDevCapabilityType ?w))) (out_vector out_u8 ?data)"
    using ms by (intro emits_capability_data [OF fit]) (auto simp: capability_json_def Let_def)
  have "emits (json_build_dev_cap (capability_json num c))
     (out_u8 (dc_bLength ?w) @ out_u8 (dc_bDescriptorType ?w) @
      (out_u8 (dc_bDevCapabilityType ?w) @ out_vector out_u8 ?data @ []) @ [])"
    unfolding json_build_dev_cap_def ms as_object.simps
    by (intro emits_lift [where x = ms] emits_Cons emits_Nil)
      (simp_all only: rd, (intro emits_key_byte keys emits_lift emits_Cons emits_Nil emits_byte data; simp)+)
  then show ?thesis unfolding dev_capability_out_def one(1)
    by (simp add: stream_out_described_def dev_capability_members_def)
qed

lemma emits_bos:
  assumes "wf_bos b" "fits_descriptor (fits_descriptor (\<lambda>_. True)) b"
  shows "emits (bindE (liftE (as_object (bos_json num b))) json_build_bos) (bos_out b)"
proof -
  let ?w = "wrapped_value b"
  let ?caps = "read_vector key_dev_capability b"
  obtain ms where ms: "bos_json num b = JObject ms"
    and keys: "map_of ms ''bLength'' = Some (byte_json num (bd_bLength ?w))"
      "map_of ms ''bDescriptorType'' = Some (byte_json num (bd_bDescriptorType ?w))"
      "map_of ms ''wTotalLength'' = Some (half_json num (bd_wTotalLength ?w))"
      "map_of ms ''bNumDeviceCaps'' = Some (byte_json num (bd_bNumDeviceCaps ?w))"
    and caps: "obj_at_array ms ''aofDeviceCaps'' = Inr (map (capability_json num) ?caps)"
    by (simp add: bos_json_def Let_def obj_at_array_def obj_at_def)
  note one = one_vector [OF assms(1) [unfolded wf_bos_def]]
  have fit: "length ?caps < 2 ^ 32" "\<forall>c\<in>set ?caps. fits_descriptor (\<lambda>_. True) c"
    using one(3) [OF assms(2)] by simp_all
  have v: "emits (bindE (liftE (obj_at_array ms ''aofDeviceCaps''))
      (\<lambda>vs. seqE [write_size vs, mapE json_build_dev_cap vs])) (out_vector dev_capability_out ?caps)"
    by (rule emits_array [OF caps fit(1)]) (use one(2) fit(2) emits_capability in blast)
  have "emits (json_build_bos ms) (out_u8 (bd_bLength ?w) @ out_u8 (bd_bDescriptorType ?w) @
      out_u16 (bd_wTotalLength ?w) @ out_u8 (bd_bNumDeviceCaps ?w) @ out_vector dev_capability_out ?caps @ [])"
    unfolding json_build_bos_def
    by (intro v emits_Cons emits_Nil; (intro emits_key_byte emits_key_half; rule keys))
  then show ?thesis unfolding ms as_object.simps bos_out_def one(1)
    by (intro emits_lift) (simp add: stream_out_described_def bos_members_def)
qed

text \<open>The whole document.\<close>

lemma emits_tree:
  assumes "wf_tree t" "json_fits t" "boost_parse data = Inr (tree_json num t)" "tree_save True t = Inr txt"
  shows "emits (json_build_descriptor boost_parse data) txt"
proof -
  let ?d = "device_desc t" and ?c = "wrapped_config_desc t"
  obtain ms where ms: "device_json num ?d ?c = JObject ms"
    and keys: "map_of ms ''bLength'' = Some (byte_json num (dd_bLength ?d))"
      "map_of ms ''bDescriptorType'' = Some (byte_json num (dd_bDescriptorType ?d))"
      "map_of ms ''bcdUSB'' = Some (half_json num (dd_bcdUSB ?d))"
      "map_of ms ''bDeviceClass'' = Some (byte_json num (dd_bDeviceClass ?d))"
      "map_of ms ''bDeviceSubClass'' = Some (byte_json num (dd_bDeviceSubClass ?d))"
      "map_of ms ''bDeviceProtocol'' = Some (byte_json num (dd_bDeviceProtocol ?d))"
      "map_of ms ''bMaxPacketSize0'' = Some (byte_json num (dd_bMaxPacketSize0 ?d))"
      "map_of ms ''idVendor'' = Some (half_json num (dd_idVendor ?d))"
      "map_of ms ''idProduct'' = Some (half_json num (dd_idProduct ?d))"
      "map_of ms ''bcdDevice'' = Some (half_json num (dd_bcdDevice ?d))"
      "map_of ms ''iManufacturer'' = Some (byte_json num (dd_iManufacturer ?d))"
      "map_of ms ''iProduct'' = Some (byte_json num (dd_iProduct ?d))"
      "map_of ms ''iSerial'' = Some (byte_json num (dd_iSerialNumber ?d))"
      "map_of ms ''bNumConfigurations'' = Some (byte_json num (dd_bNumConfigurations ?d))"
    and confs: "obj_at_array ms ''aofConfigurations'' = Inr [config_json num ?c]"
    by (simp add: device_json_def obj_at_array_def obj_at_def)
  let ?dev = "[(''Device Descriptor'', JObject ms),
      (''aofStringDescriptors'', JArray (map (language_json num) (string_descs t))),
      (''daReportDescriptor'', bytes_json num (report_desc t)),
      (''BOS Descriptor'', bos_json num (wrapped_bos_desc t))]"
  have conf: "emits (mapE (\<lambda>cfg. bindE (liftE (as_object cfg)) json_build_configuration) [config_json num ?c])
      (config_out ?c @ [])"
    unfolding mapE_def list.map using assms(1,2)
    by (intro emits_Cons emits_Nil emits_config) (simp_all add: wf_tree_def json_fits_def)
  have langs: "emits (json_build_string_descriptors ?dev) (out_vector (\<lambda>e. out_u16 (fst e) @
      out_vector (out_vector out_u8) (snd e)) (string_descs t))"
    unfolding json_build_string_descriptors_def using assms(2)
    by (intro emits_array [of _ _ "language_json num"] emits_language)
      (auto simp: obj_at_array_def obj_at_def json_fits_def list_all_iff)
  have report: "emits (bindE (liftE (obj_at_array ?dev ''daReportDescriptor''))
      (\<lambda>r. seqE [write_size r, write_da r])) (out_vector out_u8 (report_desc t))"
    unfolding write_da_def using assms(2)
    by (intro emits_array [of _ _ "byte_json num"] emits_read_byte)
      (simp_all add: obj_at_array_def obj_at_def json_fits_def bytes_json_def)
  obtain bs where bs: "bos_json num (wrapped_bos_desc t) = JObject bs" by (simp add: bos_json_def Let_def)
  have bos: "emits (bindE (liftE (obj_at_object ?dev ''BOS Descriptor'')) json_build_bos) (bos_out (wrapped_bos_desc t))"
    using emits_bos [of "wrapped_bos_desc t"] assms(1,2)
    by (simp add: obj_at_object_def obj_at_def wf_tree_def json_fits_def)
  have root: "value_at (tree_json num t) ''aofDevices'' = Inr (JArray [JObject ?dev])"
    by (simp add: tree_json_def ms value_at_def obj_at_def)
  have dev: "obj_at_object ?dev ''Device Descriptor'' = Inr ms"
    by (simp add: obj_at_object_def obj_at_def)
  have "emits (json_build_descriptor boost_parse data)
     (out_u8 (dd_bLength ?d) @ out_u8 (dd_bDescriptorType ?d) @ out_u16 (dd_bcdUSB ?d) @
      out_u8 (dd_bDeviceClass ?d) @ out_u8 (dd_bDeviceSubClass ?d) @ out_u8 (dd_bDeviceProtocol ?d) @
      out_u8 (dd_bMaxPacketSize0 ?d) @ out_u16 (dd_idVendor ?d) @ out_u16 (dd_idProduct ?d) @
      out_u16 (dd_bcdDevice ?d) @ out_u8 (dd_iManufacturer ?d) @ out_u8 (dd_iProduct ?d) @
      out_u8 (dd_iSerialNumber ?d) @ out_u8 (dd_bNumConfigurations ?d) @ (config_out ?c @ []) @
      out_vector (\<lambda>e. out_u16 (fst e) @ out_vector (out_vector out_u8) (snd e)) (string_descs t) @
      out_vector out_u8 (report_desc t) @ bos_out (wrapped_bos_desc t) @ [])"
    unfolding json_build_descriptor_def assms(3) bindE_lift root bindR.simps as_array.simps
      first_element_def list.case as_object.simps dev confs
    by (intro conf langs report bos emits_Cons emits_Nil; (intro emits_key_byte emits_key_half; rule keys))
  moreover have "stream_strings_out (string_descs t) = out_vector (\<lambda>e. out_u16 (fst e) @
      out_vector (out_vector out_u8) (snd e)) (string_descs t)"
    by (simp add: stream_strings_out_def out_vector_def [abs_def] split_def)
  ultimately show ?thesis using assms(4)
    by (simp add: tree_save_def stream_report_out_def out_vector_def stream_out_described_def device_members_def)
qed

end

text \<open>The two forms of the schema: JSON integers and strings of hexadecimal digits.\<close>

definition int_number :: number_form where
  "int_number n = JInt64 (int n)"

definition hex_number :: number_form where
  "hex_number n = JString (''0x'' @ show_hex n)"

interpretation int_numbers: json_number int_number
  by unfold_locales (simp add: int_number_def)

lemma stoul0_hex: "n < 2 ^ 64 \<Longrightarrow> stoul0 (''0x'' @ show_hex n) = Inr n"
proof -
  assume n: "n < 2 ^ 64"
  obtain d ds where ds: "show_hex n = d # ds" "hex_digit d \<noteq> None"
    using hex_digit_show [of n] show_hex_nonempty [of n] by (cases "show_hex n") auto
  then have "stoul_magnitude (''0x'' @ show_hex n) = Some n"
    using read_show_hex [of n] by simp
  with n show ?thesis by (simp add: stoul0_def is_space_def)
qed

interpretation hex_numbers: json_number hex_number
proof
  fix n :: nat
  assume "n < 2 ^ 32"
  then have "n < 2 ^ 64" by (rule less_trans) simp
  from stoul0_hex [OF this] show "read_u32_value (hex_number n) = Inr (of_nat n)"
    by (simp add: hex_number_def)
qed

section \<open>What a loaded document gives\<close>

lemma loaded_json:
  assumes "json_number num" "lexical_cast_ok cast" "wf_tree t" "json_fits t"
    and "boost_parse data = Inr (tree_json num t)"
  shows "\<exists>txt. tree_save True t = Inr txt \<and> from_json boost_parse (Some data) = Inr txt \<and>
    tree_load cast (bindR (from_json boost_parse (Some data)) (streamer_in True None)) tree_init = Inr t"
proof -
  obtain w where w: "tree_save True t = Inr w" by (simp add: tree_save_def)
  from json_number.emits_tree [OF assms(1,3,4), of boost_parse data w, OF assms(5) w]
  have "from_json boost_parse (Some data) = Inr w"
    by (simp add: from_json_def json_parse_def emits_def bindE_def liftE_def)
  moreover from reads_whole [OF reads_tree [OF assms(2,3)]] w
  have "tree_load cast (Inr w) tree_init = Inr t" by (fastforce simp: tree_save_def tree_load_def)
  ultimately show ?thesis using w by (simp add: streamer_in_def)
qed

text \<open>C18: A JSON document that describes a device configuration, with its numbers as integers or
  as hexadecimal strings, is turned by the parser into exactly the text that saving that
  configuration writes, and loading the document gives the configuration: every field, endpoint
  companion, string descriptor, capability and the HID report.\<close>

theorem json_configuration_loads:
  assumes "lexical_cast_ok cast" "wf_tree t" "json_fits t"
    and "boost_parse data \<in> {Inr (tree_json int_number t), Inr (tree_json hex_number t)}"
  shows "\<exists>txt. tree_save True t = Inr txt \<and> from_json boost_parse (Some data) = Inr txt \<and>
    tree_load cast (bindR (from_json boost_parse (Some data)) (streamer_in True None)) tree_init = Inr t"
  using assms loaded_json [OF int_numbers.json_number_axioms] loaded_json [OF hex_numbers.json_number_axioms]
  by blast

definition json_example :: tree where
  "json_example = tree_init\<lparr>device_desc := zero_device\<lparr>dd_bLength := 18, dd_idVendor := 0x1d6b\<rparr>,
     string_descs := [(0, [[4, 3, 9, 4]]), (0x0409, [[6, 3, 97, 0, 98, 0]])],
     report_desc := [5, 1]\<rparr>"

lemma json_configuration_loads_witness:
  "tree_load decimal_lex (bindR (from_json (\<lambda>_. Inr (tree_json hex_number json_example)) (Some ''{}''))
     (streamer_in True None)) tree_init = Inr json_example"
proof -
  have "wf_tree json_example" "json_fits json_example"
    using wf_tree_init by (simp_all add: json_example_def wf_tree_def wf_strings_def om_inv_def json_fits_def
        fits_descriptor_def tree_init_def config_init_def bos_init_def descriptor_init_def
        plugin_init_def string_has_length_def)
  from json_configuration_loads [OF decimal_lex_ok this,
      where boost_parse = "\<lambda>_. Inr (tree_json hex_number json_example)" and data = "''{}''"]
  show ?thesis by blast
qed

definition no_device :: "json \<Rightarrow> bool" where
  "no_device root \<longleftrightarrow> (case bindR (value_at root ''aofDevices'') as_array of
       Inl _ \<Rightarrow> True
     | Inr [] \<Rightarrow> False
     | Inr (v # _) \<Rightarrow> (case bindR (as_object v) (\<lambda>dev. obj_at_object dev ''Device Descriptor'') of
         Inl _ \<Rightarrow> True | Inr _ \<Rightarrow> False))"

lemma first_token_missing:
  assumes "lexical_cast_strict cast" "skip_ws w = []"
  shows "tree_load cast (Inr w) t = Inl Bad_Lexical_Cast"
proof -
  have "in_u8 cast w = Inl Bad_Lexical_Cast" using in_number_end [OF assms] by (simp add: in_u8_def)
  then show ?thesis by (simp add: tree_load_def tree_stream_in_def device_members_def bindS_def)
qed

lemma bindE_error: "bindE (liftE (Inl e)) f = ([], Inl e)"
  by (simp add: bindE_def liftE_def)

lemma json_accessor_errors:
  "as_object v = Inl e \<Longrightarrow> e = json_error" "as_array v = Inl e \<Longrightarrow> e = json_error"
  "obj_at ms key = Inl e \<Longrightarrow> e = json_error"
  by (cases v; simp add: obj_at_def split: option.splits)+

lemma no_device_cases:
  assumes "no_device root"
  obtains "bindR (bindR (bindR (value_at root ''aofDevices'') as_array) first_element) as_object = Inl json_error"
  | dev where "bindR (bindR (bindR (value_at root ''aofDevices'') as_array) first_element) as_object = Inr dev"
      "obj_at_object dev ''Device Descriptor'' = Inl json_error"
proof (cases "bindR (value_at root ''aofDevices'') as_array")
  case (Inl e)
  then have "e = json_error"
    by (auto simp: value_at_def bindR_Inl_iff dest: json_accessor_errors)
  with Inl show ?thesis using that(1) by simp
next
  case (Inr vs)
  with assms obtain v rest where vs: "vs = v # rest" by (cases vs) (simp_all add: no_device_def)
  show ?thesis
  proof (cases "as_object v")
    case (Inl e)
    with Inr vs show ?thesis using that(1) json_accessor_errors(1) [OF Inl] by (simp add: first_element_def)
  next
    case o: (Inr dev)
    with assms Inr vs obtain e where "obj_at_object dev ''Device Descriptor'' = Inl e"
      by (auto simp: no_device_def split: sum.splits)
    moreover from this have "e = json_error"
      by (auto simp: obj_at_object_def bindR_Inl_iff dest: json_accessor_errors)
    ultimately show ?thesis using that(2) Inr vs o by (simp add: first_element_def)
  qed
qed

lemma no_device_writes_nothing:
  assumes "case boost_parse data of Inl e \<Rightarrow> e \<noteq> Undefined_Behaviour | Inr root \<Rightarrow> no_device root"
  shows "from_json boost_parse (Some data) = Inr []"
proof (cases "boost_parse data")
  case (Inl e)
  with assms show ?thesis
    unfolding from_json_def json_parse_def json_build_descriptor_def option.case Inl bindE_error by (simp add: bindE_error [unfolded liftE_def])
next
  case (Inr root)
  with assms have "no_device root" by simp
  then have "json_build_descriptor boost_parse data = ([], Inl json_error)"
  proof (cases rule: no_device_cases)
    case 1
    show ?thesis unfolding json_build_descriptor_def Inr bindE_lift 1 bindE_error ..
  next
    case (2 dev)
    show ?thesis unfolding json_build_descriptor_def Inr bindE_lift 2 bindE_error ..
  qed
  then show ?thesis by (simp add: from_json_def json_parse_def bindE_def json_error_def)
qed

text \<open>A file that gives the tree no text to read is refused with a failed conversion: a text
  file that is blank, a JSON file that cannot be opened, is not JSON, or has no device with a
  device descriptor.\<close>

lemma unusable_file_refused:
  assumes "lexical_cast_strict cast"
    and "is = streamer_in False (Some text) json \<and> skip_ws text = [] \<or>
      is = bindR (from_json boost_parse (Some data)) (streamer_in True None) \<and>
      (case boost_parse data of Inl e \<Rightarrow> e \<noteq> Undefined_Behaviour | Inr root \<Rightarrow> no_device root)"
  shows "tree_load cast is t = Inl Bad_Lexical_Cast"
  using assms(2)
proof (elim disjE conjE)
  assume "is = streamer_in False (Some text) json" "skip_ws text = []"
  then show ?thesis using first_token_missing [OF assms(1)] by (simp add: streamer_in_def)
next
  assume "is = bindR (from_json boost_parse (Some data)) (streamer_in True None)"
    "case boost_parse data of Inl e \<Rightarrow> e \<noteq> Undefined_Behaviour | Inr root \<Rightarrow> no_device root"
  then show ?thesis
    using first_token_missing [OF assms(1)] by (simp add: no_device_writes_nothing streamer_in_def)
qed

lemma unusable_file_refused_witness:
  "tree_load decimal_lex (bindR (from_json (\<lambda>_. Inr (JObject [])) (Some ''{}'')) (streamer_in True None)) tree_init
     = Inl Bad_Lexical_Cast"
  by (rule unusable_file_refused [OF decimal_lex_strict, of _ "[]" "[]" "\<lambda>_. Inr (JObject [])" "''{}''"])
    (simp add: no_device_def value_at_def obj_at_def json_error_def)

end
