(* ===== verification/Catalog_Model.thy ===== *)
theory Catalog_Model
  imports Format_Model Std_Map "HOL-Library.List_Lexorder" "HOL-Library.Char_ord"
begin

text \<open>
  Errors and responses (src/error.cppm) and the catalogues of plugins (src/plugin/catalog.cppm,
  catalog_loader.cppm, interfaces.cppm).

  A plugin library is what \<open>dlopen\<close> and \<open>dlsym\<close> give for its path: nothing, a library without
  the entry point, or an entry point, which is the sequence of calls it makes on the interface
  it is handed. A device factory is a value of type \<open>'f\<close>, and calling it gives a pointer to an
  instance or null; both are parameters. The location and the stack trace an error records
  are diagnostics and not part of the model.
\<close>

section \<open>Errors and responses\<close>

datatype error_category = Category_None | Category_Cli | Category_Usb | Category_Catalog

primrec category_number :: "error_category \<Rightarrow> nat" where
  "category_number Category_None = 0"
| "category_number Category_Cli = 1"
| "category_number Category_Usb = 2"
| "category_number Category_Catalog = 3"

record viu_error =
  err_category :: error_category
  err_code :: int
  err_message :: string

type_synonym 'a result = "viu_error + 'a"

definition make_error :: "error_category \<Rightarrow> int \<Rightarrow> string \<Rightarrow> viu_error" where
  "make_error category code message =
     \<lparr>err_category = category, err_code = code, err_message = message\<rparr>"

record response =
  resp_message :: string
  resp_error :: "viu_error option"

definition response_success :: "string \<Rightarrow> response" where
  "response_success message = \<lparr>resp_message = message, resp_error = None\<rparr>"

definition response_failure :: "string \<Rightarrow> viu_error \<Rightarrow> response" where
  "response_failure message err = \<lparr>resp_message = message, resp_error = Some err\<rparr>"

definition has_error :: "response \<Rightarrow> bool" where
  "has_error r \<longleftrightarrow> resp_error r \<noteq> None"

definition is_success :: "response \<Rightarrow> bool" where
  "is_success r \<longleftrightarrow> \<not> has_error r"

text \<open>\<open>std::println\<close> into a stream.\<close>

definition println :: "string \<Rightarrow> string" where
  "println s = s @ [CHR 0x0A]"

section \<open>Catalogues\<close>

datatype plugin_error = No_Device | Duplicate_Catalog

primrec plugin_error_code :: "plugin_error \<Rightarrow> int" where
  "plugin_error_code No_Device = 0"
| "plugin_error_code Duplicate_Catalog = 1"

definition plugin_error :: "plugin_error \<Rightarrow> string \<Rightarrow> viu_error" where
  "plugin_error e message = make_error Category_Catalog (plugin_error_code e) message"

record 'f catalog =
  catalog_name :: string
  catalog_version :: string
  catalog_entries :: "(string \<times> 'f) list"

definition catalog_init :: "'f catalog" where
  "catalog_init = \<lparr>catalog_name = [], catalog_version = [], catalog_entries = []\<rparr>"

definition set_name :: "string \<Rightarrow> 'f catalog \<Rightarrow> 'f catalog" where
  "set_name n c = c\<lparr>catalog_name := n\<rparr>"

definition set_version :: "string \<Rightarrow> 'f catalog \<Rightarrow> 'f catalog" where
  "set_version v c = c\<lparr>catalog_version := v\<rparr>"

definition register_device_factory :: "string \<Rightarrow> 'f \<Rightarrow> 'f catalog \<Rightarrow> 'f catalog" where
  "register_device_factory name f c = c\<lparr>catalog_entries := catalog_entries c @ [(name, f)]\<rparr>"

definition number_of_devices :: "'f catalog \<Rightarrow> nat" where
  "number_of_devices c = length (catalog_entries c)"

text \<open>\<open>entries_[index]\<close> is not checked.\<close>

definition device_name :: "'f catalog \<Rightarrow> nat \<Rightarrow> string res" where
  "device_name c index =
     (if index < length (catalog_entries c) then Inr (fst (catalog_entries c ! index))
      else Inl Undefined_Behaviour)"

text \<open>The first entry with the name is called, also when the name was registered twice.\<close>

definition catalog_device :: "('f \<Rightarrow> 'p option) \<Rightarrow> string \<Rightarrow> 'f catalog \<Rightarrow> 'p option result" where
  "catalog_device factory name c =
     (case find (\<lambda>p. fst p = name) (catalog_entries c) of
        None \<Rightarrow> Inl (plugin_error No_Device [])
      | Some entry \<Rightarrow> Inr (factory (snd entry)))"

section \<open>Loading a catalogue\<close>

datatype 'f api_call =
    Set_Name "string option"
  | Set_Version "string option"
  | Register_Device "string option" "'f option"

type_synonym 'f library = "'f api_call list option"

fun run_api_call :: "'f api_call \<Rightarrow> 'f catalog \<Rightarrow> 'f catalog res" where
  "run_api_call (Set_Name name) c =
     bindR (viu_assert (name \<noteq> None)) (\<lambda>_. Inr (set_name (the name) c))"
| "run_api_call (Set_Version version) c =
     bindR (viu_assert (version \<noteq> None)) (\<lambda>_. Inr (set_version (the version) c))"
| "run_api_call (Register_Device device f) c =
     bindR (viu_assert (device \<noteq> None)) (\<lambda>_.
     bindR (viu_assert (f \<noteq> None)) (\<lambda>_. Inr (register_device_factory (the device) (the f) c)))"

definition loader_construct :: "(string \<Rightarrow> 'f library option) \<Rightarrow> string \<Rightarrow> 'f catalog res" where
  "loader_construct dlopen path =
     (case dlopen path of
        None \<Rightarrow> Inl Assertion_Failed
      | Some ep \<Rightarrow>
          (case ep of
             None \<Rightarrow> Inl Assertion_Failed
           | Some calls \<Rightarrow> foldR run_api_call calls catalog_init))"

fun print_devices :: "nat \<Rightarrow> (string \<times> 'f) list \<Rightarrow> string" where
  "print_devices n [] = []"
| "print_devices n (e # es) =
     println (''    Device '' @ show_nat n @ '': '' @ fst e) @ print_devices (Suc n) es"

definition print_catalog_info :: "'f catalog \<Rightarrow> string" where
  "print_catalog_info c =
     println ''Catalog Information:'' @
     println (''  Name: '' @ catalog_name c) @
     println (''  Version: '' @ catalog_version c) @
     println (''  Number of devices: '' @ show_nat (number_of_devices c)) @
     print_devices 0 (catalog_entries c)"

section \<open>The manager of virtual devices\<close>

type_synonym 'f manager = "(string, 'f catalog) omap"

definition register_catalog ::
  "(string \<Rightarrow> 'f library option) \<Rightarrow> string \<Rightarrow> 'f manager \<Rightarrow> ('f catalog result \<times> 'f manager) res" where
  "register_catalog dlopen name plugins =
     (if om_find plugins name \<noteq> None
      then Inr (Inl (plugin_error Duplicate_Catalog (''Catalog '' @ name @ '' already registered'')), plugins)
      else bindR (loader_construct dlopen name) (\<lambda>c. Inr (Inr c, fst (om_insert name c plugins))))"

definition manager_device ::
  "('f \<Rightarrow> 'p option) \<Rightarrow> string \<Rightarrow> string \<Rightarrow> 'f manager \<Rightarrow> 'p option result" where
  "manager_device factory cat dev plugins =
     (case om_find plugins cat of
        None \<Rightarrow> Inl (plugin_error No_Device [])
      | Some c \<Rightarrow> catalog_device factory dev c)"

definition list_catalogs :: "'f manager \<Rightarrow> string" where
  "list_catalogs plugins = println ''Registered Catalogs:'' @
     concat (map (\<lambda>(name, c). println (name @ '':'') @ print_catalog_info c) plugins)"

section \<open>What a catalogue gives\<close>

lemma find_first:
  "(k, v) \<in> set es \<Longrightarrow> \<exists>w. find (\<lambda>p. fst p = k) es = Some (k, w) \<and> (k, w) \<in> set es"
  by (induction es) auto

text \<open>Every name that a catalogue lists gives a device, the first one registered under it.\<close>

lemma listed_device_found:
  assumes "n < number_of_devices c"
  obtains name f where "device_name c n = Inr name" "(name, f) \<in> set (catalog_entries c)"
    "catalog_device factory name c = Inr (factory f)"
proof -
  let ?e = "catalog_entries c ! n"
  have n: "n < length (catalog_entries c)" using assms by (simp add: number_of_devices_def)
  obtain k f0 where e: "?e = (k, f0)" by (cases ?e)
  with n have mem: "(k, f0) \<in> set (catalog_entries c)" by (metis nth_mem)
  obtain f where f: "find (\<lambda>p. fst p = k) (catalog_entries c) = Some (k, f)" "(k, f) \<in> set (catalog_entries c)"
    using find_first [OF mem] by blast
  from n e have "device_name c n = Inr k" by (simp add: device_name_def)
  moreover from f(1) have "catalog_device factory k c = Inr (factory f)" by (simp add: catalog_device_def)
  ultimately show thesis using f(2) that by blast
qed

lemma register_catalog_inv:
  "register_catalog dlopen name m = Inr (r, m') \<Longrightarrow> om_inv m \<Longrightarrow> om_inv m'"
  by (auto simp: register_catalog_def bindR_Inr_iff om_inv_insert split: if_splits)

end
