(* ===== verification/Daemon_Model.thy ===== *)
theory Daemon_Model
  imports Catalog_Model Json_Model Cli_Model
begin

text \<open>
  \<open>viu::daemon::service\<close> (src/daemon/daemon.cppm, src/daemon/daemon_impl.cpp): the table of
  virtual devices, the sub-commands and the handling of one client connection.

  What the daemon uses and is not under src/ or is modelled elsewhere comes in as a record
  \<open>host\<close>: the libraries a path names and what calling a factory gives, opening a device through
  libusb, making the proxy or mock that attaches it, what writing a file leaves behind,
  \<open>boost::program_options\<close> (parsing against the declared options, printing them, converting a
  number) and the archive that serialises a response.

  A command may throw after it changed the state, and the daemon catches exceptions and goes
  on, so a command is a function from the state to a result and the state it leaves (\<open>cmd\<close>).
  An assertion or undefined behaviour ends the process. The state carries two fields the
  program does not have, for the theorems: \<open>issued\<close> counts the identifiers handed out, and
  \<open>files\<close> are the files the daemon reads and writes.
\<close>

section \<open>The host\<close>

record option_desc =
  opt_names :: string
  opt_value :: bool
  opt_help :: string

record options_description =
  od_caption :: string
  od_options :: "option_desc list"

text \<open>
  Parsing gives the texts of the options that occur, or one of two kinds of exception; a text
  that does not convert to the type of its option is such an exception, so \<open>to_u64\<close> is total.
\<close>

type_synonym variables_map = "(string \<times> string) list"

datatype parsed = Parsed variables_map | Unknown_Option | Other_Option_Error string

record ('f, 'p, 'd, 'x) host =
  dlopen :: "string \<Rightarrow> 'f library option"
  factory :: "'f \<Rightarrow> 'p option"
  open_device :: "u32 \<Rightarrow> u32 \<Rightarrow> 'p option \<Rightarrow> 'd res"
  device_tree :: "'d \<Rightarrow> tree"
  make_proxy :: "'d \<Rightarrow> 'x res"
  make_mock :: "tree \<Rightarrow> 'p \<Rightarrow> 'x res"
  lexical :: lexer
  boost_parse :: "string \<Rightarrow> json res"
  write_file :: "string \<Rightarrow> string \<Rightarrow> (string \<times> bool) option"
  parse_options :: "options_description \<Rightarrow> string list \<Rightarrow> parsed"
  usage_text :: "options_description \<Rightarrow> string"
  to_u64 :: "string \<Rightarrow> u64"
  full_version :: string
  archive :: "response \<Rightarrow> bytes"

section \<open>State\<close>

record 'x device_info =
  info_vid :: u32
  info_pid :: u32
  info_proxy :: 'x

record ('f, 'x) service =
  device_id_counter :: u64
  virtual_device_manager :: "'f manager"
  virtual_devices :: "(u64, 'x device_info) omap"
  issued :: nat
  files :: "string \<Rightarrow> string option"

definition service_init :: "(string \<Rightarrow> string option) \<Rightarrow> ('f, 'x) service" where
  "service_init fs = \<lparr>device_id_counter = 0, virtual_device_manager = [], virtual_devices = [],
     issued = 0, files = fs\<rparr>"

type_synonym ('s, 'a) cmd = "'s \<Rightarrow> 'a res \<times> 's"

definition retC :: "'a \<Rightarrow> ('s, 'a) cmd" where
  "retC x s = (Inr x, s)"

definition liftC :: "'a res \<Rightarrow> ('s, 'a) cmd" where
  "liftC r s = (r, s)"

definition bindC :: "('s, 'a) cmd \<Rightarrow> ('a \<Rightarrow> ('s, 'b) cmd) \<Rightarrow> ('s, 'b) cmd" where
  "bindC m f s = (case m s of (Inl e, s') \<Rightarrow> (Inl e, s') | (Inr x, s') \<Rightarrow> f x s')"

fun foldC :: "('a \<Rightarrow> ('s, unit) cmd) \<Rightarrow> 'a list \<Rightarrow> ('s, unit) cmd" where
  "foldC f [] = retC ()"
| "foldC f (x # xs) = bindC (f x) (\<lambda>_. foldC f xs)"

lemma bindC_lift [simp]: "bindC (liftC (Inr x)) f = f x"
  by (simp add: bindC_def liftC_def fun_eq_iff)

lemma bindC_run: "m s = (Inr x, s') \<Longrightarrow> bindC m f s = f x s'"
  by (simp add: bindC_def)

section \<open>Device identifiers on the command line\<close>

text \<open>
  Reading an unsigned number in base 16 from a stream: blanks, a sign and a \<open>0x\<close> are skipped;
  without a digit the number is 0 and the stream fails, a magnitude that does not fit gives
  the largest number and fails too.
\<close>

definition skip_0x :: "string \<Rightarrow> string" where
  "skip_0x t = (case t of z # x # r \<Rightarrow> if z = CHR ''0'' \<and> (x = CHR ''x'' \<or> x = CHR ''X'') then r else t
                        | _ \<Rightarrow> t)"

definition in_hex :: "string \<Rightarrow> (u32 \<times> bool \<times> string)" where
  "in_hex s =
     (let t = dropWhile is_space s;
          negative = (t \<noteq> [] \<and> hd t = CHR ''-'');
          u = skip_0x (if t \<noteq> [] \<and> (hd t = CHR ''-'' \<or> hd t = CHR ''+'') then tl t else t)
      in if u = [] \<or> hex_digit (hd u) = None then (0, False, u)
         else (case read_hex 0 u of (n, rest) \<Rightarrow>
           if 2 ^ 32 \<le> n then (- 1, False, rest)
           else (if negative then - of_nat n else of_nat n, True, rest)))"

text \<open>\<open>operator>>\<close>: once the stream failed, what follows keeps its value, here 0.\<close>

definition read_device_id :: "string \<Rightarrow> u32 \<times> u32" where
  "read_device_id text =
     (case in_hex text of (vid, ok, rest) \<Rightarrow>
        if \<not> ok then (vid, 0)
        else (case dropWhile is_space rest of
                [] \<Rightarrow> (vid, 0)
              | column # rest' \<Rightarrow> (vid, fst (in_hex rest'))))"

definition show_device_id :: "u32 \<times> u32 \<Rightarrow> string" where
  "show_device_id d = show_nat (unat (fst d)) @ '':'' @ show_nat (unat (snd d))"

section \<open>Files\<close>

text \<open>\<open>path::extension\<close>: from the last dot of the file name, unless that is its first character.\<close>

definition path_extension :: "string \<Rightarrow> string" where
  "path_extension p =
     (let name = rev (takeWhile (\<lambda>c. c \<noteq> CHR ''/'') (rev p));
          ext = rev (takeWhile (\<lambda>c. c \<noteq> CHR ''.'') (rev name))
      in if name = ''..'' \<or> length ext + 1 \<ge> length name then [] else CHR ''.'' # ext)"

definition load_config :: "('f, 'p, 'd, 'x) host \<Rightarrow> (string \<Rightarrow> string option) \<Rightarrow> string \<Rightarrow> tree res" where
  "load_config h fs path =
     tree_load (lexical h)
       (if path_extension path = ''.json''
        then bindR (from_json (boost_parse h) (fs path)) (streamer_in True None)
        else streamer_in False (fs path) []) tree_init"

definition store_file :: "string \<Rightarrow> (string \<times> bool) option \<Rightarrow> ('f, 'x) service \<Rightarrow> ('f, 'x) service" where
  "store_file path w s = (case w of None \<Rightarrow> s | Some (content, good) \<Rightarrow> s\<lparr>files := (files s)(path \<mapsto> content)\<rparr>)"

text \<open>\<open>device::save_config\<close>, which does not look at the stream after writing.\<close>

definition save_config :: "('f, 'p, 'd, 'x) host \<Rightarrow> 'd \<Rightarrow> string \<Rightarrow> (('f, 'y) service, response) cmd" where
  "save_config h d path =
     bindC (liftC (tree_save (write_file h path [] \<noteq> None) (device_tree h d))) (\<lambda>text s.
     (Inr (response_success (''Device configuration saved to '' @ path)),
      store_file path (write_file h path text) s))"

definition io_failed :: "string \<Rightarrow> viu_error" where
  "io_failed message = make_error Category_Usb 3 message"

definition bytes_text :: "bytes \<Rightarrow> string" where
  "bytes_text bs = map (\<lambda>b. char_of (unat b)) bs"

definition bin_file_save :: "('f, 'p, 'd, 'x) host \<Rightarrow> string \<Rightarrow> bytes \<Rightarrow> (('f, 'y) service, bool) cmd" where
  "bin_file_save h path data s =
     (case write_file h path (bytes_text data) of
        None \<Rightarrow> (Inr False, s)
      | Some (content, good) \<Rightarrow> (Inr good, s\<lparr>files := (files s)(path \<mapsto> content)\<rparr>))"

definition save_hid_report :: "('f, 'p, 'd, 'x) host \<Rightarrow> 'd \<Rightarrow> string \<Rightarrow> (('f, 'y) service, response) cmd" where
  "save_hid_report h d path =
     bindC (bin_file_save h path (report_desc (device_tree h d))) (\<lambda>saved.
     retC (if \<not> saved
           then response_failure (''Failed to save HID report to '' @ path) (io_failed ''Invalid argument'')
           else response_success (''HID report saved to '' @ path)))"

section \<open>Devices\<close>

text \<open>\<open>fetch_add\<close> on the 64-bit counter.\<close>

definition next_device_id :: "(('f, 'x) service, u64) cmd" where
  "next_device_id s = (Inr (device_id_counter s),
     s\<lparr>device_id_counter := device_id_counter s + 1, issued := Suc (issued s)\<rparr>)"

definition emplace_device :: "u64 \<Rightarrow> 'x device_info \<Rightarrow> (('f, 'x) service, unit) cmd" where
  "emplace_device dev_id info s =
     (Inr (), s\<lparr>virtual_devices := fst (om_insert dev_id info (virtual_devices s))\<rparr>)"

text \<open>\<open>vd && *vd != nullptr\<close>\<close>

definition instance_of :: "('f, 'p, 'd, 'x) host \<Rightarrow> string \<Rightarrow> string \<Rightarrow> (('f, 'x) service, 'p) cmd" where
  "instance_of h catalog_path dname s =
     (case manager_device (factory h) catalog_path dname (virtual_device_manager s) of
        Inr (Some p) \<Rightarrow> (Inr p, s)
      | _ \<Rightarrow> (Inl Assertion_Failed, s))"

definition create_mock_device_from_catalog ::
  "('f, 'p, 'd, 'x) host \<Rightarrow> string \<Rightarrow> string \<Rightarrow> tree \<Rightarrow> (('f, 'x) service, unit) cmd" where
  "create_mock_device_from_catalog h catalog_path dname dev_desc =
     bindC (instance_of h catalog_path dname) (\<lambda>vd.
     bindC next_device_id (\<lambda>dev_id.
     bindC (liftC (make_mock h dev_desc vd)) (\<lambda>proxy.
     emplace_device dev_id \<lparr>info_vid = ucast (dd_idVendor (device_desc dev_desc)),
       info_pid = ucast (dd_idProduct (device_desc dev_desc)), info_proxy = proxy\<rparr>)))"

definition create_proxy_device ::
  "('f, 'p, 'd, 'x) host \<Rightarrow> u32 \<Rightarrow> u32 \<Rightarrow> 'p option \<Rightarrow> (('f, 'x) service, unit) cmd" where
  "create_proxy_device h vid pid vd =
     bindC (liftC (open_device h vid pid vd)) (\<lambda>device.
     bindC next_device_id (\<lambda>dev_id.
     bindC (liftC (make_proxy h device)) (\<lambda>proxy.
     emplace_device dev_id \<lparr>info_vid = vid, info_pid = pid, info_proxy = proxy\<rparr>)))"

definition create_proxy_device_from_catalog ::
  "('f, 'p, 'd, 'x) host \<Rightarrow> u32 \<Rightarrow> u32 \<Rightarrow> string \<Rightarrow> string \<Rightarrow> (('f, 'x) service, unit) cmd" where
  "create_proxy_device_from_catalog h vid pid catalog_path dname =
     bindC (instance_of h catalog_path dname) (\<lambda>vd. create_proxy_device h vid pid (Some vd))"

definition service_register_catalog ::
  "('f, 'p, 'd, 'x) host \<Rightarrow> string \<Rightarrow> (('f, 'x) service, 'f catalog result) cmd" where
  "service_register_catalog h path s =
     (case register_catalog (dlopen h) path (virtual_device_manager s) of
        Inl e \<Rightarrow> (Inl e, s)
      | Inr (r, m) \<Rightarrow> (Inr r, s\<lparr>virtual_device_manager := m\<rparr>))"

section \<open>The commands\<close>

definition quote :: string where "quote = [CHR 0x27]"

definition invalid_argument :: "string \<Rightarrow> viu_error" where
  "invalid_argument message = make_error Category_Cli 0 message"

definition app_proxy ::
  "('f, 'p, 'd, 'x) host \<Rightarrow> u32 \<Rightarrow> u32 \<Rightarrow> string \<Rightarrow> (('f, 'x) service, response) cmd" where
  "app_proxy h vid pid catalog_path =
     (if catalog_path = [] then
        bindC (create_proxy_device h vid pid None) (\<lambda>_.
        retC (response_success ''Proxy device created successfully''))
      else
        bindC (service_register_catalog h catalog_path) (\<lambda>register_result.
        case register_result of
          Inl err \<Rightarrow> retC (response_failure (err_message err) err)
        | Inr plugin_factory \<Rightarrow>
            bindC (liftC (viu_assert (number_of_devices plugin_factory = 1))) (\<lambda>_.
            bindC (liftC (device_name plugin_factory 0)) (\<lambda>name.
            bindC (create_proxy_device_from_catalog h vid pid catalog_path name) (\<lambda>_.
            retC (response_success (print_catalog_info plugin_factory @
              println (''Proxy device created successfully using '' @ quote @ catalog_name plugin_factory @
                quote @ '' interface''))))))))"

definition app_save_config ::
  "('f, 'p, 'd, 'x) host \<Rightarrow> u32 \<Rightarrow> u32 \<Rightarrow> string \<Rightarrow> (('f, 'x) service, response) cmd" where
  "app_save_config h vid pid path =
     bindC (liftC (open_device h vid pid None)) (\<lambda>device.
     bindC (liftC (make_proxy h device)) (\<lambda>_. save_config h device path))"

definition app_save_hid_report ::
  "('f, 'p, 'd, 'x) host \<Rightarrow> u32 \<Rightarrow> u32 \<Rightarrow> string \<Rightarrow> (('f, 'x) service, response) cmd" where
  "app_save_hid_report h vid pid path =
     bindC (liftC (open_device h vid pid None)) (\<lambda>device.
     bindC (liftC (make_proxy h device)) (\<lambda>_. save_hid_report h device path))"

definition app_mock ::
  "('f, 'p, 'd, 'x) host \<Rightarrow> string \<Rightarrow> string \<Rightarrow> (('f, 'x) service, response) cmd" where
  "app_mock h device_config_path catalog_path s =
     bindC (liftC (load_config h (files s) device_config_path)) (\<lambda>dev_desc.
     bindC (service_register_catalog h catalog_path) (\<lambda>register_result.
     case register_result of
       Inl err \<Rightarrow> retC (response_failure (err_message err) err)
     | Inr plugin_factory \<Rightarrow>
         bindC (foldC (\<lambda>n. bindC (liftC (device_name plugin_factory n)) (\<lambda>name.
             create_mock_device_from_catalog h catalog_path name dev_desc))
           [0..<number_of_devices plugin_factory]) (\<lambda>_.
         retC (response_success (print_catalog_info plugin_factory @
           println ''Mock devices started successfully''))))) s"

definition app_list_catalogs :: "(('f, 'x) service, response) cmd" where
  "app_list_catalogs s = retC (response_success (list_catalogs (virtual_device_manager s))) s"

definition app_plug ::
  "('f, 'p, 'd, 'x) host \<Rightarrow> string \<Rightarrow> string \<Rightarrow> string \<Rightarrow> (('f, 'x) service, response) cmd" where
  "app_plug h config_path catalog_path dname s =
     bindC (liftC (load_config h (files s) config_path)) (\<lambda>dev_desc.
     bindC (create_mock_device_from_catalog h catalog_path dname dev_desc) (\<lambda>_.
     retC (response_success
       (println (''Device '' @ quote @ dname @ quote @ '' plugged successfully''))))) s"

definition app_version :: "('f, 'p, 'd, 'x) host \<Rightarrow> (('f, 'x) service, response) cmd" where
  "app_version h = retC (response_success (println (full_version h)))"

text \<open>\<open>{:04x}\<close>\<close>

definition show_hex4 :: "u32 \<Rightarrow> string" where
  "show_hex4 v = (let t = show_hex (unat v) in replicate (4 - length t) (CHR ''0'') @ t)"

definition app_list :: "(('f, 'x) service, response) cmd" where
  "app_list s = retC (response_success (println ''Connected Devices:'' @
     (if virtual_devices s = [] then println ''  No devices connected''
      else concat (map (\<lambda>(dev_id, info). println (''  id: '' @ show_nat (unat dev_id) @ '', '' @
        show_hex4 (info_vid info) @ '':'' @ show_hex4 (info_pid info))) (virtual_devices s))))) s"

definition app_unplug :: "u64 \<Rightarrow> (('f, 'x) service, response) cmd" where
  "app_unplug dev_id s =
     (case om_find (virtual_devices s) dev_id of
        None \<Rightarrow> retC (response_failure (println (''Device with id '' @ show_nat (unat dev_id) @ '' not found''))
                  (invalid_argument ''Device not found'')) s
      | Some _ \<Rightarrow> retC (response_success ''Device unplugged successfully'')
                   (s\<lparr>virtual_devices := om_erase dev_id (virtual_devices s)\<rparr>))"

section \<open>The command line\<close>

definition switch :: "string \<Rightarrow> string \<Rightarrow> option_desc" where
  "switch names help = \<lparr>opt_names = names, opt_value = False, opt_help = help\<rparr>"

definition valued :: "string \<Rightarrow> string \<Rightarrow> option_desc" where
  "valued names help = \<lparr>opt_names = names, opt_value = True, opt_help = help\<rparr>"

definition help_option :: option_desc where
  "help_option = switch ''help,h'' ''Show this message''"

definition device_option :: option_desc where
  "device_option = valued ''device,d'' ''Device id as vid:pid''"

definition proxydev_options :: options_description where
  "proxydev_options = \<lparr>od_caption = ''Proxy usb connection'', od_options =
     [help_option, device_option, valued ''catalog,m'' ''Path to a device catalog'']\<rparr>"

definition save_options :: options_description where
  "save_options = \<lparr>od_caption = ''Save device configuration to file'', od_options =
     [help_option, device_option, valued ''file,f'' ''Configuration path'']\<rparr>"

definition save_hid_options :: options_description where
  "save_hid_options = \<lparr>od_caption = ''Save HID report to file'', od_options =
     [help_option, device_option, valued ''file,f'' ''HID report path'']\<rparr>"

definition mock_options :: options_description where
  "mock_options = \<lparr>od_caption = ''Mock devices from a catalog'', od_options =
     [help_option, valued ''config,c'' ''Path to a device configuration'',
      valued ''catalog,m'' ''Path to a device catalog'']\<rparr>"

definition list_catalogs_options :: options_description where
  "list_catalogs_options = \<lparr>od_caption = ''List registered catalogs'', od_options = [help_option]\<rparr>"

definition plug_options :: options_description where
  "plug_options = \<lparr>od_caption = ''Plug a device from a catalog'', od_options =
     [help_option, valued ''config,c'' ''Path to a device configuration'',
      valued ''catalog,m'' ''Path to a device catalog'',
      valued ''device-name,n'' ''Name of the device to plug'']\<rparr>"

definition list_options :: options_description where
  "list_options = \<lparr>od_caption = ''List connected devices'', od_options = [help_option]\<rparr>"

definition unplug_options :: options_description where
  "unplug_options = \<lparr>od_caption = ''Unplug a virtual device'', od_options =
     [help_option, valued ''device-id,i'' ''Device id to unplug'']\<rparr>"

definition top_options :: options_description where
  "top_options = \<lparr>od_caption = ''Virtual USB device CLI'', od_options = [switch ''help'' ''Show this message'']\<rparr>"

text \<open>
  An unknown option is printed and swallowed before anything is stored, so the map is empty;
  every other exception of the parser leaves the command.
\<close>

definition parse_command ::
  "('f, 'p, 'd, 'x) host \<Rightarrow> string list \<Rightarrow> options_description \<Rightarrow> variables_map res" where
  "parse_command h args desc =
     (case parse_options h desc args of
        Parsed vm \<Rightarrow> Inr vm
      | Unknown_Option \<Rightarrow> Inr []
      | Other_Option_Error what \<Rightarrow> Inl (Runtime_Error what))"

definition vm_count :: "variables_map \<Rightarrow> string \<Rightarrow> nat" where
  "vm_count vm p = (if map_of vm p = None then 0 else 1)"

text \<open>The variable an option is bound to: untouched when the option is missing.\<close>

definition vm_value :: "variables_map \<Rightarrow> string \<Rightarrow> string" where
  "vm_value vm p = (case map_of vm p of None \<Rightarrow> [] | Some v \<Rightarrow> v)"

definition check_cli_params ::
  "('f, 'p, 'd, 'x) host \<Rightarrow> variables_map \<Rightarrow> options_description \<Rightarrow> string list \<Rightarrow> unit result" where
  "check_cli_params h vm desc params =
     (let missing = filter (\<lambda>p. vm_count vm p = 0) params
      in if missing \<noteq> [] then
           Inl (invalid_argument (concat (map (\<lambda>p. println (''--'' @ p @ '' is required'')) missing) @
             println ''Usage:'' @ usage_text h desc))
         else Inr ())"

text \<open>The frame all commands with options share.\<close>

definition with_options ::
  "('f, 'p, 'd, 'x) host \<Rightarrow> string list \<Rightarrow> options_description \<Rightarrow> string list \<Rightarrow>
   (variables_map \<Rightarrow> (('f, 'x) service, response) cmd) \<Rightarrow> (('f, 'x) service, response) cmd" where
  "with_options h args desc params body =
     bindC (liftC (parse_command h args desc)) (\<lambda>vm.
     if vm_count vm ''help'' \<noteq> 0 then retC (response_success (usage_text h desc))
     else (case check_cli_params h vm desc params of
             Inl err \<Rightarrow> retC (response_failure (err_message err) err)
           | Inr _ \<Rightarrow> body vm))"

definition run_proxydev_command :: "('f, 'p, 'd, 'x) host \<Rightarrow> string list \<Rightarrow> (('f, 'x) service, response) cmd" where
  "run_proxydev_command h args = with_options h args proxydev_options [''device''] (\<lambda>vm.
     case read_device_id (vm_value vm ''device'') of
       (vid, pid) \<Rightarrow> app_proxy h vid pid (vm_value vm ''catalog''))"

definition run_save_command :: "('f, 'p, 'd, 'x) host \<Rightarrow> string list \<Rightarrow> (('f, 'x) service, response) cmd" where
  "run_save_command h args = with_options h args save_options [''device'', ''file''] (\<lambda>vm.
     case read_device_id (vm_value vm ''device'') of
       (vid, pid) \<Rightarrow> app_save_config h vid pid (vm_value vm ''file''))"

definition run_save_hid_report :: "('f, 'p, 'd, 'x) host \<Rightarrow> string list \<Rightarrow> (('f, 'x) service, response) cmd" where
  "run_save_hid_report h args = with_options h args save_hid_options [''device'', ''file''] (\<lambda>vm.
     case read_device_id (vm_value vm ''device'') of
       (vid, pid) \<Rightarrow> app_save_hid_report h vid pid (vm_value vm ''file''))"

definition run_mock_command :: "('f, 'p, 'd, 'x) host \<Rightarrow> string list \<Rightarrow> (('f, 'x) service, response) cmd" where
  "run_mock_command h args = with_options h args mock_options [''config'', ''catalog''] (\<lambda>vm.
     app_mock h (vm_value vm ''config'') (vm_value vm ''catalog''))"

definition run_list_catalogs_command :: "('f, 'p, 'd, 'x) host \<Rightarrow> string list \<Rightarrow> (('f, 'x) service, response) cmd" where
  "run_list_catalogs_command h args = with_options h args list_catalogs_options [] (\<lambda>_. app_list_catalogs)"

definition run_plug_command :: "('f, 'p, 'd, 'x) host \<Rightarrow> string list \<Rightarrow> (('f, 'x) service, response) cmd" where
  "run_plug_command h args = with_options h args plug_options [''config'', ''catalog'', ''device-name''] (\<lambda>vm.
     app_plug h (vm_value vm ''config'') (vm_value vm ''catalog'') (vm_value vm ''device-name''))"

definition run_version_command :: "('f, 'p, 'd, 'x) host \<Rightarrow> string list \<Rightarrow> (('f, 'x) service, response) cmd" where
  "run_version_command h args = app_version h"

definition run_list_command :: "('f, 'p, 'd, 'x) host \<Rightarrow> string list \<Rightarrow> (('f, 'x) service, response) cmd" where
  "run_list_command h args = with_options h args list_options [] (\<lambda>_. app_list)"

definition run_unplug_command :: "('f, 'p, 'd, 'x) host \<Rightarrow> string list \<Rightarrow> (('f, 'x) service, response) cmd" where
  "run_unplug_command h args = with_options h args unplug_options [''device-id''] (\<lambda>vm.
     app_unplug (to_u64 h (vm_value vm ''device-id'')))"

text \<open>The map of the sub-commands, in the order of its keys.\<close>

definition subcommands ::
  "('f, 'p, 'd, 'x) host \<Rightarrow> (string, string list \<Rightarrow> (('f, 'x) service, response) cmd) omap" where
  "subcommands h =
     [(''list'', run_list_command h), (''list-catalogs'', run_list_catalogs_command h),
      (''mock'', run_mock_command h), (''plug'', run_plug_command h),
      (''proxydev'', run_proxydev_command h), (''save'', run_save_command h),
      (''save-hid-report'', run_save_hid_report h), (''unplug'', run_unplug_command h),
      (''version'', run_version_command h)]"

definition get_subcommand :: "string list \<Rightarrow> string" where
  "get_subcommand args = (case args of _ # c # _ \<Rightarrow> c | _ \<Rightarrow> [])"

definition print_usage :: "('f, 'p, 'd, 'x) host \<Rightarrow> string" where
  "print_usage h = usage_text h top_options @ println ''List of subcommands:'' @
     concat (map (\<lambda>p. println (''  '' @ fst p)) (subcommands h :: (_, _ \<Rightarrow> (('f, 'x) service, response) cmd) omap))"

definition execute_from_argv :: "('f, 'p, 'd, 'x) host \<Rightarrow> string list \<Rightarrow> (('f, 'x) service, response) cmd" where
  "execute_from_argv h args =
     (case om_find (subcommands h) (get_subcommand args) of
        Some func \<Rightarrow> func (tl args)
      | None \<Rightarrow>
          bindC (liftC (parse_command h args top_options)) (\<lambda>vm.
          if vm_count vm ''help'' \<noteq> 0 then retC (response_success (print_usage h))
          else retC (response_failure
            (println ''Invalid or no subcommand provided'' @ println ''Usage:'' @ print_usage h)
            (invalid_argument ''Invalid argument''))))"

section \<open>A connection\<close>

text \<open>
  What a client sends until it closes its end, or a failed accept. Reading past the end of what
  was sent throws.
\<close>

datatype connection = Accept_Failed | Connected bytes

definition asio_read :: "nat \<Rightarrow> bytes \<Rightarrow> (bytes \<times> bytes) res" where
  "asio_read n bs = (if n \<le> length bs then Inr (take n bs, drop n bs) else Inl (Runtime_Error ''End of file''))"

datatype 's outcome = Running 's "bytes option" | Died exn

definition is_std_exception :: "exn \<Rightarrow> bool" where
  "is_std_exception e \<longleftrightarrow> e \<noteq> Assertion_Failed \<and> e \<noteq> Undefined_Behaviour"

definition frame :: "bytes \<Rightarrow> bytes" where
  "frame payload = le_bytes 4 (of_nat (length payload) :: u32) @ payload"

definition args_of_payload :: "bytes \<Rightarrow> string list res" where
  "args_of_payload payload =
     bindR (deserialize_argv payload (length payload)) (\<lambda>d.
     bindR (args_of d) (\<lambda>as. Inr (map bytes_text as)))"

text \<open>
  The reads stand outside the \<open>try\<close> block: their exceptions leave \<open>handle_accept\<close>, \<open>io.run()\<close> and
  \<open>main\<close>. Inside it an exception is printed and the client gets no answer.
\<close>

definition handle_accept ::
  "('f, 'p, 'd, 'x) host \<Rightarrow> connection \<Rightarrow> ('f, 'x) service \<Rightarrow> ('f, 'x) service outcome" where
  "handle_accept h c s =
     (case c of
        Accept_Failed \<Rightarrow> Running s None
      | Connected sent \<Rightarrow>
          (case bindR (asio_read 4 sent) (\<lambda>(sz, rest). asio_read (from_le sz) rest) of
             Inl e \<Rightarrow> Died e
           | Inr (payload, _) \<Rightarrow>
               (case bindC (liftC (args_of_payload payload)) (execute_from_argv h) s of
                  (Inr response, s') \<Rightarrow> Running s' (Some (frame (archive h response)))
                | (Inl e, s') \<Rightarrow> if is_std_exception e then Running s' None else Died e)))"

section \<open>The client\<close>

text \<open>
  \<open>client::send_command\<close>: what it sends, and what it prints of the answer. \<open>unarchive\<close> reads the
  archive of a response; the exit code is 1 only when an exception was caught.
\<close>

definition client_request :: "bytes list \<Rightarrow> bytes res" where
  "client_request args =
     bindR (serialize_argv (int (length args)) (map Some args @ [None])) (\<lambda>payload. Inr (frame payload))"

definition client_answer :: "(bytes \<Rightarrow> response res) \<Rightarrow> bytes \<Rightarrow> int \<times> string" where
  "client_answer unarchive received =
     (case bindR (bindR (asio_read 4 received) (\<lambda>(sz, rest). asio_read (from_le sz) rest))
         (\<lambda>(data, _). unarchive data) of
        Inr resp \<Rightarrow> (0, println (''Response:'' @ [CHR 0x0A] @ resp_message resp))
      | Inl e \<Rightarrow> (1, []))"

end
