(* ===== verification/Daemon_Properties.thy ===== *)
theory Daemon_Properties
  imports Daemon_Model Json_Properties
begin

text \<open>
  What the daemon guarantees, and where it does not: the tables stay well formed, a device
  leaves only by unplug, identifiers are not reused, a request that the client framed is
  executed and answered, a saved configuration is the one loaded later, and the inputs that
  are refused, that get no answer, or that end the process.
\<close>

section \<open>Relations kept by commands\<close>

text \<open>
  A reflexive and transitive relation between the state before and after a command needs to be
  shown for the primitive steps only.
\<close>

locale command_frame =
  fixes R :: "'s \<Rightarrow> 's \<Rightarrow> bool"
  assumes refl: "R s s" and trans: "R s t \<Longrightarrow> R t u \<Longrightarrow> R s u"
begin

definition keeps :: "('s, 'a) cmd \<Rightarrow> bool" where
  "keeps m \<longleftrightarrow> (\<forall>s. R s (snd (m s)))"

lemma keepsI: "(\<And>s. R s (snd (m s))) \<Longrightarrow> keeps m"
  by (simp add: keeps_def)

lemma keepsD: "keeps m \<Longrightarrow> R s (snd (m s))"
  by (simp add: keeps_def)

lemma keeps_retC: "keeps (retC x)"
  by (simp add: keeps_def retC_def refl)

lemma keeps_liftC: "keeps (liftC r)"
  by (simp add: keeps_def liftC_def refl)

lemma keeps_bindC:
  assumes "keeps m" and "\<And>x. keeps (f x)"
  shows "keeps (bindC m f)"
proof (rule keepsI)
  fix s
  obtain r s' where m: "m s = (r, s')" by force
  then have "R s s'" using keepsD [OF assms(1), of s] by simp
  then show "R s (snd (bindC m f s))"
    using keepsD [OF assms(2)] m trans by (cases r) (auto simp: bindC_def)
qed

lemma keeps_foldC: "(\<And>x. keeps (f x)) \<Longrightarrow> keeps (foldC f xs)"
  by (induction xs) (simp_all add: keeps_retC keeps_bindC)

lemma keeps_case_sum:
  "(\<And>e. keeps (f e)) \<Longrightarrow> (\<And>x. keeps (g x)) \<Longrightarrow> keeps (case r of Inl e \<Rightarrow> f e | Inr x \<Rightarrow> g x)"
  by (cases r) simp_all

lemma keeps_if: "keeps m \<Longrightarrow> keeps n \<Longrightarrow> keeps (if b then m else n)"
  by simp

lemmas keeps_intros = keeps_bindC keeps_retC keeps_liftC keeps_foldC keeps_case_sum keeps_if

end

text \<open>A relation on the states of the service, kept by the frame that commands with options share.\<close>

locale service_frame = command_frame R for R :: "('f, 'x) service \<Rightarrow> ('f, 'x) service \<Rightarrow> bool"
begin

lemma keeps_with_options: "(\<And>vm. keeps (body vm)) \<Longrightarrow> keeps (with_options h args desc params body)"
  unfolding with_options_def
  by (intro keeps_intros)

end

section \<open>The tables\<close>

definition daemon_inv :: "('f, 'x) service \<Rightarrow> bool" where
  "daemon_inv s \<longleftrightarrow> om_inv (virtual_device_manager s) \<and> om_inv (virtual_devices s) \<and>
     device_id_counter s = of_nat (issued s) \<and>
     (issued s \<le> 2 ^ 64 \<longrightarrow> (\<forall>e\<in>set (virtual_devices s). unat (fst e) < issued s))"

definition grows :: "('f, 'x) service \<Rightarrow> ('f, 'x) service \<Rightarrow> bool" where
  "grows s s' \<longleftrightarrow> (daemon_inv s \<longrightarrow> daemon_inv s' \<and>
     om_find (virtual_devices s) \<subseteq>\<^sub>m om_find (virtual_devices s') \<and> issued s \<le> issued s')"

interpretation grow: service_frame grows
proof
  show "grows s s" for s :: "('f, 'x) service" by (simp add: grows_def)
  show "grows s u" if "grows s t" "grows t u" for s t u :: "('f, 'x) service"
    using that map_le_trans by (auto simp: grows_def)
qed

lemma insert_map_le: "om_inv m \<Longrightarrow> om_find m \<subseteq>\<^sub>m om_find (fst (om_insert k v m))"
  by (auto simp: om_find_insert map_le_def)

text \<open>Taking an identifier and entering the device under it.\<close>

lemma issue_grows:
  "grows s (snd (bindC next_device_id (\<lambda>i. bindC (liftC r) (\<lambda>x. emplace_device i (info x))) s))"
proof -
  have "daemon_inv (s\<lparr>device_id_counter := device_id_counter s + 1, issued := Suc (issued s)\<rparr>)"
    if "daemon_inv s" using that by (auto simp: daemon_inv_def)
  moreover have "daemon_inv (s\<lparr>device_id_counter := device_id_counter s + 1, issued := Suc (issued s),
      virtual_devices := fst (om_insert (device_id_counter s) i (virtual_devices s))\<rparr>)"
    if "daemon_inv s" for i
  proof -
    have "unat (fst e) < Suc (issued s)"
      if e: "e \<in> set (fst (om_insert (device_id_counter s) i (virtual_devices s)))"
        and le: "Suc (issued s) \<le> 2 ^ 64" for e
    proof -
      from e have "fst e \<in> insert (device_id_counter s) (fst ` set (virtual_devices s))"
        using om_insert_keys [of "device_id_counter s" i "virtual_devices s"] by blast
      moreover have "unat (device_id_counter s) = issued s"
        using \<open>daemon_inv s\<close> le by (simp add: daemon_inv_def unsigned_of_nat take_bit_nat_eq_self)
      ultimately show ?thesis using \<open>daemon_inv s\<close> le by (auto simp: daemon_inv_def)
    qed
    then show ?thesis using \<open>daemon_inv s\<close> by (auto simp: daemon_inv_def om_inv_insert)
  qed
  moreover have "om_find (virtual_devices s) \<subseteq>\<^sub>m
      om_find (fst (om_insert (device_id_counter s) i (virtual_devices s)))" if "daemon_inv s" for i
    using that by (intro insert_map_le) (simp add: daemon_inv_def)
  ultimately show ?thesis
    by (cases r) (auto simp: grows_def bindC_def liftC_def next_device_id_def emplace_device_def)
qed

lemma keeps_instance_of: "grow.keeps (instance_of h c d)"
  by (rule grow.keepsI) (auto simp: instance_of_def grow.refl split: sum.splits option.splits)

lemma keeps_register: "grow.keeps (service_register_catalog h c)"
proof (rule grow.keepsI)
  fix s
  show "grows s (snd (service_register_catalog h c s))"
    using register_catalog_inv [of "dlopen h" c "virtual_device_manager s"]
    by (auto simp: service_register_catalog_def grows_def daemon_inv_def split: sum.splits)
qed

lemma keeps_create_mock: "grow.keeps (create_mock_device_from_catalog h c d t)"
  unfolding create_mock_device_from_catalog_def
  by (intro grow.keeps_bindC keeps_instance_of grow.keepsI issue_grows)

lemma keeps_create_proxy: "grow.keeps (create_proxy_device h vid pid vd)"
  unfolding create_proxy_device_def
  by (intro grow.keeps_bindC grow.keeps_liftC grow.keepsI issue_grows)

lemma keeps_create_proxy_catalog: "grow.keeps (create_proxy_device_from_catalog h vid pid c d)"
  unfolding create_proxy_device_from_catalog_def
  by (intro grow.keeps_bindC keeps_instance_of keeps_create_proxy)

lemma keeps_app_proxy: "grow.keeps (app_proxy h vid pid c)"
  unfolding app_proxy_def
  by (intro grow.keeps_intros keeps_create_proxy keeps_register keeps_create_proxy_catalog)

lemma grows_files: "grows s (s\<lparr>files := fs\<rparr>)"
  by (simp add: grows_def daemon_inv_def)

lemma keeps_save_config: "grow.keeps (save_config h d path)"
  unfolding save_config_def
  by (intro grow.keeps_bindC grow.keeps_liftC grow.keepsI)
    (auto simp: store_file_def grow.refl grows_files split: option.splits)

lemma keeps_save_hid: "grow.keeps (save_hid_report h d path)"
  unfolding save_hid_report_def bin_file_save_def
  by (intro grow.keeps_bindC grow.keeps_retC grow.keepsI)
    (auto simp: grow.refl grows_files split: option.splits)

lemma keeps_app_mock: "grow.keeps (app_mock h c p)"
  by (rule grow.keepsI, unfold app_mock_def, rule grow.keepsD)
    (intro grow.keeps_intros keeps_register keeps_create_mock)

lemma keeps_app_plug: "grow.keeps (app_plug h c p n)"
  by (rule grow.keepsI, unfold app_plug_def, rule grow.keepsD)
    (intro grow.keeps_intros keeps_create_mock)

text \<open>Every command but \<open>unplug\<close> only adds devices.\<close>

lemma keeps_app_list: "grow.keeps app_list" "grow.keeps app_list_catalogs"
  by (simp_all add: grow.keeps_def app_list_def app_list_catalogs_def retC_def grow.refl)

lemma subcommand_grows:
  assumes "om_find (subcommands h) name = Some func" "name \<noteq> ''unplug''"
  shows "grow.keeps (func args)"
proof -
  have "(name, func) \<in> set (subcommands h)" using assms(1) by (simp add: om_find_def map_of_SomeD)
  then show ?thesis using assms(2)
    by (auto simp: subcommands_def run_list_command_def run_list_catalogs_command_def run_mock_command_def
        run_plug_command_def run_proxydev_command_def run_save_command_def run_save_hid_report_def
        run_version_command_def app_version_def app_save_config_def app_save_hid_report_def split_beta
        intro!: grow.keeps_with_options grow.keeps_intros keeps_app_list keeps_app_mock keeps_app_plug
          keeps_app_proxy keeps_save_config keeps_save_hid)
qed

lemma app_unplug_inv:
  "daemon_inv s \<Longrightarrow> daemon_inv (snd (app_unplug i s)) \<and> issued (snd (app_unplug i s)) = issued s"
  by (auto simp: app_unplug_def retC_def daemon_inv_def om_erase_def
      om_inv_erase [unfolded om_erase_def] split: option.splits)

text \<open>A request either only adds devices or is an \<open>unplug\<close>, whose whole effect is one erasure.\<close>

text \<open>What a request asks for, stated apart from the dispatcher: the arguments a connection carries, and the
  device they want unplugged, if that is what they want.\<close>

definition connection_args :: "connection \<Rightarrow> string list option" where
  "connection_args c =
     (case c of
        Accept_Failed \<Rightarrow> None
      | Connected sent \<Rightarrow>
          (case bindR (asio_read 4 sent) (\<lambda>(sz, rest). asio_read (from_le sz) rest) of
             Inl e \<Rightarrow> None
           | Inr (payload, _) \<Rightarrow> (case args_of_payload payload of Inl e \<Rightarrow> None | Inr args \<Rightarrow> Some args)))"

definition asks_unplug :: "('f, 'p, 'd, 'x) host \<Rightarrow> string list \<Rightarrow> u64 option" where
  "asks_unplug h args =
     (if get_subcommand args \<noteq> ''unplug'' then None
      else (case parse_options h unplug_options (tl args) of
          Parsed vm \<Rightarrow> if map_of vm ''help'' = None then map_option (to_u64 h) (map_of vm ''device-id'') else None
        | _ \<Rightarrow> None))"

lemma execute_unplug:
  fixes h :: "('f, 'p, 'd, 'x) host" and s :: "('f, 'x) service"
  assumes "get_subcommand args = ''unplug''"
  shows "execute_from_argv h args s = run_unplug_command h (tl args) s"
  using assms by (simp add: execute_from_argv_def subcommands_def om_find_def)

lemma run_unplug_cases:
  assumes "get_subcommand args = ''unplug''"
  shows "case asks_unplug h args of
      Some i \<Rightarrow> run_unplug_command h (tl args) s = app_unplug i s
    | None \<Rightarrow> snd (run_unplug_command h (tl args) s) = s"
  using assms
  by (auto simp: asks_unplug_def run_unplug_command_def with_options_def parse_command_def vm_count_def vm_value_def
      check_cli_params_def bindC_def liftC_def retC_def split: parsed.splits option.splits)

lemma execute_cases:
  fixes h :: "('f, 'p, 'd, 'x) host" and s :: "('f, 'x) service"
  obtains (grows) "asks_unplug h args = None" "grows s (snd (execute_from_argv h args s))"
  | (unplug) i where "asks_unplug h args = Some i" "execute_from_argv h args s = app_unplug i s"
proof (cases "get_subcommand args = ''unplug''")
  case True
  then show thesis
    using run_unplug_cases [OF True, of h s] execute_unplug [OF True, of h s] grows unplug
    by (cases "asks_unplug h args") (simp_all add: grow.refl)
next
  case False
  then have none: "asks_unplug h args = None" by (simp add: asks_unplug_def)
  show thesis
  proof (cases "om_find (subcommands h) (get_subcommand args) :: (string list \<Rightarrow> (('f, 'x) service, response) cmd) option")
    case None
    have "grow.keeps (execute_from_argv h args :: (('f, 'x) service, response) cmd)"
      unfolding execute_from_argv_def None option.case by (intro grow.keeps_intros)
    then show thesis using grows [OF none] grow.keepsD by blast
  next
    case (Some func)
    then have "execute_from_argv h args s = func (tl args) s" by (simp add: execute_from_argv_def)
    then show thesis using grow.keepsD [OF subcommand_grows [OF Some False]] grows [OF none] by simp
  qed
qed

lemma execute_inv: "daemon_inv s \<Longrightarrow> daemon_inv (snd (execute_from_argv h args s))"
  by (rule execute_cases [of h args s]) (auto simp: grows_def app_unplug_inv)

inductive daemon_reachable ::
  "('f, 'p, 'd, 'x) host \<Rightarrow> (string \<Rightarrow> string option) \<Rightarrow> ('f, 'x) service \<Rightarrow> bool"
  for h fs where
  started: "daemon_reachable h fs (service_init fs)"
| files_change: "daemon_reachable h fs s \<Longrightarrow> daemon_reachable h fs (s\<lparr>files := fs'\<rparr>)"
| request: "daemon_reachable h fs s \<Longrightarrow> handle_accept h c s = Running s' answer \<Longrightarrow> daemon_reachable h fs s'"

text \<open>What a connection does to the state: nothing, or what the command in its payload does.\<close>

lemma handle_accept_cases:
  assumes "handle_accept h c s = Running s' answer"
  obtains (unchanged) "connection_args c = None" "s' = s" "answer = None"
  | (command) args r where "connection_args c = Some args" "execute_from_argv h args s = (r, s')"
      "answer = (case r of Inl e \<Rightarrow> None | Inr resp \<Rightarrow> Some (frame (archive h resp)))"
proof (cases c)
  case Accept_Failed
  then show thesis using assms by (intro unchanged) (simp_all add: handle_accept_def connection_args_def)
next
  case (Connected sent)
  then obtain payload rest where p: "bindR (asio_read 4 sent) (\<lambda>(sz, rest). asio_read (from_le sz) rest) = Inr (payload, rest)"
    using assms by (cases "bindR (asio_read 4 sent) (\<lambda>(sz, rest). asio_read (from_le sz) rest)")
      (auto simp: handle_accept_def)
  show thesis
  proof (cases "args_of_payload payload")
    case (Inl e)
    then show thesis using assms p Connected
      by (intro unchanged) (auto simp: handle_accept_def connection_args_def bindC_def liftC_def split: if_splits)
  next
    case (Inr args)
    obtain r t where ex: "execute_from_argv h args s = (r, t)" by force
    then show thesis using assms p Connected Inr
      by (intro command [of args r])
        (auto simp: handle_accept_def connection_args_def bindC_def liftC_def split: if_splits sum.splits)
  qed
qed

lemma reachable_inv: "daemon_reachable h fs s \<Longrightarrow> daemon_inv s"
proof (induction rule: daemon_reachable.induct)
  case started
  then show ?case by (simp add: daemon_inv_def service_init_def)
next
  case (files_change s fs')
  then show ?case by (simp add: daemon_inv_def)
next
  case (request s c s' answer)
  from request.hyps(2) show ?case
  proof (cases rule: handle_accept_cases)
    case unchanged
    with request show ?thesis by simp
  next
    case (command args r)
    with execute_inv [OF request.IH, of h args] show ?thesis by simp
  qed
qed

section \<open>A concrete host\<close>

fun option_pairs :: "string list \<Rightarrow> variables_map" where
  "option_pairs (n # v # rest) = (drop 2 n, v) # option_pairs rest"
| "option_pairs [n] = [(drop 2 n, [])]"
| "option_pairs [] = []"

definition example_host :: "(nat, nat, tree, nat) host" where
  "example_host = \<lparr>
     dlopen = (\<lambda>path. if path = ''lib'' then Some (Some [Set_Name (Some ''mice''),
       Register_Device (Some ''m'') (Some 0)]) else None),
     factory = Some,
     open_device = (\<lambda>vid pid p. if pid = 0 then Inl (Runtime_Error ''no device'') else Inr tree_init),
     device_tree = (\<lambda>d. d), make_proxy = (\<lambda>d. Inr 0), make_mock = (\<lambda>t p. Inr p),
     lexical = decimal_lex, boost_parse = (\<lambda>_. Inl json_error),
     write_file = (\<lambda>path w. Some (w, True)),
     parse_options = (\<lambda>desc args. if ''--bogus'' \<in> set args then Unknown_Option
       else Parsed (option_pairs (tl args))),
     usage_text = od_caption, to_u64 = (\<lambda>t. of_nat (fst (read_nat 0 t))),
     full_version = ''1'', archive = (\<lambda>r. map of_char (resp_message r))\<rparr>"

definition example_service :: "(nat, nat) service" where
  "example_service = (service_init (\<lambda>_. None))\<lparr>device_id_counter := 2, issued := 2,
     virtual_devices := [(1, \<lparr>info_vid = 0x1d6b, info_pid = 2, info_proxy = 0\<rparr>)]\<rparr>"

section \<open>The table of devices\<close>

text \<open>C19: In every state the daemon reaches, whatever its clients send, the tables of catalogues and
  devices hold each key once and in order, the counter is the number of identifiers handed out,
  and until 2^64 were handed out the next identifier is above every one in use, so no device takes
  the identifier of another.\<close>

theorem daemon_tables_well_formed:
  assumes "daemon_reachable h fs s"
  shows "om_inv (virtual_device_manager s) \<and> om_inv (virtual_devices s) \<and>
    device_id_counter s = of_nat (issued s) \<and>
    (issued s < 2 ^ 64 \<longrightarrow> (\<forall>i\<in>fst ` set (virtual_devices s). i < device_id_counter s))"
proof -
  have inv: "daemon_inv s" by (rule reachable_inv [OF assms])
  have "fst e < device_id_counter s" if e: "e \<in> set (virtual_devices s)" and lt: "issued s < 2 ^ 64" for e
  proof -
    have "unat (device_id_counter s) = issued s"
      using inv lt by (simp add: daemon_inv_def unsigned_of_nat take_bit_nat_eq_self)
    moreover have "unat (fst e) < issued s" using inv e lt by (auto simp: daemon_inv_def)
    ultimately show ?thesis by (simp add: word_less_nat_alt)
  qed
  with inv show ?thesis by (auto simp: daemon_inv_def)
qed

text \<open>C20: A request that is an \<open>unplug\<close> with a device identifier removes the device of that identifier and
  no other, and the client is told so; when there is none, nothing changes and the client is told that.
  Every other request, and a connection that carries none, leaves every device as it is.\<close>

theorem devices_leave_only_by_unplug:
  assumes "daemon_reachable h fs s" "handle_accept h c s = Running s' answer"
  shows "case Option.bind (connection_args c) (asks_unplug h) of
      Some j \<Rightarrow>
        (\<forall>i. om_find (virtual_devices s') i = (if i = j then None else om_find (virtual_devices s) i)) \<and>
        (if om_find (virtual_devices s) j \<noteq> None
         then answer = Some (frame (archive h (response_success ''Device unplugged successfully'')))
         else s' = s \<and> (\<exists>resp. answer = Some (frame (archive h resp)) \<and> \<not> is_success resp))
    | None \<Rightarrow> (\<forall>i info. om_find (virtual_devices s) i = Some info \<longrightarrow> om_find (virtual_devices s') i = Some info)"
  using assms(2)
proof (cases rule: handle_accept_cases)
  case unchanged
  then show ?thesis by simp
next
  case (command args r)
  then have s': "s' = snd (execute_from_argv h args s)" by simp
  show ?thesis
  proof (rule execute_cases [of h args s])
    assume "asks_unplug h args = None" "grows s (snd (execute_from_argv h args s))"
    moreover from this reachable_inv [OF assms(1)] have "om_find (virtual_devices s) \<subseteq>\<^sub>m om_find (virtual_devices s')"
      unfolding s' by (simp add: grows_def)
    ultimately show ?thesis using command(1) by (auto simp: map_le_def domI dest: bspec)
  next
    fix j
    assume j: "asks_unplug h args = Some j" "execute_from_argv h args s = app_unplug j s"
    show ?thesis
      using j command
      by (cases "om_find (virtual_devices s) j")
        (auto simp: app_unplug_def retC_def om_find_erase response_failure_def is_success_def has_error_def)
  qed
qed

section \<open>Requests that are refused\<close>

definition command_table :: "(string \<times> options_description \<times> string list) list" where
  "command_table =
     [(''proxydev'', proxydev_options, [''device'']), (''save'', save_options, [''device'', ''file'']),
      (''save-hid-report'', save_hid_options, [''device'', ''file'']),
      (''mock'', mock_options, [''config'', ''catalog'']),
      (''plug'', plug_options, [''config'', ''catalog'', ''device-name'']),
      (''unplug'', unplug_options, [''device-id''])]"

lemma with_options_missing:
  assumes "parse_command h args desc = Inr vm" "map_of vm ''help'' = None"
    and "p \<in> set params" "map_of vm p = None"
  shows "\<exists>m. with_options h args desc params body s =
    (Inr (response_failure m (invalid_argument m)), s)"
proof -
  have "filter (\<lambda>p. vm_count vm p = 0) params \<noteq> []"
    using assms(3,4) by (auto simp: vm_count_def filter_empty_conv)
  then obtain m where "check_cli_params h vm desc params = Inl (invalid_argument m)"
    by (simp add: check_cli_params_def Let_def)
  then show ?thesis using assms(1,2)
    by (auto simp: with_options_def bindC_def liftC_def retC_def vm_count_def invalid_argument_def make_error_def)
qed

text \<open>A command with a required option missing, or with an option it does not know (which makes
  it lose all its options), is answered with an invalid-argument failure and changes nothing.\<close>

lemma missing_option_refused:
  assumes "(name, desc, params) \<in> set command_table"
    and "parse_options h desc (name # rest) = Unknown_Option \<or>
      (\<exists>vm. parse_options h desc (name # rest) = Parsed vm \<and> map_of vm ''help'' = None \<and>
        (\<exists>p\<in>set params. map_of vm p = None))"
  shows "\<exists>m. execute_from_argv h (prog # name # rest) s =
    (Inr (response_failure m (invalid_argument m)), s)"
proof -
  obtain vm p where vm: "parse_command h (name # rest) desc = Inr vm" "map_of vm ''help'' = None"
    "p \<in> set params" "map_of vm p = None"
  proof (use assms(2) in \<open>elim disjE exE conjE bexE\<close>)
    assume "parse_options h desc (name # rest) = Unknown_Option"
    moreover have "params \<noteq> []" using assms(1) by (auto simp: command_table_def)
    then obtain p where "p \<in> set params" by (cases params) auto
    ultimately show thesis using that [of "[]" p] by (simp add: parse_command_def)
  next
    fix vm p
    assume "parse_options h desc (name # rest) = Parsed vm" "map_of vm ''help'' = None"
      "p \<in> set params" "map_of vm p = None"
    then show thesis using that [of vm p] by (simp add: parse_command_def)
  qed
  obtain body where "execute_from_argv h (prog # name # rest) s = with_options h (name # rest) desc params body s"
    using assms(1)
    by (auto simp: command_table_def execute_from_argv_def get_subcommand_def subcommands_def om_find_def
        run_proxydev_command_def run_save_command_def run_save_hid_report_def run_mock_command_def
        run_plug_command_def run_unplug_command_def)
  with with_options_missing [OF vm] show ?thesis by metis
qed

lemma missing_option_refused_witness:
  "\<exists>m. execute_from_argv example_host [''viu'', ''plug'', ''--config'', ''c''] example_service =
    (Inr (response_failure m (invalid_argument m)), example_service)"
  by (rule missing_option_refused [where desc = plug_options and params = "[''config'', ''catalog'', ''device-name'']"])
    (simp_all add: command_table_def example_host_def)

definition subcommand_names :: "string list" where
  "subcommand_names = [''list'', ''list-catalogs'', ''mock'', ''plug'', ''proxydev'', ''save'',
     ''save-hid-report'', ''unplug'', ''version'']"

lemma map_fst_subcommands: "map fst (subcommands h) = subcommand_names"
  by (simp add: subcommands_def subcommand_names_def)

lemma om_inv_subcommands: "om_inv (subcommands h)"
  unfolding om_inv_def map_fst_subcommands subcommand_names_def
  by (simp add: less_char_def)

text \<open>A request without a sub-command, or with a word that is none, is answered with an
  invalid-argument failure whose message lists every sub-command, and changes nothing.\<close>

lemma unknown_subcommand_refused:
  fixes h :: "('f, 'p, 'd, 'x) host" and s :: "('f, 'x) service"
  assumes "get_subcommand args \<notin> set subcommand_names"
    and "parse_options h top_options args = Parsed vm" "map_of vm ''help'' = None"
  shows "\<exists>m. execute_from_argv h args s =
      (Inr (response_failure m (invalid_argument ''Invalid argument'')), s) \<and>
    (\<forall>name\<in>set subcommand_names. \<exists>a b. m = a @ println (''  '' @ name) @ b)"
proof -
  let ?u = "usage_text h top_options @ println ''List of subcommands:''"
  let ?m = "println ''Invalid or no subcommand provided'' @ println ''Usage:'' @ print_usage h"
  have usage: "print_usage h = ?u @ concat (map (\<lambda>n. println (''  '' @ n)) subcommand_names)"
    unfolding print_usage_def by (simp add: map_fst_subcommands [symmetric, of h] comp_def)
  have "om_find (subcommands h :: (string, string list \<Rightarrow> (('f, 'x) service, response) cmd) omap)
      (get_subcommand args) = None"
    using assms(1) map_fst_subcommands [of h] unfolding om_find_None_iff by (metis list.set_map)
  then have "execute_from_argv h args s =
      (Inr (response_failure ?m (invalid_argument ''Invalid argument'')), s)"
    using assms(2,3) by (simp add: execute_from_argv_def parse_command_def bindC_def liftC_def retC_def vm_count_def)
  moreover have "\<exists>a b. ?m = a @ println (''  '' @ name) @ b" if "name \<in> set subcommand_names" for name
  proof -
    obtain pre post where names: "subcommand_names = pre @ name # post" using \<open>name \<in> _\<close> by (meson split_list)
    have "?m = (println ''Invalid or no subcommand provided'' @ println ''Usage:'' @ ?u @
        concat (map (\<lambda>n. println (''  '' @ n)) pre)) @ println (''  '' @ name) @
        concat (map (\<lambda>n. println (''  '' @ n)) post)"
      unfolding usage names by simp
    then show ?thesis by blast
  qed
  ultimately show ?thesis by blast
qed

lemma unknown_subcommand_refused_witness:
  "\<exists>m. execute_from_argv example_host [''viu''] example_service =
      (Inr (response_failure m (invalid_argument ''Invalid argument'')), example_service) \<and>
    (\<forall>name\<in>set subcommand_names. \<exists>a b. m = a @ println (''  '' @ name) @ b)"
  by (rule unknown_subcommand_refused [where vm = "[]"])
    (simp_all add: get_subcommand_def subcommand_names_def example_host_def)

section \<open>Requests that end the daemon or get no answer\<close>

text \<open>A client that disconnects before it sent a whole request ends the daemon, in any state:
  the reads stand outside the block that catches exceptions.\<close>

lemma early_disconnect_kills:
  assumes "length sent < 4 \<or> length sent < 4 + from_le (take 4 sent)"
  shows "handle_accept h (Connected sent) s = Died (Runtime_Error ''End of file'')"
  using assms by (auto simp: handle_accept_def asio_read_def min_def)

lemma early_disconnect_kills_witness:
  "handle_accept example_host (Connected [5, 0, 0, 0, 1]) example_service =
    Died (Runtime_Error ''End of file'')"
  by (rule early_disconnect_kills) simp

text \<open>\<open>plug\<close> with a catalogue that is not registered, or a device name its catalogue does not
  have, fails an assertion, which ends the daemon instead of refusing the request.\<close>

lemma plug_unknown_device_kills:
  assumes "args_of_payload payload = Inr (prog # ''plug'' # rest)" "length payload < 2 ^ 32"
    and "parse_options h plug_options (''plug'' # rest) = Parsed vm" "map_of vm ''help'' = None"
    and "map_of vm ''config'' = Some config" "map_of vm ''catalog'' = Some cat"
    and "map_of vm ''device-name'' = Some name"
    and "load_config h (files s) config = Inr t"
    and "manager_device (factory h) cat name (virtual_device_manager s) = Inl err"
  shows "handle_accept h (Connected (frame payload)) s = Died Assertion_Failed"
proof -
  have "execute_from_argv h (prog # ''plug'' # rest) s = run_plug_command h (''plug'' # rest) s"
    by (simp add: execute_from_argv_def get_subcommand_def subcommands_def om_find_def)
  also have "\<dots> = app_plug h config cat name s"
    using assms(3-7) by (simp add: run_plug_command_def with_options_def parse_command_def bindC_def
        liftC_def vm_count_def vm_value_def check_cli_params_def)
  also have "\<dots> = (Inl Assertion_Failed, s)"
    using assms(8,9) by (simp add: app_plug_def create_mock_device_from_catalog_def instance_of_def
        bindC_def liftC_def)
  finally show ?thesis using assms(1,2)
    by (simp add: handle_accept_def frame_def asio_read_def from_le_le_bytes unat_u32_of_nat
        bindC_def liftC_def is_std_exception_def)
qed

lemma handle_framed:
  assumes "length payload < 2 ^ 32"
  shows "handle_accept h (Connected (frame payload)) s =
    (case bindC (liftC (args_of_payload payload)) (execute_from_argv h) s of
       (Inr response, s') \<Rightarrow> Running s' (Some (frame (archive h response)))
     | (Inl e, s') \<Rightarrow> if is_std_exception e then Running s' None else Died e)"
  using assms by (simp add: handle_accept_def frame_def asio_read_def from_le_le_bytes unat_u32_of_nat)

text \<open>\<open>proxydev\<close> with a catalogue registers it before it opens the device. When that fails, the
  client gets no answer, the catalogue stays registered, and trying again is refused as a
  duplicate, for any device.\<close>

lemma proxy_retry_refused:
  assumes "cat \<noteq> []" "om_inv (virtual_device_manager s)" "om_find (virtual_device_manager s) cat = None"
    and "loader_construct (dlopen h) cat = Inr c" "catalog_entries c = [(name, f)]"
    and "factory h f = Some p" "open_device h vid pid (Some p) = Inl e"
  shows "\<exists>s'. app_proxy h vid pid cat s = (Inl e, s') \<and> virtual_devices s' = virtual_devices s \<and>
    (\<exists>err. app_proxy h vid' pid' cat s' = (Inr (response_failure (err_message err) err), s') \<and>
      err_code err = plugin_error_code Duplicate_Catalog)"
proof -
  let ?m = "fst (om_insert cat c (virtual_device_manager s))"
  let ?s = "s\<lparr>virtual_device_manager := ?m\<rparr>"
  have find: "om_find ?m cat = Some c" using assms(2,3) by (simp add: om_find_insert)
  have "app_proxy h vid pid cat s = (Inl e, ?s)"
    using assms find
    by (simp add: app_proxy_def service_register_catalog_def register_catalog_def bindC_def liftC_def
        number_of_devices_def device_name_def create_proxy_device_from_catalog_def instance_of_def
        manager_device_def catalog_device_def create_proxy_device_def)
  moreover have "app_proxy h vid' pid' cat ?s =
      (Inr (response_failure (err_message err) err), ?s) \<and> err_code err = plugin_error_code Duplicate_Catalog"
    if "err = plugin_error Duplicate_Catalog (''Catalog '' @ cat @ '' already registered'')" for err
    using assms(1) find that
    by (simp add: app_proxy_def service_register_catalog_def register_catalog_def bindC_def retC_def
        plugin_error_def make_error_def)
  ultimately show ?thesis by auto
qed

text \<open>Requests of a concrete client.\<close>

definition example_request :: "string list \<Rightarrow> bytes" where
  "example_request args = le_bytes 4 (of_nat (length args) :: u32) @ encode_args (map (map of_char) args)"

lemma args_of_request:
  assumes "list_all c_string as" "length as < 2 ^ 31 - 1"
  shows "args_of_payload (le_bytes 4 (of_nat (length as) :: u32) @ encode_args as) = Inr (map bytes_text as)"
  using deserialize_encode [OF assms] by (simp add: args_of_payload_def args_of_deserialized)

lemma bytes_text_of_char: "bytes_text (map of_char s) = s"
proof -
  have "char_of (unat (of_char c :: u8)) = c" for c
  proof -
    have "unat (of_nat (of_char c) :: u8) = (of_char c :: nat)"
      using of_char_mod_256 [of c, where 'a = nat] by (simp only: unsigned_of_nat) (simp add: take_bit_eq_mod)
    then have "unat (of_char c :: u8) = of_char c" by (simp only: of_nat_of_char)
    then show ?thesis by simp
  qed
  then show ?thesis by (simp add: bytes_text_def comp_def)
qed

lemma map_bytes_text: "map bytes_text (map (map of_char) args) = args"
  by (induction args) (simp_all add: bytes_text_of_char)

lemma args_of_example:
  assumes "list_all c_string (map (map of_char) args)" "length args < 2 ^ 31 - 1"
  shows "args_of_payload (example_request args) = Inr args"
  using args_of_request [OF assms(1)] assms(2)
  by (simp only: length_map example_request_def map_bytes_text)

text \<open>C21: What the client sends for its arguments is executed by the daemon as exactly those
  arguments, and the answer the client prints is the message of the response to them; the exit
  code is 0 whether the response is a success or a failure.\<close>

theorem client_command_executed:
  assumes "list_all c_string as" "length as < 2 ^ 31 - 1"
    and "length (le_bytes 4 (of_nat (length as) :: u32) @ encode_args as) < 2 ^ 32"
    and "execute_from_argv h (map bytes_text as) s = (Inr resp, s')"
    and "unarchive (archive h resp) = Inr resp" "length (archive h resp) < 2 ^ 32"
  shows "\<exists>request answer. client_request as = Inr request \<and>
    handle_accept h (Connected request) s = Running s' (Some answer) \<and>
    client_answer unarchive answer = (0, println (''Response:'' @ [CHR 0x0A] @ resp_message resp))"
proof -
  let ?p = "le_bytes 4 (of_nat (length as) :: u32) @ encode_args as"
  have "client_request as = Inr (frame ?p)"
    using serialize_encode [OF assms(1)] by (simp add: client_request_def)
  moreover have "handle_accept h (Connected (frame ?p)) s = Running s' (Some (frame (archive h resp)))"
    unfolding handle_framed [OF assms(3)]
    by (simp add: bindC_def liftC_def args_of_request [OF assms(1,2)] assms(4))
  moreover have "client_answer unarchive (frame (archive h resp)) =
      (0, println (''Response:'' @ [CHR 0x0A] @ resp_message resp))"
    using assms(5,6)
    by (simp add: client_answer_def frame_def asio_read_def from_le_le_bytes unat_u32_of_nat)
  ultimately show ?thesis by blast
qed

lemma client_command_executed_witness:
  "\<exists>request answer. client_request [map of_char ''viu'', map of_char ''version''] = Inr request \<and>
    handle_accept example_host (Connected request) example_service = Running example_service (Some answer) \<and>
    client_answer (\<lambda>bs. Inr (response_success (bytes_text bs))) answer =
      (0, println (''Response:'' @ [CHR 0x0A] @ println ''1''))"
proof -
  let ?r = "response_success (println ''1'')"
  have "execute_from_argv example_host (map bytes_text (map (map of_char) [''viu'', ''version''])) example_service =
      (Inr ?r, example_service)"
    unfolding map_bytes_text
    by (simp add: execute_from_argv_def get_subcommand_def subcommands_def om_find_def run_version_command_def
        app_version_def retC_def example_host_def)
  moreover have "(\<lambda>bs. Inr (response_success (bytes_text bs))) (archive example_host ?r) = Inr ?r"
    by (simp only: example_host_def host.select_convs bytes_text_of_char) (simp add: response_success_def)
  ultimately show ?thesis
    using client_command_executed [of "map (map of_char) [''viu'', ''version'']" example_host example_service ?r
        example_service "\<lambda>bs. Inr (response_success (bytes_text bs))"]
    by (simp add: c_string_def encode_args_def example_host_def response_success_def println_def)
qed

lemma proxy_retry_refused_witness:
  "\<exists>s'. app_proxy example_host 1 0 ''lib'' example_service = (Inl (Runtime_Error ''no device''), s') \<and>
    virtual_devices s' = virtual_devices example_service \<and>
    (\<exists>err. app_proxy example_host 1 2 ''lib'' s' = (Inr (response_failure (err_message err) err), s') \<and>
      err_code err = plugin_error_code Duplicate_Catalog)"
  by (rule proxy_retry_refused [where c = "\<lparr>catalog_name = ''mice'', catalog_version = [], catalog_entries = [(''m'', 0)]\<rparr>"
      and name = "''m''" and f = 0 and p = 0])
    (simp_all add: example_host_def example_service_def service_init_def loader_construct_def catalog_init_def
      set_name_def register_device_factory_def om_find_def)

section \<open>Device identifiers\<close>

lemma hex_digit_facts:
  assumes "hex_digit c \<noteq> None"
  shows "\<not> is_space c" "c \<noteq> CHR ''-''" "c \<noteq> CHR ''+''" "c \<noteq> CHR ''x''" "c \<noteq> CHR ''X''"
  using assms by (auto simp: hex_digit_def is_space_def Let_def split: if_splits)

lemma read_hex_all: "\<forall>c\<in>set ds. hex_digit c \<noteq> None \<Longrightarrow> snd (read_hex acc ds) = []"
  by (induction ds arbitrary: acc) (auto split: option.splits)

lemma read_hex_rest:
  assumes "\<forall>c\<in>set ds. hex_digit c \<noteq> None" "rest = [] \<or> hex_digit (hd rest) = None"
  shows "read_hex acc (ds @ rest) = (fst (read_hex acc ds), rest)"
  using assms by (induction ds arbitrary: acc) (cases rest; auto split: option.splits)+

lemma in_hex_digits:
  assumes "ds \<noteq> []" "\<forall>c\<in>set ds. hex_digit c \<noteq> None" "fst (read_hex 0 ds) < 2 ^ 32"
    and "rest = [] \<or> hex_digit (hd rest) = None \<and> hd rest \<noteq> CHR ''x'' \<and> hd rest \<noteq> CHR ''X''"
  shows "in_hex (ds @ rest) = (of_nat (fst (read_hex 0 ds)), True, rest)"
proof -
  obtain c cs where ds: "ds = c # cs" using assms(1) by (cases ds) simp
  have c: "hex_digit c \<noteq> None" using assms(2) ds by simp
  have "skip_0x (ds @ rest) = ds @ rest"
  proof (cases "cs @ rest")
    case (Cons x r)
    have "x \<noteq> CHR ''x'' \<and> x \<noteq> CHR ''X''"
      using Cons assms(2,4) hex_digit_facts(4,5) by (cases cs) (auto simp: ds)
    with Cons show ?thesis by (simp add: skip_0x_def ds)
  qed (simp add: skip_0x_def ds)
  then show ?thesis
    using c hex_digit_facts [OF c] read_hex_rest [OF assms(2), of rest 0] assms(3,4)
    by (simp add: in_hex_def ds) (auto simp: split_beta prod_eq_iff)
qed

lemma read_device_id_digits:
  assumes "\<forall>c\<in>set a. hex_digit c \<noteq> None" "\<forall>c\<in>set b. hex_digit c \<noteq> None" "a \<noteq> []" "b \<noteq> []"
    and "fst (read_hex 0 a) < 2 ^ 32" "fst (read_hex 0 b) < 2 ^ 32"
  shows "read_device_id (a @ CHR '':'' # b) = (of_nat (fst (read_hex 0 a)), of_nat (fst (read_hex 0 b)))"
proof -
  have "in_hex (a @ CHR '':'' # b) = (of_nat (fst (read_hex 0 a)), True, CHR '':'' # b)"
    using assms by (intro in_hex_digits) (simp_all add: hex_digit_def)
  moreover have "in_hex b = (of_nat (fst (read_hex 0 b)), True, [])"
    using in_hex_digits [of b "[]"] assms by simp
  ultimately show ?thesis by (simp add: read_device_id_def is_space_def)
qed

text \<open>The decimal digits of a number, read in base 16.\<close>

fun digits_as_hex :: "nat \<Rightarrow> nat" where
  "digits_as_hex n = (if n < 10 then n else 16 * digits_as_hex (n div 10) + n mod 10)"

declare digits_as_hex.simps [simp del]

lemma hex_digit_decimal: "d < 10 \<Longrightarrow> hex_digit (digit_char d) = Some d"
  by (simp add: hex_digit_def of_char_digit)

lemma is_digit_hex: "is_digit c \<Longrightarrow> hex_digit c \<noteq> None"
  by (simp add: is_digit_def hex_digit_def)

lemma show_nat_hex: "\<forall>c\<in>set (show_nat n). hex_digit c \<noteq> None"
  using show_nat_digits is_digit_hex by blast

lemma read_hex_show_nat: "fst (read_hex 0 (show_nat n)) = digits_as_hex n"
proof (induction n rule: show_nat.induct)
  case (1 n)
  then show ?case
    by (cases "n < 10")
      (simp_all add: show_nat.simps [of n] digits_as_hex.simps [of n] hex_digit_decimal
        read_hex_append [OF show_nat_hex])
qed

lemma digits_as_hex_bound: "n < 10 ^ k \<Longrightarrow> digits_as_hex n < 16 ^ k"
proof (induction k arbitrary: n)
  case 0
  then show ?case by (simp add: digits_as_hex.simps)
next
  case (Suc k)
  then have "digits_as_hex (n div 10) < 16 ^ k" by (intro Suc.IH) auto
  then have "16 * digits_as_hex (n div 10) + n mod 10 < 16 * 16 ^ k"
    using mod_less_divisor [of 10 n] by linarith
  moreover have "(1::nat) \<le> 16 ^ k" by simp
  ultimately show ?case by (subst digits_as_hex.simps) auto
qed

lemma digits_as_hex_grows: "n \<le> digits_as_hex n \<and> (digits_as_hex n = n \<longleftrightarrow> n < 10)"
proof (induction n rule: digits_as_hex.induct)
  case (1 n)
  show ?case
  proof (cases "n < 10")
    case False
    with 1 have "n div 10 \<le> digits_as_hex (n div 10)" by blast
    moreover have "n = 10 * (n div 10) + n mod 10" "0 < n div 10" using False by auto
    ultimately have "n < 16 * digits_as_hex (n div 10) + n mod 10" by linarith
    with False show ?thesis by (simp add: digits_as_hex.simps [of n])
  qed (simp add: digits_as_hex.simps [of n])
qed

text \<open>A device given as vid:pid in hexadecimal is read as these two numbers. What the inverse
  operator writes is decimal, and reading it back gives the device only when both numbers have
  one digit.\<close>

lemma device_id_read:
  assumes "vid < 2 ^ 16" "pid < 2 ^ 16"
  shows "read_device_id (show_hex vid @ '':'' @ show_hex pid) = (of_nat vid, of_nat pid) \<and>
    (read_device_id (show_device_id (of_nat vid, of_nat pid)) = (of_nat vid, of_nat pid) \<longleftrightarrow>
      vid < 10 \<and> pid < 10)"
proof
  have nat: "unat (of_nat n :: u32) = n" if "n < 2 ^ 16" for n
    using that by (simp add: unsigned_of_nat take_bit_nat_eq_self)
  have small: "digits_as_hex n < 2 ^ 32" if "n < 2 ^ 16" for n
    using digits_as_hex_bound [of n 5] that by simp
  have eq: "(of_nat (digits_as_hex n) :: u32) = of_nat n \<longleftrightarrow> n < 10" if n: "n < 2 ^ 16" for n
  proof -
    have "(of_nat (digits_as_hex n) :: u32) = of_nat n \<longleftrightarrow> digits_as_hex n = n"
      using small [OF n] n by (simp add: word_unat_eq_iff unsigned_of_nat take_bit_nat_eq_self)
    then show ?thesis using digits_as_hex_grows [of n] by simp
  qed
  show "read_device_id (show_hex vid @ '':'' @ show_hex pid) = (of_nat vid, of_nat pid)"
    using read_device_id_digits [of "show_hex vid" "show_hex pid"] assms
    by (simp add: hex_digit_show read_show_hex)
  have "read_device_id (show_device_id (of_nat vid, of_nat pid)) =
      (of_nat (digits_as_hex vid), of_nat (digits_as_hex pid))"
    using read_device_id_digits [of "show_nat vid" "show_nat pid"] small assms
    by (simp add: show_device_id_def nat show_nat_hex read_hex_show_nat)
  then show "read_device_id (show_device_id (of_nat vid, of_nat pid)) = (of_nat vid, of_nat pid) \<longleftrightarrow>
      vid < 10 \<and> pid < 10"
    using eq assms by simp
qed

lemma device_id_read_witness:
  "read_device_id (show_hex 0x1D6B @ '':'' @ show_hex 2) = (0x1D6B, 2) \<and>
    read_device_id (show_device_id (0x1D6B, 2)) \<noteq> (0x1D6B, 2)"
  using device_id_read [of "0x1D6B" 2] by simp

section \<open>A configuration saved and used\<close>

lemma load_saved:
  assumes "lexical_cast_ok (lexical h)" "wf_tree t" "tree_save True t = Inr w"
    and "path_extension path \<noteq> ''.json''" "fs path = Some w"
  shows "load_config h fs path = Inr t"
  using reads_whole [OF reads_tree [OF assms(1,2)]] assms(3-5)
  by (fastforce simp: tree_save_def tree_load_def streamer_in_def load_config_def)


text \<open>C22: The configuration of a device that was saved to a file is the one that \<open>mock\<close> and \<open>plug\<close> load
  from it, unless the file has the extension .json. Then the text that was written, which is no JSON,
  is given to the JSON parser; when that refuses this text the file cannot be used.\<close>

theorem saved_configuration_used:
  assumes "open_device h vid pid None = Inr d" "make_proxy h d = Inr x" "wf_tree (device_tree h d)"
    and "lexical_cast_ok (lexical h)" "\<And>w. write_file h path w = Some (w, True)"
    and "tree_save True (device_tree h d) = Inr w"
  shows "\<exists>s' resp. app_save_config h vid pid path s = (Inr resp, s') \<and> is_success resp \<and>
    files s' = (files s)(path \<mapsto> w) \<and>
    (path_extension path \<noteq> ''.json'' \<longrightarrow> load_config h (files s') path = Inr (device_tree h d)) \<and>
    (path_extension path = ''.json'' \<and> lexical_cast_strict (lexical h) \<and>
       boost_parse h w = Inl e \<and> e \<noteq> Undefined_Behaviour \<longrightarrow>
     load_config h (files s') path = Inl Bad_Lexical_Cast)"
proof -
  let ?t = "device_tree h d"
  let ?s = "s\<lparr>files := (files s)(path \<mapsto> w)\<rparr>"
  have save: "app_save_config h vid pid path s =
      (Inr (response_success (''Device configuration saved to '' @ path)), ?s)"
    using assms(1,2,5,6)
    by (simp add: app_save_config_def save_config_def bindC_def liftC_def store_file_def)
  have other: "path_extension path \<noteq> ''.json'' \<Longrightarrow> load_config h (files ?s) path = Inr ?t"
    using assms(3,4,6) by (intro load_saved) simp_all
  have json: "load_config h (files ?s) path = Inl Bad_Lexical_Cast"
    if "path_extension path = ''.json''" "lexical_cast_strict (lexical h)" "boost_parse h w = Inl e" "e \<noteq> Undefined_Behaviour"
    using that first_token_missing [of "lexical h" "[]" tree_init] no_device_writes_nothing [of "boost_parse h" w]
    by (simp add: load_config_def streamer_in_def)
  show ?thesis
    by (rule exI [of _ ?s], rule exI, intro conjI impI, rule save)
      (use other json in \<open>auto simp: is_success_def has_error_def response_success_def\<close>)
qed

text \<open>A parser that refuses what was saved, and nothing else.\<close>

definition json_host :: "(nat, nat, tree, nat) host" where
  "json_host = example_host\<lparr>boost_parse := (\<lambda>w. if tree_save True tree_init = Inr w then Inl json_error else Inr (JObject []))\<rparr>"

lemma saved_configuration_used_witness:
  "\<exists>s1 s2 resp1 resp2. app_save_config json_host 1 2 ''mouse.config'' example_service = (Inr resp1, s1) \<and>
    load_config json_host (files s1) ''mouse.config'' = Inr tree_init \<and>
    app_save_config json_host 1 2 ''mouse.json'' example_service = (Inr resp2, s2) \<and>
    load_config json_host (files s2) ''mouse.json'' = Inl Bad_Lexical_Cast"
proof -
  obtain w where w: "tree_save True tree_init = Inr w" by (simp add: tree_save_def)
  then have refused: "boost_parse json_host w = Inl json_error" "json_error \<noteq> Undefined_Behaviour" "lexical_cast_strict (lexical json_host)"
    by (simp_all add: json_host_def json_error_def example_host_def decimal_lex_strict)
  have host: "open_device json_host 1 2 None = Inr tree_init" "make_proxy json_host tree_init = Inr 0"
    "wf_tree (device_tree json_host tree_init)" "lexical_cast_ok (lexical json_host)"
    "\<And>path w. write_file json_host path w = Some (w, True)" "tree_save True (device_tree json_host tree_init) = Inr w"
    using w wf_tree_init decimal_lex_ok by (simp_all add: json_host_def example_host_def)
  show ?thesis
    using saved_configuration_used [OF host, of "''mouse.config''" example_service]
      saved_configuration_used [OF host, of "''mouse.json''" example_service json_error] refused
    by (auto simp: path_extension_def json_host_def example_host_def)
qed

section \<open>Mocking a catalogue\<close>

lemma next_then_make:
  assumes "daemon_inv s" "issued s < 2 ^ 64"
  shows "bindC next_device_id (\<lambda>i. bindC (liftC (Inr x)) (\<lambda>y. emplace_device i (info y))) s =
    (Inr (), s\<lparr>device_id_counter := device_id_counter s + 1, issued := Suc (issued s),
       virtual_devices := virtual_devices s @ [(of_nat (issued s), info x)]\<rparr>)"
proof -
  have "unat (device_id_counter s) = issued s"
    using assms by (simp add: daemon_inv_def unsigned_of_nat take_bit_nat_eq_self)
  then have "\<forall>e\<in>set (virtual_devices s). fst e < device_id_counter s"
    using assms by (auto simp: daemon_inv_def word_less_nat_alt)
  then have "om_inv (virtual_devices s @ [(device_id_counter s, info x)])"
    using assms(1) by (simp add: om_inv_snoc daemon_inv_def)
  then have "om_insert (device_id_counter s) (info x) (virtual_devices s) =
      (virtual_devices s @ [(device_id_counter s, info x)], True)"
    using assms(1) by (intro om_insert_last) (simp_all add: om_inv_snoc)
  then show ?thesis using assms(1)
    by (simp add: bindC_def liftC_def next_device_id_def emplace_device_def daemon_inv_def)
qed

text \<open>The loop over the devices of a catalogue, when every device can be made.\<close>

lemma mock_loop:
  assumes "\<And>n s. n \<in> set ns \<Longrightarrow> om_find (virtual_device_manager s) cat = Some c \<Longrightarrow>
      step n s = bindC next_device_id (\<lambda>i. bindC (liftC (Inr (x n))) (\<lambda>y. emplace_device i (info y))) s"
    and "om_find (virtual_device_manager s) cat = Some c" "daemon_inv s" "issued s + length ns \<le> 2 ^ 64"
  shows "foldC step ns s = (Inr (), s\<lparr>device_id_counter := of_nat (issued s + length ns),
      issued := issued s + length ns,
      virtual_devices := virtual_devices s @
        map (\<lambda>j. (of_nat (issued s + j), info (x (ns ! j)))) [0..<length ns]\<rparr>)"
  using assms
proof (induction ns arbitrary: s)
  case Nil
  then show ?case by (simp add: retC_def daemon_inv_def)
next
  case (Cons n ns)
  let ?s = "s\<lparr>device_id_counter := device_id_counter s + 1, issued := Suc (issued s),
       virtual_devices := virtual_devices s @ [(of_nat (issued s), info (x n))]\<rparr>"
  have first: "step n s = (Inr (), ?s)"
    using Cons.prems next_then_make [of s "x n" info] by simp
  have "daemon_inv ?s"
    using issue_grows [of s "Inr (x n)" info] Cons.prems next_then_make [of s "x n" info]
    by (simp add: grows_def)
  then have "foldC step ns ?s = (Inr (), ?s\<lparr>device_id_counter := of_nat (issued ?s + length ns),
      issued := issued ?s + length ns, virtual_devices := virtual_devices ?s @
        map (\<lambda>j. (of_nat (issued ?s + j), info (x (ns ! j)))) [0..<length ns]\<rparr>)"
    using Cons.prems by (intro Cons.IH) simp_all
  moreover have "map (\<lambda>j. (of_nat (issued s + j) :: u64, info (x ((n # ns) ! j)))) [0..<Suc (length ns)] =
      (of_nat (issued s), info (x n)) #
        map (\<lambda>j. (of_nat (Suc (issued s) + j), info (x (ns ! j)))) [0..<length ns]"
    unfolding map_upt_Suc by simp
  ultimately show ?case by (simp add: bindC_def first del: upt_Suc)
qed

definition config_info :: "tree \<Rightarrow> 'x \<Rightarrow> 'x device_info" where
  "config_info t proxy = \<lparr>info_vid = ucast (dd_idVendor (device_desc t)),
     info_pid = ucast (dd_idProduct (device_desc t)), info_proxy = proxy\<rparr>"

definition step_makes ::
  "('f, 'p, 'd, 'x) host \<Rightarrow> string \<Rightarrow> tree \<Rightarrow> 'f catalog \<Rightarrow> nat \<Rightarrow> 'x \<Rightarrow> bool" where
  "step_makes h cat t c n x \<longleftrightarrow> (\<forall>s. om_find (virtual_device_manager s) cat = Some c \<longrightarrow>
     bindC (liftC (device_name c n)) (\<lambda>name. create_mock_device_from_catalog h cat name t) s =
     bindC next_device_id (\<lambda>i. bindC (liftC (Inr x)) (\<lambda>y. emplace_device i (config_info t y))) s)"

lemma mock_step:
  assumes "\<And>name f. (name, f) \<in> set (catalog_entries c) \<Longrightarrow> factory h f = Some (inst f) \<and> make_mock h t (inst f) = Inr (prox f)"
    and "n < number_of_devices c"
  shows "\<exists>x. step_makes h cat t c n x"
proof -
  obtain name f where nf: "device_name c n = Inr name" "(name, f) \<in> set (catalog_entries c)"
    "catalog_device (factory h) name c = Inr (factory h f)"
    using listed_device_found [OF assms(2)] by blast
  with assms(1) have "factory h f = Some (inst f)" "make_mock h t (inst f) = Inr (prox f)" by blast+
  with nf have "step_makes h cat t c n (prox f)"
    by (simp add: step_makes_def config_info_def create_mock_device_from_catalog_def bindC_def liftC_def
        instance_of_def manager_device_def)
  then show ?thesis ..
qed

lemma mock_whole_loop:
  assumes "\<And>n. n < N \<Longrightarrow> step_makes h cat t c n (g n)"
    and "om_find (virtual_device_manager s) cat = Some c" "daemon_inv s" "issued s + N \<le> 2 ^ 64"
  shows "\<exists>u. foldC (\<lambda>n. bindC (liftC (device_name c n)) (\<lambda>name. create_mock_device_from_catalog h cat name t)) [0..<N] s = (Inr (), u) \<and>
    virtual_device_manager u = virtual_device_manager s \<and>
    virtual_devices u = virtual_devices s @ map (\<lambda>j. (of_nat (issued s + j), config_info t (g j))) [0..<N]"
proof -
  have eq: "map (\<lambda>j. (of_nat (issued s + j) :: u64, config_info t (g ([0..<N] ! j)))) [0..<length [0..<N]] =
      map (\<lambda>j. (of_nat (issued s + j), config_info t (g j))) [0..<N]"
    by (rule map_cong) simp_all
  show ?thesis
    unfolding eq [symmetric]
    by (rule exI, intro conjI, rule mock_loop [where x = g and info = "config_info t" and cat = cat and c = c])
      (use assms in \<open>simp_all add: step_makes_def\<close>)
qed

lemma mock_new_catalog:
  assumes "daemon_reachable h fs s" "load_config h (files s) config = Inr t"
    and "om_find (virtual_device_manager s) cat = None" "loader_construct (dlopen h) cat = Inr c"
    and "\<And>name f. (name, f) \<in> set (catalog_entries c) \<Longrightarrow> factory h f = Some (inst f) \<and> make_mock h t (inst f) = Inr (prox f)"
    and "issued s + number_of_devices c \<le> 2 ^ 64"
  shows "\<exists>s' resp ds. app_mock h config cat s = (Inr resp, s') \<and> is_success resp \<and>
    om_find (virtual_device_manager s') cat = Some c \<and>
    virtual_devices s' = virtual_devices s @ ds \<and> length ds = number_of_devices c \<and>
    (\<forall>j<length ds. fst (ds ! j) = of_nat (issued s + j) \<and>
       info_vid (snd (ds ! j)) = ucast (dd_idVendor (device_desc t)) \<and>
       info_pid (snd (ds ! j)) = ucast (dd_idProduct (device_desc t)))"
proof -
  let ?s = "s\<lparr>virtual_device_manager := fst (om_insert cat c (virtual_device_manager s))\<rparr>"
  have inv: "daemon_inv s" by (rule reachable_inv [OF assms(1)])
  have cat: "om_find (virtual_device_manager ?s) cat = Some c"
    using inv assms(3) by (simp add: om_find_insert daemon_inv_def)
  have inv': "daemon_inv ?s" using inv by (simp add: daemon_inv_def om_inv_insert)
  have "\<forall>n\<in>{..<number_of_devices c}. \<exists>x. step_makes h cat t c n x"
    by (intro ballI mock_step [where inst = inst and prox = prox] assms(5)) simp_all
  then obtain g where g: "\<forall>n\<in>{..<number_of_devices c}. step_makes h cat t c n (g n)"
    using bchoice by blast
  let ?ds = "map (\<lambda>j. (of_nat (issued s + j), config_info t (g j))) [0..<number_of_devices c]"
  from mock_whole_loop [of "number_of_devices c" h cat t c g ?s] g cat inv' assms(6)
  obtain u where loop: "foldC (\<lambda>n. bindC (liftC (device_name c n)) (\<lambda>name. create_mock_device_from_catalog h cat name t))
      [0..<number_of_devices c] ?s = (Inr (), u)"
    and u: "virtual_device_manager u = virtual_device_manager ?s" "virtual_devices u = virtual_devices s @ ?ds"
    by auto
  have reg: "service_register_catalog h cat s = (Inr (Inr c), ?s)"
    using assms(3,4) by (simp add: service_register_catalog_def register_catalog_def)
  let ?resp = "response_success (print_catalog_info c @ println ''Mock devices started successfully'')"
  have "app_mock h config cat s = (Inr ?resp, u)"
    by (simp add: app_mock_def assms(2) bindC_run [where m = "service_register_catalog h cat" and s = s, OF reg]
        bindC_run [where m = "foldC _ _" and s = ?s, OF loop] retC_def)
  with u cat show ?thesis
    by (intro exI [of _ u] exI [of _ ?resp] exI [of _ ?ds])
      (simp add: is_success_def has_error_def response_success_def config_info_def)
qed

text \<open>C23: \<open>mock\<close> on a new catalogue whose devices can all be made enters one device per name of the
  catalogue, under consecutive new identifiers behind the devices that were there, with the vendor
  and product of the configuration.\<close>

theorem mock_devices_numbered:
  assumes "daemon_reachable h fs s" "load_config h (files s) config = Inr t"
    and "om_find (virtual_device_manager s) cat = None" "loader_construct (dlopen h) cat = Inr c"
    and "\<And>name f. (name, f) \<in> set (catalog_entries c) \<Longrightarrow> factory h f = Some (inst f) \<and> make_mock h t (inst f) = Inr (prox f)"
    and "issued s + number_of_devices c \<le> 2 ^ 64"
  shows "\<exists>s' resp ds. app_mock h config cat s = (Inr resp, s') \<and> is_success resp \<and>
    om_find (virtual_device_manager s') cat = Some c \<and>
    virtual_devices s' = virtual_devices s @ ds \<and> length ds = number_of_devices c \<and>
    (\<forall>j<length ds. fst (ds ! j) = of_nat (issued s + j) \<and>
       info_vid (snd (ds ! j)) = ucast (dd_idVendor (device_desc t)) \<and>
       info_pid (snd (ds ! j)) = ucast (dd_idProduct (device_desc t)))"
  by (rule mock_new_catalog [OF assms(1-4) _ assms(6)]) (rule assms(5))

section \<open>A run of the concrete host\<close>

definition saved_text :: string where
  "saved_text = (case tree_save True tree_init of Inr w \<Rightarrow> w | Inl _ \<Rightarrow> [])"

lemma example_load: "load_config example_host (\<lambda>_. Some saved_text) ''c'' = Inr tree_init"
  by (rule load_saved [where w = saved_text])
    (simp_all add: example_host_def decimal_lex_ok wf_tree_init saved_text_def tree_save_def path_extension_def)

definition example_start :: "(nat, nat) service" where
  "example_start = (service_init (\<lambda>_. None))\<lparr>files := \<lambda>_. Some saved_text\<rparr>"

lemma example_start_reachable: "daemon_reachable example_host (\<lambda>_. None) example_start"
  unfolding example_start_def by (intro daemon_reachable.files_change daemon_reachable.started)

definition example_catalog :: "nat catalog" where
  "example_catalog = \<lparr>catalog_name = ''mice'', catalog_version = [], catalog_entries = [(''m'', 0)]\<rparr>"

lemma example_catalog_loads: "loader_construct (dlopen example_host) ''lib'' = Inr example_catalog"
  by (simp add: example_host_def loader_construct_def catalog_init_def set_name_def
      register_device_factory_def example_catalog_def)

lemma example_makes:
  "factory example_host f = Some f" "make_mock example_host t f = Inr f"
  by (simp_all add: example_host_def)

lemma mock_devices_numbered_witness:
  "\<exists>s' resp ds. app_mock example_host ''c'' ''lib'' example_start = (Inr resp, s') \<and>
    virtual_devices s' = virtual_devices example_start @ ds \<and> length ds = 1"
proof -
  have fresh: "om_find (virtual_device_manager example_start) ''lib'' = None"
    by (simp add: example_start_def service_init_def om_find_def)
  have load: "load_config example_host (files example_start) ''c'' = Inr tree_init"
    using example_load by (simp add: example_start_def)
  have size: "number_of_devices example_catalog = 1" "issued example_start = 0"
    by (simp_all add: example_catalog_def number_of_devices_def example_start_def service_init_def)
  show ?thesis
    using mock_devices_numbered [OF example_start_reachable load fresh example_catalog_loads,
        of "\<lambda>f. f" "\<lambda>f. f"]
    by (auto simp: example_makes size)
qed

definition mock_request :: "string list" where
  "mock_request = [''viu'', ''mock'', ''--config'', ''c'', ''--catalog'', ''lib'']"

lemma example_parse:
  "''--bogus'' \<notin> set args \<Longrightarrow> parse_options example_host desc args = Parsed (option_pairs (tl args))"
  by (simp add: example_host_def)

lemma example_mock:
  "execute_from_argv example_host mock_request s = app_mock example_host ''c'' ''lib'' s"
  by (simp add: execute_from_argv_def mock_request_def get_subcommand_def subcommands_def om_find_def
      run_mock_command_def with_options_def parse_command_def example_parse bindC_def liftC_def
      vm_count_def vm_value_def check_cli_params_def)

lemma mock_request_args: "args_of_payload (example_request mock_request) = Inr mock_request"
  by (rule args_of_example) (simp_all add: mock_request_def c_string_def)

lemma mock_request_short: "length (example_request mock_request) < 2 ^ 32"
  by (simp add: example_request_def encode_args_def mock_request_def)

lemma example_mocked:
  obtains s d where "daemon_reachable example_host (\<lambda>_. None) s" "virtual_devices s = [(0, d)]"
    "om_find (virtual_device_manager s) ''lib'' = Some example_catalog"
proof -
  have fresh: "om_find (virtual_device_manager example_start) ''lib'' = None"
    by (simp add: example_start_def service_init_def om_find_def)
  have load: "load_config example_host (files example_start) ''c'' = Inr tree_init"
    using example_load by (simp add: example_start_def)
  have size: "number_of_devices example_catalog = 1" "issued example_start = 0"
    "virtual_devices example_start = []"
    by (simp_all add: example_catalog_def number_of_devices_def example_start_def service_init_def)
  obtain s resp d where run: "app_mock example_host ''c'' ''lib'' example_start = (Inr resp, s)"
    and "om_find (virtual_device_manager s) ''lib'' = Some example_catalog" "virtual_devices s = [(0, d)]"
    using mock_new_catalog [OF example_start_reachable load fresh example_catalog_loads,
        of "\<lambda>f. f" "\<lambda>f. f"]
    by (auto simp: example_makes size length_Suc_conv)
  moreover have "handle_accept example_host (Connected (frame (example_request mock_request))) example_start =
      Running s (Some (frame (archive example_host resp)))"
    unfolding handle_framed [OF mock_request_short]
    by (simp add: mock_request_args example_mock run)
  then have "daemon_reachable example_host (\<lambda>_. None) s"
    by (rule daemon_reachable.request [OF example_start_reachable])
  ultimately show thesis using that by blast
qed

lemma daemon_tables_well_formed_witness:
  "\<exists>s d. virtual_devices s = [(0, d)] \<and> om_inv (virtual_device_manager s) \<and>
    (issued s < 2 ^ 64 \<longrightarrow> 0 < device_id_counter (s :: (nat, nat) service))"
proof -
  obtain s d where s: "daemon_reachable example_host (\<lambda>_. None) s" "virtual_devices s = [(0, d)]"
    by (rule example_mocked)
  show ?thesis
    using daemon_tables_well_formed [OF s(1)] s(2) by (intro exI [of _ s] exI [of _ d]) auto
qed

definition unplug_request :: "string list" where
  "unplug_request = [''viu'', ''unplug'', ''--device-id'', ''0'']"

lemma example_unplug: "execute_from_argv example_host unplug_request s = app_unplug 0 s"
  by (simp add: execute_from_argv_def unplug_request_def get_subcommand_def subcommands_def om_find_def
      run_unplug_command_def with_options_def parse_command_def example_parse bindC_def liftC_def
      vm_count_def vm_value_def check_cli_params_def)
    (simp add: example_host_def)

lemma devices_leave_only_by_unplug_witness:
  "\<exists>s s' d answer. virtual_devices s = [(0, d :: nat device_info)] \<and>
    handle_accept example_host (Connected (frame (example_request unplug_request))) s = Running s' answer \<and>
    virtual_devices s' = [] \<and>
    answer = Some (frame (archive example_host (response_success ''Device unplugged successfully'')))"
proof -
  obtain s d where s: "daemon_reachable example_host (\<lambda>_. None) s" "virtual_devices s = [(0, d)]"
    by (rule example_mocked)
  let ?s = "s\<lparr>virtual_devices := []\<rparr>"
  have args: "args_of_payload (example_request unplug_request) = Inr unplug_request"
    by (rule args_of_example) (simp_all add: unplug_request_def c_string_def)
  have length: "length (example_request unplug_request) < 2 ^ 32"
    by (simp add: example_request_def encode_args_def unplug_request_def)
  obtain answer where run:
    "handle_accept example_host (Connected (frame (example_request unplug_request))) s = Running ?s answer"
    using s(2) args length by (simp add: handle_framed example_unplug app_unplug_def om_find_def om_erase_def retC_def)
  have "Option.bind (connection_args (Connected (frame (example_request unplug_request)))) (asks_unplug example_host) = Some 0"
    using args length
    by (simp add: connection_args_def frame_def asio_read_def from_le_le_bytes unat_u32_of_nat asks_unplug_def unplug_request_def
        get_subcommand_def) (simp add: example_host_def)
  with devices_leave_only_by_unplug [OF s(1) run] s(2) run show ?thesis
    by (intro exI [of _ s] exI [of _ ?s] exI [of _ d] exI [of _ answer]) (simp add: om_find_def)
qed

definition plug_request :: "string list" where
  "plug_request = [''viu'', ''plug'', ''--config'', ''c'', ''--catalog'', ''lib'', ''--device-name'', ''m'']"

lemma plug_unknown_device_kills_witness:
  "handle_accept example_host (Connected (frame (example_request plug_request))) example_start =
    Died Assertion_Failed"
proof (rule plug_unknown_device_kills)
  have "args_of_payload (example_request plug_request) = Inr plug_request"
    by (rule args_of_example) (simp_all add: plug_request_def c_string_def)
  then show "args_of_payload (example_request plug_request) = Inr (''viu'' # ''plug'' # drop 2 plug_request)"
    by (simp add: plug_request_def)
  show "length (example_request plug_request) < 2 ^ 32"
    by (simp add: example_request_def encode_args_def plug_request_def)
  show "parse_options example_host plug_options (''plug'' # drop 2 plug_request) =
      Parsed [(''config'', ''c''), (''catalog'', ''lib''), (''device-name'', ''m'')]"
    by (simp add: example_parse plug_request_def)
  show "load_config example_host (files example_start) ''c'' = Inr tree_init"
    using example_load by (simp add: example_start_def)
  show "manager_device (factory example_host) ''lib'' ''m'' (virtual_device_manager example_start) =
      Inl (plugin_error No_Device [])"
    by (simp add: example_start_def service_init_def manager_device_def om_find_def)
qed simp_all

end
