(* ===== verification/Record_Format.thy ===== *)
theory Record_Format
  imports Transfer_Model
begin

text \<open>
  The files of the recording and playback plugins (src of the repository: examples/playback). A
  recording is a text file of JSON lines and a binary file with the payloads the lines point into.

  This theory holds what both plugins share or rely on: \<open>std::getline\<close>, the part of \<open>std::regex\<close>
  that the two patterns need, \<open>std::stoull\<close>, the bytes of \<open>libusb_iso_packet_descriptor\<close>, and a setup
  packet as the 64-bit number that \<open>std::bit_cast\<close> makes of it.
\<close>

section \<open>Lines\<close>

definition newline :: char where "newline = CHR 0x0A"

fun getlines :: "string \<Rightarrow> string list" where
  "getlines [] = []"
| "getlines (c # cs) =
     (if c = newline then [] # getlines cs
      else (case getlines cs of [] \<Rightarrow> [[c]] | l # ls \<Rightarrow> (c # l) # ls))"

lemma getlines_line: "newline \<notin> set l \<Longrightarrow> getlines (l @ newline # cs) = l # getlines cs"
  by (induction l) auto

section \<open>Matching\<close>

text \<open>
  The patterns are sequences of fixed text, \<open>\s*\<close> and groups of one class of characters, and what
  follows a repetition never starts with a character the repetition accepts. So the longest match
  of each repetition is the only one that can succeed, and matching is one pass without
  backtracking. \<open>regex_search\<close> tries every position of the line in turn.
\<close>

definition dquote :: string where "dquote = [CHR 0x22]"

definition quoted :: "string \<Rightarrow> string" where
  "quoted name = dquote @ name @ dquote"

definition m_space :: "string \<Rightarrow> string" where
  "m_space s = dropWhile is_space s"

definition m_number :: group where
  "m_number = m_some is_digit"

definition m_hex :: group where
  "m_hex s =
     Option.bind (m_literal (dquote @ ''0x'') s) (\<lambda>s.
     Option.bind (m_some (\<lambda>c. hex_digit c \<noteq> None) s) (\<lambda>(v, s).
     Option.bind (m_literal dquote s) (\<lambda>s. Some (v, s))))"

definition m_number_or_na :: group where
  "m_number_or_na s = (case m_literal (quoted ''NA'') s of Some s' \<Rightarrow> Some (quoted ''NA'', s') | None \<Rightarrow> m_number s)"

text \<open>\<open>\s*"name"\s*:\s*(group)\s*c\<close>\<close>

definition m_field :: "string \<Rightarrow> group \<Rightarrow> char \<Rightarrow> group" where
  "m_field name value c s =
     Option.bind (m_literal (quoted name) (m_space s)) (\<lambda>s.
     Option.bind (m_literal '':'' (m_space s)) (\<lambda>s.
     Option.bind (value (m_space s)) (\<lambda>(v, s).
     Option.bind (m_literal [c] (m_space s)) (\<lambda>s. Some (v, s)))))"

fun regex_search :: "(string \<Rightarrow> 'a option) \<Rightarrow> string \<Rightarrow> 'a option" where
  "regex_search m [] = m []"
| "regex_search m (c # cs) = (case m (c # cs) of None \<Rightarrow> regex_search m cs | Some x \<Rightarrow> Some x)"

lemma regex_search_here: "m s = Some x \<Longrightarrow> regex_search m s = Some x"
  by (cases s) simp_all

lemma m_space_id [simp]: "s \<noteq> [] \<Longrightarrow> \<not> is_space (hd s) \<Longrightarrow> m_space s = s"
  by (cases s) (simp_all add: m_space_def)

lemma m_number_show: "s \<noteq> [] \<Longrightarrow> \<not> is_digit (hd s) \<Longrightarrow> m_number (show_nat n @ s) = Some (show_nat n, s)"
  unfolding m_number_def by (rule m_some_append) (simp_all add: show_nat_digits)

text \<open>A field as the recorder writes it.\<close>

lemma m_field_written:
  assumes "value (v @ c # s) = Some (w, c # s)" "v \<noteq> []" "\<not> is_space (hd v)" "\<not> is_space c"
  shows "m_field name value c (quoted name @ CHR '':'' # v @ c # s) = Some (w, s)"
proof -
  have q: "m_space (quoted name @ t) = quoted name @ t" for t
    by (rule m_space_id) (simp_all add: quoted_def dquote_def is_space_def)
  have v: "m_space (v @ c # s) = v @ c # s" using assms(2,3) by (intro m_space_id) simp_all
  have d: "m_literal '':'' (m_space (CHR '':'' # t)) = Some t" for t
    by (simp add: m_space_def is_space_def)
  show ?thesis using assms(1,4) v by (simp add: m_field_def q d)
qed

lemma show_nat_head: "is_digit (hd (show_nat n))"
  using show_nat_digits [of n] hd_in_set [OF show_nat_nonempty [of n]] by blast

lemma m_field_number [simp]:
  assumes "\<not> is_digit c" "\<not> is_space c"
  shows "m_field name m_number c (quoted name @ CHR '':'' # show_nat n @ c # s) = Some (show_nat n, s)"
  using assms show_nat_head digit_not_space by (intro m_field_written m_number_show) simp_all

lemma m_literal_head: "lit \<noteq> [] \<Longrightarrow> s \<noteq> [] \<Longrightarrow> hd s \<noteq> hd lit \<Longrightarrow> m_literal lit s = None"
  by (cases lit; cases s) (auto simp: m_literal_def)

lemma show_nat_not_quoted: "hd (show_nat n) \<noteq> hd (quoted name)" "show_nat n \<noteq> quoted name"
proof -
  show "hd (show_nat n) \<noteq> hd (quoted name)"
    using show_nat_head [of n] by (auto simp: quoted_def dquote_def is_digit_def)
  then show "show_nat n \<noteq> quoted name" by metis
qed

lemma m_number_or_na_show:
  assumes "\<not> is_digit c"
  shows "m_number_or_na (show_nat n @ c # s) = Some (show_nat n, c # s)"
proof -
  have "m_literal (quoted ''NA'') (show_nat n @ c # s) = None"
    by (rule m_literal_head) (simp_all add: quoted_def dquote_def show_nat_not_quoted(1) [of n "''NA''", unfolded quoted_def dquote_def, simplified])
  then show ?thesis using assms m_number_show [of "c # s" n] by (simp add: m_number_or_na_def)
qed

lemma m_field_or_na_number [simp]:
  assumes "\<not> is_digit c" "\<not> is_space c"
  shows "m_field name m_number_or_na c (quoted name @ CHR '':'' # show_nat n @ c # s) = Some (show_nat n, s)"
  using assms show_nat_head digit_not_space by (intro m_field_written m_number_or_na_show) simp_all

lemma m_field_na [simp]:
  assumes "\<not> is_space c"
  shows "m_field name m_number_or_na c (quoted name @ CHR '':'' # quoted ''NA'' @ c # s) = Some (quoted ''NA'', s)"
proof -
  have "m_number_or_na (quoted ''NA'' @ c # s) = Some (quoted ''NA'', c # s)"
    unfolding m_number_or_na_def by (simp only: m_literal_append option.case)
  then show ?thesis
    using assms by (intro m_field_written) (simp_all add: quoted_def dquote_def is_space_def)
qed

section \<open>Numbers\<close>

text \<open>\<open>stoull\<close> and \<open>stoul\<close> (64 bits), on digits only; \<open>None\<close> is \<open>std::out_of_range\<close>.\<close>

definition stoull :: "string \<Rightarrow> nat option" where
  "stoull s = (let n = fst (read_nat 0 s) in if n < 2 ^ 64 then Some n else None)"

definition stoul_hex :: "string \<Rightarrow> nat option" where
  "stoul_hex s = (let n = fst (read_hex 0 s) in if n < 2 ^ 64 then Some n else None)"

lemma stoull_show [simp]: "n < 2 ^ 64 \<Longrightarrow> stoull (show_nat n) = Some n"
  by (simp add: stoull_def read_show_nat)

text \<open>\<open>std::hex\<close> with \<open>setfill('0')\<close> and \<open>setw(2)\<close>.\<close>

definition show_hex2 :: "nat \<Rightarrow> string" where
  "show_hex2 n = (let t = show_hex n in replicate (2 - length t) (CHR ''0'') @ t)"

lemma read_hex_zeros: "read_hex 0 (replicate k (CHR ''0'') @ s) = read_hex 0 s"
  by (induction k) (simp_all add: hex_digit_def)

lemma read_show_hex2: "fst (read_hex 0 (show_hex2 n)) = n"
  by (simp add: show_hex2_def Let_def read_hex_zeros read_show_hex)

lemma show_hex2_digits: "\<forall>c\<in>set (show_hex2 n). hex_digit c \<noteq> None"
proof -
  have "hex_digit (CHR ''0'') \<noteq> None" by (simp add: hex_digit_def)
  then show ?thesis using hex_digit_show [of n] by (auto simp: show_hex2_def Let_def)
qed

lemma show_hex2_nonempty [simp]: "show_hex2 n \<noteq> []"
  by (simp add: show_hex2_def Let_def)

lemma m_field_hex [simp]:
  assumes "\<not> is_space c"
  shows "m_field name m_hex c (quoted name @ CHR '':'' # dquote @ CHR ''0'' # CHR ''x'' # show_hex2 n @ dquote @ c # s) =
    Some (show_hex2 n, s)"
proof -
  have "m_some (\<lambda>c. hex_digit c \<noteq> None) (show_hex2 n @ dquote @ c # s) = Some (show_hex2 n, dquote @ c # s)"
    using show_hex2_digits by (intro m_some_append) (simp_all add: dquote_def hex_digit_def)
  moreover have "m_literal (dquote @ ''0x'') ((dquote @ ''0x'') @ t) = Some t" for t
    by (rule m_literal_append)
  ultimately have "m_hex ((dquote @ ''0x'' @ show_hex2 n @ dquote) @ c # s) = Some (show_hex2 n, c # s)"
    by (simp add: m_hex_def)
  from m_field_written [of m_hex, OF this] show ?thesis
    using assms by (simp add: dquote_def is_space_def)
qed

lemma stoul_hex_show [simp]: "n < 2 ^ 64 \<Longrightarrow> stoul_hex (show_hex2 n) = Some n"
  by (simp add: stoul_hex_def read_show_hex2)

section \<open>Packet descriptors\<close>

text \<open>
  The structure is three 32-bit numbers. A number in the file that is no status of libusb is read as
  \<open>Error\<close>: the program only ever compares the status with \<open>LIBUSB_TRANSFER_COMPLETED\<close>.
\<close>

primrec status_code :: "xfer_status \<Rightarrow> u32" where
  "status_code Completed = 0"
| "status_code Error = 1"
| "status_code Timed_Out = 2"
| "status_code Cancelled = 3"
| "status_code Stall = 4"
| "status_code No_Device = 5"
| "status_code Overflow = 6"

definition status_of_code :: "u32 \<Rightarrow> xfer_status" where
  "status_of_code c =
     (if c = 0 then Completed else if c = 2 then Timed_Out else if c = 3 then Cancelled
      else if c = 4 then Stall else if c = 5 then No_Device else if c = 6 then Overflow else Error)"

definition sizeof_iso_packet_descriptor :: nat where "sizeof_iso_packet_descriptor = 12"

definition packet_bytes :: "iso_packet \<Rightarrow> bytes" where
  "packet_bytes p = le_bytes 4 (ip_length p) @ le_bytes 4 (ip_actual_length p) @ le_bytes 4 (status_code (ip_status p))"

definition packet_of_bytes :: "bytes \<Rightarrow> iso_packet" where
  "packet_of_bytes bs =
     \<lparr>ip_length = of_nat (from_le (take 4 bs)), ip_actual_length = of_nat (from_le (take 4 (drop 4 bs))),
      ip_status = status_of_code (of_nat (from_le (take 4 (drop 8 bs))))\<rparr>"

fun packets_of_bytes :: "nat \<Rightarrow> bytes \<Rightarrow> iso_packet list" where
  "packets_of_bytes 0 bs = []"
| "packets_of_bytes (Suc n) bs =
     packet_of_bytes (take sizeof_iso_packet_descriptor bs) # packets_of_bytes n (drop sizeof_iso_packet_descriptor bs)"

lemma length_packet_bytes [simp]: "length (packet_bytes p) = sizeof_iso_packet_descriptor"
  by (simp add: packet_bytes_def sizeof_iso_packet_descriptor_def)

lemma length_packets_bytes: "length (concat (map packet_bytes ps)) = length ps * sizeof_iso_packet_descriptor"
  by (induction ps) simp_all

lemma status_of_status_code [simp]: "status_of_code (status_code s) = s"
  by (cases s) (simp_all add: status_of_code_def)

lemma packet_of_packet_bytes: "packet_of_bytes (packet_bytes p) = p"
  by (simp add: packet_of_bytes_def packet_bytes_def from_le_of_nat)

lemma packets_of_packets_bytes: "packets_of_bytes (length ps) (concat (map packet_bytes ps)) = ps"
  by (induction ps) (simp_all add: packet_of_packet_bytes)

section \<open>Memory and files\<close>

text \<open>The largest \<open>std::vector\<close> of a type with the given size.\<close>

definition max_elements :: "nat \<Rightarrow> nat" where
  "max_elements element = (2 ^ 63 - 1) div element"

text \<open>
  Seeking and reading in the payload: an offset that is negative as a \<open>std::streamoff\<close> fails, and so
  does a read that ends early.
\<close>

definition read_at :: "bytes \<Rightarrow> nat \<Rightarrow> nat \<Rightarrow> bytes option" where
  "read_at payload offset n =
     (if offset < 2 ^ 63 \<and> offset + n \<le> length payload then Some (take n (drop offset payload)) else None)"

lemma read_at_middle:
  "length pre + length bs < 2 ^ 63 \<Longrightarrow> offset = length pre \<Longrightarrow> n = length bs \<Longrightarrow>
   read_at (pre @ bs @ post) offset n = Some bs"
  by (simp add: read_at_def)

end
