(* ===== verification/Mouse_Model.thy ===== *)
theory Mouse_Model
  imports Usb_Device Catalog_Model
begin

text \<open>
  The mouse plugin (examples/mouse/mock.cpp): transfers on endpoint 0x81 wait in a queue, and every
  tick answers the oldest with a report.

  The queue holds the control handles, that is the addresses of transfers of the daemon; what is
  there when a handle is used is the argument \<open>heap\<close>. A tick returns the handle it completed with the
  transfer as it left it.
\<close>

type_synonym mouse = "nat list"

text \<open>What every function of a control handle does first: it reads the transfer at \<open>ctx\<close>.\<close>

definition transfer_at :: "(nat \<Rightarrow> libusb_transfer option) \<Rightarrow> nat \<Rightarrow> libusb_transfer res" where
  "transfer_at heap ctx = (case heap ctx of None \<Rightarrow> Inl Undefined_Behaviour | Some t \<Rightarrow> Inr t)"

definition mouse_on_transfer_request :: "mouse transfer_handler" where
  "mouse_on_transfer_request ctx xfer input =
     (case control_ep (Some xfer) of
        Inl e \<Rightarrow> (Inl e, xfer, False, input)
      | Inr ep \<Rightarrow> (Inr (), xfer, False, if ep = 0x81 then input @ [ctx] else input))"

definition mouse_on_control_setup :: "mouse setup_handler" where
  "mouse_on_control_setup setup data result input = (Inr LIBUSB_ERROR_NOT_SUPPORTED, data, input)"

definition mouse_on_set_configuration :: "mouse configuration_handler" where
  "mouse_on_set_configuration index input = (Inr LIBUSB_SUCCESS, input)"

definition mouse_on_set_interface :: "mouse interface_handler" where
  "mouse_on_set_interface ifc alt_setting input = (Inr LIBUSB_SUCCESS, input)"

definition u8_max :: u8 where "u8_max = - 1"

definition move_left :: "bytes \<Rightarrow> bytes" where
  "move_left report = report[2 := u8_max, 3 := u8_max]"

definition move_right :: "bytes \<Rightarrow> bytes" where
  "move_right report = report[2 := 1]"

definition move_up :: "bytes \<Rightarrow> bytes" where
  "move_up report = report[4 := u8_max - 4, 5 := u8_max]"

definition move_down :: "bytes \<Rightarrow> bytes" where
  "move_down report = report[4 := 1]"

definition actions :: "(string \<times> (bytes \<Rightarrow> bytes)) list" where
  "actions = [(''down'', move_down), (''left'', move_left), (''right'', move_right), (''up'', move_up)]"

definition mouse_report :: "string \<Rightarrow> bytes" where
  "mouse_report dir =
     (let report = [0, 0, 0, 0, 0, 0, 0, 0]
      in case map_of actions dir of None \<Rightarrow> report | Some a \<Rightarrow> a report)"

text \<open>\<open>control::complete\<close> on a transfer the plugin holds; the callback gets what it returns.\<close>

definition plugin_complete :: "libusb_transfer option \<Rightarrow> libusb_transfer res" where
  "plugin_complete xfer =
     bindR (is_mock xfer) (\<lambda>mock.
     bindR (viu_assert mock) (\<lambda>_. Inr ((the xfer)\<lparr>t_status := Completed\<rparr>)))"

definition mouse_move ::
  "string \<Rightarrow> (nat \<Rightarrow> libusb_transfer option) \<Rightarrow> mouse \<Rightarrow> ((nat \<times> libusb_transfer) option \<times> mouse) res" where
  "mouse_move dir heap input =
     (let report = mouse_report dir in
      case input of
        [] \<Rightarrow> Inr (None, [])
      | ctx # rest \<Rightarrow>
          bindR (transfer_at heap ctx) (\<lambda>xfer.
          bindR (transfer_control_fill (Some report) (length report) (Some xfer)) (\<lambda>xfer.
          bindR (plugin_complete xfer) (\<lambda>t. Inr (Some (ctx, t), rest)))))"

text \<open>One turn of the tick thread that was not asked to stop.\<close>

definition mouse_tick :: "(nat \<Rightarrow> libusb_transfer option) \<Rightarrow> mouse \<Rightarrow> ((nat \<times> libusb_transfer) option \<times> mouse) res" where
  "mouse_tick = mouse_move ''up''"

definition mouse_plugin :: "mouse plugin_type" where
  "mouse_plugin = empty_plugin\<lparr>pt_request_member := Some mouse_on_transfer_request,
     pt_setup_member := Some mouse_on_control_setup,
     pt_configuration_member := Some mouse_on_set_configuration,
     pt_interface_member := Some mouse_on_set_interface\<rparr>"

definition mouse_on_plug :: "'f \<Rightarrow> 'f library" where
  "mouse_on_plug factory = Some [Set_Name (Some ''Virtual HID Devices''), Set_Version (Some ''1.0.0-demo''),
     Register_Device (Some ''mouse-1'') (Some factory)]"

end
