(* ===== verification/Recording_Model.thy ===== *)
theory Recording_Model
  imports Record_Format Mouse_Model
begin

text \<open>
  The recording plugin (examples/playback/recording_proxy.cpp). It watches a real device: the data of
  completed IN transfers and of IN control requests goes into a queue, from which a thread
  appends to the files.

  A recorder is modelled with the contents of its two files. \<open>recorder_run\<close> describes every
  interleaving of the callers and the writer; writes succeed. The current time, in nanoseconds, is
  part of the plugin's state.
\<close>

section \<open>Records\<close>

record recorded_transfer =
  rt_endpoint :: u8
  rt_size :: u32
  rt_data :: bytes
  rt_iso_descriptors :: "iso_packet list"
  rt_timestamp :: int

record recorded_setup =
  rs_setup :: u64
  rs_data_size :: u32
  rs_data :: bytes
  rs_timestamp :: int

section \<open>Writing\<close>

text \<open>\<open>duration_cast\<close> truncates towards zero.\<close>

definition timestamp_ms :: "int \<Rightarrow> int" where
  "timestamp_ms ns = (if ns < 0 then - (- ns div 10 ^ 6) else ns div 10 ^ 6)"

definition transfer_json :: "recorded_transfer \<Rightarrow> nat \<Rightarrow> nat \<Rightarrow> string" where
  "transfer_json r payload_offset iso_offset =
     ''{'' @ quoted ''timestamp_ms'' @ '':'' @ show_int (timestamp_ms (rt_timestamp r)) @ '','' @
     quoted ''endpoint'' @ '':'' @ (dquote @ ''0x'' @ show_hex2 (unat (rt_endpoint r)) @ dquote) @ '','' @
     quoted ''size'' @ '':'' @ show_nat (unat (rt_size r)) @ '','' @
     quoted ''data'' @ '':'' @ show_nat payload_offset @ '','' @
     (if rt_iso_descriptors r \<noteq> [] then
        quoted ''iso_packet_descriptor_count'' @ '':'' @ show_nat (length (rt_iso_descriptors r)) @ '','' @
        quoted ''iso_packet_descriptor_offset'' @ '':'' @ show_nat iso_offset
      else
        quoted ''iso_packet_descriptor_count'' @ '':'' @ quoted ''NA'' @ '','' @
        quoted ''iso_packet_descriptor_offset'' @ '':'' @ quoted ''NA'') @
     ''}''"

type_synonym record_files = "string \<times> bytes"

definition write_transfer :: "recorded_transfer \<Rightarrow> record_files \<Rightarrow> record_files" where
  "write_transfer r files =
     (case files of (output, payload) \<Rightarrow>
       let payload_offset = length payload;
           payload = payload @ rt_data r;
           iso_offset = length payload;
           payload = payload @ concat (map packet_bytes (rt_iso_descriptors r))
       in (output @ transfer_json r payload_offset iso_offset @ [newline], payload))"

definition setup_json :: "recorded_setup \<Rightarrow> nat \<Rightarrow> string" where
  "setup_json r payload_offset =
     ''{'' @ quoted ''setup'' @ '':'' @ show_nat (unat (rs_setup r)) @ '','' @
     quoted ''data_size'' @ '':'' @ show_nat (unat (rs_data_size r)) @ '','' @
     quoted ''data'' @ '':'' @ show_nat payload_offset @ ''}''"

definition write_setup :: "recorded_setup \<Rightarrow> record_files \<Rightarrow> record_files" where
  "write_setup r files =
     (case files of (output, payload) \<Rightarrow>
       (output @ setup_json r (length payload) @ [newline], payload @ rs_data r))"

record 'r recorder =
  wr_queue :: "'r list"
  wr_files :: record_files
  wr_shutdown :: bool

definition recorder_init :: "record_files \<Rightarrow> 'r recorder" where
  "recorder_init files = \<lparr>wr_queue = [], wr_files = files, wr_shutdown = False\<rparr>"

definition record_item :: "'r \<Rightarrow> 'r recorder \<Rightarrow> 'r recorder" where
  "record_item r s = s\<lparr>wr_queue := wr_queue s @ [r]\<rparr>"

text \<open>One round of the writer thread; it waits while there is nothing to write.\<close>

definition writer_round :: "('r \<Rightarrow> record_files \<Rightarrow> record_files) \<Rightarrow> 'r recorder \<Rightarrow> 'r recorder option" where
  "writer_round wr s =
     (case wr_queue s of
        [] \<Rightarrow> None
      | r # rs \<Rightarrow> Some (s\<lparr>wr_queue := rs, wr_files := wr r (wr_files s)\<rparr>))"

definition recorder_shutdown :: "'r recorder \<Rightarrow> 'r recorder" where
  "recorder_shutdown s = s\<lparr>wr_shutdown := True\<rparr>"

definition writer_ended :: "'r recorder \<Rightarrow> bool" where
  "writer_ended s \<longleftrightarrow> wr_queue s = [] \<and> wr_shutdown s"

text \<open>The states of a recorder, with what it was given so far.\<close>

inductive recorder_run ::
  "('r \<Rightarrow> record_files \<Rightarrow> record_files) \<Rightarrow> record_files \<Rightarrow> 'r list \<Rightarrow> 'r recorder \<Rightarrow> bool"
  for wr and files where
  run_start: "recorder_run wr files [] (recorder_init files)"
| run_record: "recorder_run wr files log s \<Longrightarrow> recorder_run wr files (log @ [r]) (record_item r s)"
| run_write: "recorder_run wr files log s \<Longrightarrow> writer_round wr s = Some s' \<Longrightarrow>
    recorder_run wr files log s'"
| run_shutdown: "recorder_run wr files log s \<Longrightarrow> recorder_run wr files log (recorder_shutdown s)"

section \<open>The plugin\<close>

record recording =
  rp_transfers :: "recorded_transfer recorder"
  rp_setups :: "recorded_setup recorder"
  rp_now :: int

definition recording_init :: "record_files \<Rightarrow> record_files \<Rightarrow> int \<Rightarrow> recording" where
  "recording_init transfers setups now =
     \<lparr>rp_transfers = recorder_init transfers, rp_setups = recorder_init setups, rp_now = now\<rparr>"

definition recording_on_transfer_request :: "recording transfer_handler" where
  "recording_on_transfer_request ctx xfer p = (Inr (), xfer, False, p)"

definition zero_packet :: iso_packet where
  "zero_packet = \<lparr>ip_length = 0, ip_actual_length = 0, ip_status = Completed\<rparr>"

text \<open>
  The record of a transfer; \<open>None\<close> when there is nothing to record. Reading an IN transfer does not
  change it.
\<close>

definition transfer_recorded :: "int \<Rightarrow> libusb_transfer \<Rightarrow> recorded_transfer option res" where
  "transfer_recorded now xfer =
     bindR (control_is_in (Some xfer)) (\<lambda>is_in.
     if \<not> is_in then Inr None
     else bindR (control_size (Some xfer)) (\<lambda>n.
       if n \<le> 0 then Inr None
       else bindR (transfer_control_read (word_of_int n) (Some xfer)) (\<lambda>(bs, _).
            bindR (iso_packet_descriptor_count (Some xfer)) (\<lambda>iso_count.
            bindR (if iso_count > 0 then transfer_control_read_iso iso_count (Some xfer) else Inr []) (\<lambda>ds.
            bindR (control_ep (Some xfer)) (\<lambda>ep.
            Inr (Some \<lparr>rt_endpoint = ep, rt_size = word_of_int n,
              rt_data = bs @ replicate (nat n - length bs) 0,
              rt_iso_descriptors = ds @ replicate (iso_count - length ds) zero_packet,
              rt_timestamp = now\<rparr>)))))))"

definition recording_on_transfer_complete :: "recording transfer_handler" where
  "recording_on_transfer_complete ctx xfer p =
     (case transfer_recorded (rp_now p) xfer of
        Inl e \<Rightarrow> (Inl e, xfer, False, p)
      | Inr None \<Rightarrow> (Inr (), xfer, False, p)
      | Inr (Some r) \<Rightarrow> (Inr (), xfer, False, p\<lparr>rp_transfers := record_item r (rp_transfers p)\<rparr>))"

text \<open>\<open>std::bit_cast<std::uint64_t>\<close> of a setup packet.\<close>

definition setup_u64 :: "control_setup \<Rightarrow> u64" where
  "setup_u64 setup = of_nat (from_le ([bmRequestType setup, bRequest setup] @ le_bytes 2 (wValue setup) @
     le_bytes 2 (wIndex setup) @ le_bytes 2 (wLength setup)))"

definition is_in_control_setup :: "control_setup \<Rightarrow> bool" where
  "is_in_control_setup setup \<longleftrightarrow> bmRequestType setup AND 0x80 \<noteq> 0"

definition recording_on_control_setup :: "recording setup_handler" where
  "recording_on_control_setup setup data result p =
     (Inr result, data,
      if is_in_control_setup setup
      then p\<lparr>rp_setups := record_item \<lparr>rs_setup = setup_u64 setup, rs_data_size = of_nat (length data),
             rs_data = data, rs_timestamp = rp_now p\<rparr> (rp_setups p)\<rparr>
      else p)"

definition recording_on_set_configuration :: "recording configuration_handler" where
  "recording_on_set_configuration index p = (Inr LIBUSB_SUCCESS, p)"

definition recording_on_set_interface :: "recording interface_handler" where
  "recording_on_set_interface ifc alt_setting p = (Inr LIBUSB_SUCCESS, p)"

definition recording_plugin :: "recording plugin_type" where
  "recording_plugin = empty_plugin\<lparr>pt_request_member := Some recording_on_transfer_request,
     pt_complete_member := Some recording_on_transfer_complete,
     pt_setup_member := Some recording_on_control_setup,
     pt_configuration_member := Some recording_on_set_configuration,
     pt_interface_member := Some recording_on_set_interface\<rparr>"

definition recording_on_plug :: "'f \<Rightarrow> 'f library" where
  "recording_on_plug factory = Some [Set_Name (Some ''Recording Proxy Device''), Set_Version (Some ''1.0.0-demo''),
     Register_Device (Some ''recording.proxy-1'') (Some factory)]"

end
