(* ===== verification/Playback_Model.thy ===== *)
theory Playback_Model
  imports Recording_Model
begin

text \<open>
  The playback plugin (examples/playback/playback_device.cpp): it loads a recording, answers the
  waiting transfers with its records in turn, and control requests with the recorded data.

  Loading runs in the constructor, called from a function declared \<open>noexcept\<close>: an exception there
  ends the process. Memory suffices for every vector whose size is admissible.
\<close>

section \<open>Loading transfers\<close>

record transfer_record =
  tr_endpoint :: u8
  tr_size :: u32
  tr_data_offset :: nat
  tr_iso_offset :: nat
  tr_data :: bytes
  tr_iso_descriptors :: "iso_packet list"
  tr_timestamp_ms :: u64
  tr_iso_packet_descriptor_count :: nat

definition read_payload :: "bytes \<Rightarrow> nat \<Rightarrow> u32 \<Rightarrow> bytes" where
  "read_payload payload offset sz =
     (if sz = 0 then []
      else (case read_at payload offset (unat sz) of None \<Rightarrow> [] | Some bs \<Rightarrow> bs))"

definition read_iso_descriptors :: "bytes \<Rightarrow> nat \<Rightarrow> nat \<Rightarrow> iso_packet list res" where
  "read_iso_descriptors payload offset count =
     (if count > max_elements sizeof_iso_packet_descriptor then Inl Length_Error
      else if count = 0 then Inr []
      else (case read_at payload offset (count * sizeof_iso_packet_descriptor) of
              None \<Rightarrow> Inr []
            | Some bs \<Rightarrow> Inr (packets_of_bytes count bs)))"

definition match_transfer :: "string \<Rightarrow> (string \<times> string \<times> string \<times> string \<times> string \<times> string) option" where
  "match_transfer s =
     Option.bind (m_literal ''{'' s) (\<lambda>s.
     Option.bind (m_field ''timestamp_ms'' m_number (CHR '','') s) (\<lambda>(timestamp, s).
     Option.bind (m_field ''endpoint'' m_hex (CHR '','') s) (\<lambda>(endpoint, s).
     Option.bind (m_field ''size'' m_number (CHR '','') s) (\<lambda>(sz, s).
     Option.bind (m_field ''data'' m_number (CHR '','') s) (\<lambda>(offset, s).
     Option.bind (m_field ''iso_packet_descriptor_count'' m_number_or_na (CHR '','') s) (\<lambda>(iso_count, s).
     Option.bind (m_field ''iso_packet_descriptor_offset'' m_number_or_na (CHR ''}'') s) (\<lambda>(iso_offset, s).
     Some (timestamp, endpoint, sz, offset, iso_count, iso_offset))))))))"

text \<open>Every exception is caught and gives \<open>None\<close>; numbers that are too large are cut to their type.\<close>

definition parse_transfer_record :: "string \<Rightarrow> transfer_record option" where
  "parse_transfer_record line =
     Option.bind (regex_search match_transfer line) (\<lambda>(timestamp, endpoint, sz, offset, iso_count_str, iso_offset_str).
     Option.bind (stoull timestamp) (\<lambda>timestamp.
     Option.bind (stoul_hex endpoint) (\<lambda>endpoint.
     Option.bind (stoull sz) (\<lambda>sz.
     Option.bind (stoull offset) (\<lambda>offset.
     Option.bind (if iso_count_str = quoted ''NA'' then Some (0, 0)
                  else Option.bind (stoull iso_count_str) (\<lambda>count.
                       if iso_offset_str = quoted ''NA'' then Some (count, 0)
                       else Option.bind (stoull iso_offset_str) (\<lambda>iso. Some (count, iso)))) (\<lambda>(count, iso).
     Some \<lparr>tr_endpoint = of_nat endpoint, tr_size = of_nat sz, tr_data_offset = offset,
       tr_iso_offset = iso, tr_data = [], tr_iso_descriptors = [],
       tr_timestamp_ms = of_nat timestamp, tr_iso_packet_descriptor_count = count\<rparr>))))))"

definition load_transfer_line :: "bytes \<Rightarrow> string \<Rightarrow> transfer_record list \<Rightarrow> transfer_record list res" where
  "load_transfer_line payload line records =
     (if line = [] then Inr records
      else (case parse_transfer_record line of
        None \<Rightarrow> Inr records
      | Some r \<Rightarrow>
          let bs = read_payload payload (tr_data_offset r) (tr_size r) in
          if length bs \<noteq> unat (tr_size r) then Inr records
          else bindR (if tr_iso_packet_descriptor_count r > 0
                      then read_iso_descriptors payload (tr_iso_offset r) (tr_iso_packet_descriptor_count r)
                      else Inr []) (\<lambda>iso.
               Inr (records @ [r\<lparr>tr_data := bs, tr_iso_descriptors := iso\<rparr>]))))"

text \<open>The contents of the two files; \<open>None\<close> is a file that does not open.\<close>

definition load_transfers :: "string option \<Rightarrow> bytes option \<Rightarrow> transfer_record list res" where
  "load_transfers file payload =
     (case (file, payload) of
        (Some text, Some payload) \<Rightarrow> foldR (load_transfer_line payload) (getlines text) []
      | _ \<Rightarrow> Inr [])"

section \<open>Loading control requests\<close>

record control_setup_record =
  cs_setup :: u64
  cs_data_size :: u32
  cs_data_offset :: nat
  cs_data :: bytes

definition match_setup :: "string \<Rightarrow> (string \<times> string \<times> string) option" where
  "match_setup s =
     Option.bind (m_literal ''{'' s) (\<lambda>s.
     Option.bind (m_field ''setup'' m_number (CHR '','') s) (\<lambda>(setup, s).
     Option.bind (m_field ''data_size'' m_number (CHR '','') s) (\<lambda>(sz, s).
     Option.bind (m_field ''data'' m_number (CHR ''}'') s) (\<lambda>(offset, s).
     Some (setup, sz, offset)))))"

definition parse_setup_record :: "string \<Rightarrow> control_setup_record option" where
  "parse_setup_record line =
     Option.bind (regex_search match_setup line) (\<lambda>(setup, sz, offset).
     Option.bind (stoull setup) (\<lambda>setup.
     Option.bind (stoull sz) (\<lambda>sz.
     Option.bind (stoull offset) (\<lambda>offset.
     Some \<lparr>cs_setup = of_nat setup, cs_data_size = of_nat sz, cs_data_offset = offset, cs_data = []\<rparr>))))"

definition load_setup_line ::
  "bytes \<Rightarrow> string \<Rightarrow> (u64, control_setup_record) omap \<Rightarrow> (u64, control_setup_record) omap" where
  "load_setup_line payload line setups =
     (if line = [] then setups
      else (case parse_setup_record line of
        None \<Rightarrow> setups
      | Some r \<Rightarrow>
          let bs = read_payload payload (cs_data_offset r) (cs_data_size r) in
          if length bs \<noteq> unat (cs_data_size r) then setups
          else om_assign (cs_setup r) (r\<lparr>cs_data := bs\<rparr>) setups))"

definition load_control_setups :: "string option \<Rightarrow> bytes option \<Rightarrow> (u64, control_setup_record) omap" where
  "load_control_setups file payload =
     (case (file, payload) of
        (Some text, Some payload) \<Rightarrow> fold (load_setup_line payload) (getlines text) []
      | _ \<Rightarrow> [])"

section \<open>The engine\<close>

record transfer_playback_engine =
  pe_records :: "transfer_record list"
  pe_current_index :: nat

definition next_index :: "transfer_playback_engine \<Rightarrow> nat" where
  "next_index e = (pe_current_index e + 1) mod length (pe_records e)"

definition get_next_record ::
  "transfer_playback_engine \<Rightarrow> transfer_record option \<times> transfer_playback_engine" where
  "get_next_record e =
     (if pe_records e = [] then (None, e)
      else let e = (if pe_current_index e \<ge> length (pe_records e) then e\<lparr>pe_current_index := 0\<rparr> else e)
           in (Some (pe_records e ! pe_current_index e), e))"

definition advance :: "transfer_playback_engine \<Rightarrow> transfer_playback_engine" where
  "advance e = (if pe_records e \<noteq> [] then e\<lparr>pe_current_index := next_index e\<rparr> else e)"

definition get_interval_ms :: "transfer_playback_engine \<Rightarrow> u64" where
  "get_interval_ms e =
     (if length (pe_records e) < 2 \<or> pe_current_index e \<ge> length (pe_records e) then 100
      else let current = pe_records e ! pe_current_index e; nxt = pe_records e ! next_index e
           in if tr_timestamp_ms nxt < tr_timestamp_ms current then 100
              else tr_timestamp_ms nxt - tr_timestamp_ms current)"

section \<open>The plugin\<close>

record playback_device =
  pd_engine :: transfer_playback_engine
  pd_setups :: "(u64, control_setup_record) omap"
  pd_input :: "nat list"

definition playback_construct ::
  "string option \<Rightarrow> bytes option \<Rightarrow> string option \<Rightarrow> bytes option \<Rightarrow> playback_device res" where
  "playback_construct transfers payload setups setup_payload =
     bindR (load_transfers transfers payload) (\<lambda>records.
     Inr \<lparr>pd_engine = \<lparr>pe_records = records, pe_current_index = 0\<rparr>,
       pd_setups = load_control_setups setups setup_payload, pd_input = []\<rparr>)"

definition playback_on_transfer_request :: "playback_device transfer_handler" where
  "playback_on_transfer_request ctx xfer d =
     (case control_ep (Some xfer) of
        Inl e \<Rightarrow> (Inl e, xfer, False, d)
      | Inr ep \<Rightarrow> (Inr (), xfer, False,
          if ep = 0x81 then d\<lparr>pd_input := pd_input d @ [ctx]\<rparr> else d))"

definition playback_on_control_setup :: "playback_device setup_handler" where
  "playback_on_control_setup setup data result d =
     (if \<not> is_in_control_setup setup then (Inr (int_of_size (length data)), data, d)
      else (case om_find (pd_setups d) (setup_u64 setup) of
              None \<Rightarrow> (Inr result, data, d)
            | Some recorded \<Rightarrow>
                if data \<noteq> [] then
                  (let copy_size = min (length data) (unat (cs_data_size recorded))
                   in (Inr (int_of_size copy_size), take copy_size (cs_data recorded) @ drop copy_size data, d))
                else (Inr result, data, d)))"

definition playback_on_set_configuration :: "playback_device configuration_handler" where
  "playback_on_set_configuration index d = (Inr LIBUSB_SUCCESS, d)"

definition playback_on_set_interface :: "playback_device interface_handler" where
  "playback_on_set_interface ifc alt_setting d = (Inr LIBUSB_SUCCESS, d)"

text \<open>What the loop does to the oldest waiting transfer. The queue holds its address.\<close>

definition fill_from_record :: "transfer_record \<Rightarrow> libusb_transfer \<Rightarrow> libusb_transfer option res" where
  "fill_from_record r xfer =
     bindR (control_is_in (Some xfer)) (\<lambda>is_in.
     bindR (control_ep (Some xfer)) (\<lambda>ep.
     if is_in \<and> tr_endpoint r = ep then
       bindR (control_size (Some xfer)) (\<lambda>n.
       bindR (transfer_control_fill (Some (tr_data r)) (min (size_of_int n) (length (tr_data r))) (Some xfer)) (\<lambda>xfer.
       if tr_iso_descriptors r \<noteq> []
       then transfer_control_fill_iso (Some (tr_iso_descriptors r)) (length (tr_iso_descriptors r)) xfer
       else Inr xfer))
     else Inr (Some xfer)))"

text \<open>
  The wait between two records. \<open>std::chrono::milliseconds (interval_ms)\<close> reads the unsigned
  interval as a signed 64-bit count, and \<open>wait_for\<close> with a predicate waits until the steady
  clock's time, in signed 64-bit nanoseconds, has advanced by it. An overflow of the product or of
  the sum is undefined. A deadline in the past ends the wait at once.
\<close>

definition milliseconds_of :: "u64 \<Rightarrow> int" where
  "milliseconds_of ms = sint ms"

definition fits_i64 :: "int \<Rightarrow> bool" where
  "fits_i64 i \<longleftrightarrow> - (2 ^ 63) \<le> i \<and> i < 2 ^ 63"

definition wait_deadline :: "int \<Rightarrow> int \<Rightarrow> int res" where
  "wait_deadline now ms =
     (if fits_i64 (ms * 10 ^ 6) \<and> fits_i64 (now + ms * 10 ^ 6) then Inr (now + ms * 10 ^ 6)
      else Inl Undefined_Behaviour)"

text \<open>The deadline of a round that begins its wait at a time of the steady clock.\<close>

definition playback_wait :: "int \<Rightarrow> playback_device \<Rightarrow> int res" where
  "playback_wait now d =
     (case get_next_record (pd_engine d) of
        (None, e) \<Rightarrow> wait_deadline now 100
      | (Some r, e) \<Rightarrow> wait_deadline now (milliseconds_of (get_interval_ms e)))"

text \<open>
  One round of the playback loop whose wait has come back and in which no shutdown is requested:
  the signed milliseconds it was asked to wait, and the transfer it completes after that. Without
  records it waits 100 ms. The queue is looked at after the wait only, and only this thread uses
  the engine, so requests that arrive during the wait are requests before the round. Whether the
  wait is defined, and when it ends, is \<open>playback_wait\<close>.
\<close>

definition playback_round ::
  "(nat \<Rightarrow> libusb_transfer option) \<Rightarrow> playback_device \<Rightarrow> (int \<times> (nat \<times> libusb_transfer) option \<times> playback_device) res" where
  "playback_round heap d =
     (case get_next_record (pd_engine d) of
        (None, e) \<Rightarrow> Inr (100, None, d\<lparr>pd_engine := e\<rparr>)
      | (Some r, e) \<Rightarrow>
          (let interval_ms = milliseconds_of (get_interval_ms e) in
           case pd_input d of
             [] \<Rightarrow> Inr (interval_ms, None, d\<lparr>pd_engine := advance e\<rparr>)
           | ctx # rest \<Rightarrow>
               bindR (transfer_at heap ctx) (\<lambda>xfer.
               bindR (fill_from_record r xfer) (\<lambda>xfer.
               bindR (plugin_complete xfer) (\<lambda>t.
               Inr (interval_ms, Some (ctx, t), d\<lparr>pd_engine := advance e, pd_input := rest\<rparr>))))))"

definition playback_plugin :: "playback_device plugin_type" where
  "playback_plugin = empty_plugin\<lparr>pt_request_member := Some playback_on_transfer_request,
     pt_setup_member := Some playback_on_control_setup,
     pt_configuration_member := Some playback_on_set_configuration,
     pt_interface_member := Some playback_on_set_interface\<rparr>"

definition playback_on_plug :: "'f \<Rightarrow> 'f library" where
  "playback_on_plug factory = Some [Set_Name (Some ''Virtual Playback Device''), Set_Version (Some ''1.0.0-demo''),
     Register_Device (Some ''viu.playback-1'') (Some factory)]"

end
