(* ===== verification/Plugin_Properties.thy ===== *)
theory Plugin_Properties
  imports Playback_Model Proxy_Model Device_Properties Daemon_Properties
begin

text \<open>
  The example plugins: what was recorded is what is loaded, the playback goes through its records in
  turn, and what recorded data turns into when it is played back through the daemon.
\<close>

section \<open>The writer\<close>

lemma recorder_run_files:
  "recorder_run wr fs log s \<Longrightarrow> \<exists>written. log = written @ wr_queue s \<and> wr_files s = fold wr written fs"
proof (induction rule: recorder_run.induct)
  case run_start
  then show ?case by (simp add: recorder_init_def)
next
  case (run_record log s r)
  then show ?case by (auto simp: record_item_def)
next
  case (run_write log s s')
  then obtain written where "log = written @ wr_queue s" "wr_files s = fold wr written fs" by blast
  then show ?case using run_write.hyps(2)
    by (intro exI [of _ "written @ [hd (wr_queue s)]"]) (auto simp: writer_round_def split: list.splits)
next
  case (run_shutdown log s)
  then show ?case by (simp add: recorder_shutdown_def)
qed

lemma writer_wrote_all: "recorder_run wr fs log s \<Longrightarrow> writer_ended s \<Longrightarrow> wr_files s = fold wr log fs"
  using recorder_run_files [of wr fs log s] by (auto simp: writer_ended_def)

section \<open>Loading what was written\<close>

definition recordable :: "recorded_transfer \<Rightarrow> bool" where
  "recordable r \<longleftrightarrow> length (rt_data r) = unat (rt_size r) \<and>
     0 \<le> rt_timestamp r \<and> rt_timestamp r < 2 ^ 64 \<and>
     length (rt_iso_descriptors r) \<le> max_elements sizeof_iso_packet_descriptor"

definition loaded_transfer :: "recorded_transfer \<Rightarrow> nat \<Rightarrow> transfer_record" where
  "loaded_transfer r offset =
     \<lparr>tr_endpoint = rt_endpoint r, tr_size = rt_size r, tr_data_offset = offset,
      tr_iso_offset = (if rt_iso_descriptors r = [] then 0 else offset + length (rt_data r)),
      tr_data = rt_data r, tr_iso_descriptors = rt_iso_descriptors r,
      tr_timestamp_ms = word_of_int (rt_timestamp r div 10 ^ 6),
      tr_iso_packet_descriptor_count = length (rt_iso_descriptors r)\<rparr>"

definition payload_of :: "recorded_transfer \<Rightarrow> bytes" where
  "payload_of r = rt_data r @ concat (map packet_bytes (rt_iso_descriptors r))"

fun loaded_transfers :: "recorded_transfer list \<Rightarrow> nat \<Rightarrow> transfer_record list" where
  "loaded_transfers [] offset = []"
| "loaded_transfers (r # rs) offset = loaded_transfer r offset # loaded_transfers rs (offset + length (payload_of r))"

lemma u64_small: "(n :: nat) < 2 ^ 32 \<Longrightarrow> n < 2 ^ 64"
  by simp

lemma show_int_nonneg: "0 \<le> i \<Longrightarrow> show_int i = show_nat (nat i)"
  by (simp add: show_int_def)

lemma match_transfer_json:
  assumes "0 \<le> rt_timestamp r"
  shows "match_transfer (transfer_json r po io) =
    Some (show_nat (nat (rt_timestamp r div 10 ^ 6)), show_hex2 (unat (rt_endpoint r)), show_nat (unat (rt_size r)),
      show_nat po, if rt_iso_descriptors r \<noteq> [] then show_nat (length (rt_iso_descriptors r)) else quoted ''NA'',
      if rt_iso_descriptors r \<noteq> [] then show_nat io else quoted ''NA'')"
  using assms
  by (simp add: match_transfer_def transfer_json_def timestamp_ms_def show_int_nonneg is_digit_def is_space_def)

lemma parse_transfer_json:
  assumes "0 \<le> rt_timestamp r" "rt_timestamp r < 2 ^ 64" "po < 2 ^ 63" "io < 2 ^ 63"
    and "length (rt_iso_descriptors r) \<le> max_elements sizeof_iso_packet_descriptor"
  shows "parse_transfer_record (transfer_json r po io) = Some ((loaded_transfer r po)
    \<lparr>tr_data := [], tr_iso_descriptors := [], tr_iso_offset := if rt_iso_descriptors r = [] then 0 else io\<rparr>)"
proof -
  have m: "regex_search match_transfer (transfer_json r po io) = match_transfer (transfer_json r po io)"
    using match_transfer_json [OF assms(1)] by (simp add: regex_search_here)
  have "nat (rt_timestamp r div 10 ^ 6) < 2 ^ 64" using assms(1,2) by simp
  moreover have "unat (rt_endpoint r) < 2 ^ 64" "unat (rt_size r) < 2 ^ 64"
    using unsigned_less [of "rt_endpoint r", where 'a = nat] unsigned_less [of "rt_size r", where 'a = nat] by simp_all
  moreover have "length (rt_iso_descriptors r) < 2 ^ 64"
    using assms(5) by (simp add: max_elements_def sizeof_iso_packet_descriptor_def)
  ultimately show ?thesis
    using assms unfolding parse_transfer_record_def m match_transfer_json [OF assms(1)]
    by (simp add: show_nat_not_quoted loaded_transfer_def)
qed

lemma newline_digits: "newline \<notin> set (show_nat n)" "newline \<notin> set (show_hex2 n)"
  using show_nat_digits [of n] show_hex2_digits [of n] by (auto simp: newline_def is_digit_def hex_digit_def)

lemma newline_json:
  "0 \<le> rt_timestamp r \<Longrightarrow> newline \<notin> set (transfer_json r po io)" "newline \<notin> set (setup_json q po)"
proof -
  show "newline \<notin> set (setup_json q po)"
    using newline_digits by (auto simp: setup_json_def quoted_def dquote_def newline_def)
  assume "0 \<le> rt_timestamp r"
  then show "newline \<notin> set (transfer_json r po io)"
    using newline_digits by (auto simp: transfer_json_def timestamp_ms_def show_int_nonneg quoted_def dquote_def newline_def)
qed

lemma read_payload_middle:
  assumes "length pre + length bs < 2 ^ 63" "length bs = unat sz"
  shows "read_payload (pre @ bs @ post) (length pre) sz = bs"
proof (cases "sz = 0")
  case True
  then show ?thesis using assms(2) by (simp add: read_payload_def)
next
  case False
  then show ?thesis
    using read_at_middle [OF assms(1) refl refl, of post] assms(2) by (simp add: read_payload_def)
qed

lemma load_line:
  assumes "parse_transfer_record line = Some q" "line \<noteq> []"
    and "read_payload pay (tr_data_offset q) (tr_size q) = bs" "length bs = unat (tr_size q)"
    and "read_iso_descriptors pay (tr_iso_offset q) (tr_iso_packet_descriptor_count q) = Inr isos"
    and "tr_iso_packet_descriptor_count q = length isos"
  shows "load_transfer_line pay line records = Inr (records @ [q\<lparr>tr_data := bs, tr_iso_descriptors := isos\<rparr>])"
  using assms by (cases isos) (simp_all add: load_transfer_line_def Let_def)

lemma read_iso_middle:
  assumes "length pre + length ps * sizeof_iso_packet_descriptor < 2 ^ 63"
    and "length ps \<le> max_elements sizeof_iso_packet_descriptor"
  shows "read_iso_descriptors (pre @ concat (map packet_bytes ps) @ post) (length pre) (length ps) = Inr ps"
  using read_at_middle [of pre "concat (map packet_bytes ps)" "length pre" _ post] assms
  by (simp add: read_iso_descriptors_def length_packets_bytes packets_of_packets_bytes)

lemma length_payload_of:
  "length (payload_of r) = length (rt_data r) + length (rt_iso_descriptors r) * sizeof_iso_packet_descriptor"
  by (simp add: payload_of_def length_packets_bytes)

lemma load_line_written:
  assumes "recordable r" "length pre + length (payload_of r) < 2 ^ 63"
  shows "load_transfer_line (pre @ payload_of r @ post) (transfer_json r (length pre) (length pre + length (rt_data r))) records =
    Inr (records @ [loaded_transfer r (length pre)])"
proof -
  let ?line = "transfer_json r (length pre) (length pre + length (rt_data r))"
  let ?q = "(loaded_transfer r (length pre))\<lparr>tr_data := [], tr_iso_descriptors := []\<rparr>"
  have ok: "0 \<le> rt_timestamp r" "rt_timestamp r < 2 ^ 64" "length (rt_data r) = unat (rt_size r)"
    "length (rt_iso_descriptors r) \<le> max_elements sizeof_iso_packet_descriptor"
    using assms(1) by (simp_all add: recordable_def)
  have "parse_transfer_record ?line = Some ?q"
    using assms(2) unfolding length_payload_of
    by (subst parse_transfer_json [OF ok(1,2) _ _ ok(4)]) (simp_all add: loaded_transfer_def)
  moreover have "?line \<noteq> []" by (simp add: transfer_json_def)
  moreover have "read_payload (pre @ payload_of r @ post) (tr_data_offset ?q) (tr_size ?q) = rt_data r"
    using read_payload_middle [of pre "rt_data r" "rt_size r"] assms(2) ok(3)
    by (simp add: payload_of_def loaded_transfer_def)
  moreover have "read_iso_descriptors (pre @ payload_of r @ post) (tr_iso_offset ?q) (tr_iso_packet_descriptor_count ?q) =
      Inr (rt_iso_descriptors r)"
  proof (cases "rt_iso_descriptors r = []")
    case True
    then show ?thesis by (simp add: loaded_transfer_def read_iso_descriptors_def)
  next
    case False
    then show ?thesis
      using read_iso_middle [of "pre @ rt_data r" "rt_iso_descriptors r" post] assms(2) ok(4)
      by (simp add: payload_of_def loaded_transfer_def length_packets_bytes)
  qed
  ultimately have "load_transfer_line (pre @ payload_of r @ post) ?line records =
      Inr (records @ [?q\<lparr>tr_data := rt_data r, tr_iso_descriptors := rt_iso_descriptors r\<rparr>])"
    using ok(3) by (intro load_line) (simp_all add: loaded_transfer_def)
  then show ?thesis by (simp add: loaded_transfer_def)
qed

lemma write_transfer_fold:
  "fold write_transfer rs (out0, pay0) =
    (fst (fold write_transfer rs (out0, pay0)), pay0 @ concat (map payload_of rs))"
proof (induction rs arbitrary: out0 pay0)
  case (Cons r rs)
  obtain o1 where "write_transfer r (out0, pay0) = (o1, pay0 @ payload_of r)"
    by (simp add: write_transfer_def Let_def payload_of_def)
  then show ?case using Cons.IH [of o1 "pay0 @ payload_of r"] by simp
qed simp

lemma load_written:
  assumes "\<forall>r\<in>set rs. recordable r" "length pre + length (concat (map payload_of rs)) < 2 ^ 63"
  shows "\<exists>doc. fst (fold write_transfer rs (out0, pre)) = out0 @ doc \<and>
    (\<forall>records post. foldR (load_transfer_line (pre @ concat (map payload_of rs) @ post)) (getlines doc) records =
      Inr (records @ loaded_transfers rs (length pre)))"
  using assms
proof (induction rs arbitrary: out0 pre)
  case Nil
  then show ?case by simp
next
  case (Cons r rs)
  let ?json = "transfer_json r (length pre) (length pre + length (rt_data r))"
  have w: "write_transfer r (out0, pre) = (out0 @ ?json @ [newline], pre @ payload_of r)"
    by (simp add: write_transfer_def Let_def payload_of_def)
  obtain doc where doc: "fst (fold write_transfer rs (out0 @ ?json @ [newline], pre @ payload_of r)) = (out0 @ ?json @ [newline]) @ doc"
    and load: "\<And>records post. foldR (load_transfer_line ((pre @ payload_of r) @ concat (map payload_of rs) @ post)) (getlines doc) records =
      Inr (records @ loaded_transfers rs (length (pre @ payload_of r)))"
    using Cons.IH [of "pre @ payload_of r" "out0 @ ?json @ [newline]"] Cons.prems by auto
  have rec: "recordable r" "length pre + length (payload_of r) < 2 ^ 63" using Cons.prems by auto
  have "getlines (?json @ newline # doc) = ?json # getlines doc"
    using rec(1) by (intro getlines_line newline_json) (simp add: recordable_def)
  then have "foldR (load_transfer_line (pre @ concat (map payload_of (r # rs)) @ post)) (getlines (?json @ newline # doc)) records =
      Inr (records @ loaded_transfers (r # rs) (length pre))" for records post
    using load_line_written [OF rec, of "concat (map payload_of rs) @ post" records]
      load [of post "records @ [loaded_transfer r (length pre)]"] by simp
  then show ?case using doc w by (intro exI [of _ "?json @ newline # doc"]) simp
qed

lemma load_recording:
  assumes "recorder_run write_transfer ([], payload0) log s" "writer_ended s" "\<forall>r\<in>set log. recordable r"
    and "length payload0 + length (concat (map payload_of log)) < 2 ^ 63"
  shows "load_transfers (Some (fst (wr_files s))) (Some (snd (wr_files s))) =
    Inr (loaded_transfers log (length payload0))"
proof -
  have f: "wr_files s = fold write_transfer log ([], payload0)"
    by (rule writer_wrote_all [OF assms(1,2)])
  obtain doc where "fst (fold write_transfer log ([], payload0)) = doc"
    and "\<And>records post. foldR (load_transfer_line (payload0 @ concat (map payload_of log) @ post)) (getlines doc) records =
      Inr (records @ loaded_transfers log (length payload0))"
    using load_written [OF assms(3,4), of "[]"] by auto
  then show ?thesis
    using write_transfer_fold [of log "[]" payload0] unfolding f
    by (metis (no_types, lifting) append.right_neutral append_Nil fst_conv load_transfers_def option.case old.prod.case prod.collapse snd_conv)
qed

text \<open>C26: A recording is loaded as it was recorded: when the recorder has ended, in whatever order its
  callers and its writer took turns, the two files hold one record for each recorded transfer, in
  order, with its endpoint, data, packet descriptors and time in milliseconds. The binary file may
  have held other bytes before.\<close>

theorem recording_loads:
  assumes "recorder_run write_transfer ([], payload0) log s" "writer_ended s" "\<forall>r\<in>set log. recordable r"
    and "length payload0 + length (concat (map payload_of log)) < 2 ^ 63"
  shows "\<exists>records. load_transfers (Some (fst (wr_files s))) (Some (snd (wr_files s))) = Inr records \<and>
    list_all2 (\<lambda>r l. tr_endpoint l = rt_endpoint r \<and> tr_size l = rt_size r \<and> tr_data l = rt_data r \<and>
      tr_iso_descriptors l = rt_iso_descriptors r \<and>
      tr_timestamp_ms l = word_of_int (rt_timestamp r div 10 ^ 6)) log records"
proof -
  have "list_all2 (\<lambda>r l. tr_endpoint l = rt_endpoint r \<and> tr_size l = rt_size r \<and> tr_data l = rt_data r \<and>
      tr_iso_descriptors l = rt_iso_descriptors r \<and>
      tr_timestamp_ms l = word_of_int (rt_timestamp r div 10 ^ 6)) rs (loaded_transfers rs n)" for rs n
    by (induction rs arbitrary: n) (simp_all add: loaded_transfer_def)
  with load_recording [OF assms] show ?thesis by blast
qed

definition example_recorded :: "recorded_transfer list" where
  "example_recorded =
     [\<lparr>rt_endpoint = 0x81, rt_size = 2, rt_data = [7, 9], rt_iso_descriptors = [], rt_timestamp = 5 * 10 ^ 6\<rparr>,
      \<lparr>rt_endpoint = 0x81, rt_size = 1, rt_data = [3],
       rt_iso_descriptors = [\<lparr>ip_length = 1, ip_actual_length = 1, ip_status = Completed\<rparr>], rt_timestamp = 12 * 10 ^ 6\<rparr>]"

definition example_recorder :: "recorded_transfer recorder" where
  "example_recorder = \<lparr>wr_queue = [], wr_files = fold write_transfer example_recorded ([], []), wr_shutdown = True\<rparr>"

lemma example_recorder_run: "recorder_run write_transfer ([], []) example_recorded example_recorder"
proof -
  obtain a b where ab: "example_recorded = [a, b]" by (simp add: example_recorded_def)
  let ?s = "recorder_init ([], []) :: recorded_transfer recorder"
  have r1: "recorder_run write_transfer ([], []) ([] @ [a]) (record_item a ?s)"
    by (intro run_record run_start)
  have "writer_round write_transfer (record_item a ?s) = Some (?s\<lparr>wr_files := write_transfer a ([], [])\<rparr>)"
    by (simp add: writer_round_def record_item_def recorder_init_def)
  from run_record [OF run_write [OF r1 this], of b]
  have r2: "recorder_run write_transfer ([], []) [a, b] (record_item b (?s\<lparr>wr_files := write_transfer a ([], [])\<rparr>))"
    by simp
  have "writer_round write_transfer (recorder_shutdown (record_item b (?s\<lparr>wr_files := write_transfer a ([], [])\<rparr>))) =
      Some example_recorder"
    by (simp add: writer_round_def record_item_def recorder_init_def recorder_shutdown_def example_recorder_def ab)
  from run_write [OF run_shutdown [OF r2] this] show ?thesis unfolding ab .
qed

lemma example_recorder_ended: "writer_ended example_recorder"
  by (simp add: writer_ended_def example_recorder_def)

lemma example_recordable: "\<forall>r\<in>set example_recorded. recordable r"
  by (simp add: example_recorded_def recordable_def max_elements_def sizeof_iso_packet_descriptor_def)

lemma recording_loads_witness:
  "\<exists>records. load_transfers (Some (fst (wr_files example_recorder))) (Some (snd (wr_files example_recorder))) = Inr records \<and>
    map tr_data records = [[7, 9], [3]] \<and> map tr_timestamp_ms records = [5, 12]"
  using recording_loads [OF example_recorder_run example_recorder_ended example_recordable]
  by (auto simp: example_recorded_def payload_of_def sizeof_iso_packet_descriptor_def list_all2_Cons1)

section \<open>Playing back\<close>

inductive playback_run :: "transfer_record list \<Rightarrow> nat \<Rightarrow> playback_device \<Rightarrow> bool" for records where
  play_start: "playback_construct transfers payload setups setup_payload = Inr d \<Longrightarrow>
    pe_records (pd_engine d) = records \<Longrightarrow> playback_run records 0 d"
| play_request: "playback_run records n d \<Longrightarrow> playback_on_transfer_request ctx x d = (r, x', c, d') \<Longrightarrow>
    playback_run records n d'"
| play_round: "playback_run records n d \<Longrightarrow> playback_round heap d = Inr (ms, t, d') \<Longrightarrow>
    playback_run records (Suc n) d'"

lemma playback_round_engine:
  assumes "playback_round heap d = Inr (ms, t, d')" "pe_records (pd_engine d) \<noteq> []"
    and "pe_current_index (pd_engine d) < length (pe_records (pd_engine d))"
  shows "pd_engine d' = advance (pd_engine d) \<and> ms = milliseconds_of (get_interval_ms (pd_engine d)) \<and>
    set (pd_input d') \<subseteq> set (pd_input d)"
  using assms
  by (auto simp: playback_round_def get_next_record_def Let_def bindR_Inr_iff split: list.splits)

lemma playback_round_none:
  "pe_records (pd_engine d) = [] \<Longrightarrow> playback_round heap d = Inr (100, None, d)"
  by (simp add: playback_round_def get_next_record_def)

lemma playback_run_inv:
  "playback_run records n d \<Longrightarrow> pe_records (pd_engine d) = records \<and>
    (records \<noteq> [] \<longrightarrow> pe_current_index (pd_engine d) = n mod length records)"
proof (induction rule: playback_run.induct)
  case (play_start transfers payload setups setup_payload d)
  then show ?case by (auto simp: playback_construct_def bindR_Inr_iff)
next
  case (play_request n d ctx x r x' c d')
  then show ?case
    by (auto simp: playback_on_transfer_request_def control_ep_def split: if_splits)
next
  case (play_round n d heap ms t d')
  show ?case
  proof (cases "records = []")
    case True
    then show ?thesis using play_round playback_round_none by auto
  next
    case False
    then have "pe_current_index (pd_engine d) < length (pe_records (pd_engine d))"
      using play_round.IH by simp
    then show ?thesis
      using play_round False playback_round_engine [OF play_round.hyps(2)]
      by (auto simp: advance_def next_index_def mod_Suc_eq)
  qed
qed

text \<open>The interval, as an integer, after a record of the list in its circle.\<close>

definition interval_after :: "transfer_record list \<Rightarrow> nat \<Rightarrow> int" where
  "interval_after records n =
     (let now = tr_timestamp_ms (records ! (n mod length records));
          later = tr_timestamp_ms (records ! (Suc n mod length records))
      in if length records = 1 \<or> later < now then 100 else uint later - uint now)"

lemma interval_exact:
  assumes "pe_records e = records" "records \<noteq> []" "pe_current_index e = n mod length records"
  shows "uint (get_interval_ms e) = interval_after records n"
proof -
  have "n mod length records < length records" using assms(2) by simp
  moreover have "length records < 2 \<longleftrightarrow> length records = 1" using assms(2) by (cases records) auto
  ultimately show ?thesis using assms(1,3)
    by (auto simp: get_interval_ms_def interval_after_def Let_def next_index_def mod_Suc_eq not_le not_less
        intro: uint_minus_simple_alt [THEN iffD1])
qed

lemma milliseconds_of_uint:
  "milliseconds_of w = (if uint w < 2 ^ 63 then uint w else uint w - 2 ^ 64)"
proof -
  have "uint w = sint w mod 2 ^ 64" using uint_sint [of w] by (simp add: take_bit_eq_mod)
  moreover have "- (2 ^ 63) \<le> sint w" "sint w < 2 ^ 63" using sint_greater_eq [of w] sint_lt [of w] by simp_all
  moreover have "sint w mod 2 ^ 64 = (sint w + 2 ^ 64) mod 2 ^ 64" by simp
  ultimately show ?thesis unfolding milliseconds_of_def
    by (cases "0 \<le> sint w") (simp_all add: mod_pos_pos_trivial del: mod_add_self2)
qed

lemma interval_after_range:
  assumes "playback_run records n d" "records \<noteq> []"
  shows "0 \<le> interval_after records n" "interval_after records n < 2 ^ 64"
    "milliseconds_of (get_interval_ms (pd_engine d)) =
      (if interval_after records n < 2 ^ 63 then interval_after records n else interval_after records n - 2 ^ 64)"
proof -
  have "uint (get_interval_ms (pd_engine d)) = interval_after records n"
    using interval_exact playback_run_inv [OF assms(1)] assms(2) by auto
  then have u: "interval_after records n = uint (get_interval_ms (pd_engine d))" by simp
  show "0 \<le> interval_after records n" "interval_after records n < 2 ^ 64"
    "milliseconds_of (get_interval_ms (pd_engine d)) =
      (if interval_after records n < 2 ^ 63 then interval_after records n else interval_after records n - 2 ^ 64)"
    unfolding u using uint_bounded [of "get_interval_ms (pd_engine d)"] by (simp_all add: milliseconds_of_uint)
qed

lemma playback_in_turn_next:
  assumes "playback_run records n d" "records \<noteq> []"
  shows "get_next_record (pd_engine d) = (Some (records ! (n mod length records)), pd_engine d)"
proof -
  have inv: "pe_records (pd_engine d) = records" "pe_current_index (pd_engine d) = n mod length records"
    using playback_run_inv [OF assms(1)] assms(2) by auto
  have "n mod length records < length records" using assms(2) by simp
  with inv assms(2) show ?thesis by (simp add: get_next_record_def not_le [symmetric])
qed

lemma playback_wait_in_turn:
  assumes "playback_run records n d" "records \<noteq> []"
  shows "playback_wait now d = wait_deadline now
    (if interval_after records n < 2 ^ 63 then interval_after records n else interval_after records n - 2 ^ 64)"
  by (simp add: playback_wait_def playback_in_turn_next [OF assms] interval_after_range(3) [OF assms] split: if_splits)

lemma playback_round_fills:
  assumes "playback_run records n d" "records \<noteq> []" "playback_round heap d = Inr (ms, t, d')"
  shows "case pd_input d of [] \<Rightarrow> t = None \<and> pd_input d' = []
    | ctx # rest \<Rightarrow> (\<exists>x y. heap ctx = Some x \<and> fill_from_record (records ! (n mod length records)) x = Inr (Some y) \<and>
        t = Some (ctx, y\<lparr>t_status := Completed\<rparr>) \<and> pd_input d' = rest)"
  using assms(3) playback_in_turn_next [OF assms(1,2)]
  by (auto simp: playback_round_def bindR_Inr_iff Let_def transfer_at_def plugin_complete_def is_mock_def viu_assert_def
      split: list.splits option.splits if_splits)

text \<open>C27: The playback plays its records in turn and in a circle: whatever requests arrive and however
  often there is none to answer, round n uses record n modulo their number. It first waits for the
  time between this record and the next, or for 100 ms if there is one record only or the next is
  older; the deadline is exactly that interval later whenever the signed nanoseconds of the clock
  can hold it, the wait is undefined when they cannot, and an interval of \<open>2 ^ 63\<close> ms or more, which
  the conversion to signed milliseconds turns negative, does not wait at all. The round that
  follows answers the oldest waiting transfer, if there is one, with that record and no other, and
  takes it off the queue.\<close>

theorem playback_in_turn:
  assumes "playback_run records n d" "records \<noteq> []"
  shows "get_next_record (pd_engine d) = (Some (records ! (n mod length records)), pd_engine d) \<and>
    (\<forall>now. 0 \<le> now \<longrightarrow>
      (now + interval_after records n * 10 ^ 6 < 2 ^ 63 \<longrightarrow>
        playback_wait now d = Inr (now + interval_after records n * 10 ^ 6)) \<and>
      (2 ^ 63 \<le> now + interval_after records n * 10 ^ 6 \<and> interval_after records n < 2 ^ 63 \<longrightarrow>
        playback_wait now d = Inl Undefined_Behaviour) \<and>
      (2 ^ 63 \<le> interval_after records n \<longrightarrow>
        playback_wait now d = Inl Undefined_Behaviour \<or> (\<exists>deadline < now. playback_wait now d = Inr deadline))) \<and>
    (\<forall>heap ms t d'. playback_round heap d = Inr (ms, t, d') \<longrightarrow>
      ms = (if interval_after records n < 2 ^ 63 then interval_after records n else interval_after records n - 2 ^ 64) \<and>
      playback_run records (Suc n) d' \<and>
      (case pd_input d of [] \<Rightarrow> t = None \<and> pd_input d' = []
       | ctx # rest \<Rightarrow> (\<exists>x y. heap ctx = Some x \<and> fill_from_record (records ! (n mod length records)) x = Inr (Some y) \<and>
           t = Some (ctx, y\<lparr>t_status := Completed\<rparr>) \<and> pd_input d' = rest)))"
proof (intro conjI allI impI)
  note range = interval_after_range [OF assms]
  have inv: "pe_records (pd_engine d) = records" "pe_current_index (pd_engine d) = n mod length records"
    using playback_run_inv [OF assms(1)] assms(2) by auto
  show "get_next_record (pd_engine d) = (Some (records ! (n mod length records)), pd_engine d)"
    by (rule playback_in_turn_next [OF assms])
  show "playback_wait now d = Inr (now + interval_after records n * 10 ^ 6)"
    if "0 \<le> now" "now + interval_after records n * 10 ^ 6 < 2 ^ 63" for now
    using that range(1) by (simp add: playback_wait_in_turn [OF assms] wait_deadline_def fits_i64_def)
  show "playback_wait now d = Inl Undefined_Behaviour"
    if "0 \<le> now" "2 ^ 63 \<le> now + interval_after records n * 10 ^ 6 \<and> interval_after records n < 2 ^ 63" for now
    using that by (simp add: playback_wait_in_turn [OF assms] wait_deadline_def fits_i64_def)
  show "playback_wait now d = Inl Undefined_Behaviour \<or> (\<exists>deadline < now. playback_wait now d = Inr deadline)"
    if "0 \<le> now" "2 ^ 63 \<le> interval_after records n" for now
    using that range(2) by (simp add: playback_wait_in_turn [OF assms] wait_deadline_def)
  fix heap ms t d'
  assume round: "playback_round heap d = Inr (ms, t, d')"
  show "ms = (if interval_after records n < 2 ^ 63 then interval_after records n else interval_after records n - 2 ^ 64)"
    using playback_round_engine [OF round] inv assms(2) range(3) by (metis length_greater_0_conv mod_less_divisor)
  show "playback_run records (Suc n) d'" by (rule play_round [OF assms(1) round])
  show "case pd_input d of [] \<Rightarrow> t = None \<and> pd_input d' = []
    | ctx # rest \<Rightarrow> (\<exists>x y. heap ctx = Some x \<and> fill_from_record (records ! (n mod length records)) x = Inr (Some y) \<and>
        t = Some (ctx, y\<lparr>t_status := Completed\<rparr>) \<and> pd_input d' = rest)"
    by (rule playback_round_fills [OF assms round])
qed

definition example_playback :: playback_device where
  "example_playback = \<lparr>pd_engine = \<lparr>pe_records = loaded_transfers example_recorded 0, pe_current_index = 0\<rparr>,
     pd_setups = [], pd_input = []\<rparr>"

lemma example_playback_run: "playback_run (loaded_transfers example_recorded 0) 0 example_playback"
proof (rule play_start)
  show "playback_construct (Some (fst (wr_files example_recorder))) (Some (snd (wr_files example_recorder))) None None =
      Inr example_playback"
    using load_recording [OF example_recorder_run example_recorder_ended example_recordable]
    by (simp add: playback_construct_def example_playback_def load_control_setups_def)
      (simp add: example_recorded_def payload_of_def sizeof_iso_packet_descriptor_def)
qed (simp add: example_playback_def)

section \<open>A recorded transfer played back\<close>

lemma example_packets_max: "n \<le> nat (2 ^ 31) \<Longrightarrow> n \<le> max_elements sizeof_iso_packet_descriptor"
  by (simp add: max_elements_def sizeof_iso_packet_descriptor_def)

text \<open>What the recorder makes of a transfer: its whole buffer, and its packets.\<close>

lemma transfer_recorded_whole:
  assumes "wf_transfer t" "t_buffer t = Some bs" "bs \<noteq> []" "t_endpoint t AND direction_mask = 0x80"
  shows "transfer_recorded now t = Inr (Some \<lparr>rt_endpoint = t_endpoint t, rt_size = of_nat (length bs),
    rt_data = bs, rt_iso_descriptors = t_iso_packet_desc t, rt_timestamp = now\<rparr>)"
proof -
  have "nat (t_length t) = length bs" "t_length t < 2 ^ 31"
    using assms(1,2) by (simp_all add: wf_transfer_def)
  moreover have "0 < length bs" using assms(3) by simp
  ultimately have len: "0 < t_length t" "t_length t < 2 ^ 31" "nat (t_length t) = length bs" by linarith+
  then have u: "unat (word_of_int (t_length t) :: u32) = length bs" "sint (word_of_int (t_length t) :: u32) = t_length t"
    "(word_of_int (t_length t) :: u32) \<noteq> 0"
    using wf_transfer_sizes(3) [OF assms(1)] sint_small [of "word_of_int (t_length t)"] by auto
  have w: "(word_of_int (t_length t) :: u32) = of_nat (length bs)"
    using u(1) by (metis of_nat_unat ucast_id)
  have out: "t_endpoint t AND direction_mask \<noteq> 0" using assms(4) by simp
  have "transfer_control_read (word_of_int (t_length t)) (Some t) = Inr (bs, Some t)"
    using u assms(2) out vectorize_all [of bs]
    by (simp add: transfer_control_read_def control_size_def plugin_read_size_def control_read_def control_is_out_def)
  moreover have "iso_packet_descriptor_count (Some t) = Inr (length (t_iso_packet_desc t))"
    using wf_transfer_sizes(2,4) [OF assms(1)] by (auto simp: iso_packet_descriptor_count_def)
  moreover have "transfer_control_read_iso (length (t_iso_packet_desc t)) (Some t) = Inr (t_iso_packet_desc t)"
    if "t_iso_packet_desc t \<noteq> []"
    using that wf_transfer_sizes(4) [OF assms(1)] calculation(2) iso_packets_of_wf [OF assms(1)]
    by (simp add: transfer_control_read_iso_def read_iso_packet_descriptors_def)
  ultimately show ?thesis
    using assms(4) len w
    by (cases "t_iso_packet_desc t") (simp_all add: transfer_recorded_def control_is_in_def control_size_def control_ep_def)
qed

text \<open>No transfer handler of the three plugins fails on a transfer that fits its buffer.\<close>

lemma transfer_handlers_return:
  "fst (mouse_on_transfer_request ctx x m) = Inr ()" "fst (playback_on_transfer_request ctx x d) = Inr ()"
  "wf_transfer x \<Longrightarrow> fst (recording_on_transfer_complete ctx x p) = Inr ()"
proof -
  show "fst (recording_on_transfer_complete ctx x p) = Inr ()" if wf: "wf_transfer x"
  proof -
    have "t_length x \<le> 0" if "\<forall>bs. t_buffer x = Some bs \<longrightarrow> bs = []"
      using wf that by (auto simp: wf_transfer_def split: option.splits)
    then consider "t_endpoint x AND direction_mask \<noteq> 0x80" | "t_length x \<le> 0"
      | bs where "t_endpoint x AND direction_mask = 0x80" "t_buffer x = Some bs" "bs \<noteq> []"
      by blast
    then show ?thesis
    proof cases
      case (3 bs)
      then show ?thesis
        using transfer_recorded_whole [OF wf 3(2,3,1)] by (simp add: recording_on_transfer_complete_def)
    qed (simp_all add: recording_on_transfer_complete_def transfer_recorded_def control_is_in_def control_size_def
        split: sum.split)
  qed
qed (simp_all add: mouse_on_transfer_request_def playback_on_transfer_request_def control_ep_def)

text \<open>Filling a transfer from a record that fits it.\<close>

lemma fill_from_fitting_record:
  assumes "wf_transfer x" "t_buffer x = Some buf" "t_endpoint x AND direction_mask = 0x80"
    and "tr_endpoint r = t_endpoint x" "length (tr_data r) = length buf"
    and "tr_iso_descriptors r \<noteq> [] \<longrightarrow> length (tr_iso_descriptors r) = length (t_iso_packet_desc x)"
  shows "\<exists>t. fill_from_record r x = Inr (Some t) \<and> t_buffer t = Some (tr_data r) \<and>
    t_actual_length t = t_length x \<and> t_dev_handle t = t_dev_handle x \<and>
    (tr_iso_descriptors r \<noteq> [] \<longrightarrow> t_iso_packet_desc t = tr_iso_descriptors r)"
proof -
  have len: "length buf = nat (t_length x)" "0 \<le> t_length x" "t_length x < 2 ^ 31"
    using assms(1,2) by (simp_all add: wf_transfer_def)
  let ?t = "x\<lparr>t_buffer := Some (tr_data r), t_actual_length := int (length (tr_data r)),
      t_iso_packet_desc := map (\<lambda>ipd. ipd\<lparr>ip_actual_length := ip_length ipd\<rparr>) (t_iso_packet_desc x)\<rparr>"
  have "control_fill (tr_data r) (Some x) = Inr (Some ?t)"
    using control_fill_wf [OF assms(1,3), of "tr_data r"] assms(2,5) len by simp
  then have fill: "transfer_control_fill (Some (tr_data r)) (length (tr_data r)) (Some x) = Inr (Some ?t)"
    by (simp add: transfer_control_fill_def)
  have n: "min (size_of_int (t_length x)) (length (tr_data r)) = length (tr_data r)"
    using wf_transfer_sizes(1) [OF assms(1)] assms(5) len by simp
  have actual: "int (length (tr_data r)) = t_length x" using assms(5) len by simp
  have wf: "wf_transfer ?t" using assms(1,2,5) by (simp add: wf_transfer_def)
  show ?thesis
  proof (cases "tr_iso_descriptors r = []")
    case True
    then show ?thesis using assms(3,4) fill n actual
      by (simp add: fill_from_record_def control_is_in_def control_ep_def control_size_def)
  next
    case False
    let ?u = "?t\<lparr>t_iso_packet_desc := tr_iso_descriptors r\<rparr>"
    have "t_iso_packet_desc x \<noteq> []" using False assms(6) by (metis length_0_conv)
    then have "transfer_control_fill_iso (Some (tr_iso_descriptors r)) (length (tr_iso_descriptors r)) (Some ?t) = Inr (Some ?u)"
      using False assms(6) wf_transfer_sizes(2,4) [OF wf] vectorize_all [of "tr_iso_descriptors r"]
      by (simp add: transfer_control_fill_iso_def fill_iso_packet_descriptors_def)
    then show ?thesis using False assms(3,4) fill n actual
      by (simp add: fill_from_record_def control_is_in_def control_ep_def control_size_def)
  qed
qed

lemma loaded_transfers_nth:
  "i < length log \<Longrightarrow> \<exists>offset. loaded_transfers log n ! i = loaded_transfer (log ! i) offset"
  by (induction log arbitrary: n i) (auto simp: nth_Cons split: nat.splits)

lemma length_loaded_transfers [simp]: "length (loaded_transfers log n) = length log"
  by (induction log arbitrary: n) simp_all

lemma playback_round_answers:
  assumes "pe_records (pd_engine d) \<noteq> []" "get_next_record (pd_engine d) = (Some r, pd_engine d)"
    and "pd_input d = ctx # rest" "heap ctx = Some x" "fill_from_record r x = Inr (Some t)" "t_dev_handle t = None"
  shows "\<exists>ms d'. playback_round heap d = Inr (ms, Some (ctx, t\<lparr>t_status := Completed\<rparr>), d') \<and> pd_input d' = rest"
  using assms by (simp add: playback_round_def transfer_at_def plugin_complete_def is_mock_def Let_def)

text \<open>C25: A transfer that was recorded is played back: the round of its record completes the waiting
  transfer of the same endpoint and size with the recorded buffer. It is the whole buffer, as long as
  the transfer was: how much of it the device had filled is not recorded, so a short transfer comes
  back full.\<close>

theorem recorded_transfer_played:
  assumes "recorder_run write_transfer ([], payload0) log s" "writer_ended s" "\<forall>r\<in>set log. recordable r"
    and "length payload0 + length (concat (map payload_of log)) < 2 ^ 63"
    and "load_transfers (Some (fst (wr_files s))) (Some (snd (wr_files s))) = Inr records"
    and "playback_run records n d" "pd_input d = ctx # rest" "heap ctx = Some x"
    and "wf_transfer t0" "t_buffer t0 = Some bs" "bs \<noteq> []" "log \<noteq> []"
    and "transfer_recorded now t0 = Inr (Some (log ! (n mod length log)))"
    and "wf_transfer x" "t_buffer x = Some buf" "t_dev_handle x = None" "length buf = length bs"
    and "t_endpoint x = t_endpoint t0" "length (t_iso_packet_desc x) = length (t_iso_packet_desc t0)"
  shows "\<exists>ms t d'. playback_round heap d = Inr (ms, Some (ctx, t), d') \<and> pd_input d' = rest \<and> t_status t = Completed \<and>
    t_buffer t = Some bs \<and> t_actual_length t = t_length t0 \<and>
    (t_iso_packet_desc t0 \<noteq> [] \<longrightarrow> t_iso_packet_desc t = t_iso_packet_desc t0)"
proof -
  let ?i = "n mod length log"
  have i: "?i < length log" using assms(12) by simp
  have records: "records = loaded_transfers log (length payload0)"
    using load_recording [OF assms(1-4)] assms(5) by simp
  then have ne: "records \<noteq> []" using assms(12) by (metis length_0_conv length_loaded_transfers)
  obtain offset where rec: "records ! (n mod length records) = loaded_transfer (log ! ?i) offset"
    using loaded_transfers_nth [OF i] records by auto
  have inv: "pe_records (pd_engine d) = records" "pe_current_index (pd_engine d) = n mod length records"
    using playback_run_inv [OF assms(6)] ne by auto
  have is_in: "t_endpoint x AND direction_mask = 0x80"
    using assms(13,18) by (auto simp: transfer_recorded_def control_is_in_def split: if_splits)
  have log: "log ! ?i = \<lparr>rt_endpoint = t_endpoint t0, rt_size = of_nat (length bs), rt_data = bs,
      rt_iso_descriptors = t_iso_packet_desc t0, rt_timestamp = now\<rparr>"
    using transfer_recorded_whole [OF assms(9-11)] is_in assms(13,18) by simp
  let ?r = "loaded_transfer (log ! ?i) offset"
  obtain t where t: "fill_from_record ?r x = Inr (Some t)" "t_buffer t = Some bs" "t_actual_length t = t_length x"
      "t_dev_handle t = None" "t_iso_packet_desc t0 \<noteq> [] \<longrightarrow> t_iso_packet_desc t = t_iso_packet_desc t0"
    using fill_from_fitting_record [OF assms(14,15) is_in, of ?r] assms(16-19) by (auto simp: log loaded_transfer_def)
  have nxt: "get_next_record (pd_engine d) = (Some ?r, pd_engine d)"
    using playback_in_turn_next [OF assms(6) ne] rec by simp
  have "t_length x = t_length t0" using assms(9,10,14,15,17) by (auto simp: wf_transfer_def)
  moreover obtain ms d' where "playback_round heap d = Inr (ms, Some (ctx, t\<lparr>t_status := Completed\<rparr>), d')" "pd_input d' = rest"
    using playback_round_answers [where heap = heap, OF _ nxt assms(7,8) t(1,4)] inv(1) ne by auto
  ultimately show ?thesis using t by (intro exI [of _ ms] exI [of _ "t\<lparr>t_status := Completed\<rparr>"] exI [of _ d']) simp
qed

definition waiting_playback :: "transfer_record list \<Rightarrow> nat \<Rightarrow> playback_device" where
  "waiting_playback records ctx = \<lparr>pd_engine = \<lparr>pe_records = records, pe_current_index = 0\<rparr>,
     pd_setups = [], pd_input = [ctx]\<rparr>"

lemma waiting_playback_run:
  assumes "playback_run (loaded_transfers log 0) 0 (waiting_playback (loaded_transfers log 0) ctx\<lparr>pd_input := []\<rparr>)"
  shows "playback_run (loaded_transfers log 0) 0 (waiting_playback (loaded_transfers log 0) ctx)"
  by (rule play_request [OF assms, of ctx "example_transfer 0x81 [] []" "Inr ()" "example_transfer 0x81 [] []" False])
    (simp add: playback_on_transfer_request_def control_ep_def waiting_playback_def example_transfer_def)

lemma example_waiting_run:
  "playback_run (loaded_transfers example_recorded 0) 0 (waiting_playback (loaded_transfers example_recorded 0) 5)"
  by (rule waiting_playback_run) (use example_playback_run in \<open>simp add: example_playback_def waiting_playback_def\<close>)

lemma playback_in_turn_witness:
  "playback_wait 1000 (waiting_playback (loaded_transfers example_recorded 0) 5) = Inr (1000 + 7 * 10 ^ 6) \<and>
    (\<exists>t d'. playback_round [5 \<mapsto> example_transfer 0x81 [0, 0] []] (waiting_playback (loaded_transfers example_recorded 0) 5) =
        Inr (7, Some (5, t), d') \<and> t_buffer t = Some [7, 9] \<and> t_status t = Completed \<and>
      playback_run (loaded_transfers example_recorded 0) 1 d')"
proof -
  let ?records = "loaded_transfers example_recorded 0" and ?x = "example_transfer 0x81 [0, 0] []"
  have ne: "?records \<noteq> []" by (simp add: example_recorded_def)
  have interval: "interval_after ?records 0 = 7"
    by (simp add: interval_after_def example_recorded_def loaded_transfer_def)
  note turn = playback_in_turn [OF example_waiting_run ne, unfolded interval]
  have wf: "wf_transfer ?x" "t_endpoint ?x AND direction_mask = 0x80"
    by (simp_all add: example_transfer_def wf_transfer_def direction_mask_def)
  obtain y where y: "fill_from_record (?records ! 0) ?x = Inr (Some y)" "t_buffer y = Some [7, 9]" "t_dev_handle y = None"
    using fill_from_fitting_record [OF wf(1) _ wf(2), of "[0, 0]" "?records ! 0"]
    by (auto simp: example_transfer_def example_recorded_def loaded_transfer_def)
  have "get_next_record (pd_engine (waiting_playback ?records 5)) =
      (Some (?records ! 0), pd_engine (waiting_playback ?records 5))"
    using turn by simp
  then obtain ms d' where "playback_round [5 \<mapsto> ?x] (waiting_playback ?records 5) = Inr (ms, Some (5, y\<lparr>t_status := Completed\<rparr>), d')"
    using playback_round_answers [of "waiting_playback ?records 5" "?records ! 0" 5 "[]" "[5 \<mapsto> ?x]" ?x y] y ne
    by (auto simp: waiting_playback_def)
  then show ?thesis using turn y(2) by auto
qed

lemma recorded_transfer_played_witness:
  "\<exists>ms t d'. playback_round [5 \<mapsto> example_transfer 0x81 [0, 0] []] (waiting_playback (loaded_transfers example_recorded 0) 5) =
      Inr (ms, Some (5, t), d') \<and> t_buffer t = Some [7, 9] \<and> t_actual_length t = 2"
proof -
  let ?x = "example_transfer 0x81 [0, 0] []" and ?t = "example_transfer 0x81 [7, 9] []"
  let ?records = "loaded_transfers example_recorded 0"
  note run = example_waiting_run
  have fits: "length ([] :: bytes) + length (concat (map payload_of example_recorded)) < 2 ^ 63"
    by (simp add: example_recorded_def payload_of_def sizeof_iso_packet_descriptor_def)
  have wf: "wf_transfer ?x" "wf_transfer ?t" "t_buffer ?t = Some [7, 9]" "t_endpoint ?t AND direction_mask = 0x80"
    by (simp_all add: example_transfer_def wf_transfer_def direction_mask_def)
  have rec: "transfer_recorded (5 * 10 ^ 6) ?t = Inr (Some (example_recorded ! (0 mod length example_recorded)))"
    using transfer_recorded_whole [OF wf(2,3) _ wf(4), of "5 * 10 ^ 6"]
    by (simp add: example_recorded_def example_transfer_def)
  show ?thesis
    using recorded_transfer_played [where rest = "[]" and buf = "[0, 0]" and ctx = 5 and heap = "[5 \<mapsto> ?x]" and x = ?x, OF example_recorder_run example_recorder_ended example_recordable fits
        load_recording [OF example_recorder_run example_recorder_ended example_recordable fits, simplified] run _ _ wf(2,3) _ _ rec wf(1)]
    by (simp add: waiting_playback_def example_recorded_def) (auto simp: example_transfer_def)
qed

text \<open>A recording of another endpoint.\<close>

definition other_recorded :: "recorded_transfer list" where
  "other_recorded = [\<lparr>rt_endpoint = 0x82, rt_size = 1, rt_data = [7], rt_iso_descriptors = [], rt_timestamp = 0\<rparr>]"

definition other_recorder :: "recorded_transfer recorder" where
  "other_recorder = \<lparr>wr_queue = [], wr_files = fold write_transfer other_recorded ([], []), wr_shutdown = True\<rparr>"

lemma other_recorder_run: "recorder_run write_transfer ([], []) other_recorded other_recorder"
proof -
  obtain a where a: "other_recorded = [a]" by (simp add: other_recorded_def)
  let ?s = "recorder_init ([], []) :: recorded_transfer recorder"
  have "recorder_run write_transfer ([], []) ([] @ [a]) (recorder_shutdown (record_item a ?s))"
    by (intro run_shutdown run_record run_start)
  moreover have "writer_round write_transfer (recorder_shutdown (record_item a ?s)) = Some other_recorder"
    by (simp add: writer_round_def record_item_def recorder_init_def recorder_shutdown_def other_recorder_def a)
  ultimately have "recorder_run write_transfer ([], []) ([] @ [a]) other_recorder" by (rule run_write)
  then show ?thesis unfolding a by simp
qed

lemma other_playback_run:
  "playback_run (loaded_transfers other_recorded 0) 0 (waiting_playback (loaded_transfers other_recorded 0) ctx\<lparr>pd_input := []\<rparr>)"
proof (rule play_start)
  have "\<forall>r\<in>set other_recorded. recordable r"
    by (simp add: other_recorded_def recordable_def max_elements_def sizeof_iso_packet_descriptor_def)
  from load_recording [OF other_recorder_run _ this]
  show "playback_construct (Some (fst (wr_files other_recorder))) (Some (snd (wr_files other_recorder))) None None =
      Inr (waiting_playback (loaded_transfers other_recorded 0) ctx\<lparr>pd_input := []\<rparr>)"
    by (simp add: playback_construct_def waiting_playback_def load_control_setups_def writer_ended_def other_recorder_def)
      (simp add: other_recorded_def payload_of_def)
qed (simp add: waiting_playback_def)

section \<open>Recorded control requests\<close>

definition setups_sized :: "(u64, control_setup_record) omap \<Rightarrow> bool" where
  "setups_sized m \<longleftrightarrow> (\<forall>k c. om_find m k = Some c \<longrightarrow> length (cs_data c) = unat (cs_data_size c))"

definition setup_data_of :: "(u64, control_setup_record) omap \<Rightarrow> u64 \<Rightarrow> bytes option" where
  "setup_data_of m k = map_option cs_data (om_find m k)"

definition keep_data :: "recorded_setup \<Rightarrow> (u64 \<Rightarrow> bytes option) \<Rightarrow> u64 \<Rightarrow> bytes option" where
  "keep_data r f = f(rs_setup r \<mapsto> rs_data r)"

definition setup_recordable :: "recorded_setup \<Rightarrow> bool" where
  "setup_recordable r \<longleftrightarrow> length (rs_data r) = unat (rs_data_size r)"

lemma parse_setup_json:
  assumes "po < 2 ^ 63"
  shows "parse_setup_record (setup_json r po) =
    Some \<lparr>cs_setup = rs_setup r, cs_data_size = rs_data_size r, cs_data_offset = po, cs_data = []\<rparr>"
proof -
  have m: "match_setup (setup_json r po) =
      Some (show_nat (unat (rs_setup r)), show_nat (unat (rs_data_size r)), show_nat po)"
    by (simp add: match_setup_def setup_json_def is_digit_def is_space_def)
  have "unat (rs_setup r) < 2 ^ 64" "unat (rs_data_size r) < 2 ^ 64"
    using unsigned_less [of "rs_setup r", where 'a = nat] unsigned_less [of "rs_data_size r", where 'a = nat] by simp_all
  then show ?thesis using assms by (simp add: parse_setup_record_def regex_search_here [where m = match_setup, OF m])
qed

lemma load_setup_written:
  assumes "setup_recordable r" "length pre + length (rs_data r) < 2 ^ 63"
  shows "load_setup_line (pre @ rs_data r @ post) (setup_json r (length pre)) m =
    om_assign (rs_setup r) \<lparr>cs_setup = rs_setup r, cs_data_size = rs_data_size r, cs_data_offset = length pre,
      cs_data = rs_data r\<rparr> m"
proof -
  have "setup_json r (length pre) \<noteq> []" by (simp add: setup_json_def)
  then show ?thesis
    using assms read_payload_middle [OF assms(2), of "rs_data_size r" post]
    by (simp add: load_setup_line_def Let_def parse_setup_json setup_recordable_def)
qed

lemma load_setups_written:
  assumes "\<forall>r\<in>set rs. setup_recordable r" "length pre + length (concat (map rs_data rs)) < 2 ^ 63"
  shows "\<exists>doc. fold write_setup rs (out0, pre) = (out0 @ doc, pre @ concat (map rs_data rs)) \<and>
    (\<forall>m post. setups_sized m \<longrightarrow>
      (let m' = fold (load_setup_line (pre @ concat (map rs_data rs) @ post)) (getlines doc) m
       in setups_sized m' \<and> setup_data_of m' = fold keep_data rs (setup_data_of m)))"
  using assms
proof (induction rs arbitrary: out0 pre)
  case Nil
  then show ?case by simp
next
  case (Cons r rs)
  let ?json = "setup_json r (length pre)"
  obtain doc where doc: "fold write_setup rs (out0 @ ?json @ [newline], pre @ rs_data r) =
      ((out0 @ ?json @ [newline]) @ doc, (pre @ rs_data r) @ concat (map rs_data rs))"
    and load: "\<And>m post. setups_sized m \<Longrightarrow>
      (let m' = fold (load_setup_line ((pre @ rs_data r) @ concat (map rs_data rs) @ post)) (getlines doc) m
       in setups_sized m' \<and> setup_data_of m' = fold keep_data rs (setup_data_of m))"
    using Cons.IH [of "pre @ rs_data r" "out0 @ ?json @ [newline]"] Cons.prems by auto
  have rec: "setup_recordable r" "length pre + length (rs_data r) < 2 ^ 63" using Cons.prems by auto
  let ?c = "\<lparr>cs_setup = rs_setup r, cs_data_size = rs_data_size r, cs_data_offset = length pre, cs_data = rs_data r\<rparr>"
  have lines: "getlines (?json @ newline # doc) = ?json # getlines doc"
    by (intro getlines_line newline_json)
  have w: "write_setup r (out0, pre) = (out0 @ ?json @ [newline], pre @ rs_data r)"
    by (simp add: write_setup_def)
  have sized: "setups_sized (om_assign (rs_setup r) ?c m)" if "setups_sized m" for m
    using that rec(1) by (simp add: setups_sized_def om_find_assign setup_recordable_def)
  have view: "setup_data_of (om_assign (rs_setup r) ?c m) = keep_data r (setup_data_of m)" for m
    by (simp add: keep_data_def setup_data_of_def om_find_assign fun_eq_iff)
  show ?case
    using doc w load [OF sized] load_setup_written [OF rec, of "concat (map rs_data rs) @ _"]
    by (intro exI [of _ "?json @ newline # doc"]) (simp add: lines view)
qed

lemma load_setup_recording:
  assumes "recorder_run write_setup ([], payload0) log s" "writer_ended s" "\<forall>r\<in>set log. setup_recordable r"
    and "length payload0 + length (concat (map rs_data log)) < 2 ^ 63"
  shows "setups_sized (load_control_setups (Some (fst (wr_files s))) (Some (snd (wr_files s)))) \<and>
    setup_data_of (load_control_setups (Some (fst (wr_files s))) (Some (snd (wr_files s)))) =
      fold keep_data log Map.empty"
proof -
  have f: "wr_files s = fold write_setup log ([], payload0)" by (rule writer_wrote_all [OF assms(1,2)])
  obtain doc where "fold write_setup log ([], payload0) = (doc, payload0 @ concat (map rs_data log))"
    and load: "\<And>m post. setups_sized m \<Longrightarrow>
      (let m' = fold (load_setup_line (payload0 @ concat (map rs_data log) @ post)) (getlines doc) m
       in setups_sized m' \<and> setup_data_of m' = fold keep_data log (setup_data_of m))"
    using load_setups_written [OF assms(3,4), of "[]"] by auto
  moreover have "setups_sized []" "setup_data_of [] = Map.empty"
    by (simp_all add: setups_sized_def setup_data_of_def om_find_def fun_eq_iff)
  ultimately show ?thesis using load [of "[]" "[]"] by (simp add: f load_control_setups_def Let_def)
qed

lemma fold_last_setup:
  "rs_setup r \<notin> rs_setup ` set rs \<Longrightarrow>
   fold keep_data (qs @ r # rs) f (rs_setup r) = Some (rs_data r)"
proof (induction rs rule: rev_induct)
  case (snoc q rs)
  then show ?case by (auto simp: keep_data_def)
qed (simp add: keep_data_def)

lemma int_of_size_small: "n < 2 ^ 31 \<Longrightarrow> int_of_size n = int n"
  by (simp add: int_of_size_def sint_small unat_u32_of_nat)

text \<open>The dispatch of the two plugins.\<close>

lemma recording_setup_dispatch:
  "on_control_setup (register_usb_mock recording_plugin) = Some (dispatch_control_setup recording_plugin)"
  "dispatch_control_setup recording_plugin setup bs result p =
    (case recording_on_control_setup setup bs result p of (r, bs', p') \<Rightarrow> (caught r, bs', p'))"
  by (simp_all add: register_usb_mock_def dispatch_control_setup_def recording_plugin_def empty_plugin_def pick_def)

lemma playback_setup_dispatch:
  "on_control_setup (register_usb_mock playback_plugin) = Some (dispatch_control_setup playback_plugin)"
  "dispatch_control_setup playback_plugin setup bs result p =
    (case playback_on_control_setup setup bs result p of (r, bs', p') \<Rightarrow> (caught r, bs', p'))"
  by (simp_all add: register_usb_mock_def dispatch_control_setup_def playback_plugin_def empty_plugin_def pick_def)

text \<open>C29: Recording does not change what a device answers, whatever the request and its payload: with
  the recorder a control request reaches the real device with the same bytes (the payload of an OUT
  request, or zeros where there is none), gives the same answer and leaves the device as without a
  plugin; a payload of another length than the setup packet says fails the same assertion. The
  recorder gets the buffer of an IN request, whatever the result was, and nothing of an OUT request.\<close>

theorem recording_is_transparent:
  assumes "dv_handle d = Some h" "\<not> dv_mock_class d"
    and "dv_mock_iface d = Some (register_usb_mock recording_plugin)"
    and "lu_control_transfer L setup (if payload = [] then replicate (unat (wLength setup)) 0 else payload) (dv_usb d) =
      (result, buffer, l)"
  shows "if payload \<noteq> [] \<and> length payload \<noteq> unat (wLength setup)
    then submit_control_setup L setup payload d = Inl Assertion_Failed \<and>
      submit_control_setup L setup payload (d\<lparr>dv_mock_iface := None\<rparr>) = Inl Assertion_Failed
    else \<exists>answer p. answer = (if result < 0 then Inl result else Inr (resize (nat result) buffer)) \<and>
      submit_control_setup L setup payload d = Inr (answer, d\<lparr>dv_usb := l, dv_plugin := p\<rparr>) \<and>
      submit_control_setup L setup payload (d\<lparr>dv_mock_iface := None\<rparr>) =
        Inr (answer, d\<lparr>dv_usb := l, dv_mock_iface := None\<rparr>) \<and>
      p = (if is_in_control_setup setup
        then (dv_plugin d)\<lparr>rp_setups := record_item
          \<lparr>rs_setup = setup_u64 setup, rs_data_size = of_nat (length buffer), rs_data = buffer,
           rs_timestamp = rp_now (dv_plugin d)\<rparr> (rp_setups (dv_plugin d))\<rparr>
        else dv_plugin d)"
proof -
  have mock: "device_is_mock d = Inr False" "device_is_mock (d\<lparr>dv_mock_iface := None\<rparr>) = Inr False"
    using assms(1,2) by (simp_all add: device_is_mock_def underlying_handle_def)
  show ?thesis
  proof (cases "payload \<noteq> [] \<and> length payload \<noteq> unat (wLength setup)")
    case True
    then show ?thesis by (simp add: submit_control_setup_def viu_assert_def)
  next
    case False
    then have "resize (unat (wLength setup)) payload =
        (if payload = [] then replicate (unat (wLength setup)) 0 else payload)"
      by (auto simp: resize_def)
    then have usb: "lu_control_transfer L setup (resize (unat (wLength setup)) payload) (dv_usb d) = (result, buffer, l)"
      using assms(4) by (simp only:)
    from False have sized: "payload \<noteq> [] \<longrightarrow> length payload = unat (wLength setup)" by blast
    show ?thesis
      unfolding if_not_P [OF False] using sized
      by (simp add: submit_control_setup_def mock control_on_usb_def control_on_plugin_def usb assms(3)
          recording_setup_dispatch recording_on_control_setup_def caught_def)
  qed
qed

lemma replicate_two: "replicate 2 x = [x, x]"
  by (simp add: numeral_2_eq_2)

definition get_device_setup :: control_setup where
  "get_device_setup = \<lparr>bmRequestType = 0x80, bRequest = 6, wValue = 0x100, wIndex = 0, wLength = 2\<rparr>"

definition set_report_setup :: control_setup where
  "set_report_setup = \<lparr>bmRequestType = 0x21, bRequest = 9, wValue = 0x200, wIndex = 0, wLength = 2\<rparr>"

text \<open>A bus that keeps the bytes it got.\<close>

definition keeping_usb :: "bytes libusb" where
  "keeping_usb = (counting_usb 1)\<lparr>lu_control_transfer := \<lambda>setup bs l. (int (length bs), bs, l @ bs)\<rparr>"

definition recording_real :: "(recording, bytes, nat) device" where
  "recording_real = example_real (Some (register_usb_mock recording_plugin)) (recording_init ([], []) ([], []) 7)"

lemma recording_is_transparent_witness:
  "(\<exists>p. submit_control_setup keeping_usb get_device_setup [] recording_real =
      Inr (Inr [0, 0], recording_real\<lparr>dv_usb := [0, 0], dv_plugin := p\<rparr>) \<and> map rs_data (wr_queue (rp_setups p)) = [[0, 0]]) \<and>
   submit_control_setup keeping_usb set_report_setup [7, 9] recording_real =
      Inr (Inr [7, 9], recording_real\<lparr>dv_usb := [7, 9]\<rparr>) \<and>
   submit_control_setup keeping_usb set_report_setup [7] recording_real = Inl Assertion_Failed"
proof -
  have d: "dv_handle recording_real = Some 1" "\<not> dv_mock_class recording_real"
    "dv_mock_iface recording_real = Some (register_usb_mock recording_plugin)" "dv_usb recording_real = []"
    "dv_plugin recording_real = recording_init ([], []) ([], []) 7"
    by (simp_all add: recording_real_def example_real_def)
  have setups: "is_in_control_setup get_device_setup" "wLength get_device_setup = 2"
    "\<not> is_in_control_setup set_report_setup" "wLength set_report_setup = 2"
    by (simp_all add: get_device_setup_def set_report_setup_def is_in_control_setup_def)
  note transparent = recording_is_transparent [OF d(1-3), of keeping_usb]
  have "\<exists>p. submit_control_setup keeping_usb get_device_setup [] recording_real =
      Inr (Inr [0, 0], recording_real\<lparr>dv_usb := [0, 0], dv_plugin := p\<rparr>) \<and> map rs_data (wr_queue (rp_setups p)) = [[0, 0]]"
    using transparent [of get_device_setup "[]" 2 "[0, 0]" "[0, 0]"] d(4,5) setups
    by (auto simp: keeping_usb_def replicate_two resize_def recording_init_def recorder_init_def record_item_def)
  moreover have "submit_control_setup keeping_usb set_report_setup [7, 9] recording_real =
      Inr (Inr [7, 9], recording_real\<lparr>dv_usb := [7, 9]\<rparr>)"
    using transparent [of set_report_setup "[7, 9]" 2 "[7, 9]" "[7, 9]"] d(4,5) setups
    by (simp add: keeping_usb_def resize_def)
  moreover have "submit_control_setup keeping_usb set_report_setup [7] recording_real = Inl Assertion_Failed"
    using transparent [of set_report_setup "[7]" 1 "[7]" "[7]"] d(4,5) setups
    by (simp add: keeping_usb_def)
  ultimately show ?thesis by blast
qed

text \<open>C28: A control request from the device to the host that was recorded is answered by the playback
  with the recorded buffer, in its full length: a request that the device refused, or answered with
  fewer bytes, was recorded with all of its buffer and is now answered with all of it. One that was
  not recorded, or asks for no bytes, is refused. A request from the host to the device is never
  looked up: whatever it is, it is accepted with all of its payload, recorded or not.\<close>

theorem control_request_replayed:
  assumes "recorder_run write_setup ([], payload0) (log @ r # later) s" "writer_ended s"
    and "\<forall>q\<in>set (log @ r # later). setup_recordable q"
    and "length payload0 + length (concat (map rs_data (log @ r # later))) < 2 ^ 63"
    and "rs_setup r \<notin> rs_setup ` set later" "rs_setup r = setup_u64 setup" "is_in_control_setup setup"
    and "length (rs_data r) = unat (wLength setup)" "wLength setup \<noteq> 0"
    and "dv_mock_class d" "dv_mock_iface d = Some (register_usb_mock playback_plugin)"
    and "pd_setups (dv_plugin d) = load_control_setups (Some (fst (wr_files s))) (Some (snd (wr_files s)))"
    and "is_in_control_setup other" "setup_u64 other \<notin> rs_setup ` set (log @ r # later) \<or> wLength other = 0"
    and "\<not> is_in_control_setup out" "payload = [] \<or> length payload = unat (wLength out)"
  shows "submit_control_setup L setup [] d = Inr (Inr (rs_data r), d) \<and>
    submit_control_setup L other [] d = Inr (Inl LIBUSB_ERROR_NOT_SUPPORTED, d) \<and>
    submit_control_setup L out payload d =
      Inr (Inr (if payload = [] then replicate (unat (wLength out)) 0 else payload), d)"
proof -
  let ?m = "pd_setups (dv_plugin d)"
  have m: "setups_sized ?m" "setup_data_of ?m = fold keep_data (log @ r # later) Map.empty"
    using load_setup_recording [OF assms(1-4)] unfolding assms(12) by blast+
  have none: "fold keep_data qs f k = f k" if "k \<notin> rs_setup ` set qs" for qs f k
    using that by (induction qs arbitrary: f) (auto simp: keep_data_def)
  have "setup_data_of ?m (setup_u64 setup) = Some (rs_data r)"
    using fold_last_setup [OF assms(5), of log Map.empty] unfolding m(2) assms(6) .
  then obtain c where c: "om_find ?m (setup_u64 setup) = Some c" "cs_data c = rs_data r"
    by (auto simp: setup_data_of_def)
  then have sz: "unat (cs_data_size c) = unat (wLength setup)"
    using m(1) assms(8) unfolding setups_sized_def by metis
  have "setup_data_of ?m (setup_u64 other) = None \<or> wLength other = 0"
    unfolding m(2) using none [of "setup_u64 other" "log @ r # later" Map.empty] assms(14) by metis
  then have other: "om_find ?m (setup_u64 other) = None \<or> wLength other = 0" by (simp add: setup_data_of_def)
  have mock: "device_is_mock d = Inr True"
    using assms(10) by (simp add: device_is_mock_def underlying_handle_def)
  have rz: "resize n [] = replicate n 0" for n by (simp add: resize_def)
  have n: "int_of_size (unat (wLength setup)) = int (unat (wLength setup))"
    using unsigned_less [of "wLength setup", where 'a = nat]
    by (intro int_of_size_small) simp
  have all: "resize (length (rs_data r)) (rs_data r) = rs_data r" by (simp add: resize_def)
  have pos: "0 < unat (wLength setup)" using assms(9) by (simp add: unat_gt_0)
  have "submit_control_setup L setup [] d = Inr (Inr (rs_data r), d)"
    using assms(7,8,11) c sz n all pos
    by (simp add: submit_control_setup_def mock control_on_usb_def control_on_plugin_def rz playback_setup_dispatch
        playback_on_control_setup_def caught_def)
  moreover have "submit_control_setup L other [] d = Inr (Inl LIBUSB_ERROR_NOT_SUPPORTED, d)"
    using assms(11,13) other
    by (auto simp: submit_control_setup_def mock control_on_usb_def control_on_plugin_def rz playback_setup_dispatch
        playback_on_control_setup_def caught_def LIBUSB_ERROR_NOT_SUPPORTED_def split: option.split)
  moreover have "submit_control_setup L out payload d =
      Inr (Inr (if payload = [] then replicate (unat (wLength out)) 0 else payload), d)"
  proof -
    have "resize (unat (wLength out)) payload = (if payload = [] then replicate (unat (wLength out)) 0 else payload)"
      using assms(16) by (auto simp: resize_def)
    moreover have "int_of_size (unat (wLength out)) = int (unat (wLength out))"
      using unsigned_less [of "wLength out", where 'a = nat] by (intro int_of_size_small) simp
    moreover have "length (resize (unat (wLength out)) payload) = unat (wLength out)" by (simp add: resize_def)
    ultimately show ?thesis
      using assms(11,15,16)
      by (auto simp: submit_control_setup_def mock control_on_usb_def control_on_plugin_def playback_setup_dispatch
          playback_on_control_setup_def caught_def viu_assert_def) (simp_all add: resize_def)
  qed
  ultimately show ?thesis by blast
qed

definition example_setup :: recorded_setup where
  "example_setup = \<lparr>rs_setup = setup_u64 get_device_setup, rs_data_size = 2, rs_data = [18, 1], rs_timestamp = 0\<rparr>"

definition example_setup_recorder :: "recorded_setup recorder" where
  "example_setup_recorder = \<lparr>wr_queue = [], wr_files = write_setup example_setup ([], []), wr_shutdown = True\<rparr>"

definition example_playback_mock :: "(playback_device, u8 list, nat) device" where
  "example_playback_mock = (example_real (Some (register_usb_mock playback_plugin))
     (example_playback\<lparr>pd_setups := load_control_setups (Some (fst (wr_files example_setup_recorder)))
       (Some (snd (wr_files example_setup_recorder)))\<rparr>))\<lparr>dv_mock_class := True\<rparr>"

lemma control_request_replayed_witness:
  "submit_control_setup (counting_usb 1) get_device_setup [] example_playback_mock =
    Inr (Inr [18, 1], example_playback_mock) \<and>
   submit_control_setup (counting_usb 1) (get_device_setup\<lparr>bRequest := 8\<rparr>) [] example_playback_mock =
    Inr (Inl LIBUSB_ERROR_NOT_SUPPORTED, example_playback_mock) \<and>
   submit_control_setup (counting_usb 1) set_report_setup [7, 9] example_playback_mock =
    Inr (Inr [7, 9], example_playback_mock)"
proof -
  let ?s = "recorder_init ([], []) :: recorded_setup recorder"
  have "recorder_run write_setup ([], []) ([] @ [example_setup]) (recorder_shutdown (record_item example_setup ?s))"
    by (intro run_shutdown run_record run_start)
  moreover have "writer_round write_setup (recorder_shutdown (record_item example_setup ?s)) = Some example_setup_recorder"
    by (simp add: writer_round_def record_item_def recorder_init_def recorder_shutdown_def example_setup_recorder_def)
  ultimately have run: "recorder_run write_setup ([], []) ([] @ example_setup # []) example_setup_recorder"
    by (rule run_write)
  let ?d = example_playback_mock and ?other = "get_device_setup\<lparr>bRequest := 8\<rparr>"
  have distinct_numbers: "setup_u64 get_device_setup \<noteq> setup_u64 ?other"
    by (simp add: setup_u64_def get_device_setup_def)
  have inn: "is_in_control_setup get_device_setup" "is_in_control_setup ?other" "wLength get_device_setup = 2"
    by (simp_all add: is_in_control_setup_def get_device_setup_def)
  have r: "rs_setup example_setup = setup_u64 get_device_setup" "rs_data example_setup = [18, 1]"
    "setup_recordable example_setup"
    by (simp_all add: example_setup_def setup_recordable_def)
  have d: "dv_mock_class ?d" "dv_mock_iface ?d = Some (register_usb_mock playback_plugin)"
    "pd_setups (dv_plugin ?d) = load_control_setups (Some (fst (wr_files example_setup_recorder)))
       (Some (snd (wr_files example_setup_recorder)))"
    by (simp_all add: example_playback_mock_def example_real_def)
  have out: "\<not> is_in_control_setup set_report_setup" "wLength set_report_setup = 2"
    by (simp_all add: is_in_control_setup_def set_report_setup_def)
  have ended: "writer_ended example_setup_recorder"
    by (simp add: writer_ended_def example_setup_recorder_def)
  show ?thesis
    using control_request_replayed [OF run ended, of get_device_setup ?d ?other set_report_setup "[7, 9]" "counting_usb 1",
        OF _ _ _ r(1) inn(1) _ _ d inn(2) _ out(1)]
      r inn(3) distinct_numbers out(2) by auto
qed

section \<open>The mouse\<close>

definition report_x :: "bytes \<Rightarrow> int" where
  "report_x report = sint (of_nat (from_le (take 2 (drop 2 report))) :: u16)"

definition report_y :: "bytes \<Rightarrow> int" where
  "report_y report = sint (of_nat (from_le (take 2 (drop 4 report))) :: u16)"

lemma length_mouse_report: "length (mouse_report dir) = 8"
  by (auto simp: mouse_report_def Let_def actions_def move_left_def move_right_def move_up_def move_down_def
      split: option.split)

lemma mouse_reports:
  "mouse_report ''left'' = [0, 0, 255, 255, 0, 0, 0, 0]" "mouse_report ''right'' = [0, 0, 1, 0, 0, 0, 0, 0]"
  "mouse_report ''up'' = [0, 0, 0, 0, 251, 255, 0, 0]" "mouse_report ''down'' = [0, 0, 0, 0, 1, 0, 0, 0]"
proof -
  have max: "u8_max = 255" by (simp add: u8_max_def)
  show "mouse_report ''left'' = [0, 0, 255, 255, 0, 0, 0, 0]" "mouse_report ''right'' = [0, 0, 1, 0, 0, 0, 0, 0]"
    "mouse_report ''up'' = [0, 0, 0, 0, 251, 255, 0, 0]" "mouse_report ''down'' = [0, 0, 0, 0, 1, 0, 0, 0]"
    by (simp_all add: mouse_report_def actions_def move_left_def move_right_def move_up_def move_down_def max
        numeral_eq_Suc)
qed

lemma mouse_report_axes:
  "(dir, dx, dy) \<in> set [(''left'', -1, 0), (''right'', 1, 0), (''up'', 0, -5), (''down'', 0, 1)] \<Longrightarrow>
   report_x (mouse_report dir) = dx \<and> report_y (mouse_report dir) = dy"
  by (auto simp: mouse_reports report_x_def report_y_def)

text \<open>What a move makes of the transfer it answers.\<close>

definition moved_transfer :: "string \<Rightarrow> libusb_transfer \<Rightarrow> bytes \<Rightarrow> libusb_transfer" where
  "moved_transfer dir x buf = x\<lparr>t_buffer := Some (mouse_report dir @ drop 8 buf), t_actual_length := 8,
     t_iso_packet_desc := map (\<lambda>ipd. ipd\<lparr>ip_actual_length := ip_length ipd\<rparr>) (t_iso_packet_desc x),
     t_status := Completed\<rparr>"

lemma mouse_move_fills:
  assumes "heap ctx = Some x" "wf_transfer x" "t_buffer x = Some buf" "t_endpoint x = 0x81" "t_dev_handle x = None"
  shows "mouse_move dir heap (ctx # rest) =
    (if t_length x < 8 then Inl Assertion_Failed else Inr (Some (ctx, moved_transfer dir x buf), rest))"
proof -
  have len: "length buf = nat (t_length x)" "0 \<le> t_length x"
    using assms(2,3) by (simp_all add: wf_transfer_def)
  have is_in: "t_endpoint x AND direction_mask = 0x80" using assms(4) by (simp add: direction_mask_def)
  have vec: "vectorize (Some (mouse_report dir)) (length (mouse_report dir)) = Inr (mouse_report dir)"
    by (rule vectorize_all)
  show ?thesis
  proof (cases "t_length x < 8")
    case True
    then have "\<not> 8 \<le> nat (t_length x)" by linarith
    then show ?thesis
      using True len wf_transfer_sizes(1) [OF assms(2)] assms(1) is_in
      by (simp add: mouse_move_def transfer_at_def Let_def transfer_control_fill_def vec control_fill_def control_is_in_def
          length_mouse_report viu_assert_def)
  next
    case False
    then have "control_fill (mouse_report dir) (Some x) = Inr (Some (x\<lparr>t_buffer := Some (mouse_report dir @ drop 8 buf),
        t_actual_length := 8,
        t_iso_packet_desc := map (\<lambda>ipd. ipd\<lparr>ip_actual_length := ip_length ipd\<rparr>) (t_iso_packet_desc x)\<rparr>))"
      using control_fill_wf [OF assms(2) is_in, of "mouse_report dir"] assms(3) by (simp add: length_mouse_report)
    then show ?thesis
      using False assms(1,5)
      by (simp add: mouse_move_def transfer_at_def Let_def transfer_control_fill_def vec plugin_complete_def is_mock_def
          moved_transfer_def)
  qed
qed

text \<open>A move answers the oldest waiting transfer, which the daemon then accepts: it is completed with
  eight bytes whose 16-bit axes are the movement (five steps when it goes up, one otherwise). A
  transfer with room for fewer bytes ends the daemon.\<close>

lemma mouse_move_answers:
  assumes "heap ctx = Some x" "wf_transfer x" "t_buffer x = Some buf" "t_endpoint x = 0x81" "t_dev_handle x = None"
  shows "(t_length x < 8 \<longrightarrow> mouse_move dir heap (ctx # rest) = Inl Assertion_Failed) \<and>
    (8 \<le> t_length x \<longrightarrow> (\<exists>t report. mouse_move dir heap (ctx # rest) = Inr (Some (ctx, t), rest) \<and>
      t_buffer t = Some (report @ drop 8 buf) \<and> length report = 8 \<and> t_actual_length t = 8 \<and>
      on_in_transfer_complete t e = queue_data_for_host (Some t) e \<and>
      (\<forall>(d, dx, dy)\<in>set [(''left'', -1, 0), (''right'', 1, 0), (''up'', 0, -5), (''down'', 0, 1)].
        dir = d \<longrightarrow> report_x report = dx \<and> report_y report = dy)))"
  using mouse_move_fills [where heap = heap, OF assms, of dir rest] mouse_report_axes [of dir]
  by (auto simp: length_mouse_report on_in_transfer_complete_def moved_transfer_def)

lemma mouse_move_answers_witness:
  "\<exists>t. mouse_move ''left'' [5 \<mapsto> example_transfer 0x81 [0, 0, 0, 0, 0, 0, 0, 0] []] [5] = Inr (Some (5, t), []) \<and>
    t_actual_length t = 8 \<and>
    (\<exists>report. t_buffer t = Some report \<and> report_x report = -1 \<and> report_y report = 0)"
proof -
  let ?x = "example_transfer 0x81 [0, 0, 0, 0, 0, 0, 0, 0] []"
  have "wf_transfer ?x" "t_buffer ?x = Some [0, 0, 0, 0, 0, 0, 0, 0]" "t_endpoint ?x = 0x81" "t_dev_handle ?x = None"
    "8 \<le> t_length ?x"
    by (simp_all add: example_transfer_def wf_transfer_def)
  then show ?thesis
    using mouse_move_answers [where heap = "[5 \<mapsto> ?x]" and ctx = 5 and x = ?x and buf = "[0, 0, 0, 0, 0, 0, 0, 0]" and dir = "''left''" and rest = "[]"
        and e = "engine_init ()"]
    by auto
qed

section \<open>The plugins in the daemon\<close>

text \<open>Each of the three libraries registers one device.\<close>

lemma plugin_catalogs_load:
  "dl path = Some (mouse_on_plug f) \<Longrightarrow> loader_construct dl path =
    Inr \<lparr>catalog_name = ''Virtual HID Devices'', catalog_version = ''1.0.0-demo'', catalog_entries = [(''mouse-1'', f)]\<rparr>"
  "dl path = Some (recording_on_plug f) \<Longrightarrow> loader_construct dl path =
    Inr \<lparr>catalog_name = ''Recording Proxy Device'', catalog_version = ''1.0.0-demo'', catalog_entries = [(''recording.proxy-1'', f)]\<rparr>"
  "dl path = Some (playback_on_plug f) \<Longrightarrow> loader_construct dl path =
    Inr \<lparr>catalog_name = ''Virtual Playback Device'', catalog_version = ''1.0.0-demo'', catalog_entries = [(''viu.playback-1'', f)]\<rparr>"
  by (simp_all add: loader_construct_def mouse_on_plug_def recording_on_plug_def playback_on_plug_def catalog_init_def
      set_name_def set_version_def register_device_factory_def)

lemma proxy_new_catalog:
  assumes "daemon_inv s" "cat \<noteq> []" "om_find (virtual_device_manager s) cat = None"
    and "loader_construct (dlopen h) cat = Inr c" "catalog_entries c = [(name, f)]" "factory h f = Some p"
    and "open_device h vid pid (Some p) = Inr d" "make_proxy h d = Inr x" "issued s < 2 ^ 64"
  shows "\<exists>s' resp. app_proxy h vid pid cat s = (Inr resp, s') \<and> is_success resp \<and>
    om_find (virtual_device_manager s') cat = Some c \<and>
    virtual_devices s' = virtual_devices s @ [(of_nat (issued s), \<lparr>info_vid = vid, info_pid = pid, info_proxy = x\<rparr>)]"
proof -
  let ?s = "s\<lparr>virtual_device_manager := fst (om_insert cat c (virtual_device_manager s))\<rparr>"
  have inv: "daemon_inv ?s" using assms(1) by (simp add: daemon_inv_def om_inv_insert)
  have find: "om_find (virtual_device_manager ?s) cat = Some c"
    using assms(1,3) by (simp add: om_find_insert daemon_inv_def)
  have reg: "service_register_catalog h cat s = (Inr (Inr c), ?s)"
    using assms(3,4) by (simp add: service_register_catalog_def register_catalog_def)
  have inst: "instance_of h cat name ?s = (Inr p, ?s)"
    using find assms(5,6) by (simp add: instance_of_def manager_device_def catalog_device_def)
  note step = next_then_make [OF inv, of x "\<lambda>x. \<lparr>info_vid = vid, info_pid = pid, info_proxy = x\<rparr>"]
  obtain u where u: "create_proxy_device_from_catalog h vid pid cat name ?s = (Inr (), u)"
    "virtual_device_manager u = virtual_device_manager ?s"
    "virtual_devices u = virtual_devices s @ [(of_nat (issued s), \<lparr>info_vid = vid, info_pid = pid, info_proxy = x\<rparr>)]"
    using step assms(7-9)
    by (simp add: create_proxy_device_from_catalog_def bindC_run [where m = "instance_of h cat name", OF inst]
        create_proxy_device_def)
  let ?resp = "response_success (print_catalog_info c @
      println (''Proxy device created successfully using '' @ quote @ catalog_name c @ quote @ '' interface''))"
  have "app_proxy h vid pid cat s = (Inr ?resp, u)"
    using assms(2,5)
    by (simp add: app_proxy_def bindC_run [where m = "service_register_catalog h cat", OF reg] number_of_devices_def
        device_name_def bindC_run [where m = "create_proxy_device_from_catalog h vid pid cat name", OF u(1)] retC_def)
  then show ?thesis using find u
    by (intro exI [of _ u] exI [of _ ?resp]) (simp add: is_success_def has_error_def response_success_def)
qed

text \<open>\<open>proxydev\<close> with the recording library on a device that opens adds exactly that device, under the
  next identifier and with the vendor and product it was asked for, and registers the library.\<close>

lemma recording_proxy_starts:
  assumes "daemon_reachable h fs s" "issued s < 2 ^ 64" "cat \<noteq> []"
    and "om_find (virtual_device_manager s) cat = None" "dlopen h cat = Some (recording_on_plug f)"
    and "factory h f = Some p" "open_device h vid pid (Some p) = Inr d" "make_proxy h d = Inr x"
  shows "\<exists>s' resp. app_proxy h vid pid cat s = (Inr resp, s') \<and> is_success resp \<and>
    om_find (virtual_device_manager s') cat \<noteq> None \<and>
    virtual_devices s' = virtual_devices s @ [(of_nat (issued s), \<lparr>info_vid = vid, info_pid = pid, info_proxy = x\<rparr>)]"
  using proxy_new_catalog [OF reachable_inv [OF assms(1)] assms(3,4) plugin_catalogs_load(2) [where dl = "dlopen h", OF assms(5)] _ assms(6-8) assms(2),
      of "''recording.proxy-1''"]
  by auto

lemma recording_proxy_starts_witness:
  "\<exists>s' resp. app_proxy (example_host\<lparr>dlopen := \<lambda>_. Some (recording_on_plug 0)\<rparr>) 0x1D6B 2 ''rec'' (service_init (\<lambda>_. None)) =
      (Inr resp, s') \<and> virtual_devices s' = [(0, \<lparr>info_vid = 0x1D6B, info_pid = 2, info_proxy = 0\<rparr>)]"
proof -
  let ?h = "example_host\<lparr>dlopen := \<lambda>_. Some (recording_on_plug 0)\<rparr>" and ?s = "service_init (\<lambda>_. None) :: (nat, nat) service"
  have "daemon_reachable ?h (\<lambda>_. None) ?s" by (rule daemon_reachable.started)
  moreover have "issued ?s = 0" "virtual_devices ?s = []" "om_find (virtual_device_manager ?s) ''rec'' = None"
    by (simp_all add: service_init_def om_find_def)
  moreover have "factory ?h 0 = Some 0" "open_device ?h 0x1D6B 2 (Some 0) = Inr tree_init" "make_proxy ?h tree_init = Inr 0"
    "dlopen ?h ''rec'' = Some (recording_on_plug 0)"
    by (simp_all add: example_host_def)
  ultimately show ?thesis
    using recording_proxy_starts [of ?h "\<lambda>_. None" ?s "''rec''" 0 0 "0x1D6B" 2 tree_init 0] by auto
qed

end
