(* ===== verification/Device_Path.thy ===== *)
theory Device_Path
  imports Proxy_System
begin

text \<open>
  A command of the host on a real device, without a plugin: from the bytes on the socket through the
  reader, the executor, libusb and the threads that answer, back to the bytes on the socket.
\<close>

section \<open>Commands from the wire\<close>

definition wire_submit :: "usbip_header_basic \<Rightarrow> u32 \<Rightarrow> nat \<Rightarrow> u32 \<Rightarrow> u32 \<Rightarrow> u32 \<Rightarrow> bytes \<Rightarrow> command" where
  "wire_submit b flags n start packets interval stp = \<lparr>hdr_base = b,
     union_bytes = le_bytes 4 flags @ le_bytes 4 (of_nat n :: u32) @ le_bytes 4 start @ le_bytes 4 packets @
       le_bytes 4 interval @ stp, cmd_payload = []\<rparr>"

lemma in_submit_fields:
  assumes "hb_command b = USBIP_CMD_SUBMIT" "hb_direction b = USBIP_DIR_IN" "n < 2 ^ 31" "packets \<in> {0, 0xffffffff}"
    and "c = wire_submit b flags n start packets interval stp"
  shows "is_submit c" "is_in c" "\<not> is_out c" "is_iso c = Inr False" "transfer_buffer_size c = Inr n"
    "payload_size c = Inr 0" "hdr_base c = b"
    "submit_reply_wire c 0 m errors = be32 USBIP_RET_SUBMIT @ be32 (hb_seqnum b) @ be32 (hb_devid b) @ be32 USBIP_DIR_IN @
       be32 (hb_ep b) @ be32 0 @ be32 (of_nat m) @ be32 start @ be32 packets @ be32 errors @ replicate 8 0"
proof -
  have u: "load32 off_transfer_buffer_length (union_bytes c) = of_nat n"
    "load32 off_number_of_packets (union_bytes c) = packets" "load32 off_start_frame (union_bytes c) = start"
    using submit_union_fields [of "union_bytes c" flags "of_nat n" start packets interval stp]
    by (simp_all add: assms(5) wire_submit_def)
  show s: "is_submit c" "is_in c" "\<not> is_out c" "hdr_base c = b"
    using assms(1,2)
    by (simp_all add: assms(5) wire_submit_def is_submit_def request_def is_in_def is_out_def direction_def usbip_consts)
  show iso: "is_iso c = Inr False"
    using assms(4) s(1) u by (auto simp: is_iso_def iso_packet_count_def)
  have "sint (of_nat n :: u32) = int n"
    using assms(3) by (simp add: signed_of_nat signed_take_bit_int_eq_self)
  then show "transfer_buffer_size c = Inr n" using s(1) u by (simp add: transfer_buffer_size_def)
  show "payload_size c = Inr 0"
    using s iso by (simp add: payload_size_def submit_not_unlink)
  show "submit_reply_wire c 0 m errors = be32 USBIP_RET_SUBMIT @ be32 (hb_seqnum b) @ be32 (hb_devid b) @ be32 USBIP_DIR_IN @
       be32 (hb_ep b) @ be32 0 @ be32 (of_nat m) @ be32 start @ be32 packets @ be32 errors @ replicate 8 0"
    using assms(2) s(4) u by (simp add: submit_reply_wire_def seqnum_def devid_def direction_def cmd_ep_def)
qed

lemma in_submit_read:
  assumes "hb_command b = USBIP_CMD_SUBMIT" "hb_direction b = USBIP_DIR_IN" "n < 2 ^ 31" "packets \<in> {0, 0xffffffff}"
    and "length stp = 8" "socket_in e = submit_wire b flags (of_nat n) start packets interval stp @ rest"
    and "\<not> q_closed (commands_queue e)"
  shows "command_produce e = Some (Inr (e\<lparr>commands_queue := (commands_queue e)\<lparr>q_items :=
      q_items (commands_queue e) @ [wire_submit b flags n start packets interval stp]\<rparr>, socket_in := rest\<rparr>))"
proof -
  have "length (submit_wire b flags (of_nat n) start packets interval stp) = header_size"
    by (simp add: assms(5) header_size_def union_size_def)
  then have "read_command (socket_in e) = Some (Inr (wire_submit b flags n start packets interval stp, rest))"
    using from_big_endian_submit [OF assms(1,5)] in_submit_fields(6) [OF assms(1-4) refl]
    by (simp add: read_command_def assms(6) wire_submit_def)
  then show ?thesis using assms(7) by (simp add: command_produce_def q_push_def)
qed


section \<open>A transfer of a real device\<close>

definition opened_device :: "nat \<Rightarrow> ('p, 'l, 'cb) device \<Rightarrow> bool" where
  "opened_device h d \<longleftrightarrow> \<not> dv_mock_class d \<and> dv_handle d = Some h \<and> dv_mock_iface d = None \<and> \<not> pm_canceled (dv_pending d)"

text \<open>What libusb is given.\<close>

definition given_transfer :: "u8 \<Rightarrow> nat \<Rightarrow> u8 \<Rightarrow> bytes \<Rightarrow> libusb_transfer" where
  "given_transfer ty h ep buffer = \<lparr>t_dev_handle = Some h, t_endpoint = ep, t_type = ty, t_status = Completed,
     t_length = int (length buffer), t_actual_length = 0, t_buffer = Some buffer, t_num_iso_packets = 0,
     t_iso_packet_desc = [], t_user_data = Some 1\<rparr>"

text \<open>What libusb has made of it when it calls back: status, length and, for an IN endpoint, the bytes.\<close>

definition returned :: "libusb_transfer \<Rightarrow> xfer_status \<Rightarrow> nat \<Rightarrow> bytes \<Rightarrow> libusb_transfer" where
  "returned t s k buffer = t\<lparr>t_status := s, t_actual_length := int k, t_buffer := Some buffer\<rparr>"

lemma real_is_real: "opened_device h d \<Longrightarrow> underlying_handle d = Inr (Some h) \<and> device_is_mock d = Inr False"
  by (simp add: opened_device_def underlying_handle_def device_is_mock_def)

lemma real_submits:
  fixes d :: "('p, 'l, 'cb) device" and info :: "'cb xfer_info"
  assumes "opened_device h d" "pm_inv (dv_pending d)" "pm_heap (dv_pending d) tid = None" "k \<noteq> Fill_Iso"
    and "lu_alloc_transfer L 0 (dv_usb d) = (Some tid, l)" "length (xf_buffer info) < 2 ^ 31"
    and "lu_submit_transfer L (given_transfer (fill_type k) h (xf_ep_address info) (xf_buffer info)) l = (LIBUSB_SUCCESS, l')"
  shows "\<exists>d'. submit_transfer_impl L k info d = Inr ([], d') \<and> opened_device h d' \<and> dv_usb d' = l' \<and>
    pm_inv (dv_pending d') \<and>
    pm_heap (dv_pending d') = (pm_heap (dv_pending d))(tid \<mapsto> given_transfer (fill_type k) h (xf_ep_address info) (xf_buffer info)) \<and>
    om_find (pm_pending (dv_pending d')) = (om_find (pm_pending (dv_pending d)))(tid \<mapsto> xf_callback info)"
proof -
  have om: "om_inv (pm_pending (dv_pending d))" using assms(2) by (simp add: pm_inv_def)
  have absent: "om_find (pm_pending (dv_pending d)) tid = None"
    using pm_inv_live [OF assms(2)] assms(3) by blast
  then have new: "snd (om_insert tid (xf_callback info) (pm_pending (dv_pending d)))"
    using smap.insert_flag [OF om] by blast
  define t where "t = (filled (fill_type k) (Some h) info 0 [] :: libusb_transfer)"
  have t: "t\<lparr>t_user_data := Some 1\<rparr> = given_transfer (fill_type k) h (xf_ep_address info) (xf_buffer info)"
    using filled_wf(2) [OF assms(6), of "fill_type k" "Some h"] by (simp add: t_def given_transfer_def filled_def)
  have fill: "fill_transfer k info (Some h) = Inr t"
    using assms(4) by (cases k) (simp_all add: fill_transfer_def fill_bulk_def fill_interrupt_def fill_type_def t_def)
  define w1 where "w1 = log_event (Allocated tid) ((dv_pending d)\<lparr>pm_heap := (pm_heap (dv_pending d))(tid := Some t)\<rparr>)"
  have 1: "allocate L k info d = Inr (tid, d\<lparr>dv_usb := l, dv_pending := w1\<rparr>)"
    using assms(4,5) fill real_is_real [OF assms(1)] by (simp add: allocate_def w1_def)
  have inv1: "pm_inv w1" unfolding w1_def by (rule pm_step_inv [OF step_alloc [OF assms(3)] assms(2)])
  define w2 where "w2 = log_event (Attached (xf_callback info) tid) (w1\<lparr>pm_heap := (pm_heap w1)(tid := Some (t\<lparr>t_user_data := Some 1\<rparr>)),
      pm_pending := fst (om_insert tid (xf_callback info) (pm_pending (dv_pending d)))\<rparr>)"
  have 2: "pm_attach (xf_callback info) tid (Some 1) w1 = Inr w2"
    using new by (simp add: pm_attach_def Let_def w2_def) (simp add: w1_def)
  have inv2: "pm_inv w2" by (rule pm_inv_attach [OF inv1 2])
  have heap: "pm_heap w2 = (pm_heap (dv_pending d))(tid \<mapsto> given_transfer (fill_type k) h (xf_ep_address info) (xf_buffer info))"
    and pending: "om_find (pm_pending w2) = (om_find (pm_pending (dv_pending d)))(tid \<mapsto> xf_callback info)"
    and canceled: "pm_canceled w2 = pm_canceled (dv_pending d)"
    using absent by (auto simp: w2_def w1_def om_find_insert [OF om] fun_eq_iff t simp del: One_nat_def)
  define d2 where "d2 = d\<lparr>dv_usb := l, dv_pending := w2\<rparr>"
  have real2: "opened_device h d2" using assms(1) canceled by (simp add: opened_device_def d2_def)
  have 3: "show_request tid d2 = Inr ([], d2)" using real2 by (simp add: show_request_def opened_device_def)
  have check: "pm_submit True tid w2 = Inr (log_event (Submitted tid) w2)"
    using real2 heap by (simp add: pm_submit_def pm_submit_check_def is_mock_def given_transfer_def opened_device_def d2_def)
  let ?d3 = "d2\<lparr>dv_usb := l', dv_pending := log_event (Submitted tid) w2\<rparr>"
  have "submit_transfer_impl L k info d = Inr ([], ?d3)"
    using 3 heap check assms(7) real2 real_is_real [OF real2]
    by (simp add: submit_transfer_impl_def 1 2 d2_def [symmetric] del: One_nat_def) (simp add: d2_def opened_device_def)
  moreover have "pm_inv (log_event (Submitted tid) w2)"
    by (rule pm_step_inv [OF step_submit_call inv2]) (simp add: heap)
  ultimately show ?thesis
    using real2 heap pending by (intro exI [of _ ?d3]) (simp add: opened_device_def d2_def)
qed

text \<open>libusb calls back: the callback runs unless the transfer was cancelled or timed out.\<close>

lemma real_completes:
  fixes e :: "('p, 'l) proxy"
  assumes "opened_device h (dev e)" "om_find (pm_pending (dv_pending (dev e))) tid = Some cb"
  shows "\<exists>d. libusb_completes tid t e =
      run_callbacks (if t_status t = Timed_Out \<or> t_status t = Cancelled then [] else [(cb, t)]) (e\<lparr>dev := d\<rparr>) \<and>
    opened_device h d \<and> dv_usb d = dv_usb (dev e) \<and>
    pm_heap (dv_pending d) = (pm_heap (dv_pending (dev e)))(tid := None) \<and>
    om_find (pm_pending (dv_pending d)) = (om_find (pm_pending (dv_pending (dev e))))(tid := None)"
proof -
  define w where "w = (dv_pending (dev e))\<lparr>pm_heap := (pm_heap (dv_pending (dev e)))(tid := Some t)\<rparr>"
  have "\<exists>w'. on_transfer_completed_impl tid w = Inr w' \<and> pm_heap w' = (pm_heap (dv_pending (dev e)))(tid := None) \<and>
      om_find (pm_pending w') = (om_find (pm_pending (dv_pending (dev e))))(tid := None) \<and> pm_canceled w' = pm_canceled w"
    using assms(2)
    by (auto simp: on_transfer_completed_impl_def w_def give_away_transfer_def om_find_erase Let_def)
  then obtain w' where w': "on_transfer_completed_impl tid w = Inr w'" "pm_heap w' = (pm_heap (dv_pending (dev e)))(tid := None)"
    "om_find (pm_pending w') = (om_find (pm_pending (dv_pending (dev e))))(tid := None)" "pm_canceled w' = pm_canceled w" by blast
  let ?d = "(dev e)\<lparr>dv_pending := w'\<rparr>"
  have put: "put_transfer tid t (dev e) = (dev e)\<lparr>dv_pending := w\<rparr>" by (simp add: put_transfer_def w_def)
  have "device_on_transfer_completed tid (put_transfer tid t (dev e)) =
      Inr (if t_status t = Timed_Out \<or> t_status t = Cancelled then [] else [(cb, t)], ?d)"
    using assms w'(1) by (simp add: device_on_transfer_completed_def put opened_device_def) (simp add: w_def)
  then show ?thesis
    using assms(1) w'(2-4)
    by (intro exI [of _ ?d]) (simp add: libusb_completes_def on_dev_def opened_device_def w_def)
qed

section \<open>Commands on a real device\<close>

lemma submit_transfer_real:
  fixes e :: "('p, 'l) proxy"
  assumes "opened_device h (dev e)" "pm_inv (dv_pending (dev e))" "pm_heap (dv_pending (dev e)) tid = None"
    and "lu_alloc_transfer L 0 (dv_usb (dev e)) = (Some tid, l)"
    and "prepare_transfer c = Inr info" "xf_ep_address info = ep_address c" "length (xf_buffer info) < 2 ^ 31"
    and "ep_transfer_type (ep_address c) (dev e) = Some ty" "ty \<in> {TRANSFER_TYPE_BULK, TRANSFER_TYPE_INTERRUPT}"
    and "lu_submit_transfer L (given_transfer ty h (ep_address c) (xf_buffer info)) l = (LIBUSB_SUCCESS, l')"
  shows "\<exists>d. submit_transfer L c e = Inr (e\<lparr>dev := d\<rparr>) \<and> opened_device h d \<and> dv_usb d = l' \<and> pm_inv (dv_pending d) \<and>
    pm_heap (dv_pending d) = (pm_heap (dv_pending (dev e)))(tid \<mapsto> given_transfer ty h (ep_address c) (xf_buffer info)) \<and>
    om_find (pm_pending (dv_pending d)) tid = Some (xf_callback info)"
proof -
  obtain k where k: "k \<noteq> Fill_Iso" "fill_type k = ty" "submit_transfer L c e = submit_kind_transfer L k c e"
    using assms(8,9) that [of Fill_Bulk] that [of Fill_Interrupt]
    by (auto simp: submit_transfer_def fill_type_def TRANSFER_TYPE_BULK_def TRANSFER_TYPE_INTERRUPT_def
        TRANSFER_TYPE_CONTROL_def TRANSFER_TYPE_ISOCHRONOUS_def)
  have "lu_submit_transfer L (given_transfer (fill_type k) h (xf_ep_address info) (xf_buffer info)) l = (LIBUSB_SUCCESS, l')"
    using assms(6,10) k(2) by simp
  from real_submits [OF assms(1-3) k(1) assms(4,7) this] obtain d where "submit_transfer_impl L k info (dev e) = Inr ([], d)"
    "opened_device h d" "dv_usb d = l'" "pm_inv (dv_pending d)"
    "pm_heap (dv_pending d) = (pm_heap (dv_pending (dev e)))(tid \<mapsto> given_transfer (fill_type k) h (xf_ep_address info) (xf_buffer info))"
    "om_find (pm_pending (dv_pending d)) tid = Some (xf_callback info)" by auto
  then show ?thesis
    by (intro exI [of _ d]) (simp add: k(2,3) assms(5,6) submit_kind_transfer_def on_dev_def run_callbacks_def)
qed

lemma ep_address_or:
  "is_in c \<Longrightarrow> ep_address c = ucast (cmd_ep c) OR 0x80"
  "is_out c \<Longrightarrow> ep_address c = ucast (cmd_ep c)"
proof -
  show "is_in c \<Longrightarrow> ep_address c = ucast (cmd_ep c) OR 0x80"
    by (simp add: ep_address_def LIBUSB_ENDPOINT_IN_def, rule bit_word_eqI) (auto simp: bit_simps)
  show "is_out c \<Longrightarrow> ep_address c = ucast (cmd_ep c)"
    by (simp add: ep_address_def LIBUSB_ENDPOINT_OUT_def is_in_def is_out_def usbip_consts)
qed

lemma free_address:
  assumes "allocator_fresh L d" "lu_alloc_transfer L 0 (dv_usb d) = (Some tid, l)"
  shows "pm_heap (dv_pending d) tid = None"
proof -
  have "case fst (lu_alloc_transfer L 0 (dv_usb d)) of None \<Rightarrow> True | Some tid \<Rightarrow> pm_heap (dv_pending d) tid = None"
    using assms(1) unfolding allocator_fresh_def by blast
  then show ?thesis by (simp add: assms(2))
qed

lemma returned_wf:
  assumes "length buffer = n" "n < 2 ^ 31"
  shows "wf_transfer (returned (given_transfer ty h ep (replicate n 0)) s k buffer)"
  using assms by (simp add: returned_def given_transfer_def wf_transfer_def)

text \<open>C4: A host that reads from a real device gets the device's bytes. A CMD_SUBMIT on the socket for a
  bulk or interrupt IN endpoint makes libusb receive one transfer for that endpoint with a zeroed
  buffer of the requested length. When libusb completes it with \<open>k > 0\<close> bytes, the host is written
  exactly one message, the RET_SUBMIT of that command with status 0, length \<open>k\<close> and those \<open>k\<close> bytes;
  the transfer is freed.\<close>

theorem device_in_transfer_answered:
  fixes e :: "('p, 'l) proxy"
  assumes "engine_inv e" "pm_inv (dv_pending (dev e))" "allocator_fresh L (dev e)" "opened_device h (dev e)"
    and "commands_queue e = q_init" "replies_queue e = q_init" "in_commands e ! i = q_init" "in_data e ! i = q_init"
    and "unlinked_seqnums e = []" "lu_alloc_transfer L 0 (dv_usb (dev e)) = (Some tid, l)"
    and "hb_command b = USBIP_CMD_SUBMIT" "hb_direction b = USBIP_DIR_IN" "i = unat (hb_ep b)" "0 < i" "i < 16"
    and "n < 2 ^ 31" "packets \<in> {0, 0xffffffff}" "length stp = 8"
    and "socket_in e = submit_wire b flags (of_nat n) start packets interval stp @ rest"
    and "a = ucast (hb_ep b) OR 0x80" "ep_transfer_type a (dev e) = Some ty" "ty \<in> {TRANSFER_TYPE_BULK, TRANSFER_TYPE_INTERRUPT}"
    and "t = given_transfer ty h a (replicate n 0)" "lu_submit_transfer L t l = (LIBUSB_SUCCESS, l')"
    and "length buffer = n" "0 < k" "k \<le> n"
  shows "\<exists>e1 e2 e3 e4 e5. command_produce e = Some (Inr e1) \<and> execute_command (proxy_handlers L) e1 = Some (Inr e2) \<and>
    dv_usb (dev e2) = l' \<and> pm_heap (dv_pending (dev e2)) tid = Some t \<and>
    libusb_completes tid (returned t Completed k buffer) e2 = Inr e3 \<and>
    send_data_to_host i e3 = Some (Inr e4) \<and> reply_consume e4 = Some (Inr e5) \<and>
    socket_in e5 = rest \<and> socket_out e5 = socket_out e @ [
      be32 USBIP_RET_SUBMIT @ be32 (hb_seqnum b) @ be32 (hb_devid b) @ be32 USBIP_DIR_IN @ be32 (hb_ep b) @ be32 0 @
      be32 (of_nat k) @ be32 start @ be32 packets @ be32 0 @ replicate 8 0 @ take k buffer] \<and>
    pm_heap (dv_pending (dev e5)) = pm_heap (dv_pending (dev e))"
proof -
  define c where "c = wire_submit b flags n start packets interval stp"
  note c = in_submit_fields [OF assms(11,12,16,17) c_def]
  have ep: "cmd_ep c = hb_ep b" "unat (cmd_ep c) = i" "unat (cmd_ep c) < max_count_in" "cmd_ep c \<noteq> 0"
    using c(7) assms(13-15) by (auto simp: cmd_ep_def max_count_in_def)
  have a: "ep_address c = a" using ep_address_or(1) [OF c(2)] ep(1) assms(20) by simp
  note free = free_address [OF assms(3,10)]
  have lens: "length (in_commands e) = max_count_in" "length (in_data e) = max_count_in" "i < max_count_in"
    using assms(1) ep(2,3) by (simp_all add: engine_inv_def)
  define e1 where "e1 = e\<lparr>commands_queue := \<lparr>q_items = [c], q_closed = False\<rparr>, socket_in := rest\<rparr>"
  have 1: "command_produce e = Some (Inr e1)"
    using in_submit_read [OF assms(11,12,16-19)] assms(5) by (simp add: e1_def q_init_def c_def)
  let ?info = "\<lparr>xf_ep_address = a, xf_buffer = replicate n 0, xf_callback = In_Cb, xf_iso = None\<rparr>"
  let ?e1 = "e1\<lparr>commands_queue := q_init\<rparr>"
  have prep: "prepare_transfer c = Inr ?info" using c(2-5) a by (simp add: prepare_transfer_def prepare_buffer_def)
  obtain d where d: "submit_transfer L c ?e1 = Inr (?e1\<lparr>dev := d\<rparr>)" "opened_device h d" "dv_usb d = l'" "pm_inv (dv_pending d)"
    "pm_heap (dv_pending d) = (pm_heap (dv_pending (dev e)))(tid \<mapsto> t)" "om_find (pm_pending (dv_pending d)) tid = Some In_Cb"
    using submit_transfer_real [of h ?e1 tid L l c ?info ty l'] assms(2,4,10,16,21,22,23,24) free prep a
    by (auto simp: e1_def)
  define e2 where "e2 = ?e1\<lparr>dev := d, in_commands := (in_commands e)[i := \<lparr>q_items = [c], q_closed = False\<rparr>]\<rparr>"
  have 2: "execute_command (proxy_handlers L) e1 = Some (Inr e2)"
    using c(1,2) ep d(1) lens assms(7)
    by (simp add: execute_command_def e1_def q_pull_def execute_ep_command_def proxy_handlers_def
        proxy_read_data_from_device_def push_in_command_def q_push_def e2_def q_init_def)
  have inv2: "engine_inv e2" by (rule proxy.execute_command_inv [OF command_produce_inv [OF assms(1) 1] 2])
  let ?t = "returned t Completed k buffer"
  obtain d3 where d3: "libusb_completes tid ?t e2 = run_callbacks [(In_Cb, ?t)] (e2\<lparr>dev := d3\<rparr>)"
    "pm_heap (dv_pending d3) = (pm_heap (dv_pending (dev e)))(tid := None)"
    using real_completes [of h e2 tid In_Cb ?t] d(2,5,6) by (auto simp: e2_def returned_def)
  have t: "wf_transfer ?t" "t_buffer ?t = Some buffer" "t_num_iso_packets ?t = 0" "t_endpoint ?t = ep_address c"
    "t_actual_length ?t = int k" "t_length ?t = int n"
    using returned_wf [OF assms(25,16), of ty h a Completed k] a by (simp_all add: assms(23) returned_def given_transfer_def)
  have idle: "in_data e2 ! i = q_init" "replies_queue e2 = q_init" "in_commands e2 ! i = \<lparr>q_items = [c], q_closed = False\<rparr>"
    "unlinked_seqnums e2 = []" "socket_in e2 = rest" "socket_out e2 = socket_out e"
    using assms(6,8,9) lens by (simp_all add: e2_def e1_def)
  obtain e3 where e3: "queue_data_for_host (Some ?t) (e2\<lparr>dev := d3\<rparr>) = Inr e3" "engine_frame (e2\<lparr>dev := d3\<rparr>) e3"
    "q_items (in_data e3 ! i) = [\<lparr>td_buffer = take k buffer, td_iso_descriptor_size = 0, td_error_count = 0\<rparr>]"
    using completed_in_transfer_queued [of "e2\<lparr>dev := d3\<rparr>" ?t buffer i] inv2 t assms(27) idle(1) ep_address_in [OF c(2) ep(3)] ep(2)
    by (auto simp: q_init_def)
  have 3: "libusb_completes tid ?t e2 = Inr e3"
    unfolding d3(1) using e3(1) t(5) assms(26)
    by (simp add: run_callbacks_def run_callback_def on_in_transfer_complete_def) (simp add: returned_def)
  have frame3: "in_commands e3 ! i = \<lparr>q_items = [c], q_closed = False\<rparr>" "unlinked_seqnums e3 = []" "socket_in e3 = rest"
    "socket_out e3 = socket_out e" "replies_queue e3 = q_init" "dev e3 = d3"
    using e3(2) idle queue_data_replies [OF e3(1)] queue_data_dev [OF e3(1)] by (simp_all add: engine_frame_def)
  have inv3: "engine_inv e3" by (rule engine_inv_frame [OF _ e3(2)]) (simp add: inv2)
  have k64: "k < 2 ^ 64" using assms(16,27) by simp
  obtain e4 r where 4: "send_data_to_host i e3 = Some (Inr e4)" "dev e4 = d3" "socket_in e4 = rest"
    "socket_out e4 = socket_out e" "unlinked_seqnums e4 = []" "replies_queue e4 = \<lparr>q_items = [r], q_closed = False\<rparr>"
    "header_bytes r = submit_reply_wire c 0 k 0" "cmd_payload r = take k buffer"
    using send_data_open [OF inv3 lens(3), of c "[]" _ "[]" n k] e3(3) frame3 c(4,5) assms(25-27) k64
    by (auto simp: q_init_def)
  define e5 where "e5 = e4\<lparr>replies_queue := q_init, socket_out := socket_out e4 @ [header_bytes r @ cmd_payload r]\<rparr>"
  have 5: "reply_consume e4 = Some (Inr e5)"
    by (simp add: reply_consume_def 4(5,6) q_pull_def e5_def os_contains_def om_find_def q_init_def)
  have dev2: "dv_usb (dev e2) = l'" "pm_heap (dv_pending (dev e2)) tid = Some t" by (simp_all add: e2_def d(3,5))
  show ?thesis
    by (rule exI [of _ e1], rule exI [of _ e2], rule exI [of _ e3], rule exI [of _ e4], rule exI [of _ e5])
      (use 1 2 3 4 5 dev2 d3(2) free in \<open>simp add: e5_def c(8) fun_upd_idem\<close>)
qed

text \<open>The other direction: the payload follows the header.\<close>

lemma out_submit_fields:
  assumes "hb_command b = USBIP_CMD_SUBMIT" "hb_direction b = USBIP_DIR_OUT" "n < 2 ^ 30" "packets \<in> {0, 0xffffffff}"
    and "c = (wire_submit b flags n start packets interval stp)\<lparr>cmd_payload := payload\<rparr>"
  shows "is_submit c" "is_out c" "\<not> is_in c" "is_iso c = Inr False" "transfer_buffer_size c = Inr n"
    "payload_size c = Inr (of_nat n)" "hdr_base c = b" "cmd_payload c = payload"
    "submit_reply_wire c 0 m errors = be32 USBIP_RET_SUBMIT @ be32 (hb_seqnum b) @ be32 (hb_devid b) @ be32 USBIP_DIR_OUT @
       be32 (hb_ep b) @ be32 0 @ be32 (of_nat m) @ be32 start @ be32 packets @ be32 errors @ replicate 8 0"
proof -
  have u: "load32 off_transfer_buffer_length (union_bytes c) = of_nat n"
    "load32 off_number_of_packets (union_bytes c) = packets" "load32 off_start_frame (union_bytes c) = start"
    using submit_union_fields [of "union_bytes c" flags "of_nat n" start packets interval stp]
    by (simp_all add: assms(5) wire_submit_def)
  show s: "is_submit c" "is_out c" "\<not> is_in c" "hdr_base c = b" "cmd_payload c = payload"
    using assms(1,2)
    by (simp_all add: assms(5) wire_submit_def is_submit_def request_def is_in_def is_out_def direction_def usbip_consts)
  show iso: "is_iso c = Inr False"
    using assms(4) s(1) u by (auto simp: is_iso_def iso_packet_count_def)
  have sz: "sint (of_nat n :: u32) = int n"
    using assms(3) by (simp add: signed_of_nat signed_take_bit_int_eq_self)
  then show "transfer_buffer_size c = Inr n" using s(1) u by (simp add: transfer_buffer_size_def)
  show "payload_size c = Inr (of_nat n)"
    using payload_size_submit [of c n packets] s(1,2) u sz assms(3,4) by auto
  show "submit_reply_wire c 0 m errors = be32 USBIP_RET_SUBMIT @ be32 (hb_seqnum b) @ be32 (hb_devid b) @ be32 USBIP_DIR_OUT @
       be32 (hb_ep b) @ be32 0 @ be32 (of_nat m) @ be32 start @ be32 packets @ be32 errors @ replicate 8 0"
    using assms(2) s(4) u by (simp add: submit_reply_wire_def seqnum_def devid_def direction_def cmd_ep_def)
qed

lemma out_submit_read:
  assumes "hb_command b = USBIP_CMD_SUBMIT" "hb_direction b = USBIP_DIR_OUT" "length payload < 2 ^ 30" "packets \<in> {0, 0xffffffff}"
    and "length stp = 8" "socket_in e = submit_wire b flags (of_nat (length payload)) start packets interval stp @ payload @ rest"
    and "\<not> q_closed (commands_queue e)"
  shows "command_produce e = Some (Inr (e\<lparr>commands_queue := (commands_queue e)\<lparr>q_items := q_items (commands_queue e) @
      [(wire_submit b flags (length payload) start packets interval stp)\<lparr>cmd_payload := payload\<rparr>]\<rparr>, socket_in := rest\<rparr>))"
proof -
  let ?c = "wire_submit b flags (length payload) start packets interval stp"
  have len: "length (submit_wire b flags (of_nat (length payload)) start packets interval stp) = header_size"
    by (simp add: assms(5) header_size_def union_size_def)
  have "?c = ?c\<lparr>cmd_payload := []\<rparr>" by (simp add: wire_submit_def)
  then have ps: "payload_size ?c = Inr (of_nat (length payload))"
    using out_submit_fields(6) [OF assms(1-4)] by metis
  have k: "size_of_int (sint (of_nat (length payload) :: u32)) = length payload"
    using assms(3) size_of_int_nonneg [of "int (length payload)"] by (simp add: signed_of_nat signed_take_bit_int_eq_self)
  have zero: "(of_nat (length payload) :: u32) = 0 \<longleftrightarrow> payload = []"
    using assms(3) by (auto simp: unat_u32_of_nat word_unat_eq_iff)
  have "read_command (socket_in e) = Some (Inr (?c\<lparr>cmd_payload := payload\<rparr>, rest))"
    using from_big_endian_submit [OF assms(1,5)] ps len k zero \<open>?c = _\<close>
    by (simp add: read_command_def assms(6) wire_submit_def)
  then show ?thesis using assms(7) by (simp add: command_produce_def q_push_def)
qed

lemma out_command_submitted:
  fixes e :: "('p, 'l) proxy"
  assumes "pm_inv (dv_pending (dev e))" "allocator_fresh L (dev e)" "opened_device h (dev e)"
    and "commands_queue e = q_init" "lu_alloc_transfer L 0 (dv_usb (dev e)) = (Some tid, l)"
    and "hb_command b = USBIP_CMD_SUBMIT" "hb_direction b = USBIP_DIR_OUT" "0 < unat (hb_ep b)" "unat (hb_ep b) < 16"
    and "length payload < 2 ^ 30" "packets \<in> {0, 0xffffffff}" "length stp = 8"
    and "socket_in e = submit_wire b flags (of_nat (length payload)) start packets interval stp @ payload @ rest"
    and "a = ucast (hb_ep b)" "ep_transfer_type a (dev e) = Some ty" "ty \<in> {TRANSFER_TYPE_BULK, TRANSFER_TYPE_INTERRUPT}"
    and "t = given_transfer ty h a payload" "lu_submit_transfer L t l = (LIBUSB_SUCCESS, l')"
    and c_def: "c = (wire_submit b flags (length payload) start packets interval stp)\<lparr>cmd_payload := payload\<rparr>"
  shows "\<exists>e1 d. command_produce e = Some (Inr e1) \<and> dev e1 = dev e \<and>
    execute_command (proxy_handlers L) e1 = Some (Inr (e\<lparr>socket_in := rest, dev := d\<rparr>)) \<and>
    opened_device h d \<and> dv_usb d = l' \<and> pm_heap (dv_pending d) = (pm_heap (dv_pending (dev e)))(tid \<mapsto> t) \<and>
    om_find (pm_pending (dv_pending d)) tid = Some (Out_Cb c)"
proof -
  let ?n = "length payload"
  note c = out_submit_fields [OF assms(6,7,10,11) c_def]
  have ep: "cmd_ep c = hb_ep b" "unat (cmd_ep c) < max_count_out" "cmd_ep c \<noteq> 0"
    using c(7) assms(8,9) by (auto simp: cmd_ep_def max_count_out_def)
  have a: "ep_address c = a" using ep_address_or(2) [OF c(2)] ep(1) assms(14) by simp
  note free = free_address [OF assms(2,5)]
  define e1 where "e1 = e\<lparr>commands_queue := \<lparr>q_items = [c], q_closed = False\<rparr>, socket_in := rest\<rparr>"
  have 1: "command_produce e = Some (Inr e1)"
    using out_submit_read [OF assms(6,7,10-13)] assms(4) by (simp add: e1_def q_init_def c_def)
  let ?info = "\<lparr>xf_ep_address = a, xf_buffer = payload, xf_callback = Out_Cb c, xf_iso = None\<rparr>"
  let ?e1 = "e1\<lparr>commands_queue := q_init\<rparr>"
  have prep: "prepare_transfer c = Inr ?info" using c(2-4,8) a by (simp add: prepare_transfer_def prepare_buffer_def)
  have small: "?n < 2 ^ 31" using assms(10) by simp
  obtain d where d: "submit_transfer L c ?e1 = Inr (?e1\<lparr>dev := d\<rparr>)" "opened_device h d" "dv_usb d = l'" "pm_inv (dv_pending d)"
    "pm_heap (dv_pending d) = (pm_heap (dv_pending (dev e)))(tid \<mapsto> t)" "om_find (pm_pending (dv_pending d)) tid = Some (Out_Cb c)"
    using submit_transfer_real [of h ?e1 tid L l c ?info ty l'] assms(1,3,5,15-18) free prep a small
    by (auto simp: e1_def)
  have "?e1\<lparr>dev := d\<rparr> = e\<lparr>socket_in := rest, dev := d\<rparr>" using assms(4) by (simp add: e1_def)
  then have "execute_command (proxy_handlers L) e1 = Some (Inr (e\<lparr>socket_in := rest, dev := d\<rparr>))"
    using c(1-3) ep d(1)
    by (simp add: execute_command_def e1_def q_pull_def execute_ep_command_def proxy_handlers_def
        proxy_send_data_to_device_def q_init_def)
  then show ?thesis using 1 d(2,3,5,6) by (intro exI [of _ e1] exI [of _ d]) (simp add: e1_def)
qed

text \<open>C5: A host that writes to a real device has its bytes written. A CMD_SUBMIT with its payload on the
  socket for a bulk or interrupt OUT endpoint makes libusb receive one transfer for that endpoint whose
  buffer is exactly the payload. When libusb has sent all of it, the host is written exactly one
  message, the RET_SUBMIT of that command with status 0 and the length of the payload, without data;
  the transfer is freed.\<close>

theorem device_out_transfer_acknowledged:
  fixes e :: "('p, 'l) proxy"
  assumes "engine_inv e" "pm_inv (dv_pending (dev e))" "allocator_fresh L (dev e)" "opened_device h (dev e)"
    and "commands_queue e = q_init" "replies_queue e = q_init" "unlinked_seqnums e = []"
    and "lu_alloc_transfer L 0 (dv_usb (dev e)) = (Some tid, l)"
    and "hb_command b = USBIP_CMD_SUBMIT" "hb_direction b = USBIP_DIR_OUT" "0 < unat (hb_ep b)" "unat (hb_ep b) < 16"
    and "length payload < 2 ^ 30" "packets \<in> {0, 0xffffffff}" "length stp = 8"
    and "socket_in e = submit_wire b flags (of_nat (length payload)) start packets interval stp @ payload @ rest"
    and "a = ucast (hb_ep b)" "ep_transfer_type a (dev e) = Some ty" "ty \<in> {TRANSFER_TYPE_BULK, TRANSFER_TYPE_INTERRUPT}"
    and "t = given_transfer ty h a payload" "lu_submit_transfer L t l = (LIBUSB_SUCCESS, l')"
  shows "\<exists>e1 e2 e3 e4. command_produce e = Some (Inr e1) \<and> execute_command (proxy_handlers L) e1 = Some (Inr e2) \<and>
    dv_usb (dev e2) = l' \<and> pm_heap (dv_pending (dev e2)) tid = Some t \<and>
    libusb_completes tid (returned t Completed (length payload) payload) e2 = Inr e3 \<and> reply_consume e3 = Some (Inr e4) \<and>
    socket_in e4 = rest \<and> socket_out e4 = socket_out e @ [
      be32 USBIP_RET_SUBMIT @ be32 (hb_seqnum b) @ be32 (hb_devid b) @ be32 USBIP_DIR_OUT @ be32 (hb_ep b) @ be32 0 @
      be32 (of_nat (length payload)) @ be32 start @ be32 packets @ be32 0 @ replicate 8 0] \<and>
    in_commands e4 = in_commands e \<and> pm_heap (dv_pending (dev e4)) = pm_heap (dv_pending (dev e))"
proof -
  let ?n = "length payload"
  define c where "c = (wire_submit b flags ?n start packets interval stp)\<lparr>cmd_payload := payload\<rparr>"
  note c = out_submit_fields [OF assms(9,10,13,14) c_def]
  obtain e1 d where 1: "command_produce e = Some (Inr e1)"
    and 2: "execute_command (proxy_handlers L) e1 = Some (Inr (e\<lparr>socket_in := rest, dev := d\<rparr>))"
    and d: "opened_device h d" "dv_usb d = l'" "pm_heap (dv_pending d) = (pm_heap (dv_pending (dev e)))(tid \<mapsto> t)"
      "om_find (pm_pending (dv_pending d)) tid = Some (Out_Cb c)"
    using out_command_submitted [OF assms(2-5,8-21) c_def] by blast
  let ?e2 = "e\<lparr>socket_in := rest, dev := d\<rparr>" and ?t = "returned t Completed ?n payload"
  obtain d3 where d3: "libusb_completes tid ?t ?e2 = run_callbacks [(Out_Cb c, ?t)] (?e2\<lparr>dev := d3\<rparr>)"
    "pm_heap (dv_pending d3) = (pm_heap (dv_pending (dev e)))(tid := None)"
    using real_completes [of h ?e2 tid "Out_Cb c" ?t] d(1,3,4) by (auto simp: returned_def)
  have t: "t_actual_length ?t = int ?n" "t_length ?t = int ?n"
    by (simp_all add: assms(20) returned_def given_transfer_def)
  let ?req = "(request_of c)\<lparr>rq_size := ?n\<rparr>"
  obtain r where r: "make_reply ?req = Inr r" "header_bytes r = submit_reply_wire c 0 ?n 0" "cmd_payload r = []"
    using make_reply_submit [of ?req] c(1) by (auto simp: request_of_def)
  define e3 where "e3 = ?e2\<lparr>dev := d3, replies_queue := \<lparr>q_items = [r], q_closed = False\<rparr>\<rparr>"
  have "queue_reply_to_host ?req (?e2\<lparr>dev := d3\<rparr>) = Inr e3"
    using queue_reply_open [OF _ r(1), of "?e2\<lparr>dev := d3\<rparr>"] assms(6) by (simp add: q_init_def e3_def)
  moreover have "size_of_int (int ?n) = ?n" using assms(13) by (intro size_of_int_nonneg [of "int ?n", simplified]) simp
  ultimately have 3: "libusb_completes tid ?t ?e2 = Inr e3"
    unfolding d3(1) using t
    by (simp add: run_callbacks_def run_callback_def on_out_transfer_complete_def)
  define e4 where "e4 = e3\<lparr>replies_queue := q_init, socket_out := socket_out e @ [header_bytes r @ cmd_payload r]\<rparr>"
  have 4: "reply_consume e3 = Some (Inr e4)"
    using assms(7) by (simp add: reply_consume_def e3_def q_pull_def e4_def os_contains_def om_find_def q_init_def)
  show ?thesis
    by (rule exI [of _ e1], rule exI [of _ ?e2], rule exI [of _ e3], rule exI [of _ e4])
      (use 1 2 3 4 d(2,3) d3(2) free_address [OF assms(3,8)] r(2,3) in \<open>simp add: e3_def e4_def c(9) fun_upd_idem\<close>)
qed

section \<open>Transfers that fail\<close>


lemma run_callbacks_none: "run_callbacks [] e = Inr e"
  by (simp add: run_callbacks_def)



section \<open>An example device\<close>

definition endpoint_config :: "u8 \<Rightarrow> libusb_config_descriptor" where
  "endpoint_config a = \<lparr>lcd_desc = zero_config\<lparr>cd_bNumInterfaces := 1\<rparr>,
     lcd_interface = Some [\<lparr>lif_altsetting = Some [\<lparr>lid_desc = zero_interface\<lparr>id_bNumEndpoints := 1\<rparr>,
       lid_endpoint = Some [\<lparr>lep_desc = zero_endpoint\<lparr>ed_bLength := 7, ed_bEndpointAddress := a, ed_bmAttributes := 3\<rparr>,
         lep_extra = None, lep_extra_length = 0\<rparr>], lid_extra = None, lid_extra_length = 0\<rparr>], lif_num_altsetting = 1\<rparr>],
     lcd_extra = None, lcd_extra_length = 0\<rparr>"

lemma endpoint_config_builds: "\<exists>b. build_config (Some (endpoint_config a)) config_init = Inr b"
  by (simp add: endpoint_config_def build_config_def vector_of_extra_def size_of_int_def build_interface_def
      build_interface_descriptor_def build_endpoint_def vectorize_def)

lemma endpoint_config_endpoints:
  assumes "tree_construct desc (Some (endpoint_config a)) strings bos report = Inr t"
  shows "map (\<lambda>e. (address e, attributes e)) (all_endpoints t) = [(a, 3)]"
  using assms
  by (auto simp: tree_construct_def bindR_Inr_iff all_endpoints_def endpoint_config_def build_config_def
      build_interface_def build_interface_descriptor_def build_endpoint_def
      vector_of_extra_def vectorize_def size_of_int_def read_vector_def fill_vector_def wrap_def fill_extra_def
      init_class_defs descriptor_init_def plugin_init_def read_fill_same address_def attributes_def)

lemma endpoint_tree: "\<exists>t. map (\<lambda>e. (address e, attributes e)) (all_endpoints t) = [(a, 3)]"
proof -
  obtain t where "tree_construct zero_device (Some (endpoint_config a)) [] None [] = Inr t"
    using endpoint_config_builds [of a] by (auto simp: tree_construct_def build_bos_def)
  then show ?thesis using endpoint_config_endpoints by blast
qed

text \<open>A proxy of a device with one interrupt endpoint, behind a socket that holds the bytes \<open>bs\<close>.\<close>

definition example_real :: "tree \<Rightarrow> bytes \<Rightarrow> (unit, unit) proxy" where
  "example_real t bs = (engine_init ((example_device t)\<lparr>dv_mock_class := False, dv_handle := Some 1, dv_mock_iface := None\<rparr>))
     \<lparr>socket_in := bs\<rparr>"

lemma example_real_idle:
  "engine_inv (example_real t bs)" "pm_inv (dv_pending (dev (example_real t bs)))"
  "allocator_fresh example_libusb (dev (example_real t bs))" "opened_device 1 (dev (example_real t bs))"
  "commands_queue (example_real t bs) = q_init" "replies_queue (example_real t bs) = q_init"
  "i < max_count_in \<Longrightarrow> in_commands (example_real t bs) ! i = q_init" "i < max_count_in \<Longrightarrow> in_data (example_real t bs) ! i = q_init"
  "unlinked_seqnums (example_real t bs) = []"
  "lu_alloc_transfer example_libusb 0 (dv_usb (dev (example_real t bs))) = (Some 5, ())"
  "lu_submit_transfer example_libusb x () = (LIBUSB_SUCCESS, ())" "socket_in (example_real t bs) = bs"
  "dv_tree (dev (example_real t bs)) = t" "socket_out (example_real t bs) = []"
proof -
  show "engine_inv (example_real t bs)"
    using engine_inv_init [of "(example_device t)\<lparr>dv_mock_class := False, dv_handle := Some 1, dv_mock_iface := None\<rparr>"]
    by (simp add: engine_inv_def example_real_def)
qed (use pm_inv_init in \<open>simp_all add: example_real_def engine_init_def example_device_def allocator_fresh_def pm_init_def
    example_libusb_def opened_device_def LIBUSB_SUCCESS_def\<close>)

lemma example_real_endpoint: "\<exists>t. \<forall>bs. ep_transfer_type a (dev (example_real t bs)) = Some TRANSFER_TYPE_INTERRUPT"
proof -
  obtain t where "map (\<lambda>e. (address e, attributes e)) (all_endpoints t) = [(a, 3)]" using endpoint_tree [of a] by (elim exE)
  then obtain ep where "all_endpoints t = [ep]" "address ep = a" "attributes ep = 3" by (auto simp: map_eq_Cons_conv)
  then show ?thesis
    by (intro exI [of _ t]) (simp add: ep_transfer_type_def example_real_idle ep_transfer_type_mask_def TRANSFER_TYPE_INTERRUPT_def)
qed

lemma device_in_transfer_answered_witness:
  "\<exists>t e1 e2 e3 e4 e5. command_produce (example_real t (submit_wire example_base 0x200 4 0 0 1 (replicate 8 0))) = Some (Inr e1) \<and>
    execute_command (proxy_handlers example_libusb) e1 = Some (Inr e2) \<and>
    libusb_completes 5 (returned (given_transfer TRANSFER_TYPE_INTERRUPT 1 0x82 [0, 0, 0, 0]) Completed 3 [9, 8, 7, 0]) e2 = Inr e3 \<and>
    send_data_to_host 2 e3 = Some (Inr e4) \<and> reply_consume e4 = Some (Inr e5) \<and>
    socket_out e5 = [be32 3 @ be32 7 @ be32 0x10002 @ be32 1 @ be32 2 @ be32 0 @ be32 3 @ be32 0 @ be32 0 @ be32 0 @
      replicate 8 0 @ [9, 8, 7]]"
proof -
  obtain t where t: "\<And>bs. ep_transfer_type 0x82 (dev (example_real t bs)) = Some TRANSFER_TYPE_INTERRUPT"
    using example_real_endpoint [of "0x82"] by blast
  let ?w = "submit_wire example_base 0x200 4 0 0 1 (replicate 8 0)" and ?b = example_base
  let ?t = "given_transfer TRANSFER_TYPE_INTERRUPT 1 0x82 (replicate 4 0)"
  have b: "hb_command ?b = USBIP_CMD_SUBMIT" "hb_direction ?b = USBIP_DIR_IN" "2 = unat (hb_ep ?b)" "hb_seqnum ?b = 7"
    "hb_devid ?b = 0x10002" "hb_ep ?b = 2" "0x82 = ucast (hb_ep ?b) OR (0x80 :: u8)"
    by (simp_all add: example_base_def usbip_consts)
  have idle: "in_commands (example_real t ?w) ! 2 = q_init" "in_data (example_real t ?w) ! 2 = q_init"
    by (simp_all add: example_real_idle max_count_in_def)
  have sock: "socket_in (example_real t ?w) = submit_wire ?b 0x200 (of_nat 4) 0 0 1 (replicate 8 0) @ []"
    by (simp add: example_real_idle)
  have ty: "TRANSFER_TYPE_INTERRUPT \<in> {TRANSFER_TYPE_BULK, TRANSFER_TYPE_INTERRUPT}" by simp
  from device_in_transfer_answered [OF example_real_idle(1-6) idle example_real_idle(9,10) b(1-3) _ _ _ _ _ sock b(7) t ty
      refl example_real_idle(11), of "[9, 8, 7, 0]" 3]
  obtain e1 e2 e3 e4 e5 where "command_produce (example_real t ?w) = Some (Inr e1)"
    "execute_command (proxy_handlers example_libusb) e1 = Some (Inr e2)"
    "libusb_completes 5 (returned ?t Completed 3 [9, 8, 7, 0]) e2 = Inr e3"
    "send_data_to_host 2 e3 = Some (Inr e4)" "reply_consume e4 = Some (Inr e5)"
    "socket_out e5 = [be32 3 @ be32 7 @ be32 0x10002 @ be32 1 @ be32 2 @ be32 0 @ be32 3 @ be32 0 @ be32 0 @ be32 0 @
      replicate 8 0 @ [9, 8, 7]]"
    by (auto simp: example_real_idle(14) b(4-6) usbip_consts)
  moreover have four: "replicate 4 0 = [0, 0, 0, 0 :: u8]" by (simp add: numeral_eq_Suc)
  ultimately show ?thesis unfolding four by blast
qed

lemma device_out_transfer_acknowledged_witness:
  "\<exists>t e1 e2 e3 e4. command_produce (example_real t (submit_wire (example_base\<lparr>hb_direction := 0\<rparr>) 0 3 0 0 1 (replicate 8 0) @ [4, 5, 6])) = Some (Inr e1) \<and>
    execute_command (proxy_handlers example_libusb) e1 = Some (Inr e2) \<and>
    pm_heap (dv_pending (dev e2)) 5 = Some (given_transfer TRANSFER_TYPE_INTERRUPT 1 2 [4, 5, 6]) \<and>
    libusb_completes 5 (returned (given_transfer TRANSFER_TYPE_INTERRUPT 1 2 [4, 5, 6]) Completed 3 [4, 5, 6]) e2 = Inr e3 \<and>
    reply_consume e3 = Some (Inr e4) \<and>
    socket_out e4 = [be32 3 @ be32 7 @ be32 0x10002 @ be32 0 @ be32 2 @ be32 0 @ be32 3 @ be32 0 @ be32 0 @ be32 0 @ replicate 8 0]"
proof -
  obtain t where t: "\<And>bs. ep_transfer_type 2 (dev (example_real t bs)) = Some TRANSFER_TYPE_INTERRUPT"
    using example_real_endpoint [of 2] by blast
  let ?b = "example_base\<lparr>hb_direction := 0\<rparr>"
  let ?w = "submit_wire ?b 0 3 0 0 1 (replicate 8 0) @ [4, 5, 6]"
  have b: "hb_command ?b = USBIP_CMD_SUBMIT" "hb_direction ?b = USBIP_DIR_OUT" "0 < unat (hb_ep ?b)" "unat (hb_ep ?b) < 16"
    "hb_seqnum ?b = 7" "hb_devid ?b = 0x10002" "hb_ep ?b = 2" "2 = (ucast (hb_ep ?b) :: u8)"
    by (simp_all add: example_base_def usbip_consts)
  have sock: "socket_in (example_real t ?w) = submit_wire ?b 0 (of_nat (length [4, 5, 6 :: u8])) 0 0 1 (replicate 8 0) @ [4, 5, 6] @ []"
    by (simp add: example_real_idle)
  have ty: "TRANSFER_TYPE_INTERRUPT \<in> {TRANSFER_TYPE_BULK, TRANSFER_TYPE_INTERRUPT}" by simp
  have len: "length [4, 5, 6 :: u8] = 3" by simp
  from device_out_transfer_acknowledged [OF example_real_idle(1-6,9,10) b(1-4) _ _ _ sock b(8) t ty refl example_real_idle(11), unfolded len]
  obtain e1 e2 e3 e4 where "command_produce (example_real t ?w) = Some (Inr e1)"
    "execute_command (proxy_handlers example_libusb) e1 = Some (Inr e2)"
    "pm_heap (dv_pending (dev e2)) 5 = Some (given_transfer TRANSFER_TYPE_INTERRUPT 1 2 [4, 5, 6])"
    "libusb_completes 5 (returned (given_transfer TRANSFER_TYPE_INTERRUPT 1 2 [4, 5, 6]) Completed 3 [4, 5, 6]) e2 = Inr e3"
    "reply_consume e3 = Some (Inr e4)"
    "socket_out e4 = [be32 3 @ be32 7 @ be32 0x10002 @ be32 0 @ be32 2 @ be32 0 @ be32 3 @ be32 0 @ be32 0 @ be32 0 @ replicate 8 0]"
    by (auto simp: example_real_idle(14) b(5-7) usbip_consts)
  then show ?thesis by blast
qed



section \<open>What stays true\<close>

text \<open>C3: In every state the proxy's threads can reach, in any order: a command waits only in the queue
  of its own endpoint and is an IN submit; what is queued for and written to the host are replies of
  at least 48 bytes that start with RET_SUBMIT or RET_UNLINK; and no transfer is leaked or freed twice but
  for the ones the last step of \<open>cancel\<close> throws out. Each allocation of an address was freed once, or is the
  one that waits in the map, or was thrown out after \<open>cancel\<close> had seen the map empty; the address is
  allocated in the second and the third case only.\<close>

theorem proxy_invariants:
  assumes "proxy_reachable L e" "w = dv_pending (dev e)"
  shows "engine_inv e \<and> list_all wire_reply (socket_out e) \<and>
    (\<forall>tid. allocations tid (pm_log w) =
        frees tid (pm_log w) + of_bool (om_find (pm_pending w) tid \<noteq> None) + drops tid (pm_log w) \<and>
      (pm_heap w tid \<noteq> None \<longleftrightarrow> om_find (pm_pending w) tid \<noteq> None \<or> drops tid (pm_log w) \<noteq> 0) \<and>
      (drops tid (pm_log w) \<noteq> 0 \<longrightarrow> pm_waited w))"
proof -
  have inv: "engine_inv e" "pm_inv_at w tid" "accounted w" for tid
    using proxy_reachable_inv [OF assms(1)] assms(2) by (auto simp: pm_inv_def)
  have "allocations tid (pm_log w) = frees tid (pm_log w) + of_bool (om_find (pm_pending w) tid \<noteq> None) + drops tid (pm_log w) \<and>
      (pm_heap w tid \<noteq> None \<longleftrightarrow> om_find (pm_pending w) tid \<noteq> None \<or> drops tid (pm_log w) \<noteq> 0) \<and>
      (drops tid (pm_log w) \<noteq> 0 \<longrightarrow> pm_waited w)" for tid
    using inv(2) [of tid] inv(3)
    by (cases "pm_heap w tid"; cases "om_find (pm_pending w) tid") (auto simp: pm_inv_at_def accounted_def drops_late_def)
  then show ?thesis using inv(1) by (simp add: engine_inv_def)
qed

lemma proxy_invariants_witness:
  "\<exists>(e2 :: (unit, unit) proxy) (e3 :: (unit, unit) proxy). proxy_reachable example_libusb e2 \<and> proxy_reachable example_libusb e3 \<and>
    allocations 5 (pm_log (dv_pending (dev e2))) = Suc (frees 5 (pm_log (dv_pending (dev e2)))) \<and>
    allocations 5 (pm_log (dv_pending (dev e3))) = frees 5 (pm_log (dv_pending (dev e3))) \<and>
    frees 5 (pm_log (dv_pending (dev e3))) = Suc (frees 5 (pm_log (dv_pending (dev e2))))"
proof -
  obtain t where t: "\<And>bs. ep_transfer_type 2 (dev (example_real t bs)) = Some TRANSFER_TYPE_INTERRUPT"
    using example_real_endpoint [of 2] by blast
  let ?b = "example_base\<lparr>hb_direction := 0\<rparr>" and ?t = "given_transfer TRANSFER_TYPE_INTERRUPT 1 2 [4, 5, 6]"
  let ?w = "submit_wire ?b 0 3 0 0 1 (replicate 8 0) @ [4, 5, 6]" and ?L = example_libusb
  let ?e = "example_real t ?w"
  have b: "hb_command ?b = USBIP_CMD_SUBMIT" "hb_direction ?b = USBIP_DIR_OUT" "0 < unat (hb_ep ?b)" "unat (hb_ep ?b) < 16"
    "2 = (ucast (hb_ep ?b) :: u8)"
    by (simp_all add: example_base_def usbip_consts)
  have sock: "socket_in ?e = submit_wire ?b 0 (of_nat (length [4, 5, 6 :: u8])) 0 0 1 (replicate 8 0) @ [4, 5, 6] @ []"
    by (simp add: example_real_idle)
  obtain e1 d where run: "command_produce ?e = Some (Inr e1)" "dev e1 = dev ?e"
      "execute_command (proxy_handlers ?L) e1 = Some (Inr (?e\<lparr>socket_in := [], dev := d\<rparr>))"
    and d: "opened_device 1 d" "pm_heap (dv_pending d) 5 = Some ?t" "om_find (pm_pending (dv_pending d)) 5 \<noteq> None"
    using out_command_submitted [OF example_real_idle(2-5,10) b(1-4) _ _ _ sock b(5) t _ refl example_real_idle(11) refl] by auto
  define e2 where "e2 = ?e\<lparr>socket_in := [], dev := d\<rparr>"
  have "proxy_reachable ?L ?e"
  proof -
    let ?d = "(example_device t)\<lparr>dv_mock_class := False, dv_handle := Some 1, dv_mock_iface := None\<rparr>"
    have "proxy_reachable ?L (engine_init ?d)" by (rule proxy_start) (simp add: example_device_def)
    from proxy_next [OF this step_receive [where bs = ?w]] show ?thesis by (simp add: example_real_def engine_init_def)
  qed
  from proxy_next [OF this step_produce [OF run(1)]] have "proxy_reachable ?L e1" .
  from proxy_next [OF this step_execute [OF _ run(3)]] have reach2: "proxy_reachable ?L e2"
    using example_real_idle(3) run(2) by (simp add: e2_def)
  obtain cb where "om_find (pm_pending (dv_pending (dev e2))) 5 = Some cb" using d(3) by (auto simp: e2_def)
  then obtain e3 where c: "libusb_completes 5 (returned ?t Cancelled 0 []) e2 = Inr e3" "pm_heap (dv_pending (dev e3)) 5 = None"
    using real_completes [of 1 e2 5 cb "returned ?t Cancelled 0 []"] d(1) by (auto simp: e2_def returned_def run_callbacks_none)
  have reach3: "proxy_reachable ?L e3"
    by (rule proxy_next [OF reach2 step_usb_completes [OF _ c(1)]]) (simp add: e2_def d(2))
  have "om_find (pm_pending (dv_pending (dev e2))) 5 \<noteq> None" using d(3) by (simp add: e2_def)
  moreover have "plain (dv_pending (dev e2)) (dv_pending (dev e3))" by (rule completes_plain(1) [OF c(1)])
  moreover note at = proxy_invariants [OF _ refl, THEN conjunct2, THEN conjunct2, THEN spec, where x = 5]
  ultimately have "allocations 5 (pm_log (dv_pending (dev e2))) = Suc (frees 5 (pm_log (dv_pending (dev e2))))"
    "allocations 5 (pm_log (dv_pending (dev e3))) = frees 5 (pm_log (dv_pending (dev e3)))"
    "frees 5 (pm_log (dv_pending (dev e3))) = Suc (frees 5 (pm_log (dv_pending (dev e2))))"
    using at [OF reach2] at [OF reach3] c(2) by (simp_all add: plain_def)
  with reach2 reach3 show ?thesis by blast
qed

end
