(* ===== verification/Plugin_System.thy ===== *)
theory Plugin_System
  imports Device_Path Plugin_Properties
begin

text \<open>
  A plugin with a thread of its own behind the proxy: the transfers of endpoint 0x81 wait in the
  plugin's queue, and the thread completes the oldest one when it acts. The locale
  \<open>deferring_plugin\<close> is what the proxy relies on; the mouse and the playback are its instances.
\<close>

section \<open>The thread of a plugin\<close>

definition mock_with :: "'p plugin_type \<Rightarrow> ('p, 'l, 'cb) device \<Rightarrow> bool" where
  "mock_with T d \<longleftrightarrow> dv_mock_class d \<and> dv_mock_iface d = Some (register_usb_mock T)"

type_synonym 'p plugin_thread = "(nat \<Rightarrow> libusb_transfer option) \<Rightarrow> 'p \<Rightarrow> ((nat \<times> libusb_transfer) option \<times> 'p) res"

text \<open>One turn of the thread: what it completes goes through the control handle to the device.\<close>

definition plugin_acts :: "'p plugin_thread \<Rightarrow> ('p, 'l) proxy \<Rightarrow> ('p, 'l) proxy res" where
  "plugin_acts act e =
     bindR (act (pm_heap (dv_pending (dev e))) (dv_plugin (dev e))) (\<lambda>(completed, p).
     let e = e\<lparr>dev := (dev e)\<lparr>dv_plugin := p\<rparr>\<rparr>
     in case completed of None \<Rightarrow> Inr e | Some (ctx, t) \<Rightarrow> plugin_completes ctx t e)"

text \<open>The turn of the playback thread, without the time it waits.\<close>

definition playback_acts :: "playback_device plugin_thread" where
  "playback_acts heap d = bindR (playback_round heap d) (\<lambda>(_, completed, d). Inr (completed, d))"

text \<open>The proxy, its plugin thread and the host, as long as the proxy is not being destroyed.\<close>

inductive mock_reachable :: "'p plugin_type \<Rightarrow> 'p plugin_thread \<Rightarrow> 'p \<Rightarrow> 'l libusb \<Rightarrow> ('p, 'l) proxy \<Rightarrow> bool"
  for T :: "'p plugin_type" and act :: "'p plugin_thread" and p :: 'p and L :: "'l libusb" where
  mock_start: "mock_reachable T act p L (engine_init (mock_construct t (Some (register_usb_mock T)) p l))"
| mock_receive: "mock_reachable T act p L e \<Longrightarrow> mock_reachable T act p L (e\<lparr>socket_in := socket_in e @ bs\<rparr>)"
| mock_produce: "mock_reachable T act p L e \<Longrightarrow> command_produce e = Some (Inr e') \<Longrightarrow> mock_reachable T act p L e'"
| mock_execute: "mock_reachable T act p L e \<Longrightarrow> allocator_fresh L (dev e) \<Longrightarrow>
    execute_command (proxy_handlers L) e = Some (Inr e') \<Longrightarrow> mock_reachable T act p L e'"
| mock_reply: "mock_reachable T act p L e \<Longrightarrow> reply_consume e = Some (Inr e') \<Longrightarrow> mock_reachable T act p L e'"
| mock_send: "mock_reachable T act p L e \<Longrightarrow> send_data_to_host i e = Some (Inr e') \<Longrightarrow> mock_reachable T act p L e'"
| mock_act: "mock_reachable T act p L e \<Longrightarrow> plugin_acts act e = Inr e' \<Longrightarrow> mock_reachable T act p L e'"

text \<open>
  What holds in between: the waiting handles are different, live and pending, and the commands that
  wait at endpoint 1 are as many as the transfers that wait in the plugin and the data that wait for
  the host together.
\<close>

definition handle_waits :: "('p, 'l, callback) device \<Rightarrow> nat \<Rightarrow> bool" where
  "handle_waits d h \<longleftrightarrow> (\<exists>t. pm_heap (dv_pending d) h = Some t \<and> t_endpoint t = 0x81 \<and> t_dev_handle t = None \<and>
       t_actual_length t = 0) \<and>
     om_find (pm_pending (dv_pending d)) h \<in> {Some In_Cb, Some In_Iso_Cb}"

definition plugin_inv :: "'p plugin_type \<Rightarrow> ('p \<Rightarrow> nat list) \<Rightarrow> ('p, 'l) proxy \<Rightarrow> bool" where
  "plugin_inv T waiting e \<longleftrightarrow> engine_inv e \<and> pm_inv (dv_pending (dev e)) \<and> mock_with T (dev e) \<and>
     distinct (waiting (dv_plugin (dev e))) \<and> (\<forall>h\<in>set (waiting (dv_plugin (dev e))). handle_waits (dev e) h) \<and>
     length (waiting (dv_plugin (dev e))) + length (q_items (in_data e ! 1)) = length (q_items (in_commands e ! 1))"

definition plugin_kept :: "'p plugin_type \<Rightarrow> ('p \<Rightarrow> nat list) \<Rightarrow> ('p, 'l, 'cb) device \<Rightarrow> ('p, 'l, 'cb) device \<Rightarrow> bool" where
  "plugin_kept T waiting d d' \<longleftrightarrow> (mock_with T d \<longrightarrow> mock_with T d' \<and> waiting (dv_plugin d') = waiting (dv_plugin d))"

lemma mock_is_mock: "mock_with T d \<Longrightarrow> device_is_mock d = Inr True"
  by (simp add: mock_with_def device_is_mock_def underlying_handle_def)

lemma in_callback_queues:
  assumes "run_callbacks [(cb, t)] e = Inr e'" "cb \<in> {In_Cb, In_Iso_Cb}" "t_endpoint t = 0x81"
  shows "\<exists>d. q_items (in_data e' ! 1) = q_items (in_data e ! 1) @ [d]"
proof -
  have "queue_data_for_host (Some t) e = Inr e'"
    using assms(1,2) by (auto simp: run_callbacks_def run_callback_def on_in_transfer_complete_def
        on_in_iso_transfer_complete_def bindR_Inr_iff)
  moreover have "unat (t_endpoint t AND LIBUSB_ENDPOINT_ADDRESS_MASK) = 1"
    by (simp add: assms(3) LIBUSB_ENDPOINT_ADDRESS_MASK_def)
  ultimately show ?thesis
    by (auto simp: queue_data_for_host_def bindR_Inr_iff Let_def dest!: sq.push_Inr)
qed

lemma ep_address_81:
  assumes "unat (cmd_ep c) < 16"
  shows "ep_address c = 0x81 \<longleftrightarrow> is_in c \<and> cmd_ep c = 1"
proof -
  obtain k where k: "k < 16" "cmd_ep c = of_nat k"
    using assms by (intro that [of "unat (cmd_ep c)"]) simp_all
  have "k = 0 \<or> k = 1 \<or> k = 2 \<or> k = 3 \<or> k = 4 \<or> k = 5 \<or> k = 6 \<or> k = 7 \<or> k = 8 \<or> k = 9 \<or> k = 10 \<or>
      k = 11 \<or> k = 12 \<or> k = 13 \<or> k = 14 \<or> k = 15" using k(1) by presburger
  then show ?thesis
    by (elim disjE; cases "is_in c"; simp add: ep_address_def k(2) LIBUSB_ENDPOINT_IN_def LIBUSB_ENDPOINT_OUT_def)
qed

lemma prepare_transfer_fields:
  assumes "prepare_transfer c = Inr info"
  shows "xf_ep_address info = ep_address c" "is_in c \<Longrightarrow> xf_callback info \<in> {In_Cb, In_Iso_Cb}"
  using assms by (auto simp: prepare_transfer_def bindR_Inr_iff split: if_splits)

section \<open>The contract\<close>

locale deferring_plugin =
  fixes T :: "'p plugin_type" and waiting :: "'p \<Rightarrow> nat list" and act :: "'p plugin_thread"
  assumes request: "\<exists>p'. dispatch_transfer_request T ctx t p = (t, False, p') \<and>
      waiting p' = waiting p @ (if t_endpoint t = 0x81 then [ctx] else [])"
    and complete: "dispatch_transfer_complete T ctx t p = (t, False, p)"
    and setup_keeps: "dispatch_control_setup T s data r p = (r', data', p') \<Longrightarrow> waiting p' = waiting p"
    and configuration_keeps: "dispatch_set_configuration T i p = (r, p') \<Longrightarrow> waiting p' = waiting p"
    and interface_keeps: "dispatch_set_interface T i alt p = (r, p') \<Longrightarrow> waiting p' = waiting p"
    and act_idle: "act heap p = Inr (None, p') \<Longrightarrow> waiting p' = waiting p"
    and act_oldest: "act heap p = Inr (Some (ctx, t), p') \<Longrightarrow> waiting p = ctx # waiting p' \<and>
      (\<exists>x. heap ctx = Some x \<and> t_endpoint t = t_endpoint x \<and> t_dev_handle t = t_dev_handle x)"
begin

lemma device_keeps:
  "submit_control_setup L s data d = Inr (q, d') \<Longrightarrow> plugin_kept T waiting d d'"
  "set_interface L i alt d = Inr (r, d') \<Longrightarrow> plugin_kept T waiting d d'"
  "set_configuration L i d = Inr (r, d') \<Longrightarrow> plugin_kept T waiting d d'"
proof -
  show "plugin_kept T waiting d d'" if run: "submit_control_setup L s data d = Inr (q, d')"
    unfolding plugin_kept_def
  proof
    assume m: "mock_with T d"
    obtain r bs p' where f: "dispatch_control_setup T s (resize (unat (wLength s)) data) LIBUSB_ERROR_NOT_SUPPORTED (dv_plugin d) = (r, bs, p')"
      by (rule prod_cases3)
    then have "d' = d\<lparr>dv_plugin := p'\<rparr>" using run m
      by (auto simp: submit_control_setup_def bindR_Inr_iff mock_is_mock [OF m] control_on_usb_def control_on_plugin_def
          mock_with_def register_usb_mock_def)
    then show "mock_with T d' \<and> waiting (dv_plugin d') = waiting (dv_plugin d)"
      using m setup_keeps [OF f] by (simp add: mock_with_def)
  qed
  show "plugin_kept T waiting d d'" if run: "set_interface L i alt d = Inr (r, d')"
    unfolding plugin_kept_def
  proof
    assume m: "mock_with T d"
    obtain r1 p' where f: "dispatch_set_interface T i alt (dv_plugin d) = (r1, p')" by force
    have "mock_with T (d\<lparr>dv_plugin := p'\<rparr>)" using m by (simp add: mock_with_def)
    then have "dv_plugin d' = p' \<and> mock_with T d'" using run m f
      by (auto simp: set_interface_def device_on_set_interface_def bindR_Inr_iff mock_is_mock plugin_set_interface_def
          mock_with_def register_usb_mock_def split: if_splits)
    then show "mock_with T d' \<and> waiting (dv_plugin d') = waiting (dv_plugin d)"
      using interface_keeps [OF f] by simp
  qed
  show "plugin_kept T waiting d d'" if run: "set_configuration L i d = Inr (r, d')"
    unfolding plugin_kept_def
  proof
    assume m: "mock_with T d"
    obtain r1 p' where f: "dispatch_set_configuration T i (dv_plugin d) = (r1, p')" by force
    have "mock_with T (d\<lparr>dv_plugin := p'\<rparr>)" using m by (simp add: mock_with_def)
    then have "dv_plugin d' = p' \<and> mock_with T d'" using run m f
      by (auto simp: set_configuration_def bindR_Inr_iff mock_is_mock plugin_set_configuration_def
          mock_with_def register_usb_mock_def split: if_splits)
    then show "mock_with T d' \<and> waiting (dv_plugin d') = waiting (dv_plugin d)"
      using configuration_keeps [OF f] by simp
  qed
qed

lemma on_dev_keeps:
  assumes "on_dev f g e = Inr e'" "\<And>r d. f (dev e) = Inr (r, d) \<Longrightarrow> plugin_kept T waiting (dev e) d"
    and "\<And>r e1 e2. g r e1 = Inr e2 \<Longrightarrow> dev e2 = dev e1"
  shows "plugin_kept T waiting (dev e) (dev e')"
proof -
  obtain r d where f: "f (dev e) = Inr (r, d)" and g: "g r (e\<lparr>dev := d\<rparr>) = Inr e'"
    using assms(1) by (auto simp: on_dev_Inr)
  show ?thesis using assms(2) [OF f] assms(3) [OF g] by simp
qed

lemma reply_keeps: "queue_reply_to_host req e = Inr e' \<Longrightarrow> plugin_kept T waiting (dev e) (dev e')"
  by (simp add: plugin_kept_def queue_reply_dev)

lemma submit_control_keeps:
  "submit_in_control L cmd e = Inr e' \<Longrightarrow> plugin_kept T waiting (dev e) (dev e')"
  "submit_out_control L cmd e = Inr e' \<Longrightarrow> plugin_kept T waiting (dev e) (dev e')"
  unfolding submit_in_control_def submit_out_control_def
  by (erule on_dev_keeps; auto intro: device_keeps reply_dev)+

lemma descriptor_keeps:
  assumes "descriptor L cmd e = Inr e'"
  shows "plugin_kept T waiting (dev e) (dev e')"
proof -
  let ?g = "\<lambda>data. case data of Inl r \<Rightarrow> reply_in_control cmd (Inl r)
    | Inr bs \<Rightarrow> reply_descriptor cmd (to_packing_type bs [])"
  have g: "?g r e1 = Inr e2 \<Longrightarrow> dev e2 = dev e1" for r and e1 e2 :: "('p, 'l) proxy"
    by (cases r) (simp_all add: reply_dev)
  consider "dev e' = dev e" | "on_dev (submit_control_setup L (control_setup cmd) []) ?g e = Inr e'"
    using assms unfolding descriptor_def Let_def
    by (auto simp: bindR_Inr_iff dest: reply_dev split: if_splits)
  then show ?thesis
  proof cases
    case 1
    then show ?thesis by (simp add: plugin_kept_def)
  next
    case 2
    show ?thesis by (rule on_dev_keeps [OF 2]) (erule device_keeps(1), erule g)
  qed
qed

lemma in_control_keeps:
  "proxy_execute_in_control_command L cmd e = Inr e' \<Longrightarrow> plugin_kept T waiting (dev e) (dev e')"
  by (auto simp: proxy_execute_in_control_command_def execute_std_in_device_control_command_def
      execute_std_in_interface_control_command_def Let_def
      split: if_splits intro: submit_control_keeps descriptor_keeps reply_keeps)

lemma out_control_keeps:
  "proxy_execute_out_control_command L cmd e = Inr e' \<Longrightarrow> plugin_kept T waiting (dev e) (dev e')"
  by (auto simp: proxy_execute_out_control_command_def execute_std_out_device_control_command_def
      execute_std_out_interface_control_command_def proxy_set_configuration_def proxy_interface_def
      Let_def bindR_Inr_iff
      split: if_splits intro: submit_control_keeps reply_keeps device_keeps queue_reply_dev elim!: on_dev_keeps)

lemma control_keeps:
  "execute_control_command (proxy_handlers L) cmd e = Inr e' \<Longrightarrow> plugin_kept T waiting (dev e) (dev e')"
  by (auto simp: execute_control_command_def proxy_handlers_def split: if_splits
      intro: in_control_keeps out_control_keeps)

text \<open>A submitted transfer waits: it is attached, shown to the plugin and not completed.\<close>

lemma submit_waits:
  fixes d :: "('p, 'l, 'cb) device" and info :: "'cb xfer_info"
  assumes "mock_with T d" "pm_inv (dv_pending d)" "pm_heap (dv_pending d) tid = None"
    and "lu_alloc_transfer L (if k = Fill_Iso then iso_count info else 0) (dv_usb d) = (Some tid, l)"
    and "fill_transfer k info None = Inr t"
  shows "\<exists>d'. submit_transfer_impl L k info d = Inr ([], d') \<and> mock_with T d' \<and> dv_usb d' = l \<and> dv_tree d' = dv_tree d \<and>
    pm_heap (dv_pending d') = (pm_heap (dv_pending d))(tid \<mapsto> t\<lparr>t_user_data := Some 1\<rparr>) \<and>
    om_find (pm_pending (dv_pending d')) = (om_find (pm_pending (dv_pending d)))(tid \<mapsto> xf_callback info) \<and>
    waiting (dv_plugin d') = waiting (dv_plugin d) @ (if t_endpoint t = 0x81 then [tid] else []) \<and>
    dispatch_transfer_request T tid (t\<lparr>t_user_data := Some 1\<rparr>) (dv_plugin d) =
      (t\<lparr>t_user_data := Some 1\<rparr>, False, dv_plugin d')"
proof -
  have om: "om_inv (pm_pending (dv_pending d))" using assms(2) by (simp add: pm_inv_def)
  have "om_find (pm_pending (dv_pending d)) tid = None"
    using pm_inv_live [OF assms(2)] assms(3) by blast
  then have new: "snd (om_insert tid (xf_callback info) (pm_pending (dv_pending d)))"
    using smap.insert_flag [OF om] by blast
  let ?t = "t\<lparr>t_user_data := Some 1\<rparr>"
  define w1 where "w1 = log_event (Allocated tid) ((dv_pending d)\<lparr>pm_heap := (pm_heap (dv_pending d))(tid := Some t)\<rparr>)"
  have 1: "allocate L k info d = Inr (tid, d\<lparr>dv_usb := l, dv_pending := w1\<rparr>)"
    using assms(1,4,5) by (simp add: allocate_def underlying_handle_def mock_with_def w1_def)
  define w2 where "w2 = log_event (Attached (xf_callback info) tid) (w1\<lparr>pm_heap := (pm_heap w1)(tid := Some ?t),
      pm_pending := fst (om_insert tid (xf_callback info) (pm_pending (dv_pending d)))\<rparr>)"
  have 2: "pm_attach (xf_callback info) tid (Some 1) w1 = Inr w2"
    using new by (simp add: pm_attach_def Let_def w2_def) (simp add: w1_def)
  have heap: "pm_heap w2 = (pm_heap (dv_pending d))(tid \<mapsto> ?t)"
    and pending: "om_find (pm_pending w2) = (om_find (pm_pending (dv_pending d)))(tid \<mapsto> xf_callback info)"
    by (simp_all add: w2_def w1_def om_find_insert [OF om] fun_eq_iff)
      (use \<open>om_find (pm_pending (dv_pending d)) tid = None\<close> in auto)
  let ?d2 = "d\<lparr>dv_usb := l, dv_pending := w2\<rparr>"
  obtain p' where p': "dispatch_transfer_request T tid ?t (dv_plugin d) = (?t, False, p')"
    "waiting p' = waiting (dv_plugin d) @ (if t_endpoint ?t = 0x81 then [tid] else [])"
    using request by blast
  let ?d3 = "put_transfer tid ?t (?d2\<lparr>dv_plugin := p'\<rparr>)"
  have 3: "show_request tid ?d2 = Inr ([], ?d3)"
    using assms(1) p'(1) heap by (simp add: show_request_def mock_with_def register_usb_mock_def Let_def del: One_nat_def)
  have m: "mock_with T ?d3" using assms(1) by (simp add: mock_with_def put_transfer_def)
  have "submit_transfer_impl L k info d = Inr ([], ?d3)"
    by (simp add: submit_transfer_impl_def 1 2 3 mock_is_mock [OF m] del: One_nat_def)
  then show ?thesis
    using m p' by (intro exI [of _ ?d3]) (simp add: put_transfer_def heap pending del: One_nat_def)
qed

lemma submit_impl_waits:
  fixes d :: "('p, 'l, 'cb) device" and info :: "'cb xfer_info"
  assumes "mock_with T d" "pm_inv (dv_pending d)" "allocator_fresh L d" "submit_transfer_impl L k info d = Inr (called, d')"
  shows "\<exists>tid t. called = [] \<and> mock_with T d' \<and> pm_heap (dv_pending d) tid = None \<and>
    t_endpoint t = xf_ep_address info \<and> t_dev_handle t = None \<and> t_actual_length t = 0 \<and>
    pm_heap (dv_pending d') = (pm_heap (dv_pending d))(tid \<mapsto> t) \<and>
    om_find (pm_pending (dv_pending d')) = (om_find (pm_pending (dv_pending d)))(tid \<mapsto> xf_callback info) \<and>
    waiting (dv_plugin d') = waiting (dv_plugin d) @ (if xf_ep_address info = 0x81 then [tid] else [])"
proof -
  define n where "n = (if k = Fill_Iso then iso_count info else 0)"
  obtain a l where a: "lu_alloc_transfer L n (dv_usb d) = (a, l)" by force
  have h: "underlying_handle d = Inr None" using assms(1) by (simp add: underlying_handle_def mock_with_def)
  obtain tid d1 where "allocate L k info d = Inr (tid, d1)"
    using assms(4) by (auto simp: submit_transfer_impl_def bindR_Inr_iff)
  then have "(case a of None \<Rightarrow> Inl Assertion_Failed | Some tid \<Rightarrow> bindR (fill_transfer k info None) (\<lambda>t.
      Inr (tid, d\<lparr>dv_usb := l, dv_pending := log_event (Allocated tid)
        ((dv_pending d)\<lparr>pm_heap := (pm_heap (dv_pending d))(tid := Some t)\<rparr>)\<rparr>))) = Inr (tid, d1)"
    by (simp only: allocate_def n_def [symmetric] a h bindR.simps prod.case)
  then obtain t where t: "a = Some tid" "fill_transfer k info None = Inr t"
    by (cases a) (auto simp: bindR_Inr_iff)
  have "case fst (lu_alloc_transfer L n (dv_usb d)) of None \<Rightarrow> True | Some tid \<Rightarrow> pm_heap (dv_pending d) tid = None"
    using assms(3) unfolding allocator_fresh_def by blast
  then have free: "pm_heap (dv_pending d) tid = None" by (simp add: a t(1))
  have ends: "t_endpoint t = xf_ep_address info" "t_dev_handle t = None" "t_actual_length t = 0"
    using t(2) by (auto simp: fill_transfer_def fill_bulk_def fill_interrupt_def fill_iso_def filled_def Let_def
        split: fill_kind.splits if_splits)
  show ?thesis
    using submit_waits [OF assms(1,2) free a [unfolded t(1) n_def] t(2)] assms(4) free ends
    by (intro exI [of _ tid] exI [of _ "t\<lparr>t_user_data := Some 1\<rparr>"]) (auto simp del: One_nat_def)
qed

lemma complete_waiting:
  fixes d :: "('p, 'l, 'cb) device"
  assumes "mock_with T d" "t_dev_handle t = None" "om_find (pm_pending (dv_pending d)) ctx = Some cb"
  shows "\<exists>d'. control_complete ctx (put_transfer ctx t d) = Inr ([(cb, t\<lparr>t_status := Completed\<rparr>)], d') \<and>
    mock_with T d' \<and> dv_plugin d' = dv_plugin d \<and> dv_usb d' = dv_usb d \<and> dv_tree d' = dv_tree d \<and>
    pm_heap (dv_pending d') = (pm_heap (dv_pending d))(ctx := None) \<and>
    om_find (pm_pending (dv_pending d')) = (om_find (pm_pending (dv_pending d)))(ctx := None)"
proof -
  have shown: "dispatch_transfer_complete T = (\<lambda>ctx t p. (t, False, p))" using complete by (simp add: fun_eq_iff)
  show ?thesis
    using assms
    by (simp add: control_complete_def is_mock_def put_transfer_def device_on_transfer_completed_def mock_with_def
        register_usb_mock_def shown on_transfer_completed_impl_def give_away_transfer_def om_find_erase Let_def)
qed

lemma submit_transfer_waits:
  assumes "mock_with T (dev e)" "pm_inv (dv_pending (dev e))" "allocator_fresh L (dev e)"
    and "unat (cmd_ep c) < 16" "submit_transfer L c e = Inr e'"
  shows "\<exists>tid t cb. e' = e\<lparr>dev := dev e'\<rparr> \<and> mock_with T (dev e') \<and> pm_heap (dv_pending (dev e)) tid = None \<and>
    t_endpoint t = ep_address c \<and> t_dev_handle t = None \<and> t_actual_length t = 0 \<and> (is_in c \<longrightarrow> cb \<in> {In_Cb, In_Iso_Cb}) \<and>
    pm_heap (dv_pending (dev e')) = (pm_heap (dv_pending (dev e)))(tid \<mapsto> t) \<and>
    om_find (pm_pending (dv_pending (dev e'))) = (om_find (pm_pending (dv_pending (dev e))))(tid \<mapsto> cb) \<and>
    waiting (dv_plugin (dev e')) = waiting (dv_plugin (dev e)) @ (if is_in c \<and> cmd_ep c = 1 then [tid] else [])"
proof -
  obtain k where "submit_kind_transfer L k c e = Inr e'"
    using assms(5) by (auto simp: submit_transfer_def split: option.splits if_splits)
  then obtain info called d where info: "prepare_transfer c = Inr info"
    and d: "submit_transfer_impl L k info (dev e) = Inr (called, d)" "run_callbacks called (e\<lparr>dev := d\<rparr>) = Inr e'"
    by (auto simp: submit_kind_transfer_def bindR_Inr_iff on_dev_Inr)
  obtain tid t where t: "called = []" "mock_with T d" "pm_heap (dv_pending (dev e)) tid = None"
    "t_endpoint t = ep_address c" "t_dev_handle t = None" "t_actual_length t = 0"
    "pm_heap (dv_pending d) = (pm_heap (dv_pending (dev e)))(tid \<mapsto> t)"
    "om_find (pm_pending (dv_pending d)) = (om_find (pm_pending (dv_pending (dev e))))(tid \<mapsto> xf_callback info)"
    "waiting (dv_plugin d) = waiting (dv_plugin (dev e)) @ (if ep_address c = 0x81 then [tid] else [])"
    using submit_impl_waits [OF assms(1-3) d(1)] prepare_transfer_fields(1) [OF info] by auto
  have "e' = e\<lparr>dev := d\<rparr>" using d(2) t(1) by (simp add: run_callbacks_def)
  then show ?thesis
    using t(2-9) prepare_transfer_fields(2) [OF info] ep_address_81 [OF assms(4)]
    by (intro exI [of _ tid] exI [of _ t] exI [of _ "xf_callback info"]) auto
qed

lemma handles_waiting_submitted:
  assumes "\<forall>h\<in>set hs. handle_waits d h" "pm_heap (dv_pending d) tid = None"
    and "pm_heap (dv_pending d') = (pm_heap (dv_pending d))(tid \<mapsto> t)"
    and "om_find (pm_pending (dv_pending d')) = (om_find (pm_pending (dv_pending d)))(tid \<mapsto> cb)"
  shows "tid \<notin> set hs \<and> (\<forall>h\<in>set hs. handle_waits d' h)"
  using assms by (auto simp: handle_waits_def)

lemma execute_ep_plugin_inv:
  assumes "plugin_inv T waiting e" "allocator_fresh L (dev e)" "is_submit c"
    and "execute_ep_command (proxy_handlers L) c e = Inr e'"
  shows "plugin_inv T waiting e'"
proof -
  let ?ws = "waiting (dv_plugin (dev e))"
  have inv: "engine_inv e" "pm_inv (dv_pending (dev e))" "mock_with T (dev e)" "distinct ?ws"
    "\<forall>h\<in>set ?ws. handle_waits (dev e) h"
    "length ?ws + length (q_items (in_data e ! 1)) = length (q_items (in_commands e ! 1))"
    using assms(1) by (simp_all add: plugin_inv_def)
  have e': "engine_inv e'" by (rule proxy.execute_ep_inv [OF inv(1) assms(3,4)])
  obtain e1 where e1: "unat (cmd_ep c) < 16" "submit_transfer L c e = Inr e1"
    "if is_in c then push_in_command c e1 = Inr e' else e' = e1"
    using assms(4) by (auto simp: execute_ep_command_def proxy_handlers_def proxy_read_data_from_device_def
        proxy_send_data_to_device_def bindR_Inr_iff max_count_in_def max_count_out_def split: if_splits)
  have pm: "pm_inv (dv_pending (dev e1))"
    by (rule submit_transfer_pm_inv [OF inv(2) assms(2) e1(2)])
  obtain tid t cb where s: "e1 = e\<lparr>dev := dev e1\<rparr>" "mock_with T (dev e1)" "pm_heap (dv_pending (dev e)) tid = None"
    "t_endpoint t = ep_address c" "t_dev_handle t = None" "t_actual_length t = 0" "is_in c \<longrightarrow> cb \<in> {In_Cb, In_Iso_Cb}"
    "pm_heap (dv_pending (dev e1)) = (pm_heap (dv_pending (dev e)))(tid \<mapsto> t)"
    "om_find (pm_pending (dv_pending (dev e1))) = (om_find (pm_pending (dv_pending (dev e))))(tid \<mapsto> cb)"
    "waiting (dv_plugin (dev e1)) = ?ws @ (if is_in c \<and> cmd_ep c = 1 then [tid] else [])"
    using submit_transfer_waits [OF inv(3,2) assms(2) e1(1,2)] by blast
  note old = handles_waiting_submitted [OF inv(5) s(3,8,9)]
  have "handle_waits (dev e1) tid" if "is_in c" "cmd_ep c = 1"
    using that s(4-9) ep_address_81 [OF e1(1)] by (auto simp: handle_waits_def)
  then have waits: "\<forall>h\<in>set (waiting (dv_plugin (dev e1))). handle_waits (dev e1) h"
    using old by (auto simp: s(10))
  have dist: "distinct (waiting (dv_plugin (dev e1)))" using inv(4) old by (auto simp: s(10))
  have queues: "in_data e1 = in_data e" "in_commands e1 = in_commands e"
    by (subst s(1), simp)+
  show ?thesis
  proof (cases "is_in c")
    case True
    then have push: "push_in_command c e1 = Inr e'" using e1(3) by simp
    then have dev: "dev e' = dev e1" "in_data e' = in_data e1"
      by (auto simp: push_in_command_def bindR_Inr_iff Let_def split: if_splits)
    have one: "unat (cmd_ep c) = 1 \<longleftrightarrow> cmd_ep c = 1" by (simp add: word_unat_eq_iff)
    have "length (q_items (in_commands e' ! 1)) = length (q_items (in_commands e ! 1)) + of_bool (unat (cmd_ep c) = 1)"
      using push by (auto simp: push_in_command_def bindR_Inr_iff Let_def queues nth_list_update
          split: if_splits dest!: sq.push_Inr)
    then show ?thesis
      using e' pm s(2) waits dist inv(6) True one by (simp add: plugin_inv_def dev queues s(10))
  next
    case False
    then show ?thesis
      using e' pm s(2) waits dist inv(6) e1(3) by (simp add: plugin_inv_def queues s(10))
  qed
qed

lemma plugin_inv_same:
  assumes "plugin_inv T waiting e" "engine_inv e'" "pm_inv (dv_pending (dev e'))" "plugin_kept T waiting (dev e) (dev e')"
    and "pm_heap (dv_pending (dev e')) = pm_heap (dv_pending (dev e))"
    and "pm_pending (dv_pending (dev e')) = pm_pending (dv_pending (dev e))"
    and "in_data e' ! 1 = in_data e ! 1" "in_commands e' ! 1 = in_commands e ! 1"
  shows "plugin_inv T waiting e'"
  using assms by (simp add: plugin_inv_def plugin_kept_def handle_waits_def)

lemma execute_plugin_inv:
  assumes "plugin_inv T waiting e" "allocator_fresh L (dev e)" "execute_command (proxy_handlers L) e = Some (Inr e')"
  shows "plugin_inv T waiting e'"
proof -
  have inv: "engine_inv e" "pm_inv (dv_pending (dev e))" using assms(1) by (simp_all add: plugin_inv_def)
  have e': "engine_inv e'" "pm_inv (dv_pending (dev e'))"
    using proxy.execute_command_inv [OF inv(1) assms(3)] execute_command_pm_inv [OF inv(2) assms(2,3)] .
  obtain c q where pull: "q_pull (commands_queue e) = Some (Inr (c, q))"
    using assms(3) by (auto simp: execute_command_def split: option.splits sum.splits)
  let ?e = "e\<lparr>commands_queue := q\<rparr>"
  consider (control) "execute_control_command (proxy_handlers L) c ?e = Inr e'"
    | (ep) "is_submit c" "execute_ep_command (proxy_handlers L) c ?e = Inr e'" | (unlink) "unlink_command c ?e = Inr e'"
    using assms(3) pull by (auto simp: execute_command_def Let_def split: if_splits)
  then show ?thesis
  proof cases
    case control
    then have "same_pending ?e e'" "answers c ?e e'"
      by (auto simp: execute_control_command_def proxy_handlers_def split: if_splits
          intro: in_control_same_pending out_control_same_pending in_control_answers out_control_answers)
    then show ?thesis using control_keeps [OF control]
      by (intro plugin_inv_same [OF assms(1) e']) (auto simp: same_pending_def answers_def)
  next
    case ep
    have "plugin_inv T waiting ?e" using assms(1) by (simp add: plugin_inv_def engine_inv_def)
    then show ?thesis using execute_ep_plugin_inv [OF _ _ ep] assms(2) by simp
  next
    case unlink
    then show ?thesis using unlink_command_dev [OF unlink] queue_reply_frame
      by (intro plugin_inv_same [OF assms(1) e'])
        (auto simp: plugin_kept_def unlink_command_def bindR_Inr_iff Let_def queue_reply_to_host_def)
  qed
qed

lemma act_plugin_inv:
  assumes "plugin_inv T waiting e" "plugin_acts act e = Inr e'"
  shows "plugin_inv T waiting e'"
proof -
  let ?d = "dev e"
  have inv: "engine_inv e" "pm_inv (dv_pending ?d)" "mock_with T ?d" "distinct (waiting (dv_plugin ?d))"
    "\<forall>h\<in>set (waiting (dv_plugin ?d)). handle_waits ?d h"
    "length (waiting (dv_plugin ?d)) + length (q_items (in_data e ! 1)) = length (q_items (in_commands e ! 1))"
    using assms(1) by (simp_all add: plugin_inv_def)
  obtain completed p where act: "act (pm_heap (dv_pending ?d)) (dv_plugin ?d) = Inr (completed, p)"
    using assms(2) by (auto simp: plugin_acts_def bindR_Inr_iff)
  let ?d1 = "?d\<lparr>dv_plugin := p\<rparr>"
  show ?thesis
  proof (cases completed)
    case None
    then have "e' = e\<lparr>dev := ?d1\<rparr>" using assms(2) act by (simp add: plugin_acts_def)
    then show ?thesis using inv act_idle [OF act [unfolded None]]
      by (simp add: plugin_inv_def mock_with_def handle_waits_def)
  next
    case (Some c)
    obtain ctx t where c: "completed = Some (ctx, t)" using Some by (cases c) simp
    from act_oldest [OF act [unfolded c]] obtain x where x: "waiting (dv_plugin ?d) = ctx # waiting p"
      "pm_heap (dv_pending ?d) ctx = Some x" "t_endpoint t = t_endpoint x" "t_dev_handle t = t_dev_handle x" by blast
    have "handle_waits ?d ctx" using inv(5) x(1) by simp
    then obtain cb where cb: "t_endpoint t = 0x81" "t_dev_handle t = None" "cb \<in> {In_Cb, In_Iso_Cb}"
      "om_find (pm_pending (dv_pending ?d)) ctx = Some cb"
      using x(2-4) by (auto simp: handle_waits_def)
    have pend: "om_find (pm_pending (dv_pending ?d1)) ctx = Some cb" "mock_with T ?d1"
      using cb(4) inv(3) by (simp_all add: mock_with_def)
    obtain d' where d': "control_complete ctx (put_transfer ctx t ?d1) = Inr ([(cb, t\<lparr>t_status := Completed\<rparr>)], d')"
      "mock_with T d'" "dv_plugin d' = p" "pm_heap (dv_pending d') = (pm_heap (dv_pending ?d))(ctx := None)"
      "om_find (pm_pending (dv_pending d')) = (om_find (pm_pending (dv_pending ?d)))(ctx := None)"
      using complete_waiting [OF pend(2) cb(2) pend(1)] by auto
    have run: "run_callbacks [(cb, t\<lparr>t_status := Completed\<rparr>)] (e\<lparr>dev := d'\<rparr>) = Inr e'"
      using assms(2) d'(1) by (simp add: plugin_acts_def act c plugin_completes_def on_dev_def)
    have frame: "engine_frame e e'" using run_callbacks_frame [OF run] by (simp add: engine_frame_def)
    have "pm_inv (dv_pending (put_transfer ctx t ?d1))" by (rule pm_inv_put_transfer) (simp_all add: inv(2) x(2))
    then have "pm_inv (dv_pending (dev e'))" using control_complete_inv d'(1) run_callbacks_dev [OF run] by fastforce
    moreover have "length (q_items (in_data e' ! 1)) = length (q_items (in_data e ! 1)) + 1"
      using in_callback_queues [OF run cb(3)] cb(1) by auto
    moreover have "in_commands e' = in_commands e" using frame by (simp add: engine_frame_def)
    moreover have "ctx \<notin> set (waiting p)" "distinct (waiting p)" using inv(4) x(1) by simp_all
    moreover have "dev e' = d'" using run_callbacks_dev [OF run] by simp
    moreover have "handle_waits d' h" if "h \<in> set (waiting p)" for h
    proof -
      have "handle_waits ?d h" "h \<noteq> ctx" using that inv(5) x(1) calculation(4) by auto
      then show ?thesis by (simp add: handle_waits_def d'(4,5))
    qed
    ultimately show ?thesis
      using engine_inv_frame [OF inv(1) frame] d'(2,3) inv(6) x(1) by (simp add: plugin_inv_def)
  qed
qed

lemma send_plugin_inv:
  assumes "plugin_inv T waiting e" "send_data_to_host i e = Some (Inr e')"
  shows "plugin_inv T waiting e'"
proof -
  have e: "engine_inv e" using assms(1) by (simp add: plugin_inv_def)
  obtain cmd cq dq data req where i: "i < length (in_commands e)"
    and cpull: "q_pull (in_commands e ! i) = Some (Inr (cmd, cq))"
    and j: "unat (cmd_ep cmd) < length (in_data e)"
    and dpull: "q_pull (in_data e ! unat (cmd_ep cmd)) = Some (Inr (data, dq))"
    and rep: "queue_reply_to_host req
      (e\<lparr>in_commands := (in_commands e)[i := cq], in_data := (in_data e)[unat (cmd_ep cmd) := dq]\<rparr>) = Inr e'"
    using assms(2) by (auto simp: send_data_to_host_def Let_def split: option.splits sum.splits if_splits)
  have c: "q_items (in_commands e ! i) = cmd # q_items cq" and d: "q_items (in_data e ! unat (cmd_ep cmd)) = data # q_items dq"
    using sq.pull_Inr [OF cpull] sq.pull_Inr [OF dpull] by simp_all
  have "i < max_count_in" using i e by (simp add: engine_inv_def)
  then have ep: "unat (cmd_ep cmd) = i" using e c by (auto simp: engine_inv_def waits_at_def)
  have queues: "in_commands e' = (in_commands e)[i := cq]" "in_data e' = (in_data e)[i := dq]"
    using queue_reply_appends [OF rep] ep by auto
  have "length (q_items (in_commands e' ! 1)) = length (q_items (in_commands e ! 1)) - of_bool (i = 1)"
    "length (q_items (in_data e' ! 1)) = length (q_items (in_data e ! 1)) - of_bool (i = 1)"
    using i j c d ep by (auto simp: queues nth_list_update)
  moreover have "of_bool (i = 1) \<le> length (q_items (in_data e ! 1))" using d ep by (cases "i = 1") auto
  moreover have "length (waiting (dv_plugin (dev e))) + length (q_items (in_data e ! 1)) = length (q_items (in_commands e ! 1))"
    using assms(1) by (simp add: plugin_inv_def)
  ultimately have "length (waiting (dv_plugin (dev e))) + length (q_items (in_data e' ! 1)) = length (q_items (in_commands e' ! 1))"
    by linarith
  then show ?thesis
    using assms(1) send_data_inv [OF e assms(2)] send_data_dev [OF assms(2)] by (simp add: plugin_inv_def)
qed

lemma mock_reachable_inv:
  assumes "waiting p = []" "mock_reachable T act p L e"
  shows "plugin_inv T waiting e"
  using assms(2)
proof induction
  case (mock_start t l)
  then show ?case
    using assms(1) engine_inv_init pm_inv_init
    by (simp add: plugin_inv_def mock_with_def mock_construct_def)
      (simp add: engine_init_def max_count_in_def q_init_def pm_inv_init)
next
  case (mock_receive e bs)
  then show ?case by (simp add: plugin_inv_def engine_inv_def)
next
  case (mock_produce e e')
  have "in_data e' = in_data e" "in_commands e' = in_commands e"
    using mock_produce.hyps(2) by (auto simp: command_produce_def bindR_Inr_iff split: option.splits sum.splits)
  then show ?case
    using mock_produce.IH command_produce_inv [OF _ mock_produce.hyps(2)] step_dev(1) [OF mock_produce.hyps(2)]
    by (simp add: plugin_inv_def)
next
  case (mock_execute e e')
  then show ?case using execute_plugin_inv by blast
next
  case (mock_reply e e')
  have "in_data e' = in_data e" "in_commands e' = in_commands e"
    using mock_reply.hyps(2) by (auto simp: reply_consume_def Let_def split: option.splits sum.splits if_splits)
  then show ?case
    using mock_reply.IH reply_consume_inv [OF _ mock_reply.hyps(2)] step_dev(2) [OF mock_reply.hyps(2)]
    by (simp add: plugin_inv_def)
next
  case (mock_send e i e')
  then show ?case using send_plugin_inv by blast
next
  case (mock_act e e')
  then show ?case using act_plugin_inv by blast
qed

end

section \<open>The mouse and the playback\<close>

lemma control_fill_keeps:
  "control_fill data (Some x) = Inr y \<Longrightarrow> \<exists>t. y = Some t \<and> t_endpoint t = t_endpoint x \<and> t_dev_handle t = t_dev_handle x"
  by (auto simp: control_fill_def complete_packets_def bindR_Inr_iff Let_def split: if_splits)

interpretation mouse: deferring_plugin mouse_plugin "\<lambda>input. input" "mouse_tick"
proof (unfold_locales, goal_cases)
  case (6 heap p p')
  then show ?case by (auto simp: mouse_tick_def mouse_move_def bindR_Inr_iff Let_def split: list.splits)
next
  case (7 heap p ctx t p')
  then show ?case
    by (auto simp: mouse_tick_def mouse_move_def bindR_Inr_iff Let_def transfer_at_def transfer_control_fill_def
        plugin_complete_def split: list.splits option.splits dest!: control_fill_keeps)
qed (auto simp: mouse_plugin_def empty_plugin_def pick_def dispatch_transfer_request_def dispatch_transfer_complete_def
    dispatch_control_setup_def dispatch_set_configuration_def dispatch_set_interface_def mouse_on_transfer_request_def
    mouse_on_control_setup_def mouse_on_set_configuration_def mouse_on_set_interface_def control_ep_def)

lemma fill_from_record_keeps:
  assumes "fill_from_record r x = Inr y"
  shows "\<exists>t. y = Some t \<and> t_endpoint t = t_endpoint x \<and> t_dev_handle t = t_dev_handle x"
proof -
  have "y = Some x \<or> (\<exists>data t. control_fill data (Some x) = Inr t \<and>
      (y = t \<or> transfer_control_fill_iso (Some (tr_iso_descriptors r)) (length (tr_iso_descriptors r)) t = Inr y))"
    using assms by (auto simp: fill_from_record_def bindR_Inr_iff transfer_control_fill_def split: if_splits)
  then show ?thesis
    by (auto simp: transfer_control_fill_iso_def fill_iso_packet_descriptors_def bindR_Inr_iff Let_def
        dest!: control_fill_keeps split: if_splits option.splits)
qed

interpretation playback: deferring_plugin playback_plugin pd_input playback_acts
proof (unfold_locales, goal_cases)
  case (6 heap p p')
  then show ?case
    by (auto simp: playback_acts_def playback_round_def bindR_Inr_iff Let_def get_next_record_def split: list.splits if_splits)
next
  case (7 heap p ctx t p')
  then show ?case
    by (auto simp: playback_acts_def playback_round_def bindR_Inr_iff Let_def transfer_at_def get_next_record_def
        plugin_complete_def split: list.splits option.splits if_splits dest!: fill_from_record_keeps)
next
  case (3 s data r p r' data' p')
  then show ?case
    by (auto simp: playback_plugin_def empty_plugin_def pick_def dispatch_control_setup_def playback_on_control_setup_def
        Let_def split: if_splits option.splits)
qed (auto simp: playback_plugin_def empty_plugin_def pick_def dispatch_transfer_request_def dispatch_transfer_complete_def
    dispatch_set_configuration_def dispatch_set_interface_def playback_on_transfer_request_def
    playback_on_set_configuration_def playback_on_set_interface_def control_ep_def)


section \<open>A report from the wire to the wire\<close>

context deferring_plugin
begin

text \<open>What an IN command on endpoint 1 leaves behind: a transfer that waits, and the command that waits for its data.\<close>

lemma in_command_waits:
  fixes e :: "('p, 'l) proxy"
  assumes "mock_with T (dev e)" "pm_inv (dv_pending (dev e))" "pm_heap (dv_pending (dev e)) tid = None"
    and "lu_alloc_transfer L 0 (dv_usb (dev e)) = (Some tid, l)"
    and "q_items (commands_queue e) = c # cs" "is_submit c" "is_in c" "is_iso c = Inr False" "cmd_ep c = 1"
    and "transfer_buffer_size c = Inr n"
    and "ep_transfer_type 0x81 (dev e) \<in> {Some TRANSFER_TYPE_BULK, Some TRANSFER_TYPE_INTERRUPT}"
    and "length (in_commands e) = max_count_in" "\<not> q_closed (in_commands e ! 1)"
  shows "\<exists>d t. execute_command (proxy_handlers L) e = Some (Inr (e\<lparr>commands_queue := (commands_queue e)\<lparr>q_items := cs\<rparr>,
      dev := d, in_commands := (in_commands e)[1 := (in_commands e ! 1)\<lparr>q_items := q_items (in_commands e ! 1) @ [c]\<rparr>]\<rparr>)) \<and>
    mock_with T d \<and> waiting (dv_plugin d) = waiting (dv_plugin (dev e)) @ [tid] \<and>
    pm_heap (dv_pending d) = (pm_heap (dv_pending (dev e)))(tid \<mapsto> t) \<and>
    om_find (pm_pending (dv_pending d)) = (om_find (pm_pending (dv_pending (dev e))))(tid \<mapsto> In_Cb) \<and>
    wf_transfer t \<and> t_buffer t = Some (replicate n 0) \<and> t_endpoint t = 0x81 \<and> t_dev_handle t = None \<and>
    t_num_iso_packets t = 0 \<and> t_length t = int n \<and>
    dispatch_transfer_request T tid t (dv_plugin (dev e)) = (t, False, dv_plugin d)"
proof -
  let ?info = "\<lparr>xf_ep_address = 0x81, xf_buffer = replicate n 0, xf_callback = In_Cb, xf_iso = None\<rparr>"
  have ep: "ep_address c = 0x81" using ep_address_81 [of c] assms(7,9) by simp
  have "\<not> is_out c" using assms(7) by (simp add: is_in_def is_out_def usbip_consts)
  then have prep: "prepare_transfer c = Inr ?info"
    using assms(7,8,10) ep by (simp add: prepare_transfer_def prepare_buffer_def)
  let ?e = "e\<lparr>commands_queue := (commands_queue e)\<lparr>q_items := cs\<rparr>\<rparr>"
  obtain k where k: "k \<noteq> Fill_Iso" "submit_transfer L c ?e = submit_kind_transfer L k c ?e"
    using assms(11) ep that [of Fill_Bulk] that [of Fill_Interrupt]
    by (auto simp: submit_transfer_def TRANSFER_TYPE_BULK_def TRANSFER_TYPE_INTERRUPT_def
        TRANSFER_TYPE_CONTROL_def TRANSFER_TYPE_ISOCHRONOUS_def)
  let ?t = "(filled (fill_type k) None ?info 0 []) :: libusb_transfer"
  have fill: "fill_transfer k ?info None = Inr ?t"
    using k(1) by (cases k) (simp_all add: fill_transfer_def fill_bulk_def fill_interrupt_def fill_type_def)
  have "lu_alloc_transfer L (if k = Fill_Iso then iso_count ?info else 0) (dv_usb (dev e)) = (Some tid, l)"
    using k(1) assms(4) by simp
  from submit_waits [OF assms(1-3) this fill] obtain d where d: "submit_transfer_impl L k ?info (dev e) = Inr ([], d)"
    "mock_with T d" "waiting (dv_plugin d) = waiting (dv_plugin (dev e)) @ [tid]"
    "pm_heap (dv_pending d) = (pm_heap (dv_pending (dev e)))(tid \<mapsto> ?t\<lparr>t_user_data := Some 1\<rparr>)"
    "om_find (pm_pending (dv_pending d)) = (om_find (pm_pending (dv_pending (dev e))))(tid \<mapsto> In_Cb)"
    "dispatch_transfer_request T tid (?t\<lparr>t_user_data := Some 1\<rparr>) (dv_plugin (dev e)) =
      (?t\<lparr>t_user_data := Some 1\<rparr>, False, dv_plugin d)"
    by (auto simp: filled_def)
  have sub: "submit_transfer L c ?e = Inr (?e\<lparr>dev := d\<rparr>)"
    using d(1) by (simp add: k(2) submit_kind_transfer_def prep on_dev_def run_callbacks_def)
  have exec: "execute_command (proxy_handlers L) e = Some (Inr (?e\<lparr>dev := d, in_commands :=
      (in_commands e)[1 := (in_commands e ! 1)\<lparr>q_items := q_items (in_commands e ! 1) @ [c]\<rparr>]\<rparr>))"
    using assms(5-7,9,12,13) sub
    by (simp add: execute_command_def q_pull_def execute_ep_command_def proxy_handlers_def
        proxy_read_data_from_device_def max_count_in_def push_in_command_def q_push_def)
  have wf: "wf_transfer (?t\<lparr>t_user_data := Some 1\<rparr>)" "t_length ?t = int n"
    using filled_wf [of ?info] transfer_buffer_size_small [OF assms(10)] by simp_all
  show ?thesis
    by (intro exI [of _ d] exI [of _ "?t\<lparr>t_user_data := Some 1\<rparr>"] conjI exec d(2-6) wf(1))
      (use wf(2) in \<open>simp_all add: filled_def\<close>)
qed

end

lemma mouse_acts:
  fixes e :: "(mouse, 'l) proxy"
  assumes "mock_with mouse_plugin (dev e)" "dv_plugin (dev e) = tid # rest" "engine_inv e" "\<not> q_closed (in_data e ! 1)"
    and "pm_heap (dv_pending (dev e)) tid = Some t" "om_find (pm_pending (dv_pending (dev e))) tid = Some In_Cb"
    and "wf_transfer t" "t_buffer t = Some buf" "t_endpoint t = 0x81" "t_dev_handle t = None" "t_num_iso_packets t = 0"
    and "8 \<le> t_length t"
  shows "\<exists>e'. plugin_acts mouse_tick e = Inr e' \<and> engine_frame e e' \<and> replies_queue e' = replies_queue e \<and>
    dv_plugin (dev e') = rest \<and>
    pm_heap (dv_pending (dev e')) = (pm_heap (dv_pending (dev e)))(tid := None) \<and>
    q_items (in_data e' ! 1) = q_items (in_data e ! 1) @
      [\<lparr>td_buffer = mouse_report ''up'', td_iso_descriptor_size = 0, td_error_count = 0\<rparr>]"
proof -
  let ?t = "moved_transfer ''up'' t buf" and ?d = "(dev e)\<lparr>dv_plugin := rest\<rparr>"
  have tick: "mouse_tick (pm_heap (dv_pending (dev e))) (tid # rest) = Inr (Some (tid, ?t), rest)"
    using mouse_move_fills [where heap = "pm_heap (dv_pending (dev e))", OF assms(5,7-10)] assms(12)
    by (simp add: mouse_tick_def)
  have m: "mock_with mouse_plugin ?d" "t_dev_handle ?t = None" "om_find (pm_pending (dv_pending ?d)) tid = Some In_Cb"
    using assms(1,6,10) by (simp_all add: mock_with_def moved_transfer_def)
  obtain d' where d': "control_complete tid (put_transfer tid ?t ?d) = Inr ([(In_Cb, ?t)], d')" "dv_plugin d' = rest"
    "pm_heap (dv_pending d') = (pm_heap (dv_pending (dev e)))(tid := None)"
    using mouse.complete_waiting [OF m] by (auto simp: moved_transfer_def)
  have "length buf = nat (t_length t)" "t_length t < 2 ^ 31" using assms(7,8) by (simp_all add: wf_transfer_def)
  then have buf: "8 \<le> length buf" "t_length t = int (length buf)" using assms(12) by simp_all
  have desc: "t_iso_packet_desc t = []" using wf_transfer_sizes(4) [OF assms(7)] assms(7,11) by (simp add: wf_transfer_def)
  have wf: "wf_transfer ?t" "t_buffer ?t = Some (mouse_report ''up'' @ drop 8 buf)" "t_num_iso_packets ?t = 0"
    "t_endpoint ?t = 0x81" "t_actual_length ?t = 8" "t_length ?t = t_length t" "t_status ?t = Completed"
    using assms(7-9,11) buf desc by (simp_all add: moved_transfer_def wf_transfer_def length_mouse_report)
  obtain e' where e': "queue_data_for_host (Some ?t) (e\<lparr>dev := d'\<rparr>) = Inr e'" "engine_frame (e\<lparr>dev := d'\<rparr>) e'"
    "q_items (in_data e' ! 1) = q_items (in_data e ! 1) @
      [\<lparr>td_buffer = mouse_report ''up'', td_iso_descriptor_size = 0, td_error_count = 0\<rparr>]"
    using completed_in_transfer_queued [of "e\<lparr>dev := d'\<rparr>" ?t _ 1] assms(3,4,12) wf
    by (auto simp: LIBUSB_ENDPOINT_DIR_MASK_def LIBUSB_ENDPOINT_IN_def LIBUSB_ENDPOINT_ADDRESS_MASK_def length_mouse_report)
  have "plugin_acts mouse_tick e = Inr e'"
    using e'(1) wf(5,7)
    by (simp add: plugin_acts_def assms(2) tick plugin_completes_def on_dev_def d'(1) run_callbacks_def run_callback_def
        on_in_transfer_complete_def)
  then show ?thesis
    using e'(2,3) queue_data_dev [OF e'(1)] queue_data_replies [OF e'(1)] d'(2,3)
    by (intro exI [of _ e']) (simp add: engine_frame_def)
qed


text \<open>A host that polls the mouse gets its movement. An idle mouse and a CMD_SUBMIT on the socket that
  reads at least eight bytes from endpoint 1: after the reader, the executor, one tick, the transfer
  thread and the reply thread, the host has been written exactly one message, the RET_SUBMIT of that
  command with status 0 and the report that moves up five steps; the transfer is freed and nothing
  waits any more.\<close>

lemma mouse_report_reaches_host:
  assumes "mock_reachable mouse_plugin mouse_tick [] L e" "dv_plugin (dev e) = []"
    and "commands_queue e = q_init" "replies_queue e = q_init" "in_commands e ! 1 = q_init" "in_data e ! 1 = q_init"
    and "unlinked_seqnums e = []" "lu_alloc_transfer L 0 (dv_usb (dev e)) = (Some tid, l)" "allocator_fresh L (dev e)"
    and "ep_transfer_type 0x81 (dev e) \<in> {Some TRANSFER_TYPE_BULK, Some TRANSFER_TYPE_INTERRUPT}"
    and "hb_command b = USBIP_CMD_SUBMIT" "hb_direction b = USBIP_DIR_IN" "hb_ep b = 1" "8 \<le> n" "n < 2 ^ 31"
    and "packets \<in> {0, 0xffffffff}" "length stp = 8"
    and "socket_in e = submit_wire b flags (of_nat n) start packets interval stp @ rest"
  shows "\<exists>e1 e2 e3 e4 e5. command_produce e = Some (Inr e1) \<and> execute_command (proxy_handlers L) e1 = Some (Inr e2) \<and>
    plugin_acts mouse_tick e2 = Inr e3 \<and> send_data_to_host 1 e3 = Some (Inr e4) \<and> reply_consume e4 = Some (Inr e5) \<and>
    socket_in e5 = rest \<and> socket_out e5 = socket_out e @ [
      be32 USBIP_RET_SUBMIT @ be32 (hb_seqnum b) @ be32 (hb_devid b) @ be32 USBIP_DIR_IN @ be32 1 @ be32 0 @ be32 8 @
      be32 start @ be32 packets @ be32 0 @ replicate 8 0 @ [0, 0, 0, 0, 251, 255, 0, 0]] \<and>
    dv_plugin (dev e5) = [] \<and> pm_heap (dv_pending (dev e5)) = pm_heap (dv_pending (dev e))"
proof -
  define c where "c = wire_submit b flags n start packets interval stp"
  note c = in_submit_fields [OF assms(11,12,15,16) c_def]
  have ep: "cmd_ep c = 1" using c(7) assms(13) by (simp add: cmd_ep_def)
  have inv: "engine_inv e" "pm_inv (dv_pending (dev e))" "mock_with mouse_plugin (dev e)"
    using mouse.mock_reachable_inv [OF refl assms(1)] by (simp_all add: plugin_inv_def)
  have "case fst (lu_alloc_transfer L 0 (dv_usb (dev e))) of None \<Rightarrow> True | Some tid \<Rightarrow> pm_heap (dv_pending (dev e)) tid = None"
    using assms(9) unfolding allocator_fresh_def by blast
  then have free: "pm_heap (dv_pending (dev e)) tid = None" by (simp add: assms(8))
  have lens: "length (in_commands e) = max_count_in" "length (in_data e) = max_count_in"
    using inv(1) by (simp_all add: engine_inv_def)
  define e1 where "e1 = e\<lparr>commands_queue := \<lparr>q_items = [c], q_closed = False\<rparr>, socket_in := rest\<rparr>"
  have 1: "command_produce e = Some (Inr e1)"
    using in_submit_read [OF assms(11,12,15,16,17,18)] assms(3) by (simp add: e1_def q_init_def c_def)
  obtain d t where 2: "execute_command (proxy_handlers L) e1 = Some (Inr (e1\<lparr>commands_queue := q_init,
      dev := d, in_commands := (in_commands e)[1 := \<lparr>q_items = [c], q_closed = False\<rparr>]\<rparr>))"
    and d: "mock_with mouse_plugin d" "dv_plugin d = [tid]"
    "pm_heap (dv_pending d) = (pm_heap (dv_pending (dev e)))(tid \<mapsto> t)"
    "om_find (pm_pending (dv_pending d)) tid = Some In_Cb"
    "wf_transfer t" "t_buffer t = Some (replicate n 0)" "t_endpoint t = 0x81" "t_dev_handle t = None"
    "t_num_iso_packets t = 0" "t_length t = int n"
    using mouse.in_command_waits [where e = e1 and tid = tid and l = l and c = c and cs = "[]" and n = n and L = L] inv free
      assms(2,5,8,10) c ep lens
    by (auto simp: e1_def q_init_def)
  define e2 where "e2 = e1\<lparr>commands_queue := q_init, dev := d,
    in_commands := (in_commands e)[1 := \<lparr>q_items = [c], q_closed = False\<rparr>]\<rparr>"
  have inv2: "engine_inv e2"
    using proxy.execute_command_inv [OF command_produce_inv [OF inv(1) 1] 2] by (simp add: e2_def)
  have idle: "in_data e2 ! 1 = q_init" "commands_queue e2 = q_init" "replies_queue e2 = q_init"
    "in_commands e2 ! 1 = \<lparr>q_items = [c], q_closed = False\<rparr>" "unlinked_seqnums e2 = []" "socket_in e2 = rest"
    "socket_out e2 = socket_out e"
    using assms(4,6,7) lens by (simp_all add: e2_def e1_def max_count_in_def)
  obtain e3 where 3: "plugin_acts mouse_tick e2 = Inr e3" "engine_frame e2 e3" "replies_queue e3 = replies_queue e2"
    "dv_plugin (dev e3) = []" "pm_heap (dv_pending (dev e3)) = pm_heap (dv_pending (dev e))"
    "q_items (in_data e3 ! 1) = [\<lparr>td_buffer = mouse_report ''up'', td_iso_descriptor_size = 0, td_error_count = 0\<rparr>]"
    using mouse_acts [of e2 tid "[]" t "replicate n 0"] inv2 d idle(1) assms(14) free
    by (auto simp: e2_def q_init_def fun_upd_idem)
  have frame3: "in_commands e3 ! 1 = \<lparr>q_items = [c], q_closed = False\<rparr>" "unlinked_seqnums e3 = []" "socket_in e3 = rest"
    "socket_out e3 = socket_out e" "replies_queue e3 = q_init"
    using 3(2,3) idle by (simp_all add: engine_frame_def)
  have inv3: "engine_inv e3" by (rule engine_inv_frame [OF inv2 3(2)])
  obtain e4 r where 4: "send_data_to_host 1 e3 = Some (Inr e4)" "dev e4 = dev e3" "socket_in e4 = rest"
    "socket_out e4 = socket_out e" "unlinked_seqnums e4 = []" "replies_queue e4 = \<lparr>q_items = [r], q_closed = False\<rparr>"
    "header_bytes r = submit_reply_wire c 0 8 0" "cmd_payload r = mouse_report ''up''"
    using send_data_open [OF inv3, of 1 c "[]" _ "[]" n 8] 3(6) frame3 c(4,5) assms(14)
    by (auto simp: max_count_in_def q_init_def length_mouse_report)
  define e5 where "e5 = e4\<lparr>replies_queue := q_init, socket_out := socket_out e4 @ [header_bytes r @ cmd_payload r]\<rparr>"
  have 5: "reply_consume e4 = Some (Inr e5)"
    by (simp add: reply_consume_def 4(5,6) q_pull_def e5_def os_contains_def om_find_def q_init_def)
  show ?thesis
    by (rule exI [of _ e1], rule exI [of _ e2], rule exI [of _ e3], rule exI [of _ e4], rule exI [of _ e5])
      (use 1 2 3 4 5 in \<open>simp add: e2_def e5_def c(8) assms(13) mouse_reports(3)\<close>)
qed


text \<open>An idle device of a plugin behind a socket that holds the bytes \<open>bs\<close>.\<close>

definition example_mock :: "'p plugin_type \<Rightarrow> 'p \<Rightarrow> tree \<Rightarrow> bytes \<Rightarrow> ('p, unit) proxy" where
  "example_mock T p t bs = (engine_init (mock_construct t (Some (register_usb_mock T)) p ()))\<lparr>socket_in := bs\<rparr>"

definition example_mouse :: "tree \<Rightarrow> bytes \<Rightarrow> (mouse, unit) proxy" where
  "example_mouse = example_mock mouse_plugin []"

definition example_poll :: bytes where
  "example_poll = submit_wire (example_base\<lparr>hb_ep := 1\<rparr>) 0x200 8 0 0 1 (replicate 8 0)"

lemma example_mock_reachable: "mock_reachable T act p L (example_mock T p t bs)"
proof -
  define e :: "('a, unit) proxy" where "e = engine_init (mock_construct t (Some (register_usb_mock T)) p ())"
  have "mock_reachable T act p L (e\<lparr>socket_in := socket_in e @ bs\<rparr>)"
    unfolding e_def by (rule mock_receive [OF mock_start])
  then show ?thesis by (simp add: example_mock_def e_def) (simp add: engine_init_def)
qed

lemma example_mock_idle:
  "dv_plugin (dev (example_mock T p t bs)) = p" "commands_queue (example_mock T p t bs) = q_init"
  "replies_queue (example_mock T p t bs) = q_init" "in_commands (example_mock T p t bs) ! 1 = q_init"
  "in_data (example_mock T p t bs) ! 1 = q_init" "unlinked_seqnums (example_mock T p t bs) = []"
  "lu_alloc_transfer example_libusb 0 (dv_usb (dev (example_mock T p t bs))) = (Some 5, ())"
  "allocator_fresh example_libusb (dev (example_mock T p t bs))" "socket_in (example_mock T p t bs) = bs"
  "dv_tree (dev (example_mock T p t bs)) = t" "socket_out (example_mock T p t bs) = []"
  "mock_with T (dev (example_mock T p t bs))" "pm_inv (dv_pending (dev (example_mock T p t bs)))"
  "length (in_commands (example_mock T p t bs)) = max_count_in"
  "pm_heap (dv_pending (dev (example_mock T p t bs))) 5 = None"
  using pm_inv_init
  by (simp_all add: example_mock_def engine_init_def mock_construct_def max_count_in_def example_libusb_def
      allocator_fresh_def pm_init_def mock_with_def)

lemma example_mock_endpoint:
  obtains t where "tree_construct zero_device (Some example_config) [] None [] = Inr t"
    "ep_transfer_type 0x81 (dev (example_mock T p t bs)) = Some TRANSFER_TYPE_INTERRUPT"
proof -
  obtain t where t: "tree_construct zero_device (Some example_config) [] None [] = Inr t"
    using example_config_builds by (auto simp: tree_construct_def build_bos_def)
  obtain ep where ep: "all_endpoints t = [ep]" "address ep = 0x81" "attributes ep = 3"
    using example_tree_endpoints [OF t] by (auto simp: map_eq_Cons_conv)
  have "ep_transfer_type 0x81 (dev (example_mock T p t bs)) = Some TRANSFER_TYPE_INTERRUPT"
    by (simp add: ep_transfer_type_def example_mock_idle ep ep_transfer_type_mask_def TRANSFER_TYPE_INTERRUPT_def)
  with t show ?thesis by (rule that)
qed

lemma example_mouse_reachable: "mock_reachable mouse_plugin mouse_tick [] L (example_mouse t bs)"
  unfolding example_mouse_def by (rule example_mock_reachable)

lemmas example_mouse_idle = example_mock_idle [where T = mouse_plugin and p = "[]", folded example_mouse_def]

lemma example_mouse_endpoint:
  obtains t where "tree_construct zero_device (Some example_config) [] None [] = Inr t"
    "ep_transfer_type 0x81 (dev (example_mouse t bs)) = Some TRANSFER_TYPE_INTERRUPT"
  unfolding example_mouse_def by (rule example_mock_endpoint)

lemma mouse_report_reaches_host_witness:
  "\<exists>t e1 e2 e3 e4 e5. command_produce (example_mouse t example_poll) = Some (Inr e1) \<and>
    execute_command (proxy_handlers example_libusb) e1 = Some (Inr e2) \<and> plugin_acts mouse_tick e2 = Inr e3 \<and>
    send_data_to_host 1 e3 = Some (Inr e4) \<and> reply_consume e4 = Some (Inr e5) \<and>
    socket_out e5 = [be32 3 @ be32 7 @ be32 0x10002 @ be32 1 @ be32 1 @ be32 0 @ be32 8 @ be32 0 @ be32 0 @ be32 0 @
      replicate 8 0 @ [0, 0, 0, 0, 251, 255, 0, 0]]"
proof -
  obtain t where t: "ep_transfer_type 0x81 (dev (example_mouse t example_poll)) = Some TRANSFER_TYPE_INTERRUPT"
    by (rule example_mouse_endpoint)
  have ty: "ep_transfer_type 0x81 (dev (example_mouse t example_poll)) \<in> {Some TRANSFER_TYPE_BULK, Some TRANSFER_TYPE_INTERRUPT}"
    using t by simp
  let ?b = "example_base\<lparr>hb_ep := 1\<rparr>"
  have b: "hb_command ?b = USBIP_CMD_SUBMIT" "hb_direction ?b = USBIP_DIR_IN" "hb_ep ?b = 1" "hb_seqnum ?b = 7" "hb_devid ?b = 0x10002"
    by (simp_all add: example_base_def usbip_consts)
  have sock: "socket_in (example_mouse t example_poll) = submit_wire ?b 0x200 (of_nat 8) 0 0 1 (replicate 8 0) @ []"
    by (simp add: example_mouse_idle example_poll_def)
  note start = mouse_report_reaches_host [OF example_mouse_reachable example_mouse_idle(1-8) ty b(1-3) _ _ _ _ sock]
  from start obtain e1 e2 e3 e4 e5 where "command_produce (example_mouse t example_poll) = Some (Inr e1)"
    "execute_command (proxy_handlers example_libusb) e1 = Some (Inr e2)" "plugin_acts mouse_tick e2 = Inr e3"
    "send_data_to_host 1 e3 = Some (Inr e4)" "reply_consume e4 = Some (Inr e5)"
    "socket_out e5 = [be32 3 @ be32 7 @ be32 0x10002 @ be32 1 @ be32 1 @ be32 0 @ be32 8 @ be32 0 @ be32 0 @ be32 0 @
      replicate 8 0 @ [0, 0, 0, 0, 251, 255, 0, 0]]"
    by (auto simp: example_mouse_idle(11) b(4,5) usbip_consts)
  then show ?thesis by blast
qed

section \<open>The plugin's queue\<close>

text \<open>C7: As long as the proxy runs, and whatever the host sends, the IN commands that wait at endpoint 1
  are as many as the transfers in the mouse's queue and the reports that were queued for the host
  together: no command goes unanswered for want of a transfer, and no report is left over. The handles
  in the queue are different, and each is a live transfer of endpoint 0x81 that is still pending.\<close>

theorem waiting_transfers_balanced:
  assumes "mock_reachable mouse_plugin mouse_tick [] L e"
  shows "length (q_items (in_commands e ! 1)) = length (dv_plugin (dev e)) + length (q_items (in_data e ! 1)) \<and>
    distinct (dv_plugin (dev e)) \<and>
    (\<forall>h\<in>set (dv_plugin (dev e)). (\<exists>t. pm_heap (dv_pending (dev e)) h = Some t \<and> t_endpoint t = 0x81) \<and>
      om_find (pm_pending (dv_pending (dev e))) h \<noteq> None)"
  using mouse.mock_reachable_inv [OF refl assms] by (auto simp: plugin_inv_def handle_waits_def)

text \<open>The same of the playback.\<close>

lemma playback_transfers_balanced:
  assumes "pd_input p = []" "mock_reachable playback_plugin playback_acts p L e"
  shows "length (q_items (in_commands e ! 1)) = length (pd_input (dv_plugin (dev e))) + length (q_items (in_data e ! 1)) \<and>
    distinct (pd_input (dv_plugin (dev e))) \<and> (\<forall>h\<in>set (pd_input (dv_plugin (dev e))). handle_waits (dev e) h)"
  using playback.mock_reachable_inv [OF assms] by (simp add: plugin_inv_def)

context deferring_plugin
begin

text \<open>A poll of endpoint 1 leaves one transfer in the plugin.\<close>

lemma example_poll_queued:
  assumes "waiting p = []"
  shows "\<exists>(e :: ('p, unit) proxy) t. mock_reachable T act p example_libusb e \<and> waiting (dv_plugin (dev e)) = [5] \<and>
    length (q_items (in_commands e ! 1)) = 1 \<and> om_find (pm_pending (dv_pending (dev e))) 5 = Some In_Cb \<and>
    t_endpoint t = 0x81 \<and> dispatch_transfer_request T 5 t p = (t, False, dv_plugin (dev e))"
proof -
  obtain t where t: "ep_transfer_type 0x81 (dev (example_mock T p t example_poll)) = Some TRANSFER_TYPE_INTERRUPT"
    by (rule example_mock_endpoint)
  let ?b = "example_base\<lparr>hb_ep := 1\<rparr>" and ?e = "example_mock T p t example_poll"
  have b: "hb_command ?b = USBIP_CMD_SUBMIT" "hb_direction ?b = USBIP_DIR_IN" "hb_ep ?b = 1"
    by (simp_all add: example_base_def usbip_consts)
  have sock: "socket_in ?e = submit_wire ?b 0x200 (of_nat 8) 0 0 1 (replicate 8 0) @ []"
    by (simp add: example_mock_idle example_poll_def)
  have small: "8 < (2 :: nat) ^ 31" "(0 :: u32) \<in> {0, 0xffffffff}" "length (replicate 8 (0 :: u8)) = 8" by simp_all
  let ?c = "wire_submit ?b 0x200 8 0 0 1 (replicate 8 0)"
  note c = in_submit_fields [OF b(1,2) small(1,2) refl, of "0x200" 0 1 "replicate 8 0"]
  have ep: "cmd_ep ?c = 1" using b(3) by (simp add: wire_submit_def cmd_ep_def)
  let ?e1 = "?e\<lparr>commands_queue := \<lparr>q_items = [?c], q_closed = False\<rparr>, socket_in := []\<rparr>"
  have "command_produce ?e = Some (Inr ?e1)"
    using in_submit_read [OF b(1,2) small sock] by (simp add: example_mock_idle q_init_def)
  then have r1: "mock_reachable T act p example_libusb ?e1"
    by (rule mock_produce [OF example_mock_reachable])
  from in_command_waits [where e = ?e1 and tid = 5 and l = "()" and c = ?c and cs = "[]" and n = 8 and L = example_libusb]
  obtain e2 x where e2: "execute_command (proxy_handlers example_libusb) ?e1 = Some (Inr e2)"
    "waiting (dv_plugin (dev e2)) = [5]" "q_items (in_commands e2 ! 1) = [?c]"
    "om_find (pm_pending (dv_pending (dev e2))) 5 = Some In_Cb" "t_endpoint x = 0x81"
    "dispatch_transfer_request T 5 x p = (x, False, dv_plugin (dev e2))"
    using t c ep example_mock_idle [of T p t example_poll] assms by (auto simp: q_init_def max_count_in_def)
  have "mock_reachable T act p example_libusb e2"
    using mock_execute [OF r1] e2(1) by (simp add: example_mock_idle)
  then show ?thesis using e2 by (intro exI [of _ e2] exI [of _ x]) simp
qed

end

lemma example_poll_waits:
  "\<exists>t e. mock_reachable mouse_plugin mouse_tick [] example_libusb e \<and> dv_plugin (dev e) = [5] \<and> dv_tree (dev e) = t \<and>
    length (q_items (in_commands e ! 1)) = 1"
  using mouse.example_poll_queued [of "[]"] by blast

lemma waiting_transfers_balanced_witness:
  "\<exists>e :: (mouse, unit) proxy. dv_plugin (dev e) = [5] \<and> length (q_items (in_data e ! 1)) = 0 \<and>
    om_find (pm_pending (dv_pending (dev e))) 5 \<noteq> None"
proof -
  obtain e :: "(mouse, unit) proxy" where e: "mock_reachable mouse_plugin mouse_tick [] example_libusb e" "dv_plugin (dev e) = [5]"
    "length (q_items (in_commands e ! 1)) = 1"
    using example_poll_waits by blast
  show ?thesis using waiting_transfers_balanced [OF e(1)] e(2,3) by (intro exI [of _ e]) auto
qed

text \<open>C30: Playing back a recording that also holds another endpoint ends the daemon: when the turn comes to
  a record of an endpoint other than 0x81, the oldest waiting transfer is completed without data, and
  the callback of a bulk or interrupt transfer, which the completion runs, asserts that an IN transfer
  has some. Only an isochronous transfer is not checked for it: it is handed to the host as it is, the
  record is used up, and the daemon goes on.\<close>

theorem other_endpoint_aborts:
  assumes "mock_reachable playback_plugin playback_acts p L e" "pd_input p = []"
    and "get_next_record (pd_engine (dv_plugin (dev e))) = (Some r, engine)" "tr_endpoint r \<noteq> 0x81"
    and "pd_input (dv_plugin (dev e)) = h # rest"
  shows "\<exists>x d. pm_heap (dv_pending (dev e)) h = Some x \<and>
    dv_plugin d = (dv_plugin (dev e))\<lparr>pd_engine := advance engine, pd_input := rest\<rparr> \<and>
    pm_heap (dv_pending d) = (pm_heap (dv_pending (dev e)))(h := None) \<and>
    plugin_acts playback_acts e =
      (if om_find (pm_pending (dv_pending (dev e))) h = Some In_Iso_Cb \<and> is_iso_transfer (Some x)
       then queue_data_for_host (Some (x\<lparr>t_status := Completed\<rparr>)) (e\<lparr>dev := d\<rparr>)
       else Inl Assertion_Failed)"
proof -
  have inv: "mock_with playback_plugin (dev e)" "handle_waits (dev e) h"
    using playback.mock_reachable_inv [OF assms(2,1)] assms(5) by (simp_all add: plugin_inv_def)
  then obtain x cb where x: "pm_heap (dv_pending (dev e)) h = Some x" "t_endpoint x = 0x81" "t_dev_handle x = None"
    "t_actual_length x = 0" "om_find (pm_pending (dv_pending (dev e))) h = Some cb" "cb = In_Cb \<or> cb = In_Iso_Cb"
    by (auto simp: handle_waits_def)
  let ?x = "x\<lparr>t_status := Completed\<rparr>"
  define p' where "p' = (dv_plugin (dev e))\<lparr>pd_engine := advance engine, pd_input := rest\<rparr>"
  have fill: "fill_from_record r x = Inr (Some x)"
    using assms(4) x(2) by (simp add: fill_from_record_def control_is_in_def control_ep_def)
  have act: "playback_acts (pm_heap (dv_pending (dev e))) (dv_plugin (dev e)) = Inr (Some (h, ?x), p')"
    using assms(3,5) x(1,3) fill
    by (simp add: playback_acts_def playback_round_def Let_def transfer_at_def plugin_complete_def is_mock_def p'_def)
  have m: "mock_with playback_plugin ((dev e)\<lparr>dv_plugin := p'\<rparr>)" using inv(1) by (simp add: mock_with_def)
  obtain d where d: "control_complete h (put_transfer h ?x ((dev e)\<lparr>dv_plugin := p'\<rparr>)) = Inr ([(cb, ?x)], d)"
    "dv_plugin d = p'" "pm_heap (dv_pending d) = (pm_heap (dv_pending (dev e)))(h := None)"
    using playback.complete_waiting [OF m, of ?x h cb] x(3,5) by auto
  have "plugin_acts playback_acts e = run_callbacks [(cb, ?x)] (e\<lparr>dev := d\<rparr>)"
    by (simp add: plugin_acts_def act plugin_completes_def on_dev_def d(1))
  also have "\<dots> = run_callback (cb, ?x) (e\<lparr>dev := d\<rparr>)"
    by (cases "run_callback (cb, ?x) (e\<lparr>dev := d\<rparr>)") (simp_all add: run_callbacks_def)
  also have "\<dots> = (if cb = In_Iso_Cb \<and> is_iso_transfer (Some x)
      then queue_data_for_host (Some ?x) (e\<lparr>dev := d\<rparr>) else Inl Assertion_Failed)"
    using x(4,6)
    by (auto simp: run_callback_def on_in_transfer_complete_def on_in_iso_transfer_complete_def viu_assert_def
        is_iso_transfer_def number_of_packets_def)
  finally show ?thesis using x(1,5) d(2,3) by (intro exI [of _ x] exI [of _ d]) (simp add: p'_def)
qed

lemma other_endpoint_aborts_witness:
  "\<exists>e :: (playback_device, unit) proxy. pd_input (dv_plugin (dev e)) = [5] \<and>
    playback_run (loaded_transfers other_recorded 0) 0 (dv_plugin (dev e)) \<and>
    plugin_acts playback_acts e = Inl Assertion_Failed"
proof -
  let ?p = "(waiting_playback (loaded_transfers other_recorded 0) 5)\<lparr>pd_input := []\<rparr>"
  have p: "pd_input ?p = []" by simp
  obtain e :: "(playback_device, unit) proxy" and t where e: "mock_reachable playback_plugin playback_acts ?p example_libusb e"
    "om_find (pm_pending (dv_pending (dev e))) 5 = Some In_Cb" "t_endpoint t = 0x81"
    "dispatch_transfer_request playback_plugin 5 t ?p = (t, False, dv_plugin (dev e))"
    using playback.example_poll_queued [OF p] by blast
  then have plugin: "dv_plugin (dev e) = waiting_playback (loaded_transfers other_recorded 0) 5"
    by (simp add: dispatch_transfer_request_def playback_plugin_def empty_plugin_def pick_def
        playback_on_transfer_request_def control_ep_def waiting_playback_def)
  have "get_next_record (pd_engine (dv_plugin (dev e))) =
      (Some (loaded_transfers other_recorded 0 ! 0), pd_engine (dv_plugin (dev e)))"
    "tr_endpoint (loaded_transfers other_recorded 0 ! 0) \<noteq> 0x81" "pd_input (dv_plugin (dev e)) = [5]"
    by (simp_all add: plugin waiting_playback_def get_next_record_def other_recorded_def loaded_transfer_def)
  from other_endpoint_aborts [OF e(1) p this] show ?thesis
    using e(2) waiting_playback_run [OF other_playback_run, of 5]
    by (intro exI [of _ e]) (auto simp: plugin waiting_playback_def)
qed

text \<open>C8: Destroying the proxy under a plugin that still holds a transfer is not safe: \<open>cancel_transfers\<close>
  frees the transfers a plugin has not completed and tells the plugin nothing, so the next tick uses a
  freed transfer.\<close>

theorem tick_after_cancel_undefined:
  assumes "mock_reachable mouse_plugin mouse_tick [] L e" "dv_plugin (dev e) \<noteq> []"
  shows "\<exists>e'. proxy_cancel_begin e = Inr e' \<and> dv_plugin (dev e') = dv_plugin (dev e) \<and>
    plugin_acts mouse_tick e' = Inl Undefined_Behaviour"
proof -
  have inv: "pm_inv (dv_pending (dev e))" "\<forall>h\<in>set (dv_plugin (dev e)). handle_waits (dev e) h"
    using mouse.mock_reachable_inv [OF refl assms(1)] by (simp_all add: plugin_inv_def)
  obtain h hs where h: "dv_plugin (dev e) = h # hs" using assms(2) by (auto simp: neq_Nil_conv)
  then have w: "handle_waits (dev e) h" using inv(2) by simp
  then have "mock_at (dv_pending (dev e)) h" "om_find (pm_pending (dv_pending (dev e))) h \<noteq> None"
    by (auto simp: handle_waits_def mock_at_def)
  then have "mock_at (dv_pending (dev e)) h" "h \<in> fst ` set (pm_pending (dv_pending (dev e)))"
    by (simp_all add: om_find_None_iff)
  moreover obtain w1 where w1: "cancel_begin (dv_pending (dev e)) = Inr w1"
    "\<forall>i. pm_heap w1 i = (if i \<in> fst ` set (pm_pending (dv_pending (dev e))) \<and> mock_at (dv_pending (dev e)) i then None
       else pm_heap (dv_pending (dev e)) i)"
    using cancel_begin_spec [OF inv(1)] by blast
  ultimately have "pm_heap w1 h = None" by simp
  then have "mouse_tick (pm_heap w1) (h # hs) = Inl Undefined_Behaviour"
    by (simp add: mouse_tick_def mouse_move_def transfer_at_def Let_def)
  then show ?thesis
    by (intro exI [of _ "e\<lparr>dev := (dev e)\<lparr>dv_pending := w1\<rparr>\<rparr>"])
      (simp add: proxy_cancel_begin_def on_dev_def w1(1) plugin_acts_def h)
qed

lemma tick_after_cancel_undefined_witness:
  "\<exists>e e' :: (mouse, unit) proxy. proxy_cancel_begin e = Inr e' \<and> dv_plugin (dev e') = [5] \<and>
    plugin_acts mouse_tick e' = Inl Undefined_Behaviour"
proof -
  obtain e :: "(mouse, unit) proxy" where e: "mock_reachable mouse_plugin mouse_tick [] example_libusb e" "dv_plugin (dev e) = [5]"
    using example_poll_waits by blast
  show ?thesis using tick_after_cancel_undefined [OF e(1)] e(2) by fastforce
qed

end
