(* ===== verification/Usbip_Socket.thy ===== *)
theory Usbip_Socket
  imports Basic_Engine
begin

text \<open>
  \<open>viu::usbip::socket\<close> (src/usbip_socket.cppm, src/usbip_socket_impl.cpp): a connected pair of local
  sockets. The daemon reads and writes the client end, the kernel has the host end. What is modelled is
  whether the ends are open, what the kernel has written and whether it has shut the connection down;
  writing never waits. The engine's reader is shown to be two reads of this socket.
\<close>

section \<open>The pair\<close>

record usbip_socket =
  sock_open :: "bool list"
  sock_incoming :: bytes
  sock_peer_shut :: bool
  sock_written :: bytes

definition client_socket :: nat where "client_socket = 0"
definition host_socket :: nat where "host_socket = 1"

definition socket_construct :: usbip_socket where
  "socket_construct = \<lparr>sock_open = [True, True], sock_incoming = [], sock_peer_shut = False, sock_written = []\<rparr>"

text \<open>The two kinds of \<open>boost::system::system_error\<close> that the threads tell apart.\<close>

datatype socket_error = Eof | Other_Error

text \<open>\<open>transfer_exactly\<close>: it waits (\<open>None\<close>) until there is enough, or the connection is over.\<close>

definition socket_read :: "nat \<Rightarrow> usbip_socket \<Rightarrow> (socket_error + bytes \<times> usbip_socket) option" where
  "socket_read n s =
     (if \<not> sock_open s ! client_socket then Some (Inl Other_Error)
      else if n \<le> length (sock_incoming s)
        then Some (Inr (take n (sock_incoming s), s\<lparr>sock_incoming := drop n (sock_incoming s)\<rparr>))
      else if sock_peer_shut s then Some (Inl Eof)
      else None)"

definition socket_write :: "bytes \<Rightarrow> usbip_socket \<Rightarrow> socket_error + usbip_socket" where
  "socket_write bs s =
     (if \<not> sock_open s ! client_socket \<or> sock_peer_shut s then Inl Other_Error
      else Inr (s\<lparr>sock_written := sock_written s @ bs\<rparr>))"

text \<open>
  The loop of \<open>shutdown\<close> over the two ends; \<open>os i\<close> says whether the operating system shuts the end \<open>i\<close>
  down and closes it without an error.
\<close>

fun shutdown_loop :: "(nat \<Rightarrow> bool \<times> bool) \<Rightarrow> nat \<Rightarrow> bool list \<Rightarrow> bool list res" where
  "shutdown_loop os i [] = Inr []"
| "shutdown_loop os i (s # ss) =
     (if \<not> s then bindR (shutdown_loop os (Suc i) ss) (\<lambda>ss. Inr (s # ss))
      else bindR (viu_assert (fst (os i))) (\<lambda>_.
           bindR (viu_assert (snd (os i))) (\<lambda>_.
           bindR (shutdown_loop os (Suc i) ss) (\<lambda>ss. Inr (False # ss)))))"

definition socket_close :: "(nat \<Rightarrow> bool \<times> bool) \<Rightarrow> usbip_socket \<Rightarrow> usbip_socket res" where
  "socket_close os s = bindR (shutdown_loop os 0 (sock_open s)) (\<lambda>ss. Inr (s\<lparr>sock_open := ss\<rparr>))"

section \<open>Closing\<close>

lemma shutdown_loop_closes: "shutdown_loop os i ss = Inr ss' \<Longrightarrow> ss' = replicate (length ss) False"
  by (induction os i ss arbitrary: ss' rule: shutdown_loop.induct) (auto simp: bindR_Inr_iff split: if_splits)

lemma shutdown_loop_closed: "shutdown_loop os i (replicate n False) = Inr (replicate n False)"
  by (induction n arbitrary: i) simp_all

lemma shutdown_loop_ok:
  "(\<forall>j<length ss. ss ! j \<longrightarrow> os (i + j) = (True, True)) \<Longrightarrow> shutdown_loop os i ss = Inr (replicate (length ss) False)"
proof (induction os i ss rule: shutdown_loop.induct)
  case (2 os i s ss)
  have "\<forall>j<length ss. ss ! j \<longrightarrow> os (Suc i + j) = (True, True)"
    using 2(3) by (auto dest: spec [of _ "Suc _"])
  moreover have "s \<longrightarrow> os i = (True, True)" using spec [OF 2(3), of 0] by simp
  ultimately show ?case using 2(1,2) by (cases s) auto
qed simp

text \<open>
  The destructor of the engine closes the socket and then the socket's own destructor does: the second
  call finds both ends closed, asks the operating system for nothing and cannot fail.
\<close>

lemma socket_close_twice:
  assumes "socket_close os s = Inr s'" "length (sock_open s) = 2"
  shows "socket_close os' s' = Inr s'" "socket_read n s' = Some (Inl Other_Error)" "socket_write bs s' = Inl Other_Error"
proof -
  have op: "sock_open s' = replicate 2 False" "s' = s\<lparr>sock_open := sock_open s'\<rparr>"
    using assms shutdown_loop_closes [of os 0 "sock_open s"] by (auto simp: socket_close_def bindR_Inr_iff)
  have "shutdown_loop os' 0 (sock_open s') = Inr (sock_open s')" unfolding op(1) by (rule shutdown_loop_closed)
  then show "socket_close os' s' = Inr s'" by (simp add: socket_close_def)
  show "socket_read n s' = Some (Inl Other_Error)" "socket_write bs s' = Inl Other_Error"
    by (simp_all add: socket_read_def socket_write_def op(1) client_socket_def)
qed

lemma socket_close_ok:
  "os client_socket = (True, True) \<Longrightarrow> os host_socket = (True, True) \<Longrightarrow>
   socket_close os socket_construct = Inr (socket_construct\<lparr>sock_open := [False, False]\<rparr>)"
  by (simp add: socket_close_def socket_construct_def client_socket_def host_socket_def)

section \<open>Reading a command\<close>

text \<open>\<open>read_command\<close> as it is written: the header, then the payload if the header announces one.\<close>

definition read_command_from :: "usbip_socket \<Rightarrow> (socket_error + command res \<times> usbip_socket) option" where
  "read_command_from s =
     (case socket_read header_size s of
        None \<Rightarrow> None
      | Some (Inl err) \<Rightarrow> Some (Inl err)
      | Some (Inr (buffer, s)) \<Rightarrow>
          (case bindR (from_big_endian buffer) (\<lambda>cmd. bindR (payload_size cmd) (\<lambda>n. Inr (cmd, n))) of
             Inl x \<Rightarrow> Some (Inr (Inl x, s))
           | Inr (cmd, n) \<Rightarrow>
               if n = 0 then Some (Inr (Inr cmd, s))
               else (case socket_read (size_of_int (sint n)) s of
                  None \<Rightarrow> None
                | Some (Inl err) \<Rightarrow> Some (Inl err)
                | Some (Inr (payload, s)) \<Rightarrow> Some (Inr (Inr (cmd\<lparr>cmd_payload := cmd_payload cmd @ payload\<rparr>), s)))))"

text \<open>On an open connection the engine's \<open>read_command\<close> is exactly that, on the bytes that wait.\<close>

lemma read_command_from_open:
  assumes "sock_open s ! client_socket" "\<not> sock_peer_shut s"
  shows "read_command_from s =
    (case read_command (sock_incoming s) of
       None \<Rightarrow> None
     | Some (Inl x) \<Rightarrow> Some (Inr (Inl x, s\<lparr>sock_incoming := drop header_size (sock_incoming s)\<rparr>))
     | Some (Inr (cmd, rest)) \<Rightarrow> Some (Inr (Inr cmd, s\<lparr>sock_incoming := rest\<rparr>)))"
proof (cases "length (sock_incoming s) < header_size")
  case True
  then show ?thesis using assms by (simp add: read_command_from_def read_command_def socket_read_def)
next
  case False
  let ?b = "take header_size (sock_incoming s)" and ?r = "drop header_size (sock_incoming s)"
  have hd: "socket_read header_size s = Some (Inr (?b, s\<lparr>sock_incoming := ?r\<rparr>))"
    using assms False by (simp add: socket_read_def)
  show ?thesis
  proof (cases "bindR (from_big_endian ?b) (\<lambda>cmd. bindR (payload_size cmd) (\<lambda>n. Inr (cmd, n)))")
    case (Inl x)
    then show ?thesis
      using False by (auto simp: read_command_from_def hd read_command_def bindR_Inl_iff)
  next
    case (Inr r)
    then obtain cmd n where "from_big_endian ?b = Inr cmd" "payload_size cmd = Inr n" "r = (cmd, n)"
      by (auto simp: bindR_Inr_iff)
    then show ?thesis
      using False assms
      by (auto simp: read_command_from_def hd read_command_def socket_read_def Let_def add.commute)
  qed
qed

text \<open>When the kernel has shut the connection down, a reader at the end of the stream gets end of file; on
  a socket the daemon has closed itself it gets another error.\<close>

lemma read_command_from_over:
  "sock_open s ! client_socket \<Longrightarrow> sock_peer_shut s \<Longrightarrow> length (sock_incoming s) < header_size \<Longrightarrow>
    read_command_from s = Some (Inl Eof)"
  "\<not> sock_open s ! client_socket \<Longrightarrow> read_command_from s = Some (Inl Other_Error)"
  by (simp_all add: read_command_from_def socket_read_def)

end
