(* ===== verification/Engine_Threads.thy ===== *)
theory Engine_Threads
  imports Proxy_System Usbip_Socket
begin

text \<open>
  The threads of \<open>viu::device::basic\<close> (src/usb_basic_impl.cpp) as loops: what a round of each does
  with an exception, which threads \<open>start\<close> makes, and how the destructor stops and joins them while
  they still run. The virtual functions are the pure ones of \<open>basic\<close> by then.
\<close>

section \<open>Rounds\<close>

datatype engine_thread = Produce_Thread | Reply_Thread | Transfer_Thread nat | Execute_Thread

text \<open>
  What a round of a loop can do: wait for a queue or the socket, come back to the head of the loop, end
  the thread, or leave the thread function with an exception, which terminates the process. The state
  of a thread that ended is not kept: what it took is in a queue only it reads.
\<close>

datatype 'd round = Waits | Goes_On "'d engine" | Ends | Terminates exn

definition round_of :: "'d engine res option \<Rightarrow> 'd round" where
  "round_of r = (case r of
     None \<Rightarrow> Waits
   | Some (Inl x) \<Rightarrow> if x = Queue_Closed then Ends else Terminates x
   | Some (Inr e) \<Rightarrow> Goes_On e)"

text \<open>
  \<open>io\<close> is the \<open>system_error\<close> with which the round's call of the socket fails, if it does. With \<open>None\<close>
  the reader reads a command that has arrived. In \<open>closing_step\<close> below the call of the socket fails, which is
  closed by then; a command that the reader had got just before is pushed to the closed queue, and the
  exception of that ends the thread as the end of file does.
\<close>

definition produce_round :: "socket_error option \<Rightarrow> 'd engine \<Rightarrow> 'd round" where
  "produce_round io e = (case io of
     None \<Rightarrow> round_of (command_produce e)
   | Some Eof \<Rightarrow> Ends
   | Some Other_Error \<Rightarrow> Goes_On e)"

definition reply_round :: "socket_error option \<Rightarrow> 'd engine \<Rightarrow> 'd round" where
  "reply_round io e = (case q_pull (replies_queue e) of
     None \<Rightarrow> Waits
   | Some (Inl x) \<Rightarrow> if x = Queue_Closed then Ends else Terminates x
   | Some (Inr (rep, q)) \<Rightarrow>
       (let cmd_seqnum = from_big (seqnum rep); e = e\<lparr>replies_queue := q\<rparr>
        in if os_contains (unlinked_seqnums e) cmd_seqnum
           then Goes_On (e\<lparr>unlinked_seqnums := om_erase cmd_seqnum (unlinked_seqnums e)\<rparr>)
           else (case io of
             None \<Rightarrow> Goes_On (e\<lparr>socket_out := socket_out e @ [header_bytes rep @ cmd_payload rep]\<rparr>)
           | Some Eof \<Rightarrow> Ends
           | Some Other_Error \<Rightarrow> Goes_On e)))"

definition transfer_round :: "nat \<Rightarrow> 'd engine \<Rightarrow> 'd round" where
  "transfer_round ep e = round_of (send_data_to_host ep e)"

definition execute_round :: "'d handlers \<Rightarrow> 'd engine \<Rightarrow> 'd round" where
  "execute_round h e = round_of (execute_command h e)"

definition thread_round :: "'d handlers \<Rightarrow> socket_error option \<Rightarrow> engine_thread \<Rightarrow> 'd engine \<Rightarrow> 'd round" where
  "thread_round h io t e = (case t of
     Produce_Thread \<Rightarrow> produce_round io e
   | Reply_Thread \<Rightarrow> reply_round io e
   | Transfer_Thread ep \<Rightarrow> transfer_round ep e
   | Execute_Thread \<Rightarrow> execute_round h e)"

text \<open>\<open>start\<close>: once.\<close>

definition basic_start :: "engine_thread list \<Rightarrow> engine_thread list" where
  "basic_start threads =
     (if threads \<noteq> [] then threads
      else threads @ [Produce_Thread, Reply_Thread] @ map Transfer_Thread [0..<max_count_in] @ [Execute_Thread])"

lemma reply_round_writes: "reply_round None e = round_of (reply_consume e)"
  by (auto simp: reply_round_def reply_consume_def round_of_def Let_def split: option.splits sum.splits)

lemma basic_start_once: "basic_start (basic_start ts) = basic_start ts"
  by (simp add: basic_start_def)

lemma distinct_basic_start: "distinct (basic_start [])"
  by (auto simp: basic_start_def distinct_map inj_on_def)

section \<open>The destructor\<close>

text \<open>The destructor of the proxy has run: nothing is left of the device, the four functions are pure.\<close>

definition basic_of :: "'d engine \<Rightarrow> unit engine" where
  "basic_of e = \<lparr>in_commands = in_commands e, in_data = in_data e, commands_queue = commands_queue e,
     replies_queue = replies_queue e, unlinked_seqnums = unlinked_seqnums e, socket_in = socket_in e,
     socket_out = socket_out e, dev = ()\<rparr>"

definition pure_handlers :: "unit handlers" where
  "pure_handlers = \<lparr>execute_in_control_command = (\<lambda>_ _. Inl Undefined_Behaviour),
     execute_out_control_command = (\<lambda>_ _. Inl Undefined_Behaviour),
     send_data_to_device = (\<lambda>_ _. Inl Undefined_Behaviour),
     read_data_from_device = (\<lambda>_ _. Inl Undefined_Behaviour)\<rparr>"

text \<open>
  The destructor has closed the queues and the socket and asks one thread after the other to stop and
  joins it; \<open>cl_joins\<close> are those it has not joined, the first of them was asked. A live thread is at
  the head of its loop, where it looks at its stop token, or inside a round.
\<close>

record closing =
  cl_live :: "engine_thread list"
  cl_inside :: "engine_thread \<Rightarrow> bool"
  cl_joins :: "engine_thread list"
  cl_engine :: "unit engine"

definition stop_requested :: "closing \<Rightarrow> engine_thread \<Rightarrow> bool" where
  "stop_requested s t \<longleftrightarrow> t \<notin> set (tl (cl_joins s))"

definition basic_destroy :: "engine_thread list \<Rightarrow> (engine_thread \<Rightarrow> bool) \<Rightarrow> 'd engine \<Rightarrow> closing" where
  "basic_destroy live inside e = \<lparr>cl_live = live, cl_inside = inside, cl_joins = basic_start [],
     cl_engine = close_queues (basic_of e)\<rparr>"

inductive closing_step :: "closing \<Rightarrow> closing \<Rightarrow> bool" where
  closing_enters: "t \<in> set (cl_live s) \<Longrightarrow> \<not> cl_inside s t \<Longrightarrow> \<not> stop_requested s t \<Longrightarrow>
    closing_step s (s\<lparr>cl_inside := (cl_inside s)(t := True)\<rparr>)"
| closing_stops: "t \<in> set (cl_live s) \<Longrightarrow> \<not> cl_inside s t \<Longrightarrow> stop_requested s t \<Longrightarrow>
    closing_step s (s\<lparr>cl_live := filter (\<lambda>u. u \<noteq> t) (cl_live s)\<rparr>)"
| closing_goes_on: "t \<in> set (cl_live s) \<Longrightarrow> cl_inside s t \<Longrightarrow>
    thread_round pure_handlers (Some io) t (cl_engine s) = Goes_On e \<Longrightarrow>
    closing_step s (s\<lparr>cl_inside := (cl_inside s)(t := False), cl_engine := e\<rparr>)"
| closing_ends: "t \<in> set (cl_live s) \<Longrightarrow> cl_inside s t \<Longrightarrow>
    thread_round pure_handlers (Some io) t (cl_engine s) = Ends \<Longrightarrow>
    closing_step s (s\<lparr>cl_live := filter (\<lambda>u. u \<noteq> t) (cl_live s)\<rparr>)"
| closing_joins: "cl_joins s = t # ts \<Longrightarrow> t \<notin> set (cl_live s) \<Longrightarrow> closing_step s (s\<lparr>cl_joins := ts\<rparr>)"

text \<open>A thread leaves its function with an exception.\<close>

definition closing_crashes :: "closing \<Rightarrow> exn \<Rightarrow> bool" where
  "closing_crashes s x \<longleftrightarrow> (\<exists>t\<in>set (cl_live s). cl_inside s t \<and>
     (\<exists>io. thread_round pure_handlers (Some io) t (cl_engine s) = Terminates x))"

section \<open>Rounds on closed queues\<close>

definition queues_closed :: "'d engine \<Rightarrow> bool" where
  "queues_closed e \<longleftrightarrow> q_closed (commands_queue e) \<and> q_closed (replies_queue e) \<and>
     length (in_commands e) = max_count_in \<and> length (in_data e) = max_count_in \<and>
     (\<forall>i<max_count_in. q_closed (in_commands e ! i) \<and> q_closed (in_data e ! i)) \<and>
     (\<forall>i<max_count_in. list_all (waits_at i) (q_items (in_commands e ! i)))"

lemma queues_closed_destroy: "engine_inv e \<Longrightarrow> queues_closed (cl_engine (basic_destroy live inside e))"
  by (simp add: queues_closed_def basic_destroy_def close_queues_def basic_of_def engine_inv_def q_close_def max_count_in_def)

lemma push_closed: "q_closed q \<Longrightarrow> q_push x q = Inl Queue_Closed"
  by (simp add: q_push_def)

lemma pull_closed: "q_closed q \<Longrightarrow> q_pull q \<noteq> None"
  by (simp add: q_pull_def split: list.splits)

lemma pull_closed_Inl: "q_pull q = Some (Inl x) \<Longrightarrow> x = Queue_Closed"
  by (simp add: q_pull_def split: list.splits if_splits)

lemma unlink_reply_closed:
  assumes "is_unlink c" "q_closed (replies_queue e)"
  shows "queue_reply_to_host ((request_of c)\<lparr>rq_status := status\<rparr>) e = Inl Queue_Closed"
  using make_reply_unlink [of "(request_of c)\<lparr>rq_status := status\<rparr>"] assms
  by (auto simp: request_of_def queue_reply_to_host_def push_closed)

text \<open>No reply can be queued any more: a transfer thread and the executor end, or do not get that far.\<close>

lemma reply_closed: "q_closed (replies_queue e) \<Longrightarrow> queue_reply_to_host req e \<noteq> Inr e'"
  by (auto simp: queue_reply_to_host_def bindR_Inr_iff push_closed)

lemma transfer_closed:
  assumes "queues_closed e" "i < max_count_in"
  shows "transfer_round i e = Ends \<or> (\<exists>x. transfer_round i e = Terminates x)"
proof -
  have "send_data_to_host i e \<noteq> Some (Inr e')" for e'
    using assms(1)
    by (auto simp: reply_closed send_data_to_host_def Let_def queues_closed_def bindR_Inr_iff split: option.splits sum.splits if_splits)
  moreover have "send_data_to_host i e \<noteq> None"
    using assms by (auto simp: send_data_to_host_def Let_def queues_closed_def waits_at_def list_all_iff
        dest!: sq.pull_Inr pull_closed split: option.splits sum.splits if_splits)
  ultimately show ?thesis by (auto simp: transfer_round_def round_of_def split: option.splits sum.splits)
qed

lemma execute_closed:
  assumes "queues_closed e"
  shows "execute_round pure_handlers e = Ends \<or> (\<exists>x. execute_round pure_handlers e = Terminates x)"
proof -
  have "execute_command pure_handlers e \<noteq> Some (Inr e')" for e'
    using assms
    by (auto simp: reply_closed execute_command_def Let_def queues_closed_def execute_control_command_def execute_ep_command_def
        pure_handlers_def unlink_command_def bindR_Inr_iff split: option.splits sum.splits if_splits)
  moreover have "execute_command pure_handlers e \<noteq> None"
    using assms by (auto simp: execute_command_def Let_def queues_closed_def dest!: pull_closed split: option.splits sum.splits)
  ultimately show ?thesis by (auto simp: execute_round_def round_of_def split: option.splits sum.splits)
qed

lemma reply_round_closed:
  assumes "queues_closed e"
  shows "reply_round io e = Ends \<or> (\<exists>e'. reply_round io e = Goes_On e' \<and> queues_closed e' \<and>
    length (q_items (replies_queue e)) = Suc (length (q_items (replies_queue e'))))"
proof (cases "q_items (replies_queue e)")
  case Nil
  then show ?thesis using assms by (simp add: reply_round_def q_pull_def queues_closed_def)
next
  case (Cons r rs)
  then show ?thesis using assms
    by (auto simp: reply_round_def q_pull_def queues_closed_def Let_def split: option.splits socket_error.splits)
qed

lemma produce_round_closed: "produce_round (Some io) e = Ends \<or> produce_round (Some io) e = Goes_On e"
  by (cases io) (simp_all add: produce_round_def)

lemma thread_round_closed:
  assumes "queues_closed e" "t \<in> set (basic_start [])"
  shows "thread_round pure_handlers (Some io) t e \<noteq> Waits"
    and "thread_round pure_handlers (Some io) t e = Goes_On e' \<Longrightarrow> queues_closed e' \<and>
      (if t = Produce_Thread then e' = e
       else t = Reply_Thread \<and> length (q_items (replies_queue e')) < length (q_items (replies_queue e)))"
proof -
  have "ep < max_count_in" if "t = Transfer_Thread ep" for ep using assms(2) that by (auto simp: basic_start_def)
  then show "thread_round pure_handlers (Some io) t e \<noteq> Waits"
    "thread_round pure_handlers (Some io) t e = Goes_On e' \<Longrightarrow> queues_closed e' \<and>
      (if t = Produce_Thread then e' = e
       else t = Reply_Thread \<and> length (q_items (replies_queue e')) < length (q_items (replies_queue e)))"
    using assms(1) transfer_closed [OF assms(1)] execute_closed [OF assms(1)] reply_round_closed [OF assms(1), of "Some io"]
      produce_round_closed [of io e]
    by (cases t; force simp: thread_round_def)+
qed

section \<open>The destructor returns\<close>

definition closing_inv :: "closing \<Rightarrow> bool" where
  "closing_inv s \<longleftrightarrow> queues_closed (cl_engine s) \<and> set (cl_live s) \<subseteq> set (cl_joins s) \<and>
     set (cl_joins s) \<subseteq> set (basic_start []) \<and> Produce_Thread \<notin> set (tl (cl_joins s))"

lemma closing_inv_destroy:
  "engine_inv e \<Longrightarrow> set live \<subseteq> set (basic_start []) \<Longrightarrow> closing_inv (basic_destroy live inside e)"
  using queues_closed_destroy by (auto simp: closing_inv_def) (auto simp: basic_destroy_def basic_start_def)

lemma closing_step_inv:
  assumes "closing_step s s'" "closing_inv s"
  shows "closing_inv s'"
  using assms
proof cases
  case (closing_goes_on t io e)
  then have "t \<in> set (basic_start [])" using assms(2) by (auto simp: closing_inv_def)
  then show ?thesis
    using assms(2) closing_goes_on thread_round_closed(2) [of "cl_engine s" t io e] by (simp add: closing_inv_def)
next
  case (closing_joins t ts)
  have "set (cl_live s) \<subseteq> insert t (set ts)" using assms(2) closing_joins by (simp add: closing_inv_def)
  then have "set (cl_live s) \<subseteq> set ts" using closing_joins(3) by blast
  moreover have "set (tl ts) \<subseteq> set ts" by (cases ts) auto
  ultimately show ?thesis using closing_joins(1,2) assms(2) by (simp add: closing_inv_def) blast
qed (auto simp: closing_inv_def)

text \<open>What is left to do: replies to take, threads to join, and the steps of every live thread.\<close>

definition steps_left :: "(engine_thread \<Rightarrow> bool) \<Rightarrow> engine_thread \<Rightarrow> nat" where
  "steps_left inside t = (if inside t then 2 else if t = Produce_Thread then 1 else 3)"

definition closing_measure :: "closing \<Rightarrow> nat" where
  "closing_measure s = 2 * length (q_items (replies_queue (cl_engine s))) + length (cl_joins s) +
     (\<Sum>t\<in>set (cl_live s). steps_left (cl_inside s) t)"

lemma steps_left_change:
  "t \<in> set ts \<Longrightarrow> (\<Sum>u\<in>set ts. steps_left (inside(t := b)) u) + steps_left inside t =
    (\<Sum>u\<in>set ts. steps_left inside u) + steps_left (inside(t := b)) t"
proof -
  assume t: "t \<in> set ts"
  have "(\<Sum>u\<in>set ts - {t}. steps_left (inside(t := b)) u) = (\<Sum>u\<in>set ts - {t}. steps_left inside u)"
    by (rule sum.cong) (auto simp: steps_left_def)
  then show ?thesis
    using sum.remove [OF finite_set t, of "steps_left inside"] sum.remove [OF finite_set t, of "steps_left (inside(t := b))"]
    by simp
qed

lemma steps_left_remove:
  "t \<in> set ts \<Longrightarrow> (\<Sum>u\<in>set (filter (\<lambda>u. u \<noteq> t) ts). steps_left inside u) < (\<Sum>u\<in>set ts. steps_left inside u)"
proof -
  assume t: "t \<in> set ts"
  have "set (filter (\<lambda>u. u \<noteq> t) ts) = set ts - {t}" by auto
  moreover have "0 < steps_left inside t" by (simp add: steps_left_def)
  ultimately show ?thesis using sum.remove [OF finite_set t, of "steps_left inside"] by simp
qed

lemma closing_step_decreases:
  assumes "closing_step s s'" "closing_inv s"
  shows "closing_measure s' < closing_measure s"
  using assms
proof cases
  case (closing_enters t)
  then have "t \<noteq> Produce_Thread" using assms(2) by (auto simp: closing_inv_def stop_requested_def)
  then show ?thesis
    using closing_enters steps_left_change [of t "cl_live s" "cl_inside s" True]
    by (simp add: closing_measure_def) (simp add: steps_left_def)
next
  case (closing_stops t)
  then show ?thesis using steps_left_remove [of t "cl_live s" "cl_inside s"] by (simp add: closing_measure_def)
next
  case (closing_goes_on t io e)
  have "t \<in> set (basic_start [])" using assms(2) closing_goes_on by (auto simp: closing_inv_def)
  then have "(if t = Produce_Thread then e = cl_engine s
      else length (q_items (replies_queue e)) < length (q_items (replies_queue (cl_engine s))))"
    using assms(2) closing_goes_on thread_round_closed(2) [of "cl_engine s" t io e]
    by (auto simp: closing_inv_def split: if_splits)
  moreover have "steps_left (cl_inside s) t = 2" "steps_left ((cl_inside s)(t := False)) t = (if t = Produce_Thread then 1 else 3)"
    using closing_goes_on by (simp_all add: steps_left_def)
  ultimately show ?thesis
    using closing_goes_on steps_left_change [of t "cl_live s" "cl_inside s" False]
    by (simp add: closing_measure_def split: if_splits)
next
  case (closing_ends t)
  then show ?thesis using steps_left_remove [of t "cl_live s" "cl_inside s"] by (simp add: closing_measure_def)
next
  case (closing_joins t ts)
  then show ?thesis by (simp add: closing_measure_def)
qed

text \<open>No thread waits, so as long as a thread is to be joined something happens.\<close>

lemma closing_progress:
  assumes "closing_inv s" "cl_joins s \<noteq> []"
  shows "(\<exists>s'. closing_step s s') \<or> (\<exists>x. closing_crashes s x)"
proof -
  obtain t ts where joins: "cl_joins s = t # ts" using assms(2) by (auto simp: neq_Nil_conv)
  show ?thesis
  proof (cases "t \<in> set (cl_live s)")
    case False
    then show ?thesis using closing_joins [OF joins] by blast
  next
    case live: True
    have t: "t \<in> set (basic_start [])" using assms(1) joins by (auto simp: closing_inv_def)
    show ?thesis
    proof (cases "cl_inside s t")
      case False
      then show ?thesis using closing_enters [OF live] closing_stops [OF live] by blast
    next
      case True
      have "thread_round pure_handlers (Some Eof) t (cl_engine s) \<noteq> Waits"
        using thread_round_closed(1) [OF _ t] assms(1) by (simp add: closing_inv_def)
      then show ?thesis
        using closing_goes_on [OF live True, of Eof] closing_ends [OF live True, of Eof] live True
        by (cases "thread_round pure_handlers (Some Eof) t (cl_engine s)") (auto simp: closing_crashes_def)
    qed
  qed
qed

lemma closing_reaches_end:
  assumes "closing_inv s"
  shows "\<exists>s'. closing_step\<^sup>*\<^sup>* s s' \<and> (cl_joins s' = [] \<and> cl_live s' = [] \<or> (\<exists>x. closing_crashes s' x))"
  using assms
proof (induction "closing_measure s" arbitrary: s rule: less_induct)
  case less
  show ?case
  proof (cases "cl_joins s = []")
    case True
    then have "cl_live s = []" using less.prems by (simp add: closing_inv_def)
    then show ?thesis using True by blast
  next
    case False
    consider s1 where "closing_step s s1" | x where "closing_crashes s x"
      using closing_progress [OF less.prems False] by blast
    then show ?thesis
    proof cases
      case 1
      then show ?thesis
        using less.hyps [OF closing_step_decreases [OF 1 less.prems] closing_step_inv [OF 1 less.prems]]
        by (meson converse_rtranclp_into_rtranclp)
    next
      case 2
      then show ?thesis by blast
    qed
  qed
qed

lemma closing_steps_inv: "closing_step\<^sup>*\<^sup>* s s' \<Longrightarrow> closing_inv s \<Longrightarrow> closing_inv s'"
  by (induction rule: rtranclp_induct) (auto intro: closing_step_inv)

text \<open>An engine with nothing to do for the host: no IN command waits, and the oldest command not yet
  executed, if there is one, is an unlink.\<close>

definition quiet :: "'d engine \<Rightarrow> bool" where
  "quiet e \<longleftrightarrow> (\<forall>i<max_count_in. q_items (in_commands e ! i) = []) \<and>
     (case q_items (commands_queue e) of [] \<Rightarrow> True | c # _ \<Rightarrow> is_unlink c \<and> unat (cmd_ep c) < max_count_in)"

lemma quiet_round:
  assumes "queues_closed e" "quiet e" "t \<in> set (basic_start [])"
  shows "thread_round pure_handlers (Some io) t e \<noteq> Terminates x"
    and "thread_round pure_handlers (Some io) t e = Goes_On e' \<Longrightarrow> quiet e'"
proof -
  have transfer: "transfer_round i e = Ends" if "i < max_count_in" for i
    using assms(1,2) that by (simp add: transfer_round_def send_data_to_host_def round_of_def queues_closed_def quiet_def q_pull_def)
  have execute: "execute_round pure_handlers e = Ends"
  proof (cases "q_items (commands_queue e)")
    case Nil
    then show ?thesis using assms(1) by (simp add: execute_round_def execute_command_def round_of_def queues_closed_def q_pull_def)
  next
    case (Cons c cs)
    then have c: "is_unlink c" "\<not> is_submit c" "unat (cmd_ep c) < max_count_in"
      using assms(2) submit_not_unlink by (auto simp: quiet_def)
    then show ?thesis
      using assms(1) Cons c
      by (auto simp: unlink_reply_closed execute_round_def execute_command_def round_of_def queues_closed_def q_pull_def unlink_command_def
          unlink_seqnum_def Let_def)
  qed
  show "thread_round pure_handlers (Some io) t e \<noteq> Terminates x"
    "thread_round pure_handlers (Some io) t e = Goes_On e' \<Longrightarrow> quiet e'"
    using assms transfer execute reply_round_closed [OF assms(1), of "Some io"]
    by (cases t; cases io; force simp: thread_round_def produce_round_def basic_start_def reply_round_def quiet_def Let_def
        split: option.splits sum.splits if_splits)+
qed

lemma quiet_steps:
  assumes "closing_step\<^sup>*\<^sup>* s s'" "closing_inv s" "quiet (cl_engine s)"
  shows "quiet (cl_engine s') \<and> \<not> closing_crashes s' x"
proof -
  have "closing_inv s' \<and> quiet (cl_engine s')"
    using assms
  proof (induction rule: rtranclp_induct)
    case (step s1 s2)
    then have inv: "closing_inv s1" "quiet (cl_engine s1)" by simp_all
    from step.hyps(2) have "quiet (cl_engine s2)"
    proof cases
      case (closing_goes_on t io e)
      then show ?thesis
        using inv quiet_round(2) [of "cl_engine s1" t io e] by (auto simp: closing_inv_def)
    qed (use inv in simp_all)
    then show ?case using closing_step_inv [OF step.hyps(2) inv(1)] by simp
  qed simp
  then show ?thesis using quiet_round(1) by (auto simp: closing_inv_def closing_crashes_def)
qed

text \<open>C9: The destructor of the engine never hangs, whatever is queued, whichever threads still run and
  wherever they are: once the queues and the socket are closed no run of the threads and the destructor
  is infinite, and none stops before every thread has been joined unless a thread has left its function
  with an exception. That does not happen when the engine has nothing to do for the host.\<close>

theorem destructor_never_hangs:
  assumes "engine_inv e" "set live \<subseteq> set (basic_start [])"
  shows "(\<nexists>run. run 0 = basic_destroy live inside e \<and> (\<forall>n. closing_step (run n) (run (Suc n)))) \<and>
    (\<forall>s. closing_step\<^sup>*\<^sup>* (basic_destroy live inside e) s \<longrightarrow> (\<nexists>s'. closing_step s s') \<longrightarrow>
       cl_joins s = [] \<and> cl_live s = [] \<or> (\<exists>x. closing_crashes s x)) \<and>
    (quiet e \<longrightarrow> (\<forall>s x. closing_step\<^sup>*\<^sup>* (basic_destroy live inside e) s \<longrightarrow> \<not> closing_crashes s x))"
proof (intro conjI notI allI impI)
  note inv = closing_inv_destroy [OF assms, of inside]
  assume "\<exists>run. run 0 = basic_destroy live inside e \<and> (\<forall>n. closing_step (run n) (run (Suc n)))"
  then obtain run where run: "run 0 = basic_destroy live inside e" "\<And>n. closing_step (run n) (run (Suc n))" by blast
  have "closing_inv (run n)" for n
    by (induction n) (use inv run closing_step_inv in auto)
  then have "closing_measure (run (Suc n)) < closing_measure (run n)" for n
    using closing_step_decreases [OF run(2)] by blast
  then show False using wf_no_infinite_down_chainE [OF wf_measure [of closing_measure], of run] by auto
next
  fix s
  assume "closing_step\<^sup>*\<^sup>* (basic_destroy live inside e) s" "\<nexists>s'. closing_step s s'"
  then show "cl_joins s = [] \<and> cl_live s = [] \<or> (\<exists>x. closing_crashes s x)"
    using closing_reaches_end [OF closing_steps_inv [OF _ closing_inv_destroy [OF assms, of inside]]]
    by (metis converse_rtranclpE)
next
  fix s x
  assume "quiet e" "closing_step\<^sup>*\<^sup>* (basic_destroy live inside e) s" "closing_crashes s x"
  moreover have "quiet (cl_engine (basic_destroy live inside e)) \<longleftrightarrow> quiet e"
    using assms(1) by (auto simp: quiet_def basic_destroy_def close_queues_def basic_of_def q_close_def engine_inv_def)
  ultimately show False using quiet_steps closing_inv_destroy [OF assms] by blast
qed

lemma destructor_never_hangs_witness:
  "(\<nexists>run. run 0 = basic_destroy (basic_start []) (\<lambda>_. True) example_engine \<and> (\<forall>n. closing_step (run n) (run (Suc n)))) \<and>
   (\<nexists>s x. closing_step\<^sup>*\<^sup>* (basic_destroy (basic_start []) (\<lambda>_. True) example_engine) s \<and> closing_crashes s x)"
proof -
  have "quiet example_engine" "engine_inv example_engine"
    by (simp_all add: quiet_def example_engine_def engine_inv_init) (simp_all add: engine_init_def q_init_def)
  then show ?thesis using destructor_never_hangs [of example_engine "basic_start []" "\<lambda>_. True"] by simp
qed








end
