(* ===== verification/Whole_System.thy ===== *)
theory Whole_System
  imports Plugin_System Vhci_Properties Device_Properties
begin

text \<open>
  The daemon with its real parts: the hosts of Daemon_Model with the constructors of the device, the
  proxy and the driver in place of the parameters. What a client asks of the daemon is followed into
  the devices it makes, down to the bytes of the USB/IP host.
\<close>

section \<open>The parts together\<close>

text \<open>What the daemon finds: libusb and its devices, the kernel's host controller, the state a plugin
  would have that is not there.\<close>

record ('q, 'l) environment =
  en_libusb :: "'l libusb"
  en_usb :: 'l
  en_init :: int
  en_list :: "int + (nat \<times> device_descriptor) list"
  en_open :: "nat \<Rightarrow> int \<times> nat option"
  en_sysfs :: "sysfs option"
  en_stoi :: "string \<Rightarrow> int option"
  en_no_plugin :: 'q

type_synonym 'q plugin_instance = "'q mock_opaque \<times> 'q"
type_synonym ('q, 'l) running_proxy = "('q, 'l) proxy \<times> driver"

definition blank_device :: "('q, 'l) environment \<Rightarrow> 'q plugin_instance option \<Rightarrow> ('q, 'l, 'cb) device" where
  "blank_device env p = \<lparr>dv_mock_class = False, dv_handle = None, dv_alt_settings = [], dv_pending = pm_init,
     dv_mock_iface = map_option fst p, dv_plugin = (case p of None \<Rightarrow> en_no_plugin env | Some (m, q) \<Rightarrow> q),
     dv_tree = tree_init, dv_usb = en_usb env\<rparr>"

text \<open>\<open>make_context\<close> and \<open>make_list\<close>: what \<open>libusb_init\<close> returned, the devices with their number or an error.
  No device at all is an error too.\<close>

definition make_list :: "('q, 'l) environment \<Rightarrow> (nat \<times> device_descriptor) list \<times> int" where
  "make_list env = (case en_list env of
     Inl r \<Rightarrow> ([], r)
   | Inr devs \<Rightarrow> (devs, if devs = [] then LIBUSB_ERROR_NO_DEVICE else int (length devs)))"

definition open_usb_device ::
  "('q, 'l) environment \<Rightarrow> u32 \<Rightarrow> u32 \<Rightarrow> 'q plugin_instance option \<Rightarrow> ('q, 'l, 'cb) device res" where
  "open_usb_device env vid pid p =
     (if en_init env \<noteq> LIBUSB_SUCCESS then Inl (create_failed (en_init env))
      else case make_list env of (devs, device_count) \<Rightarrow>
        if device_count < 0 then Inl (create_failed device_count)
        else device_construct (en_libusb env) vid pid devs (en_open env) (blank_device env p))"

text \<open>The constructor of a proxy makes the driver and starts the threads; the device thread attaches.\<close>

definition construct_proxy :: "('q, 'l) environment \<Rightarrow> ('q, 'l, callback) device \<Rightarrow> ('q, 'l) running_proxy res" where
  "construct_proxy env d =
     bindR (driver_construct vhci_hcd_status_parser (en_stoi env) (en_sysfs env)) (\<lambda>w. Inr (engine_init d, w))"

definition proxy_attach :: "sysfs \<Rightarrow> int \<Rightarrow> int \<Rightarrow> ('q, 'l) running_proxy \<Rightarrow> driver res option" where
  "proxy_attach S errno fd x = attach S errno fd (ucast (speed (dev (fst x)))) 1 (snd x)"

definition system_host ::
  "('q, 'l) environment \<Rightarrow> ('f, 'q plugin_instance, ('q, 'l, callback) device, ('q, 'l) running_proxy) host \<Rightarrow>
   ('f, 'q plugin_instance, ('q, 'l, callback) device, ('q, 'l) running_proxy) host" where
  "system_host env h = h\<lparr>open_device := open_usb_device env, device_tree := dv_tree, make_proxy := construct_proxy env,
     make_mock := (\<lambda>t (m, q). construct_proxy env (mock_construct t (Some m) q (en_usb env)))\<rparr>"

lemma system_host_fields:
  "open_device (system_host env h) = open_usb_device env" "make_proxy (system_host env h) = construct_proxy env"
  "make_mock (system_host env h) t (m, q) = construct_proxy env (mock_construct t (Some m) q (en_usb env))"
  "dlopen (system_host env h) = dlopen h" "factory (system_host env h) = factory h"
  "parse_options (system_host env h) = parse_options h"
  "load_config (system_host env h) fs path = load_config h fs path"
  by (simp_all add: system_host_def load_config_def)

section \<open>An example machine\<close>

text \<open>One connected device that is not the one asked for, a host controller with two free ports, and the
  mouse as the only plugin library.\<close>

type_synonym mouse_host =
  "(nat, mouse plugin_instance, (mouse, unit, callback) device, (mouse, unit) running_proxy) host"

definition mouse_host :: mouse_host where
  "mouse_host = \<lparr>
     dlopen = (\<lambda>_. Some (mouse_on_plug 0)), factory = (\<lambda>_. Some (register_usb_mock mouse_plugin, [])),
     open_device = (\<lambda>_ _ _. Inl Assertion_Failed), device_tree = dv_tree,
     make_proxy = (\<lambda>_. Inl Assertion_Failed), make_mock = (\<lambda>_ _. Inl Assertion_Failed),
     lexical = decimal_lex, boost_parse = (\<lambda>_. Inl json_error), write_file = (\<lambda>path w. Some (w, True)),
     parse_options = (\<lambda>desc args. Parsed (option_pairs (tl args))), usage_text = od_caption,
     to_u64 = (\<lambda>t. of_nat (fst (read_nat 0 t))), full_version = ''1'', archive = (\<lambda>r. map of_char (resp_message r))\<rparr>"

definition free_ports :: "kernel_port list" where
  "free_ports = [example_port 0 4 0, example_port 1 4 0]"

definition example_environment :: "(mouse, unit) environment" where
  "example_environment = \<lparr>en_libusb = example_libusb, en_usb = (), en_init = 0, en_list = Inr [(1, zero_device)],
     en_open = (\<lambda>dev. (0, Some dev)), en_sysfs = Some (kernel_sysfs free_ports), en_stoi = (\<lambda>_. Some 2), en_no_plugin = []\<rparr>"

lemma example_environment_driver:
  "\<exists>w. driver_construct vhci_hcd_status_parser (en_stoi example_environment) (en_sysfs example_environment) = Inr w \<and>
    devices w = map (\<lambda>k. update_virtual_device (read_port k) virtual_device_init) free_ports"
proof -
  have decimal: "\<forall>k\<in>set free_ports. decimal_devid k"
    by (simp add: free_ports_def example_port_def decimal_devid_def show_hex.simps is_digit_def)
  have "driver_construct vhci_hcd_status_parser (\<lambda>s. Some 2) (Some (kernel_sysfs free_ports)) =
      Inr (driver_init\<lparr>number_of_controllers := 1,
        devices := (if \<forall>k\<in>set free_ports. decimal_devid k
          then map (\<lambda>k. update_virtual_device (read_port k) virtual_device_init) free_ports
          else replicate (length free_ports) virtual_device_init)\<rparr>)"
  proof (rule kernel_driver_construct)
    show "\<forall>k\<in>set free_ports. kernel_port_ok k" "map kp_port free_ports = [0..<length free_ports]"
      by (simp_all add: free_ports_def example_port_def kernel_port_ok_def word_char_def upt_rec)
    show "get_number_of_ports (\<lambda>s. Some 2) (kernel_sysfs free_ports) = int (length free_ports)"
      by (simp add: get_number_of_ports_def kernel_sysfs_def free_ports_def)
    show "count_controllers (kernel_sysfs free_ports) = Inr 1"
      by (simp add: count_controllers_def kernel_sysfs_def stem_def)
    show "sy_attribute (kernel_sysfs free_ports) ''status'' =
        Some (''hub port sta'' @ CHR 0x0A # concat (map kernel_line free_ports))"
      by (simp add: kernel_sysfs_def)
  qed (simp_all add: free_ports_def)
  then show ?thesis using decimal by (simp add: example_environment_def)
qed

section \<open>Two devices, one port\<close>

lemma refresh_loop_writes: "refresh_loop pp S is w = Inr (r, w') \<Longrightarrow> sysfs_writes w' = sysfs_writes w"
proof (induction "is" arbitrary: w)
  case (Cons i "is")
  then show ?case
    by (fastforce simp: parse_status_def bindR_Inr_iff split: option.splits)
qed simp

lemma driver_construct_writes: "driver_construct pp stoi device = Inr w \<Longrightarrow> sysfs_writes w = []"
  by (auto simp: driver_construct_def open_driver_def refresh_status_def Let_def bindR_Inr_iff driver_init_def
      dest: refresh_loop_writes split: option.splits if_splits)

lemma proxy_attach_writes:
  assumes "construct_proxy env d = Inr x" "to_speed_enum (speed d) = Inr s" "get_free_port s (snd x) = Some port"
    and "sy_syspath S = Some path"
  shows "\<exists>w. proxy_attach S errno fd x = Some (Inr w) \<and> sysfs_writes w = [(path @ ''/attach'',
    make_string [Arith (uint port), Arith fd, Arith 1, Arith (min 5 (uint (speed_value s)))])]"
proof -
  have x: "dev (fst x) = d" "sysfs_writes (snd x) = []"
    using assms(1) driver_construct_writes by (auto simp: construct_proxy_def bindR_Inr_iff engine_init_def)
  have "ucast (ucast (speed d) :: u32) = speed d" by (rule bit_word_eqI) (simp add: bit_simps)
  then show ?thesis
    using attach_writes_port [of "ucast (speed d)" s "snd x" port S path errno fd 1] assms(2-4)
    by (simp add: proxy_attach_def x)
qed

text \<open>C12: Two devices can be given the same port. The constructor of a device's driver reads which ports
  are free, the device's thread attaches later: two devices that are made before the first is attached,
  as those of one \<open>mock\<close> request, and that go to the same hub write the same port to the controller's
  \<open>attach\<close> file, each as device number 1, and neither notices what becomes of its write.\<close>

theorem devices_share_port:
  assumes "construct_proxy env d1 = Inr x1" "construct_proxy env d2 = Inr x2"
    and "to_speed_enum (speed d1) = Inr s1" "to_speed_enum (speed d2) = Inr s2" "hub_of_speed s1 = hub_of_speed s2"
    and "get_free_port s1 (snd x1) = Some port" "sy_syspath S = Some path"
  shows "\<exists>w1 w2. proxy_attach S errno1 fd1 x1 = Some (Inr w1) \<and> proxy_attach S errno2 fd2 x2 = Some (Inr w2) \<and>
    sysfs_writes w1 = [(path @ ''/attach'', make_string [Arith (uint port), Arith fd1, Arith 1, Arith (min 5 (uint (speed_value s1)))])] \<and>
    sysfs_writes w2 = [(path @ ''/attach'', make_string [Arith (uint port), Arith fd2, Arith 1, Arith (min 5 (uint (speed_value s2)))])]"
proof -
  have "snd x1 = snd x2" using assms(1,2) by (auto simp: construct_proxy_def bindR_Inr_iff)
  then have "get_free_port s2 (snd x2) = Some port" using assms(5,6) by (simp add: get_free_port_def)
  from proxy_attach_writes [OF assms(2,4) this assms(7)] proxy_attach_writes [OF assms(1,3,6,7)] show ?thesis by blast
qed

definition high_speed_device :: "(mouse, unit, callback) device" where
  "high_speed_device = mock_construct (tree_init\<lparr>device_desc := zero_device\<lparr>dd_bcdUSB := 0x0200\<rparr>\<rparr>)
     (Some (register_usb_mock mouse_plugin)) [] ()"

lemma high_speed_speed: "to_speed_enum (speed high_speed_device) = Inr USB_SPEED_HIGH"
  by (simp add: speed_def high_speed_device_def mock_construct_def to_speed_enum_def)

lemma high_speed_made:
  obtains w where "construct_proxy example_environment high_speed_device = Inr (engine_init high_speed_device, w)"
    "get_free_port USB_SPEED_HIGH w = Some 0"
proof -
  obtain w where w: "driver_construct vhci_hcd_status_parser (en_stoi example_environment) (en_sysfs example_environment) = Inr w"
    "devices w = map (\<lambda>k. update_virtual_device (read_port k) virtual_device_init) free_ports"
    using example_environment_driver by (elim exE conjE)
  have "construct_proxy example_environment high_speed_device = Inr (engine_init high_speed_device, w)"
    using w(1) by (simp add: construct_proxy_def)
  moreover have "get_free_port USB_SPEED_HIGH w = Some 0"
    by (simp add: get_free_port_def w(2) free_ports_def example_port_def read_port_def update_virtual_device_def
        hub_of_speed_def VDEV_ST_NULL_def)
  ultimately show thesis by (rule that)
qed

lemma devices_share_port_witness:
  "\<exists>x w1 w2. construct_proxy example_environment high_speed_device = Inr x \<and>
    proxy_attach (kernel_sysfs free_ports) 0 7 x = Some (Inr w1) \<and> proxy_attach (kernel_sysfs free_ports) 0 9 x = Some (Inr w2) \<and>
    sysfs_writes w1 = [(''/sys/devices/platform/vhci_hcd.0/attach'', make_string [Arith 0, Arith 7, Arith 1, Arith 3])] \<and>
    sysfs_writes w2 = [(''/sys/devices/platform/vhci_hcd.0/attach'', make_string [Arith 0, Arith 9, Arith 1, Arith 3])]"
proof -
  obtain w where made: "construct_proxy example_environment high_speed_device = Inr (engine_init high_speed_device, w)"
    and port: "get_free_port USB_SPEED_HIGH w = Some 0"
    by (rule high_speed_made)
  have path: "sy_syspath (kernel_sysfs free_ports) = Some ''/sys/devices/platform/vhci_hcd.0''" by (simp add: kernel_sysfs_def)
  show ?thesis
    using devices_share_port [OF made made high_speed_speed high_speed_speed refl _ path, of 0 0 7 0 9] port made
    by (auto simp: speed_value_def)
qed

section \<open>A device that is not there\<close>

text \<open>C11: Asking the daemon for a device that is not connected ends it. A \<open>proxydev\<close> request, as the
  client sends it, for a vendor and product that no connected device has, or that two have, fails the
  assertion in the device's constructor that exactly one matches; the daemon and all its other devices
  are gone. The same with \<open>save\<close> and \<open>save-hid-report\<close>.\<close>

theorem unmatched_device_ends_daemon:
  assumes "args_of_payload payload = Inr (prog # command # rest)" "length payload < 2 ^ 32"
    and "(command, desc) \<in> {(''proxydev'', proxydev_options), (''save'', save_options), (''save-hid-report'', save_hid_options)}"
    and "parse_options h desc (command # rest) = Parsed vm" "map_of vm ''help'' = None" "map_of vm ''catalog'' = None"
    and "map_of vm ''device'' = Some text" "command \<noteq> ''proxydev'' \<Longrightarrow> map_of vm ''file'' = Some file" "read_device_id text = (vid, pid)"
    and "en_init env = LIBUSB_SUCCESS" "en_list env = Inr devs" "devs \<noteq> []" "length (matching_devices vid pid devs) \<noteq> 1"
  shows "handle_accept (system_host env h) (Connected (frame payload)) s = Died Assertion_Failed"
proof -
  have opens: "open_usb_device env vid pid None = (Inl Assertion_Failed :: (_, _, callback) device res)"
    using assms(10-13) by (auto simp: open_usb_device_def make_list_def device_construct_def split: list.splits)
  let ?h = "system_host env h"
  have dispatch: "execute_from_argv ?h (prog # ''proxydev'' # rest) s = run_proxydev_command ?h (''proxydev'' # rest) s"
    "execute_from_argv ?h (prog # ''save'' # rest) s = run_save_command ?h (''save'' # rest) s"
    "execute_from_argv ?h (prog # ''save-hid-report'' # rest) s = run_save_hid_report ?h (''save-hid-report'' # rest) s"
    by (simp_all add: execute_from_argv_def get_subcommand_def subcommands_def om_find_def)
  note frame = with_options_def parse_command_def system_host_fields bindC_def liftC_def vm_count_def vm_value_def
    check_cli_params_def
  have run: "app_proxy ?h vid pid [] s = (Inl Assertion_Failed, s)" "app_save_config ?h vid pid path s = (Inl Assertion_Failed, s)"
    "app_save_hid_report ?h vid pid path s = (Inl Assertion_Failed, s)" for path
    using opens by (simp_all add: app_proxy_def create_proxy_device_def app_save_config_def app_save_hid_report_def
        system_host_fields bindC_def liftC_def)
  consider "command = ''proxydev''" "desc = proxydev_options" | "command = ''save''" "desc = save_options"
    | "command = ''save-hid-report''" "desc = save_hid_options"
    using assms(3) by blast
  then have "execute_from_argv ?h (prog # command # rest) s = (Inl Assertion_Failed, s)"
  proof cases
    case 1
    then show ?thesis using assms(4-7,9) run(1) by (simp add: dispatch run_proxydev_command_def frame)
  next
    case 2
    then show ?thesis using assms(4,5,7-9) run(2) by (simp add: dispatch run_save_command_def frame)
  next
    case 3
    then show ?thesis using assms(4,5,7-9) run(3) by (simp add: dispatch run_save_hid_report_def frame)
  qed
  then show ?thesis using assms(1,2)
    by (simp add: handle_framed bindC_def liftC_def is_std_exception_def)
qed

definition proxydev_request :: "string list" where
  "proxydev_request = [''viu'', ''proxydev'', ''--device'', ''46d:c077'']"

lemma proxydev_request_id: "read_device_id ''46d:c077'' = (0x46D, 0xC077)"
  using read_device_id_digits [of "''46d''" "''c077''"] by (simp add: hex_digit_def)

lemma unmatched_device_ends_daemon_witness:
  "handle_accept (system_host example_environment mouse_host) (Connected (frame (example_request proxydev_request)))
    (service_init (\<lambda>_. None)) = Died Assertion_Failed"
proof (rule unmatched_device_ends_daemon)
  have "args_of_payload (example_request proxydev_request) = Inr proxydev_request"
    by (rule args_of_example) (simp_all add: proxydev_request_def c_string_def)
  then show "args_of_payload (example_request proxydev_request) = Inr (''viu'' # ''proxydev'' # drop 2 proxydev_request)"
    by (simp add: proxydev_request_def)
  show "length (example_request proxydev_request) < 2 ^ 32"
    by (simp add: example_request_def encode_args_def proxydev_request_def)
  show "parse_options mouse_host proxydev_options (''proxydev'' # drop 2 proxydev_request) = Parsed [(''device'', ''46d:c077'')]"
    by (simp add: mouse_host_def proxydev_request_def)
  show "read_device_id ''46d:c077'' = (0x46D, 0xC077)" by (rule proxydev_request_id)
  show "length (matching_devices 0x46D 0xC077 [(1, zero_device)]) \<noteq> 1"
    by (simp add: matching_devices_def zero_device_def)
qed (simp_all add: example_environment_def LIBUSB_SUCCESS_def)

section \<open>From the client to the mouse\<close>

lemma mock_single_device:
  assumes "daemon_reachable h fs s" "load_config h (files s) config = Inr t"
    and "om_find (virtual_device_manager s) cat = None" "loader_construct (dlopen h) cat = Inr c"
    and "catalog_entries c = [(name, f)]" "factory h f = Some p" "make_mock h t p = Inr x" "issued s < 2 ^ 64"
  shows "\<exists>s' resp. app_mock h config cat s = (Inr resp, s') \<and> is_success resp \<and>
    virtual_devices s' = virtual_devices s @ [(of_nat (issued s), config_info t x)]"
proof -
  let ?s = "s\<lparr>virtual_device_manager := fst (om_insert cat c (virtual_device_manager s))\<rparr>"
  have inv: "daemon_inv s" by (rule reachable_inv [OF assms(1)])
  have cat: "om_find (virtual_device_manager ?s) cat = Some c"
    using inv assms(3) by (simp add: om_find_insert daemon_inv_def)
  have inv': "daemon_inv ?s" using inv by (simp add: daemon_inv_def om_inv_insert)
  have N: "number_of_devices c = 1" using assms(5) by (simp add: number_of_devices_def)
  have "step_makes h cat t c 0 x"
    using assms(5-7)
    by (simp add: step_makes_def config_info_def create_mock_device_from_catalog_def bindC_def liftC_def
        instance_of_def manager_device_def device_name_def catalog_device_def)
  then obtain u where loop: "foldC (\<lambda>n. bindC (liftC (device_name c n)) (\<lambda>name. create_mock_device_from_catalog h cat name t))
      [0..<number_of_devices c] ?s = (Inr (), u)" and u: "virtual_devices u = virtual_devices s @ [(of_nat (issued s), config_info t x)]"
    using mock_whole_loop [of "number_of_devices c" h cat t c "\<lambda>_. x" ?s] cat inv' assms(8) by (auto simp: N)
  have reg: "service_register_catalog h cat s = (Inr (Inr c), ?s)"
    using assms(3,4) by (simp add: service_register_catalog_def register_catalog_def)
  let ?resp = "response_success (print_catalog_info c @ println ''Mock devices started successfully'')"
  have "app_mock h config cat s = (Inr ?resp, u)"
    by (simp add: app_mock_def assms(2) bindC_run [where m = "service_register_catalog h cat" and s = s, OF reg]
        bindC_run [where m = "foldC _ _" and s = ?s, OF loop] retC_def)
  then show ?thesis using u
    by (intro exI [of _ u] exI [of _ ?resp]) (simp add: is_success_def has_error_def response_success_def)
qed

lemma fresh_mouse:
  fixes l0 :: 'l and t :: tree
  defines "x \<equiv> engine_init (mock_construct t (Some (register_usb_mock mouse_plugin)) [] l0) :: (mouse, 'l) proxy"
  shows "mock_reachable mouse_plugin mouse_tick [] L (x\<lparr>socket_in := bs\<rparr>)" "dv_plugin (dev x) = []"
    "commands_queue x = q_init" "replies_queue x = q_init" "in_commands x ! 1 = q_init" "in_data x ! 1 = q_init"
    "unlinked_seqnums x = []" "dv_usb (dev x) = l0" "allocator_fresh L (dev x)" "socket_out x = []"
    "ep_transfer_type a (dev x) = ep_transfer_type a (mock_construct t m p l :: (_, _, callback) device)"
proof -
  have "mock_reachable mouse_plugin mouse_tick [] L (x\<lparr>socket_in := socket_in x @ bs\<rparr>)"
    unfolding x_def by (rule mock_receive [OF mock_start])
  then show "mock_reachable mouse_plugin mouse_tick [] L (x\<lparr>socket_in := bs\<rparr>)"
    by (simp add: x_def) (simp add: engine_init_def)
qed (simp_all add: x_def engine_init_def mock_construct_def max_count_in_def allocator_fresh_def pm_init_def
    ep_transfer_type_def split: option.split)

text \<open>C1: From the client to the report. A client's \<open>mock\<close> with the mouse library and a configuration
  that has endpoint 0x81 is answered with success and enters exactly one device, under the next
  identifier and with the vendor and product of the configuration. When the host then polls that
  device, the reader, the executor, a tick, the transfer thread and the reply thread write it exactly
  one message: the RET_SUBMIT of its command with the report that moves up five steps.\<close>

theorem mocked_mouse_moves:
  assumes "daemon_reachable (system_host env h) fs s" "load_config h (files s) config = Inr t" "issued s < 2 ^ 64"
    and "om_find (virtual_device_manager s) cat = None" "dlopen h cat = Some (mouse_on_plug f)"
    and "factory h f = Some (register_usb_mock mouse_plugin, [])"
    and "driver_construct vhci_hcd_status_parser (en_stoi env) (en_sysfs env) = Inr w"
    and "ep_transfer_type 0x81 (mock_construct t None () () :: (_, _, callback) device) \<in> {Some TRANSFER_TYPE_BULK, Some TRANSFER_TYPE_INTERRUPT}"
    and "lu_alloc_transfer (en_libusb env) 0 (en_usb env) = (Some tid, l)"
    and "hb_command b = USBIP_CMD_SUBMIT" "hb_direction b = USBIP_DIR_IN" "hb_ep b = 1" "8 \<le> n" "n < 2 ^ 31"
    and "packets \<in> {0, 0xffffffff}" "length stp = 8"
  shows "\<exists>s' resp x. app_mock (system_host env h) config cat s = (Inr resp, s') \<and> is_success resp \<and>
    virtual_devices s' = virtual_devices s @ [(of_nat (issued s), config_info t (x, w))] \<and>
    (\<exists>e1 e2 e3 e4 e5. command_produce (x\<lparr>socket_in := submit_wire b flags (of_nat n) start packets interval stp\<rparr>) = Some (Inr e1) \<and>
      execute_command (proxy_handlers (en_libusb env)) e1 = Some (Inr e2) \<and> plugin_acts mouse_tick e2 = Inr e3 \<and>
      send_data_to_host 1 e3 = Some (Inr e4) \<and> reply_consume e4 = Some (Inr e5) \<and> socket_out e5 = [
        be32 USBIP_RET_SUBMIT @ be32 (hb_seqnum b) @ be32 (hb_devid b) @ be32 USBIP_DIR_IN @ be32 1 @ be32 0 @ be32 8 @
        be32 start @ be32 packets @ be32 0 @ replicate 8 0 @ [0, 0, 0, 0, 251, 255, 0, 0]])"
proof -
  let ?h = "system_host env h" and ?L = "en_libusb env"
  let ?x = "engine_init (mock_construct t (Some (register_usb_mock mouse_plugin)) [] (en_usb env)) :: (mouse, 'b) proxy"
  let ?wire = "submit_wire b flags (of_nat n) start packets interval stp"
  have make: "make_mock ?h t (register_usb_mock mouse_plugin, []) = Inr (?x, w)"
    using assms(7) by (simp add: system_host_fields construct_proxy_def)
  have load: "load_config ?h (files s) config = Inr t" "dlopen ?h cat = Some (mouse_on_plug f)"
    "factory ?h f = Some (register_usb_mock mouse_plugin, [])"
    using assms(2,5,6) by (simp_all add: system_host_fields)
  obtain s' resp where daemon: "app_mock ?h config cat s = (Inr resp, s')" "is_success resp"
    "virtual_devices s' = virtual_devices s @ [(of_nat (issued s), config_info t (?x, w))]"
    using mock_single_device [OF assms(1) load(1) assms(4) plugin_catalogs_load(1) [where dl = "dlopen ?h", OF load(2)] _ load(3) make assms(3)]
    by auto
  note reach = fresh_mouse(1) [where L = ?L and t = t and ?l0.0 = "en_usb env" and bs = ?wire]
  note fresh = fresh_mouse(2-8,10) [where t = t and ?l0.0 = "en_usb env"] fresh_mouse(9) [where L = ?L and t = t and ?l0.0 = "en_usb env"]
  have start: "dv_plugin (dev (?x\<lparr>socket_in := ?wire\<rparr>)) = []" "commands_queue (?x\<lparr>socket_in := ?wire\<rparr>) = q_init"
    "replies_queue (?x\<lparr>socket_in := ?wire\<rparr>) = q_init" "in_commands (?x\<lparr>socket_in := ?wire\<rparr>) ! 1 = q_init"
    "in_data (?x\<lparr>socket_in := ?wire\<rparr>) ! 1 = q_init" "unlinked_seqnums (?x\<lparr>socket_in := ?wire\<rparr>) = []"
    "lu_alloc_transfer ?L 0 (dv_usb (dev (?x\<lparr>socket_in := ?wire\<rparr>))) = (Some tid, l)"
    "allocator_fresh ?L (dev (?x\<lparr>socket_in := ?wire\<rparr>))"
    "ep_transfer_type 0x81 (dev (?x\<lparr>socket_in := ?wire\<rparr>)) \<in> {Some TRANSFER_TYPE_BULK, Some TRANSFER_TYPE_INTERRUPT}"
    "socket_in (?x\<lparr>socket_in := ?wire\<rparr>) = ?wire @ []" "socket_out (?x\<lparr>socket_in := ?wire\<rparr>) = []"
    using fresh assms(8,9) fresh_mouse(11) [where a = "0x81" and t = t and ?l0.0 = "en_usb env" and m = None and p = "()" and l = "()"] by simp_all
  from mouse_report_reaches_host [OF reach start(1-9) assms(10-16) start(10)] start(11)
  have path: "\<exists>e1 e2 e3 e4 e5. command_produce (?x\<lparr>socket_in := ?wire\<rparr>) = Some (Inr e1) \<and>
      execute_command (proxy_handlers ?L) e1 = Some (Inr e2) \<and> plugin_acts mouse_tick e2 = Inr e3 \<and>
      send_data_to_host 1 e3 = Some (Inr e4) \<and> reply_consume e4 = Some (Inr e5) \<and> socket_out e5 = [
        be32 USBIP_RET_SUBMIT @ be32 (hb_seqnum b) @ be32 (hb_devid b) @ be32 USBIP_DIR_IN @ be32 1 @ be32 0 @ be32 8 @
        be32 start @ be32 packets @ be32 0 @ replicate 8 0 @ [0, 0, 0, 0, 251, 255, 0, 0]]"
    by (simp only: append_Nil) blast
  show ?thesis by (rule exI [of _ s'], rule exI [of _ resp], rule exI [of _ ?x]) (use daemon path in blast)
qed

lemma mouse_configuration_loads:
  "\<exists>t w. load_config mouse_host (\<lambda>_. Some w) ''c'' = Inr t \<and>
    ep_transfer_type 0x81 (mock_construct t None () () :: (_, _, callback) device) = Some TRANSFER_TYPE_INTERRUPT"
proof -
  obtain t where t: "tree_construct zero_device (Some (endpoint_config 0x81)) [] None [] = Inr t"
    using endpoint_config_builds [of "0x81"] by (auto simp: tree_construct_def build_bos_def)
  obtain w where w: "tree_save True t = Inr w" by (simp add: tree_save_def)
  have wf: "wf_tree t" by (rule tree_construct_wf [OF t]) (simp_all add: wf_strings_def)
  have load: "load_config mouse_host (\<lambda>_. Some w) ''c'' = Inr t"
    by (rule load_saved [OF _ wf w]) (simp_all add: mouse_host_def decimal_lex_ok path_extension_def)
  have "map (\<lambda>e. (address e, attributes e)) (all_endpoints t) = [(0x81, 3)]"
    by (rule endpoint_config_endpoints [OF t])
  then obtain ep where "all_endpoints t = [ep]" "address ep = 0x81" "attributes ep = 3" by (auto simp: map_eq_Cons_conv)
  then have "ep_transfer_type 0x81 (mock_construct t None () () :: (_, _, callback) device) = Some TRANSFER_TYPE_INTERRUPT"
    by (simp add: ep_transfer_type_def mock_construct_def ep_transfer_type_mask_def TRANSFER_TYPE_INTERRUPT_def)
  with load show ?thesis by blast
qed

lemma mocked_mouse_moves_witness:
  "\<exists>s s' resp x e1 e2 e3 e4 e5. app_mock (system_host example_environment mouse_host) ''c'' ''mouse.so'' s = (Inr resp, s') \<and>
    is_success resp \<and> length (virtual_devices s') = 1 \<and>
    command_produce (x\<lparr>socket_in := example_poll\<rparr>) = Some (Inr e1) \<and>
    execute_command (proxy_handlers example_libusb) e1 = Some (Inr e2) \<and> plugin_acts mouse_tick e2 = Inr e3 \<and>
    send_data_to_host 1 e3 = Some (Inr e4) \<and> reply_consume e4 = Some (Inr e5) \<and>
    socket_out e5 = [be32 3 @ be32 7 @ be32 0x10002 @ be32 1 @ be32 1 @ be32 0 @ be32 8 @ be32 0 @ be32 0 @ be32 0 @
      replicate 8 0 @ [0, 0, 0, 0, 251, 255, 0, 0]]"
proof -
  let ?h = "system_host example_environment mouse_host" and ?b = "example_base\<lparr>hb_ep := 1\<rparr>"
  obtain t w where load: "load_config mouse_host (\<lambda>_. Some w) ''c'' = Inr t"
    and ty: "ep_transfer_type 0x81 (mock_construct t None () () :: (_, _, callback) device) = Some TRANSFER_TYPE_INTERRUPT"
    using mouse_configuration_loads by (elim exE conjE)
  obtain v where v: "driver_construct vhci_hcd_status_parser (en_stoi example_environment) (en_sysfs example_environment) = Inr v"
    using example_environment_driver by (elim exE conjE)
  let ?s = "(service_init (\<lambda>_. None))\<lparr>files := \<lambda>_. Some w\<rparr> :: (nat, (mouse, unit) running_proxy) service"
  have s: "daemon_reachable ?h (\<lambda>_. None) ?s" by (intro daemon_reachable.files_change daemon_reachable.started)
  have state: "load_config mouse_host (files ?s) ''c'' = Inr t" "issued ?s < 2 ^ 64"
    "om_find (virtual_device_manager ?s) ''mouse.so'' = None" "virtual_devices ?s = []"
    using load by (simp_all add: service_init_def om_find_def)
  have lib: "dlopen mouse_host ''mouse.so'' = Some (mouse_on_plug 0)"
    "factory mouse_host 0 = Some (register_usb_mock mouse_plugin, [])"
    by (simp_all add: mouse_host_def)
  have ty': "ep_transfer_type 0x81 (mock_construct t None () () :: (_, _, callback) device) \<in>
      {Some TRANSFER_TYPE_BULK, Some TRANSFER_TYPE_INTERRUPT}" using ty by simp
  have alloc: "lu_alloc_transfer (en_libusb example_environment) 0 (en_usb example_environment) = (Some 5, ())"
    by (simp add: example_environment_def example_libusb_def)
  have b: "hb_command ?b = USBIP_CMD_SUBMIT" "hb_direction ?b = USBIP_DIR_IN" "hb_ep ?b = 1" "hb_seqnum ?b = 7" "hb_devid ?b = 0x10002"
    by (simp_all add: example_base_def usbip_consts)
  have poll: "submit_wire ?b 0x200 (of_nat 8) 0 0 1 (replicate 8 0) = example_poll" by (simp add: example_poll_def)
  have sizes: "(8 :: nat) \<le> 8" "(8 :: nat) < 2 ^ 31" "(0 :: u32) \<in> {0, 0xffffffff}" "length (replicate 8 (0 :: u8)) = 8"
    by simp_all
  note moves = mocked_mouse_moves [OF s state(1,2,3) lib v ty' alloc b(1-3) sizes, where flags = "0x200" and start = 0 and interval = 1,
      unfolded poll b(4,5)]
  obtain s' resp x where run: "app_mock ?h ''c'' ''mouse.so'' ?s = (Inr resp, s') \<and> is_success resp \<and>
    virtual_devices s' = virtual_devices ?s @ [(of_nat (issued ?s), config_info t (x, v))] \<and>
    (\<exists>e1 e2 e3 e4 e5. command_produce (x\<lparr>socket_in := example_poll\<rparr>) = Some (Inr e1) \<and>
      execute_command (proxy_handlers (en_libusb example_environment)) e1 = Some (Inr e2) \<and> plugin_acts mouse_tick e2 = Inr e3 \<and>
      send_data_to_host 1 e3 = Some (Inr e4) \<and> reply_consume e4 = Some (Inr e5) \<and>
      socket_out e5 = [be32 USBIP_RET_SUBMIT @ be32 7 @ be32 0x10002 @ be32 USBIP_DIR_IN @ be32 1 @ be32 0 @ be32 8 @
        be32 0 @ be32 0 @ be32 0 @ replicate 8 0 @ [0, 0, 0, 0, 251, 255, 0, 0]])"
    using moves by (elim exE) (rule that)
  have one: "length (virtual_devices s') = 1" using run unfolding state(4) by (elim conjE) simp
  have libusb: "en_libusb example_environment = example_libusb" by (simp add: example_environment_def)
  have names: "USBIP_RET_SUBMIT = (3 :: u32)" "USBIP_DIR_IN = (1 :: u32)" by (simp_all add: usbip_consts)
  show ?thesis using run one unfolding libusb names by blast
qed

end
