(* ===== verification/Daemon_Run.thy ===== *)
theory Daemon_Run
  imports Daemon_Properties
begin

text \<open>
  The process around the service (main.cpp, \<open>service::run\<close> in src/daemon/daemon_impl.cpp): whether the
  program becomes the daemon or a client, the file of its socket, the loop that accepts connections
  until a signal comes, and what is left behind when the daemon ends.

  Of the file system only which paths exist matters. The events of the loop are given as the list in
  which \<open>io_context::run\<close> dispatches them: one thread, so a handler runs to its end.
\<close>

section \<open>The file of the socket\<close>

definition runtime_dir :: "string set \<Rightarrow> string \<times> string set" where
  "runtime_dir paths = (''/tmp/viud'', paths \<union> {''/tmp'', ''/tmp/viud''})"

definition socket_path :: "string set \<Rightarrow> string \<times> string set" where
  "socket_path paths = (case runtime_dir paths of (dir, paths) \<Rightarrow> (dir @ ''/viud.sock'', paths))"

definition is_running :: "string set \<Rightarrow> bool \<times> string set" where
  "is_running paths = (case socket_path paths of (path, paths) \<Rightarrow> (path \<in> paths, paths))"

definition is_service_start :: "string set \<Rightarrow> bool \<times> string set" where
  "is_service_start paths =
     (case is_running paths of (running, paths) \<Rightarrow>
        if running then (False, paths)
        else (case runtime_dir paths of (dir, paths) \<Rightarrow> (dir \<in> paths, paths)))"

lemma is_service_start_eq:
  "is_service_start paths = (''/tmp/viud/viud.sock'' \<notin> paths, paths \<union> {''/tmp'', ''/tmp/viud''})"
  by (auto simp: is_service_start_def is_running_def socket_path_def runtime_dir_def)

section \<open>The loop\<close>

text \<open>
  What waits in the loop is the accept that was started and the wait for a signal; it returns when there
  is neither. Closing the acceptor completes the accept with an error. \<open>rn_answers\<close> is what was written to
  the connections so far, one entry for each that was accepted.
\<close>

record ('f, 'x) running =
  rn_service :: "('f, 'x) service"
  rn_open :: bool
  rn_accepting :: bool
  rn_awaits_signal :: bool
  rn_paths :: "string set"
  rn_answers :: "bytes option list"

datatype run_event = Signal | Accept connection

datatype 's run_end = Waiting 's | Returned int 's | Crashed exn 's

text \<open>The constructor of the acceptor creates the file and throws when there is one.\<close>

definition service_run :: "(string \<Rightarrow> string option) \<Rightarrow> string set \<Rightarrow> ('f, 'x) running res" where
  "service_run fs paths =
     (case socket_path paths of (path, paths) \<Rightarrow>
        if path \<in> paths then Inl (Runtime_Error ''bind: Address already in use'')
        else Inr \<lparr>rn_service = service_init fs, rn_open = True, rn_accepting = True, rn_awaits_signal = True,
          rn_paths = insert path paths, rn_answers = []\<rparr>)"

definition on_signal :: "('f, 'x) running \<Rightarrow> ('f, 'x) running" where
  "on_signal r = r\<lparr>rn_awaits_signal := False, rn_paths := rn_paths r - {fst (socket_path (rn_paths r))}, rn_open := False\<rparr>"

definition on_accept ::
  "('f, 'p, 'd, 'x) host \<Rightarrow> connection \<Rightarrow> ('f, 'x) running \<Rightarrow> exn + ('f, 'x) running" where
  "on_accept h c r =
     (case handle_accept h c (rn_service r) of
        Died e \<Rightarrow> Inl e
      | Running s answer \<Rightarrow> Inr (r\<lparr>rn_service := s, rn_accepting := rn_open r, rn_answers := rn_answers r @ [answer]\<rparr>))"

definition loop_done :: "('f, 'x) running \<Rightarrow> bool" where
  "loop_done r \<longleftrightarrow> \<not> rn_accepting r \<and> \<not> rn_awaits_signal r"

text \<open>An event nobody waits for does not occur.\<close>

fun io_run ::
  "('f, 'p, 'd, 'x) host \<Rightarrow> run_event list \<Rightarrow> ('f, 'x) running \<Rightarrow> ('f, 'x) running run_end" where
  "io_run h [] r = (if loop_done r then Returned 0 r else Waiting r)"
| "io_run h (Signal # evs) r =
     (if loop_done r then Returned 0 r else if rn_awaits_signal r then io_run h evs (on_signal r) else io_run h evs r)"
| "io_run h (Accept c # evs) r =
     (if loop_done r then Returned 0 r
      else if rn_accepting r then (case on_accept h c r of Inl e \<Rightarrow> Crashed e r | Inr r \<Rightarrow> io_run h evs r)
      else io_run h evs r)"

section \<open>The program\<close>

text \<open>
  \<open>daemon\<close> is what the process that listens on the socket answers; without one the connection is refused,
  which the client reports before it exits with 1.
\<close>

definition send_command ::
  "(bytes \<Rightarrow> bytes) option \<Rightarrow> (bytes \<Rightarrow> response res) \<Rightarrow> bytes list \<Rightarrow> int \<times> string" where
  "send_command daemon unarchive args =
     (case daemon of
        None \<Rightarrow> (1, [])
      | Some answer \<Rightarrow>
          (case client_request args of Inl e \<Rightarrow> (1, []) | Inr request \<Rightarrow> client_answer unarchive (answer request)))"

datatype 's started = Serves 's | Exits int | Terminated exn

definition viu_main ::
  "(bytes \<Rightarrow> bytes) option \<Rightarrow> (bytes \<Rightarrow> response res) \<Rightarrow> (string \<Rightarrow> string option) \<Rightarrow> bytes list \<Rightarrow> string set \<Rightarrow>
   ('f, 'x) running started \<times> string set" where
  "viu_main daemon unarchive fs args paths =
     (case (if length args < 2 then is_service_start paths else (False, paths)) of (serves, paths) \<Rightarrow>
        if serves
        then (case service_run fs paths of Inl e \<Rightarrow> (Terminated e, paths) | Inr r \<Rightarrow> (Serves r, rn_paths r))
        else (Exits (fst (send_command daemon unarchive args)), snd (socket_path paths)))"

section \<open>Until a signal\<close>

definition serving :: "('f, 'p, 'd, 'x) host \<Rightarrow> (string \<Rightarrow> string option) \<Rightarrow> ('f, 'x) running \<Rightarrow> bool" where
  "serving h fs r \<longleftrightarrow> daemon_reachable h fs (rn_service r) \<and> rn_open r \<and> rn_accepting r \<and> rn_awaits_signal r \<and>
     {''/tmp'', ''/tmp/viud'', ''/tmp/viud/viud.sock''} \<subseteq> rn_paths r"

lemma serving_start: "service_run fs paths = Inr r \<Longrightarrow> serving h fs r"
  by (auto simp: service_run_def serving_def socket_path_def runtime_dir_def daemon_reachable.started split: if_splits)

lemma serving_accept: "serving h fs r \<Longrightarrow> on_accept h c r = Inr r' \<Longrightarrow> serving h fs r'"
  by (auto simp: serving_def on_accept_def split: outcome.splits intro: daemon_reachable.request)

lemma loop_done_serving: "serving h fs r \<Longrightarrow> \<not> loop_done r"
  by (simp add: serving_def loop_done_def)

text \<open>The reference: the connections one after the other, each with the tables the one before left behind. The
  result is what was written to each, the tables, and the exception that ended the daemon, if one did.\<close>

fun serve_in_turn ::
  "('f, 'p, 'd, 'x) host \<Rightarrow> connection list \<Rightarrow> ('f, 'x) service \<Rightarrow> bytes option list \<times> ('f, 'x) service \<times> exn option" where
  "serve_in_turn h [] s = ([], s, None)"
| "serve_in_turn h (c # cs) s =
     (case handle_accept h c s of
        Died e \<Rightarrow> ([], s, Some e)
      | Running s' answer \<Rightarrow> (case serve_in_turn h cs s' of (answers, t, died) \<Rightarrow> (answer # answers, t, died)))"

lemma serve_in_turn_reachable:
  "daemon_reachable h fs s \<Longrightarrow> serve_in_turn h cs s = (answers, t, died) \<Longrightarrow> daemon_reachable h fs t"
  by (induction h cs s arbitrary: answers rule: serve_in_turn.induct)
    (auto split: outcome.splits prod.splits intro: daemon_reachable.request)

lemma serve_in_turn_answers: "serve_in_turn h cs s = (answers, t, None) \<Longrightarrow> length answers = length cs"
  by (induction h cs s arbitrary: answers rule: serve_in_turn.induct) (auto split: outcome.splits prod.splits)

lemma io_run_serving:
  assumes "serving h fs r" "serve_in_turn h cs (rn_service r) = (answers, s, died)"
    and "r' = r\<lparr>rn_service := s, rn_answers := rn_answers r @ answers\<rparr>"
  shows "serving h fs r' \<and> io_run h (map Accept cs @ evs) r = (case died of None \<Rightarrow> io_run h evs r' | Some e \<Rightarrow> Crashed e r')"
  using assms
proof (induction cs arbitrary: r answers)
  case Nil
  then have "died = None" "r' = r" by auto
  then show ?case using Nil(1) by simp
next
  case (Cons c cs)
  have loop: "\<not> loop_done r" "rn_accepting r" "rn_open r" using Cons.prems(1) by (simp_all add: serving_def loop_done_def)
  show ?case
  proof (cases "handle_accept h c (rn_service r)")
    case (Died e)
    then have "answers = []" "s = rn_service r" "died = Some e" "r' = r" using Cons.prems(2,3) by auto
    then show ?thesis using Cons.prems(1) Died loop by (simp add: on_accept_def)
  next
    case (Running s1 answer)
    let ?r1 = "r\<lparr>rn_service := s1, rn_accepting := True, rn_answers := rn_answers r @ [answer]\<rparr>"
    have accept: "on_accept h c r = Inr ?r1" using Running loop(3) by (simp add: on_accept_def)
    obtain answers1 where rest: "serve_in_turn h cs s1 = (answers1, s, died)" "answers = answer # answers1"
      using Cons.prems(2) Running by (auto split: prod.splits)
    have "r' = ?r1\<lparr>rn_service := s, rn_answers := rn_answers ?r1 @ answers1\<rparr>"
      using Cons.prems(3) rest(2) loop(2) by (cases r) simp
    with Cons.IH [OF serving_accept [OF Cons.prems(1) accept]] rest(1) show ?thesis using accept loop by simp
  qed
qed

lemma on_signal_last:
  assumes "serving h fs r"
  shows "io_run h [Signal, Accept Accept_Failed] r =
    Returned 0 (r\<lparr>rn_open := False, rn_accepting := False, rn_awaits_signal := False,
      rn_paths := rn_paths r - {''/tmp/viud/viud.sock''}, rn_answers := rn_answers r @ [None]\<rparr>)"
  using assms
  by (simp add: serving_def loop_done_def on_signal_def on_accept_def handle_accept_def socket_path_def runtime_dir_def)

text \<open>C13: The daemon serves every connection, in turn, until a signal comes or a request ends it. After any
  connections it waits for the next, with the tables that executing their requests one after the other
  gives, and each has been written its answer; when a request ends it, it is that request and not an
  earlier one. A signal closes the acceptor; when the accept that waited has been completed with an error,
  \<open>run\<close> returns 0 with the tables as they were and the file of the socket removed, and the program
  started again is a daemon again.\<close>

theorem daemon_serves_until_signal:
  assumes "service_run fs paths = Inr r" "serve_in_turn h cs (service_init fs) = (answers, s, died)" "length args < 2"
    and "r' = r\<lparr>rn_service := s, rn_answers := answers\<rparr>"
  shows "daemon_reachable h fs s \<and>
    (case died of
       Some e \<Rightarrow> io_run h (map Accept cs @ evs) r = Crashed e r'
     | None \<Rightarrow> length answers = length cs \<and> io_run h (map Accept cs) r = Waiting r' \<and>
         (\<exists>r2. io_run h (map Accept cs @ [Signal, Accept Accept_Failed]) r = Returned 0 r2 \<and> rn_service r2 = s \<and>
            rn_paths r2 = rn_paths r - {''/tmp/viud/viud.sock''} \<and>
            (\<exists>r3. viu_main daemon unarchive fs args (rn_paths r2) = (Serves r3, rn_paths r))))"
proof -
  have r: "serving h fs r" "rn_service r = service_init fs" "rn_answers r = []"
    using serving_start [OF assms(1)] assms(1) by (auto simp: service_run_def socket_path_def runtime_dir_def split: if_splits)
  have serve: "serve_in_turn h cs (rn_service r) = (answers, s, died)" using assms(2) r(2) by simp
  have r': "r' = r\<lparr>rn_service := s, rn_answers := rn_answers r @ answers\<rparr>" using assms(4) r(3) by simp
  have run: "serving h fs r'" "\<And>evs. io_run h (map Accept cs @ evs) r = (case died of None \<Rightarrow> io_run h evs r' | Some e \<Rightarrow> Crashed e r')"
    using io_run_serving [OF r(1) serve r'] by blast+
  let ?r2 = "r'\<lparr>rn_open := False, rn_accepting := False, rn_awaits_signal := False,
      rn_paths := rn_paths r' - {''/tmp/viud/viud.sock''}, rn_answers := rn_answers r' @ [None]\<rparr>"
  have "rn_paths r - {''/tmp/viud/viud.sock''} \<union> {''/tmp'', ''/tmp/viud''} = rn_paths r - {''/tmp/viud/viud.sock''}"
    "insert ''/tmp/viud/viud.sock'' (rn_paths r - {''/tmp/viud/viud.sock''}) = rn_paths r"
    using r(1) by (auto simp: serving_def)
  then have again: "\<exists>r3. viu_main daemon unarchive fs args (rn_paths ?r2) = (Serves r3, rn_paths r)"
    using assms(3) by (simp add: assms(4) viu_main_def is_service_start_eq service_run_def socket_path_def runtime_dir_def)
  have "daemon_reachable h fs s" using run(1) by (simp add: serving_def assms(4))
  moreover have "length answers = length cs" if "died = None"
    using serve_in_turn_answers assms(2) that by blast
  ultimately show ?thesis
    using run(2) [of evs] run(2) [of "[]"] run(2) [of "[Signal, Accept Accept_Failed]"] loop_done_serving [OF run(1)]
      on_signal_last [OF run(1)] again
    by (cases died) (auto simp: assms(4) simp del: io_run.simps(2,3))
qed

lemma daemon_serves_until_signal_witness:
  "\<exists>r r2. service_run (\<lambda>_. None) {} = Inr r \<and>
    io_run example_host [Accept Accept_Failed, Signal, Accept Accept_Failed] r = Returned 0 r2 \<and>
    rn_paths r2 = {''/tmp'', ''/tmp/viud''}"
proof -
  obtain r :: "(nat, nat) running" where r: "service_run (\<lambda>_. None) {} = Inr r" "rn_paths r = {''/tmp'', ''/tmp/viud'', ''/tmp/viud/viud.sock''}"
    by (auto simp: service_run_def socket_path_def runtime_dir_def)
  have serve: "serve_in_turn example_host [Accept_Failed] (service_init (\<lambda>_. None)) = ([None], service_init (\<lambda>_. None), None)"
    by (simp add: handle_accept_def)
  have "length [[0x76 :: u8]] < 2" by simp
  from daemon_serves_until_signal [OF r(1) serve this refl, where daemon = None and unarchive = "\<lambda>_. Inl Invalid_Argument"]
  obtain r2 where "io_run example_host ([Accept Accept_Failed] @ [Signal, Accept Accept_Failed]) r = Returned 0 r2"
    "rn_paths r2 = rn_paths r - {''/tmp/viud/viud.sock''}"
    by (auto simp del: io_run.simps)
  then have "io_run example_host [Accept Accept_Failed, Signal, Accept Accept_Failed] r = Returned 0 r2"
    "rn_paths r2 = {''/tmp'', ''/tmp/viud''}"
    unfolding r(2) by (simp_all add: insert_Diff_if del: io_run.simps)
  then show ?thesis using r(1) by blast
qed

section \<open>After a crash\<close>

text \<open>C14: A request that ends the daemon ends the service for good. The file of the socket is left behind,
  and from then on every start of the program, with or without arguments and however often, takes
  the file for a running daemon: it is a client, its connection is refused, it exits with 1 and the
  file stays. Only removing the file by hand helps.\<close>

theorem crash_is_permanent:
  assumes "service_run fs paths = Inr r" "Signal \<notin> set evs" "io_run h evs r = Crashed e r'"
  shows "viu_main None unarchive fs' args (rn_paths r') = (Exits 1, rn_paths r')"
proof -
  obtain cs where cs: "evs = map Accept cs"
  proof -
    have "set evs \<subseteq> range Accept" using assms(2) by (metis rangeI run_event.exhaust subsetI)
    then show thesis using that by (metis (no_types) ex_map_conv subset_iff rangeE)
  qed
  obtain answers s died where "serve_in_turn h cs (rn_service r) = (answers, s, died)" by (rule prod_cases3)
  from io_run_serving [OF serving_start [OF assms(1)] this refl, of "[]"] have "serving h fs r'"
    using assms(3) cs by (cases died) (auto simp: serving_def loop_done_def)
  then have "''/tmp/viud/viud.sock'' \<in> rn_paths r'" "rn_paths r' \<union> {''/tmp'', ''/tmp/viud''} = rn_paths r'"
    by (auto simp: serving_def)
  then show ?thesis
    by (simp add: viu_main_def is_service_start_eq send_command_def socket_path_def runtime_dir_def)
qed

lemma crash_is_permanent_witness:
  "\<exists>r e r'. service_run (\<lambda>_. None) {} = Inr r \<and> io_run example_host [Accept (Connected [5])] r = Crashed e r' \<and>
    (viu_main None (\<lambda>_. Inl Invalid_Argument) (\<lambda>_. None) [[0x76]] (rn_paths r') :: (nat, nat) running started \<times> _) =
      (Exits 1, rn_paths r')"
proof -
  obtain r :: "(nat, nat) running" where r: "service_run (\<lambda>_. None) {} = Inr r"
    by (auto simp: service_run_def socket_path_def runtime_dir_def)
  then have crash: "io_run example_host [Accept (Connected [5])] r = Crashed (Runtime_Error ''End of file'') r"
    using early_disconnect_kills [of "[5]" example_host "rn_service r"]
    by (auto simp: service_run_def socket_path_def runtime_dir_def loop_done_def on_accept_def)
  have "Signal \<notin> set [Accept (Connected [5])]" by simp
  from crash_is_permanent [OF r this crash] r crash show ?thesis by blast
qed

end
