(* ===== verification/Proxy_Thread.thy ===== *)
theory Proxy_Thread
  imports Whole_System
begin

text \<open>
  The device thread of \<open>proxy\<close> (src/usb_device_proxy_impl.cpp) beside the threads of the engine: it
  attaches the device, starts the thread that handles libusb's events, sleeps until the destructor asks
  it to stop, cancels the transfers and joins the event thread. Two submissions of the engine do not
  overlap with each other, and one is a single step here; Pending_Map has what can happen inside.
  An exception of attach or a failed assertion of any thread ends the process: the steps are those of a
  process that goes on.
\<close>

section \<open>The thread\<close>

datatype device_phase = Attaching | Sleeping | Cancelling | Draining | Clearing | Joining | Finished

record ('q, 'l) device_thread =
  dt_proxy :: "('q, 'l) proxy"
  dt_driver :: driver
  dt_phase :: device_phase
  dt_stop_requested :: bool
  dt_stop :: bool
  dt_events :: bool

definition device_thread_start :: "('q, 'l) running_proxy \<Rightarrow> ('q, 'l) device_thread" where
  "device_thread_start x = \<lparr>dt_proxy = fst x, dt_driver = snd x, dt_phase = Attaching,
     dt_stop_requested = False, dt_stop = False, dt_events = False\<rparr>"

text \<open>\<open>libusb\<close> is what \<open>libusb_handle_events_timeout_completed\<close> returns; a mock only sleeps.\<close>

definition handle_events :: "int \<Rightarrow> ('q, 'l, 'cb) device \<Rightarrow> int" where
  "handle_events libusb d = (if dv_mock_class d then LIBUSB_SUCCESS else libusb)"

definition usb_event_handler :: "int \<Rightarrow> ('q, 'l) device_thread \<Rightarrow> ('q, 'l) device_thread res" where
  "usb_event_handler libusb s =
     (if dt_stop s then Inr (s\<lparr>dt_events := False\<rparr>)
      else bindR (viu_assert (handle_events libusb (dev (dt_proxy s)) = LIBUSB_SUCCESS)) (\<lambda>_. Inr s))"

text \<open>What the threads of the engine, the plugin and the host do.\<close>

inductive engine_moves :: "'l libusb \<Rightarrow> ('q, 'l) proxy \<Rightarrow> ('q, 'l) proxy \<Rightarrow> bool" for L :: "'l libusb" where
  moves_receive: "engine_moves L e (e\<lparr>socket_in := socket_in e @ bs\<rparr>)"
| moves_produce: "command_produce e = Some (Inr e') \<Longrightarrow> engine_moves L e e'"
| moves_execute: "allocator_fresh L (dev e) \<Longrightarrow> execute_command (proxy_handlers L) e = Some (Inr e') \<Longrightarrow> engine_moves L e e'"
| moves_reply: "reply_consume e = Some (Inr e') \<Longrightarrow> engine_moves L e e'"
| moves_send: "send_data_to_host i e = Some (Inr e') \<Longrightarrow> engine_moves L e e'"
| moves_plugin: "pm_heap (dv_pending (dev e)) tid \<noteq> None \<Longrightarrow> plugin_completes tid t e = Inr e' \<Longrightarrow> engine_moves L e e'"

text \<open>\<open>handle_events\<close> runs the completions of a real device; the last two are the destructor of the proxy
  and the event thread.\<close>

inductive device_step ::
  "'l libusb \<Rightarrow> sysfs \<Rightarrow> ('q, 'l) device_thread \<Rightarrow> ('q, 'l) device_thread \<Rightarrow> bool"
  for L :: "'l libusb" and S :: sysfs where
  dt_attach: "dt_phase s = Attaching \<Longrightarrow> proxy_attach S errno fd (dt_proxy s, dt_driver s) = Some (Inr w) \<Longrightarrow>
    device_step L S s (s\<lparr>dt_driver := w, dt_events := True, dt_phase := Sleeping\<rparr>)"
| dt_wake: "dt_phase s = Sleeping \<Longrightarrow> dt_stop_requested s \<Longrightarrow> device_step L S s (s\<lparr>dt_phase := Cancelling\<rparr>)"
| dt_sweep: "dt_phase s = Cancelling \<Longrightarrow> proxy_cancel_begin (dt_proxy s) = Inr e \<Longrightarrow>
    device_step L S s (s\<lparr>dt_proxy := e, dt_phase := Draining\<rparr>)"
| dt_wait: "dt_phase s = Draining \<Longrightarrow> proxy_cancel_wait (dt_proxy s) = Some e \<Longrightarrow>
    device_step L S s (s\<lparr>dt_proxy := e, dt_phase := Clearing\<rparr>)"
| dt_clear: "dt_phase s = Clearing \<Longrightarrow>
    device_step L S s (s\<lparr>dt_proxy := proxy_cancel_end (dt_proxy s), dt_stop := True, dt_phase := Joining\<rparr>)"
| dt_join: "dt_phase s = Joining \<Longrightarrow> \<not> dt_events s \<Longrightarrow> device_step L S s (s\<lparr>dt_phase := Finished\<rparr>)"
| dt_engine: "engine_moves L (dt_proxy s) e \<Longrightarrow> device_step L S s (s\<lparr>dt_proxy := e\<rparr>)"
| dt_completes: "dt_events s \<Longrightarrow> \<not> dv_mock_class (dev (dt_proxy s)) \<Longrightarrow>
    pm_heap (dv_pending (dev (dt_proxy s))) tid \<noteq> None \<Longrightarrow> libusb_completes tid t (dt_proxy s) = Inr e \<Longrightarrow>
    device_step L S s (s\<lparr>dt_proxy := e\<rparr>)"
| dt_request_stop: "device_step L S s (s\<lparr>dt_stop_requested := True\<rparr>)"
| dt_event_round: "dt_events s \<Longrightarrow> usb_event_handler libusb s = Inr s' \<Longrightarrow> device_step L S s s'"

inductive device_thread_reachable ::
  "'l libusb \<Rightarrow> sysfs \<Rightarrow> ('q, 'l) device_thread \<Rightarrow> bool" for L :: "'l libusb" and S :: sysfs where
  thread_started: "dv_pending d = pm_init \<Longrightarrow> device_thread_reachable L S (device_thread_start (engine_init d, w))"
| thread_next: "device_thread_reachable L S s \<Longrightarrow> device_step L S s s' \<Longrightarrow> device_thread_reachable L S s'"

section \<open>What stays true\<close>

text \<open>The event thread runs exactly between attaching and its own end after \<open>stop\<close>.\<close>

definition thread_inv :: "('q, 'l) device_thread \<Rightarrow> bool" where
  "thread_inv s \<longleftrightarrow> engine_inv (dt_proxy s) \<and> pm_inv (dv_pending (dev (dt_proxy s))) \<and>
     (dt_stop s \<longleftrightarrow> dt_phase s \<in> {Joining, Finished}) \<and>
     (dt_phase s \<in> {Sleeping, Cancelling, Draining, Clearing} \<longrightarrow> dt_events s) \<and>
     (dt_phase s \<in> {Attaching, Finished} \<longrightarrow> \<not> dt_events s) \<and>
     (dt_phase s \<notin> {Attaching, Sleeping} \<longrightarrow> dt_stop_requested s)"

lemma engine_moves_step: "engine_moves L e e' \<Longrightarrow> proxy_step L e e'"
  by (induction rule: engine_moves.induct) (auto intro: proxy_step.intros)

lemma device_step_inv:
  assumes "device_step L S s s'" "thread_inv s"
  shows "thread_inv s'"
  using assms(1)
proof cases
  case (dt_sweep e)
  then show ?thesis using assms(2) proxy_cancel_inv [of "dt_proxy s" e] by (auto simp: thread_inv_def)
next
  case (dt_wait e)
  then show ?thesis using assms(2) proxy_cancel_rest_inv(1) [of "dt_proxy s" e] by (auto simp: thread_inv_def)
next
  case dt_clear
  then show ?thesis using assms(2) proxy_cancel_rest_inv(2) [of "dt_proxy s"] by (auto simp: thread_inv_def)
next
  case (dt_engine e)
  then show ?thesis using assms(2) proxy_step_inv [OF engine_moves_step] by (auto simp: thread_inv_def)
next
  case (dt_completes tid t e)
  then show ?thesis using assms(2) completes_inv [of "dt_proxy s" tid t e] by (auto simp: thread_inv_def)
next
  case (dt_event_round libusb)
  then show ?thesis using assms(2) by (auto simp: thread_inv_def usb_event_handler_def bindR_Inr_iff split: if_splits)
qed (use assms(2) in \<open>auto simp: thread_inv_def\<close>)

lemma device_thread_inv: "device_thread_reachable L S s \<Longrightarrow> thread_inv s"
proof (induction rule: device_thread_reachable.induct)
  case (thread_started d w)
  then show ?case
    using pm_inv_init engine_inv_init [of d] by (simp add: thread_inv_def device_thread_start_def) (simp add: engine_init_def)
next
  case (thread_next s s')
  then show ?case by (blast intro: device_step_inv)
qed

section \<open>Stopping\<close>

text \<open>A transfer that libusb returns as cancelled: a plugin sees it first and may not make it another.\<close>

definition passes_cancelled :: "('q, 'l, 'cb) device \<Rightarrow> bool" where
  "passes_cancelled d \<longleftrightarrow> (\<forall>m f tid t p. dv_mock_iface d = Some m \<longrightarrow> on_transfer_complete m = Some f \<longrightarrow>
     t_status t = Cancelled \<longrightarrow> t_status (fst (f tid t p)) = Cancelled)"

lemma cancelled_completes:
  fixes e :: "('q, 'l) proxy"
  assumes "pm_inv (dv_pending (dev e))" "passes_cancelled (dev e)" "t_status t = Cancelled"
    and "om_find (pm_pending (dv_pending (dev e))) tid \<noteq> None"
  shows "\<exists>d. libusb_completes tid t e = Inr (e\<lparr>dev := d\<rparr>) \<and> dv_mock_class d = dv_mock_class (dev e) \<and>
    dv_mock_iface d = dv_mock_iface (dev e) \<and> pm_inv (dv_pending d) \<and>
    pm_pending (dv_pending d) = om_erase tid (pm_pending (dv_pending (dev e)))"
proof -
  let ?d = "put_transfer tid t (dev e)"
  have pend: "pm_pending (dv_pending ?d) = pm_pending (dv_pending (dev e))" by (simp add: put_transfer_def)
  have inv: "pm_inv (dv_pending ?d)"
    by (rule pm_inv_put_transfer [OF assms(1) pm_inv_live [OF assms(1,4)]])
  obtain t' p where t': "t_status t' = Cancelled" and run: "device_on_transfer_completed tid ?d =
      bindR (on_transfer_completed_impl tid (dv_pending (put_transfer tid t' ((dev e)\<lparr>dv_plugin := p\<rparr>))))
        (\<lambda>w. Inr ([], (put_transfer tid t' ((dev e)\<lparr>dv_plugin := p\<rparr>))\<lparr>dv_pending := w\<rparr>))"
  proof (cases "dv_mock_iface (dev e) = None \<or> (\<exists>m. dv_mock_iface (dev e) = Some m \<and> on_transfer_complete m = None)")
    case True
    then have "device_on_transfer_completed tid ?d =
        bindR (on_transfer_completed_impl tid (dv_pending ?d)) (\<lambda>w. Inr ([], ?d\<lparr>dv_pending := w\<rparr>))"
      using assms(3) by (auto simp: device_on_transfer_completed_def put_transfer_def Let_def)
    then show thesis using that [of t "dv_plugin (dev e)"] assms(3) by simp
  next
    case False
    then obtain m f where f: "dv_mock_iface (dev e) = Some m" "on_transfer_complete m = Some f" by auto
    obtain t' b p where r: "f tid t (dv_plugin (dev e)) = (t', b, p)" using prod_cases3 by blast
    have "t_status (fst (f tid t (dv_plugin (dev e)))) = Cancelled"
      using assms(2,3) f unfolding passes_cancelled_def by blast
    then have "t_status t' = Cancelled" by (simp add: r)
    then show thesis using that [of t' p] f r
      by (simp add: device_on_transfer_completed_def put_transfer_def)
  qed
  let ?d' = "put_transfer tid t' ((dev e)\<lparr>dv_plugin := p\<rparr>)"
  have live: "pm_heap (dv_pending ((dev e)\<lparr>dv_plugin := p\<rparr>)) tid \<noteq> None" using pm_inv_live [OF assms(1,4)] by simp
  have inv': "pm_inv (dv_pending ?d')" using pm_inv_put_transfer [OF _ live, of t'] assms(1) by simp
  have "om_find (pm_pending (dv_pending ?d')) tid \<noteq> None" using assms(4) by (simp add: put_transfer_def)
  from completed_pending [OF inv' this] obtain w where w: "on_transfer_completed_impl tid (dv_pending ?d') = Inr w"
    "pm_pending w = om_erase tid (pm_pending (dv_pending ?d'))" by blast
  have "libusb_completes tid t e = Inr (e\<lparr>dev := ?d'\<lparr>dv_pending := w\<rparr>\<rparr>)"
    unfolding libusb_completes_def on_dev_def run w(1) by (simp add: run_callbacks_def)
  then show ?thesis using w(2) pm_inv_completed [OF inv' w(1)]
    by (intro exI [of _ "?d'\<lparr>dv_pending := w\<rparr>"]) (simp add: put_transfer_def)
qed

lemma drain:
  assumes "pm_inv (dv_pending (dev (dt_proxy s)))" "passes_cancelled (dev (dt_proxy s))" "dt_events s"
    and "dv_mock_class (dev (dt_proxy s)) \<Longrightarrow> pm_pending (dv_pending (dev (dt_proxy s))) = []"
  shows "\<exists>d. (device_step L S)\<^sup>*\<^sup>* s (s\<lparr>dt_proxy := (dt_proxy s)\<lparr>dev := d\<rparr>\<rparr>) \<and> pm_pending (dv_pending d) = []"
  using assms
proof (induction "length (pm_pending (dv_pending (dev (dt_proxy s))))" arbitrary: s)
  case 0
  then show ?case by (intro exI [of _ "dev (dt_proxy s)"]) simp
next
  case (Suc n)
  let ?w = "dv_pending (dev (dt_proxy s))"
  obtain tid cb ps where ps: "pm_pending ?w = (tid, cb) # ps" using Suc.hyps(2) by (cases "pm_pending ?w") auto
  then have pending: "om_find (pm_pending ?w) tid \<noteq> None" by (simp add: om_find_def)
  obtain t where t: "pm_heap ?w tid = Some t" using pm_inv_live [OF Suc.prems(1) pending] by blast
  have real: "\<not> dv_mock_class (dev (dt_proxy s))" using Suc.prems(4) ps by auto
  from cancelled_completes [OF Suc.prems(1,2) _ pending, of "t\<lparr>t_status := Cancelled\<rparr>"]
  obtain d where d: "libusb_completes tid (t\<lparr>t_status := Cancelled\<rparr>) (dt_proxy s) = Inr ((dt_proxy s)\<lparr>dev := d\<rparr>)"
    "dv_mock_class d = dv_mock_class (dev (dt_proxy s))" "dv_mock_iface d = dv_mock_iface (dev (dt_proxy s))"
    "pm_inv (dv_pending d)" "pm_pending (dv_pending d) = om_erase tid (pm_pending ?w)" by auto
  let ?s = "s\<lparr>dt_proxy := (dt_proxy s)\<lparr>dev := d\<rparr>\<rparr>"
  have step: "device_step L S s ?s" using dt_completes [OF Suc.prems(3) real _ d(1)] t by simp
  have "om_inv (pm_pending ?w)" using Suc.prems(1) by (simp add: pm_inv_def)
  then have "om_erase tid (pm_pending ?w) = ps" unfolding ps by (auto simp: om_inv_Cons om_erase_filter intro!: filter_True)
  then have "n = length (pm_pending (dv_pending (dev (dt_proxy ?s))))" using Suc.hyps(2) d(5) ps by simp
  moreover have "passes_cancelled d" using Suc.prems(2) d(3) by (simp add: passes_cancelled_def)
  ultimately obtain d' where "(device_step L S)\<^sup>*\<^sup>* ?s (?s\<lparr>dt_proxy := (dt_proxy ?s)\<lparr>dev := d'\<rparr>\<rparr>)" "pm_pending (dv_pending d') = []"
    using Suc.hyps(1) [of ?s] Suc.prems(3) real d(2,4) by auto
  then show ?case using converse_rtranclp_into_rtranclp [where r = "device_step L S", OF step] by (intro exI [of _ d']) simp
qed

text \<open>C15: The destructor of a proxy comes back. When it asks the device thread to stop, the sweep of
  \<open>cancel\<close> does not fail, and once libusb has returned what it was asked to cancel, the thread sees the map
  empty, stops the event thread, joins it and ends, with nothing in flight and the commands of the host
  as they were. From then on no completion of libusb can run, whatever the other threads do.\<close>

theorem device_thread_stops:
  assumes "device_thread_reachable L S s" "dt_phase s = Sleeping" "dt_stop_requested s" "passes_cancelled (dev (dt_proxy s))"
    and "\<And>tid. om_find (pm_pending (dv_pending (dev (dt_proxy s)))) tid \<noteq> None \<Longrightarrow>
      dv_mock_class (dev (dt_proxy s)) \<longleftrightarrow> mock_at (dv_pending (dev (dt_proxy s))) tid"
  shows "(\<exists>d s'. (device_step L S)\<^sup>*\<^sup>* s s' \<and> dt_phase s' = Finished \<and> dt_proxy s' = (dt_proxy s)\<lparr>dev := d\<rparr> \<and>
      pm_pending (dv_pending d) = []) \<and>
    (\<forall>s' s''. (device_step L S)\<^sup>*\<^sup>* s s' \<longrightarrow> dt_phase s' = Finished \<longrightarrow> (device_step L S)\<^sup>*\<^sup>* s' s'' \<longrightarrow>
      dt_phase s'' = Finished \<and> \<not> dt_events s'')"
proof
  let ?d = "dev (dt_proxy s)"
  have inv: "thread_inv s" by (rule device_thread_inv [OF assms(1)])
  then have pm: "pm_inv (dv_pending ?d)" and events: "dt_events s" using assms(2) by (auto simp: thread_inv_def)
  from cancel_begin_spec [OF pm] obtain w1 where w1: "cancel_begin (dv_pending ?d) = Inr w1"
    "pm_pending w1 = filter (\<lambda>e. \<not> mock_at (dv_pending ?d) (fst e)) (pm_pending (dv_pending ?d))" by blast
  let ?e1 = "(dt_proxy s)\<lparr>dev := ?d\<lparr>dv_pending := w1\<rparr>\<rparr>"
  let ?s1 = "s\<lparr>dt_phase := Cancelling\<rparr>" and ?s2 = "s\<lparr>dt_proxy := ?e1, dt_phase := Draining\<rparr>"
  have step1: "device_step L S s ?s1" by (rule dt_wake [OF assms(2,3)])
  have step2: "device_step L S ?s1 ?s2"
    using dt_sweep [of ?s1 ?e1] w1(1) by (simp add: proxy_cancel_begin_def on_dev_def)
  have pm1: "pm_inv w1" by (rule pm_step_inv [OF step_cancel_begin [OF w1(1)] pm])
  have none: "pm_pending w1 = []" if "dv_mock_class ?d"
  proof -
    have "mock_at (dv_pending ?d) (fst x)" if "x \<in> set (pm_pending (dv_pending ?d))" for x
      using assms(5) [of "fst x"] \<open>dv_mock_class ?d\<close> that by (auto simp: om_find_None_iff)
    then show ?thesis by (simp add: w1(2))
  qed
  have "passes_cancelled (?d\<lparr>dv_pending := w1\<rparr>)" using assms(4) by (simp add: passes_cancelled_def)
  with drain [of ?s2 L S] pm1 none events obtain d where d: "(device_step L S)\<^sup>*\<^sup>* ?s2 (?s2\<lparr>dt_proxy := ?e1\<lparr>dev := d\<rparr>\<rparr>)"
    "pm_pending (dv_pending d) = []" by auto
  let ?w = "(dv_pending d)\<lparr>pm_waited := True\<rparr>" and ?c = "d\<lparr>dv_pending := cancel_end ((dv_pending d)\<lparr>pm_waited := True\<rparr>)\<rparr>"
  let ?s3 = "?s2\<lparr>dt_proxy := ?e1\<lparr>dev := d\<rparr>\<rparr>"
  let ?s4 = "s\<lparr>dt_proxy := (dt_proxy s)\<lparr>dev := d\<lparr>dv_pending := ?w\<rparr>\<rparr>, dt_phase := Clearing\<rparr>"
  let ?s5 = "s\<lparr>dt_proxy := (dt_proxy s)\<lparr>dev := ?c\<rparr>, dt_stop := True, dt_phase := Joining\<rparr>"
  have step4: "device_step L S ?s3 ?s4"
    using dt_wait [of ?s3] d(2) by (simp add: proxy_cancel_wait_def cancel_wait_def)
  have step5: "device_step L S ?s4 ?s5" using dt_clear [of ?s4] by (simp add: proxy_cancel_end_def)
  have step6: "device_step L S ?s5 (?s5\<lparr>dt_events := False\<rparr>)"
    using dt_event_round [of ?s5 0] events by (simp add: usb_event_handler_def)
  have step7: "device_step L S (?s5\<lparr>dt_events := False\<rparr>) (?s5\<lparr>dt_events := False, dt_phase := Finished\<rparr>)"
    using dt_join [of "?s5\<lparr>dt_events := False\<rparr>"] by simp
  have "(device_step L S)\<^sup>*\<^sup>* s (?s5\<lparr>dt_events := False, dt_phase := Finished\<rparr>)"
    using step1 step2 d(1) step4 step5 step6 step7 by (meson converse_rtranclp_into_rtranclp rtranclp_trans r_into_rtranclp)
  moreover have "pm_pending (dv_pending ?c) = []" by (simp add: cancel_end_def)
  ultimately show "\<exists>d s'. (device_step L S)\<^sup>*\<^sup>* s s' \<and> dt_phase s' = Finished \<and> dt_proxy s' = (dt_proxy s)\<lparr>dev := d\<rparr> \<and>
      pm_pending (dv_pending d) = []"
    by (intro exI [of _ ?c] exI [of _ "?s5\<lparr>dt_events := False, dt_phase := Finished\<rparr>"]) simp
next
  have stays: "dt_phase s'' = Finished \<and> thread_inv s''" if "dt_phase s' = Finished" "thread_inv s'" "(device_step L S)\<^sup>*\<^sup>* s' s''" for s' s''
    using that(3,1,2)
  proof (induction rule: rtranclp_induct)
    case (step a b)
    then have a: "dt_phase a = Finished" "thread_inv a" by simp_all
    from step.hyps(2) a(1) have "dt_phase b = Finished" by cases (auto simp: usb_event_handler_def bindR_Inr_iff split: if_splits)
    then show ?case using device_step_inv [OF step.hyps(2) a(2)] by simp
  qed simp
  have "thread_inv s'" if "(device_step L S)\<^sup>*\<^sup>* s s'" for s'
    using that device_thread_inv [OF assms(1)] by (induction rule: rtranclp_induct) (auto intro: device_step_inv)
  then show "\<forall>s' s''. (device_step L S)\<^sup>*\<^sup>* s s' \<longrightarrow> dt_phase s' = Finished \<longrightarrow> (device_step L S)\<^sup>*\<^sup>* s' s'' \<longrightarrow>
      dt_phase s'' = Finished \<and> \<not> dt_events s''"
    using stays by (metis thread_inv_def insertCI)
qed

lemma high_speed_passes: "passes_cancelled high_speed_device"
  by (simp add: passes_cancelled_def high_speed_device_def mock_construct_def register_usb_mock_def mouse_plugin_def
      dispatch_transfer_complete_def pick_def empty_plugin_def)

lemma device_thread_stops_witness:
  "\<exists>(s :: (mouse, unit) device_thread) s'. device_thread_reachable example_libusb (kernel_sysfs free_ports) s \<and> dt_phase s = Sleeping \<and> dt_stop_requested s \<and>
    (device_step example_libusb (kernel_sysfs free_ports))\<^sup>*\<^sup>* s s' \<and> dt_phase s' = Finished \<and> \<not> dt_events s'"
proof -
  let ?S = "kernel_sysfs free_ports"
  obtain w where w: "construct_proxy example_environment high_speed_device = Inr (engine_init high_speed_device, w)"
    "get_free_port USB_SPEED_HIGH w = Some 0"
    by (rule high_speed_made)
  have path: "sy_syspath ?S = Some ''/sys/devices/platform/vhci_hcd.0''" by (simp add: kernel_sysfs_def)
  from proxy_attach_writes [OF w(1) high_speed_speed _ path, of 0 0 7] w(2)
  obtain w' where w': "proxy_attach ?S 0 7 (engine_init high_speed_device, w) = Some (Inr w')" by auto
  let ?start = "device_thread_start (engine_init high_speed_device, w)"
  let ?s1 = "?start\<lparr>dt_driver := w', dt_events := True, dt_phase := Sleeping\<rparr>"
  let ?s = "?s1\<lparr>dt_stop_requested := True\<rparr>"
  have r0: "device_thread_reachable example_libusb ?S ?start"
    by (rule thread_started) (simp add: high_speed_device_def mock_construct_def)
  have "device_step example_libusb ?S ?start ?s1"
    by (rule dt_attach [where errno = 0 and fd = 7]) (simp_all add: device_thread_start_def w')
  then have r1: "device_thread_reachable example_libusb ?S ?s1" by (rule thread_next [OF r0])
  have "device_step example_libusb ?S ?s1 ?s" by (rule dt_request_stop)
  with r1 have r: "device_thread_reachable example_libusb ?S ?s" by (rule thread_next)
  have dev: "dev (dt_proxy ?s) = high_speed_device" by (simp add: device_thread_start_def engine_init_def)
  have none: "om_find (pm_pending (dv_pending high_speed_device)) tid = None" for tid
    by (simp add: high_speed_device_def mock_construct_def pm_init_def om_find_def)
  obtain s' where s': "(device_step example_libusb ?S)\<^sup>*\<^sup>* ?s s'" "dt_phase s' = Finished"
    using device_thread_stops [OF r] high_speed_passes none unfolding dev by auto
  have "\<not> dt_events s'" using device_thread_stops [OF r] high_speed_passes none s' unfolding dev by auto
  then show ?thesis using r s' by (intro exI [of _ ?s] exI [of _ s']) simp
qed

end
