(* ===== verification/Spec2Isabelle.thy ===== *)
theory Spec2Isabelle
  imports Tree_Properties Cli_Model Engine_Properties Pending_Map Proxy_System Device_Properties Vhci_Properties
    Json_Properties Daemon_Properties Plugin_Properties Device_Path Plugin_System Usbip_Socket Engine_Threads
    Whole_System Daemon_Run Proxy_Thread
begin

text \<open>
  A verification development for viu (virtual USB): a daemon that presents USB devices to the Linux
  kernel through USB/IP. A device is a real one behind libusb (a proxy) or a plugin (a mock); paths
  below are relative to the repository.

  The parts and how they interact. The kernel's virtual host controller (vhci) talks USB/IP over a
  socket. \<open>viu::device::basic\<close> reads commands from it into a queue, executes them and writes replies;
  its threads share closable queues. \<open>viu::device::proxy\<close> gives the engine its four virtual functions
  on a \<open>viu::usb::device\<close>: control commands are answered from the device's descriptor tree or by a
  control transfer, IN and OUT commands become transfers in the device's \<open>pending_map\<close>, whose
  completion callbacks queue data or replies for the host. A plugin sees every transfer through a
  table of functions and completes it through a control handle. The client sends the daemon its
  arguments as a serialised \<open>argv\<close>; the daemon runs the sub-command they name on its tables of
  plugin catalogues and virtual devices and answers with a response. A mock gets its descriptors
  from a configuration file, the text a tree saves or a JSON document. Three plugins come with the
  program: a mouse, a recorder that watches a real device, and a playback of what it recorded.

  Which theory models what.
  \<^item> Prelude: machine types, results, bytes. \<open>'a res\<close> is \<open>exn + 'a\<close>: every exception, failed assertion
    and undefined read is an \<open>Inl\<close>.
  \<^item> Std_Map: \<open>std::map\<close> and \<open>std::set\<close> as ordered lists; \<open>insert\<close> keeps an existing entry. The
    locale \<open>ordered_container\<close> states the laws.
  \<^item> Format_Model (src/format.cppm), Text_Stream (src/io.cppm; locale \<open>streamable\<close>: what is written is
    read back), Vector_Plugin (src/vector.cppm).
  \<^item> Descriptors, Basic_Descriptor, Descriptor_Tree, Tree_Build, Tree_Properties (src/descriptors): the
    libusb descriptors and their member lists, the wrapped classes, building the tree from libusb's
    structures, packing it for the host, saving and loading it as text. The locales \<open>described_struct\<close>
    and \<open>descriptor_layer\<close> carry the proofs for every structure and every level of the tree.
  \<^item> Usbip_Command (src/vhci.cppm, src/vhci_impl.cpp): the 48-byte header, its union as bytes.
  \<^item> Transfer_Model, Pending_Map (src/transfer.cppm, src/transfer_impl.cpp): a transfer, the control
    handle, isochronous packets; the map of transfers in flight as a state machine.
  \<^item> Sync_Queue, Basic_Engine, Engine_Properties (src/usb_basic_impl.cpp): the queues and the thread
    bodies, each one step on the engine's state. The locale \<open>closable_fifo\<close> states what the engine
    needs of Boost's queue, the locale \<open>device_handlers\<close> what it needs of the virtual functions.
  \<^item> Usbip_Socket (src/usbip_socket.cppm, src/usbip_socket_impl.cpp): the pair of sockets, and the reader
    of the engine as two reads of it.
  \<^item> Engine_Threads (src/usb_basic_impl.cpp): the threads as loops, with what they do about an exception,
    \<open>start\<close>, and the destructor as a step relation in which the threads still run.
  \<^item> Mock_Abi (src/usb_mock_abi.h, src/usb_mock_abi.hpp): the plugin table and its dispatch.
  \<^item> Usb_Device, Device_Properties (src/usb.cppm, src/usb_impl.cpp): the device and its subclass mock.
  \<^item> Proxy_Model, Proxy_Properties, Proxy_System (src/usb_device_proxy_impl.cpp): the handlers, the
    interpretation of \<open>device_handlers\<close> on them, and all threads together as a step relation.
  \<^item> Device_Path: a command of the host on a real device, from the bytes on the socket through libusb to
    the bytes on the socket.
  \<^item> Vhci_Driver, Vhci_Grammar, Vhci_Properties (src/vhci.cppm, src/vhci_impl.cpp): ports, speeds, attach;
    the grammar of the kernel's status lines as the functions Boost.Spirit's combinators denote.
  \<^item> Cli_Model (src/cli): serialising and deserialising argv over an explicit storage.
  \<^item> Json_Model, Json_Properties (src/json, \<open>from_json\<close> in src/descriptors): the parser that turns a JSON
    document into the text a tree loads, keeping what it wrote before an exception. The locale
    \<open>json_number\<close> covers the two ways a number is written in a document.
  \<^item> Catalog_Model (src/error.cppm, src/plugin): errors, responses, catalogues, the loader, the manager.
  \<^item> Daemon_Model, Daemon_Properties (src/daemon, src/client): the service. A command is a function
    from the state to a result and a state (\<open>cmd\<close>), since an exception leaves the changes made
    before it. The environment is the record \<open>host\<close>. The locales \<open>command_frame\<close> and \<open>service_frame\<close>
    carry a relation between the states before and after from the primitive steps to all commands.
  \<^item> Mouse_Model (examples/mouse/mock.cpp), Record_Format, Recording_Model, Playback_Model,
    Plugin_Properties (examples/playback): the example plugins as instances of the plugin table.
  \<^item> Plugin_System: the proxy with a plugin that has a thread of its own. The locale \<open>deferring_plugin\<close>
    states what a plugin that queues transfers has to do; the mouse and the playback are instances.
  \<^item> Whole_System: the daemon with the constructors of the device, the proxy and the driver in place of
    the parameters of \<open>host\<close>; libusb, the kernel and the libraries remain parameters (\<open>environment\<close>).
  \<^item> Proxy_Thread (src/usb_device_proxy_impl.cpp): the device thread and the event thread of a proxy beside
    the threads of the engine, from attaching to the end of the destructor.
  \<^item> Daemon_Run (main.cpp, \<open>run\<close> in src/daemon/daemon_impl.cpp): the choice between daemon and client by the
    file of the socket, the loop of the daemon, signals, and what a crash leaves behind.

  What the groups of lemmas show. Save and load are inverse on every tree built from a device; the
  two packers agree; the decoder inverts the protocol's encoding and the replies are the protocol's
  bytes; each queue pairs commands with data in order; in every interleaving a transfer is in the map,
  or was freed once, or was thrown out by the last step of \<open>cancel\<close>; cancelling ends and frees what is in
  flight; every control command is answered once; a whole IN transfer
  from the command to the reply on a plugin, and IN and OUT transfers on a real device from the bytes
  the host sends to those it receives; the commands that wait are as many as the transfers a plugin
  holds and the data queued together; the destructors of the engine and of the proxy end, and what can
  go wrong in them; what becomes of a transfer that did not go well; the daemon serves each
  connection in turn until a signal and does not come back after a crash;
  the loops over interfaces and strings against
  their closed forms; when \<open>attach\<close> ends and what it makes of the kernel's status; argv survives its round trip and no payload makes the
  reader leave its bounds. A JSON document of a configuration loads as that configuration. In
  every state the daemon reaches its tables are well formed, an \<open>unplug\<close> takes out the device it
  names and nothing else does, a
  framed request is executed and answered; requests that are refused, that leave a trace or that end
  the daemon are characterised. A recording loads as it was made in every interleaving of
  callers and writer, the playback goes through it in turn with the waits its times ask for, and what a
  transfer or a control request recorded from a device becomes in front of the host is followed
  through both plugins. A
  client's \<open>mock\<close> is followed from the daemon's tables to the report the host reads.

  Decisions. The model is the build in which \<open>viu::_assert\<close> aborts. Third-party code is a parameter:
  \<open>boost::lexical_cast\<close> (\<open>cast\<close>, with a decimal instance), libusb (\<open>libusb\<close>), \<open>boost::json::parse\<close>, the
  options parser and the archive of Boost and the libraries a path names (\<open>host\<close>), systemd's device (\<open>sysfs\<close>), Boost's queue and the plugins of others.
  The host is little endian, memory does not run out. A transfer is known by its address; libusb hands
  out addresses not in use (\<open>allocator_fresh\<close>). The members of libusb structures that the wrapped
  classes copy but never read (pointers) are left out. Callbacks that a completion runs are returned
  as values and run right after the device's operation: they touch only the engine. A transfer thread
  takes command and data in one step, which no one can observe since it is their only reader. In
  Proxy_System the submission of a transfer is one step; Pending_Map has the finer interleavings,
  with libusb's call outside the lock. The daemon serves one connection at a time, as its one thread
  does; the identifiers it handed out are counted in a field of the model (\<open>issued\<close>) because its
  64-bit counter wraps. The regular expressions of the playback are matched in one pass, which is what
  they admit (Record_Format). A plugin's queue holds addresses of transfers: a handle of a transfer that
  was freed is undefined behaviour when it is used. A call of a pure virtual function is too. The wait between two records of the playback is its
  deadline in signed nanoseconds (\<open>playback_wait\<close>); a round is one whose wait came back. A plugin's handler
  can throw, which the dispatch stops; one that aborts the process is not in the model (Mock_Abi).

  Bounds. The interface loops count in a byte below \<open>bNumInterfaces\<close>: 256 rounds are enough
  (\<open>interface_loop_all\<close>). Strings are read at the indices 1 to 254: 255 rounds (\<open>strings_loop\<close>). \<open>attach\<close>
  may loop for ever and is a partial function, with its divergence characterised.

  The steps of the destructor: every step of a thread or of the joining loop makes \<open>closing_measure\<close> smaller.

  Not modelled: what Boost.Asio does beside moving bytes and dispatching one handler after the other (a write
  of the engine never waits), sleeping and the passing of time, the stop request of the plugins' threads,
  printing, source locations and stack traces of errors, the smart pointers that close the objects of
  libusb, unloading of plugin libraries, files that fail while they are written, tests and build files.
  These are calls of third-party code, diagnostics, or waiting. The re-exports of src/boost.cppm and the
  generated version have no behaviour of their own.
\<close>

end
